(* ===== verification/Prelude.thy ===== *)
theory Prelude
  imports "HOL-Library.Word"
begin

unbundle bit_operations_syntax

text \<open>
  Shared ground of the development: names for the fixed-width integers of the sources, the
  theorem collections the component theories feed, generic facts on lists, options, words and
  characters, the generic run of a state machine, and the contracts that several
  components share: \<open>guarded_system\<close> (a step function that keeps an invariant) and
  \<open>wire_codec\<close> (a serializer and a checked parser that agree).
\<close>

section \<open>Machine types and theorem collections\<close>

type_synonym u8 = "8 word"
type_synonym u16 = "16 word"
type_synonym u32 = "32 word"
type_synonym u64 = "64 word"
type_synonym bytes = "u8 list"

text \<open>
  \<^item> \<open>TimePoint\<close> and \<open>Duration\<close>: \<^verbatim>\<open>std::chrono\<close> ticks. The clock of the sources is a
    64-bit nanosecond counter that takes centuries to wrap, so ticks are unbounded integers.
\<close>

type_synonym TimePoint = int
type_synonym Duration = int

named_theorems wire_simps \<open>evaluation of reads from and writes into byte vectors\<close>
named_theorems codec_defs \<open>serializers and parsers with the constants they use\<close>
named_theorems table_defs \<open>operations of lookup tables\<close>
named_theorems asic_defs \<open>operations of the software ASIC and its parts\<close>

section \<open>Lists and options\<close>

text \<open>
  \<^verbatim>\<open>std::find_if\<close> over a vector: the position of the first element that satisfies the
  predicate, \<open>None\<close> for the end iterator.
\<close>

fun find_if :: "('a \<Rightarrow> bool) \<Rightarrow> 'a list \<Rightarrow> nat option" where
  "find_if P [] = None"
| "find_if P (x # xs) = (if P x then Some 0 else map_option Suc (find_if P xs))"

text \<open>\<^verbatim>\<open>std::copy(src.begin(), src.end(), dst.begin() + offset)\<close> for an in-range target.\<close>

definition copy_at :: "'a list \<Rightarrow> 'a list \<Rightarrow> nat \<Rightarrow> 'a list" where
  "copy_at src dst offset = take offset dst @ src @ drop (offset + length src) dst"

text \<open>\<^verbatim>\<open>vector.erase(iterator)\<close>: the element at a position is removed.\<close>

definition erase_at :: "nat \<Rightarrow> 'a list \<Rightarrow> 'a list" where
  "erase_at i xs = take i xs @ drop (Suc i) xs"

text \<open>A run of a machine over a sequence of events.\<close>

definition run :: "('s \<Rightarrow> 'e \<Rightarrow> 's) \<Rightarrow> 's \<Rightarrow> 'e list \<Rightarrow> 's" where
  "run step s es = foldl step s es"

lemma find_if_None_iff: "find_if P xs = None \<longleftrightarrow> (\<forall>x \<in> set xs. \<not> P x)"
  by (induction xs) auto

lemma find_if_SomeD:
  "find_if P xs = Some i \<Longrightarrow> i < length xs \<and> P (xs ! i) \<and> (\<forall>j < i. \<not> P (xs ! j))"
  by (induction xs arbitrary: i) (auto split: if_splits simp: nth_Cons split: nat.splits)

lemma find_if_map_nth:
  "map_option ((!) xs) (find_if P xs) = List.find P xs"
  by (induction xs) (auto simp: option.map_comp comp_def)

lemma length_copy_at [simp]:
  "offset + length src \<le> length dst \<Longrightarrow> length (copy_at src dst offset) = length dst"
  by (simp add: copy_at_def)

lemma replicate_numeral: "replicate (numeral k) x = x # replicate (pred_numeral k) x"
  by (simp add: numeral_eq_Suc)

lemma take_2_drop: "n + 2 \<le> length xs \<Longrightarrow> take 2 (drop n xs) = [xs ! n, xs ! Suc n]"
  by (simp add: numeral_2_eq_2 Cons_nth_drop_Suc [symmetric])

lemma run_Nil [simp]: "run step s [] = s"
  by (simp add: run_def)

lemma run_Cons [simp]: "run step s (e # es) = run step (step s e) es"
  by (simp add: run_def)

lemma run_append: "run step s (es @ fs) = run step (run step s es) fs"
  by (simp add: run_def)

lemma distinct_map_update:
  assumes "distinct (map f xs)" and "i < length xs" and "f y = f (xs ! i)"
  shows "distinct (map f (xs[i := y]))"
proof -
  have "map f (xs[i := y]) = map f xs"
    using assms(2,3) by (simp add: map_update list_update_same_conv)
  then show ?thesis using assms(1) by simp
qed

lemma distinct_erase_at: "distinct xs \<Longrightarrow> distinct (erase_at i xs)"
  by (auto simp: erase_at_def set_take_disj_set_drop_if_distinct)

section \<open>Masks and bits\<close>

text \<open>The masks of the sources keep the low bits.\<close>

lemma and_masks:
  "x AND 0x0F = take_bit 4 (x :: 'a::len word)"
  "x AND 0xFF = take_bit 8 (x :: 'a::len word)"
  "x AND 0x0FFF = take_bit 12 (x :: 'a::len word)"
  "x AND 0x1FFF = take_bit 13 (x :: 'a::len word)"
  "x AND 0xFFFF = take_bit 16 (x :: 'a::len word)"
  by (simp_all add: take_bit_eq_mask mask_eq_exp_minus_1)

lemma not_bit_beyond:
  "8 \<le> n \<Longrightarrow> \<not> bit (b :: u8) n" "16 \<le> n \<Longrightarrow> \<not> bit (h :: u16) n" "32 \<le> n \<Longrightarrow> \<not> bit (w :: u32) n"
  by (auto dest: bit_imp_le_length)

lemma unat_bounds:
  "unat (b :: u8) < 256" "unat (h :: u16) < 65536" "unat (w :: u32) < 4294967296"
proof -
  have "unat b < 2 ^ LENGTH(8)" "unat h < 2 ^ LENGTH(16)" "unat w < 2 ^ LENGTH(32)"
    by (rule unsigned_less)+
  then show "unat b < 256" "unat h < 65536" "unat w < 4294967296" by simp_all
qed

section \<open>Characters and bytes\<close>

text \<open>A \<^verbatim>\<open>char\<close> of a \<^verbatim>\<open>std::string\<close> and the byte it is stored as.\<close>

definition byte_of_char :: "char \<Rightarrow> u8" where
  "byte_of_char c = of_nat (of_char c)"

definition char_of_byte :: "u8 \<Rightarrow> char" where
  "char_of_byte b = char_of (unat b)"

lemma char_of_byte_of_char [simp]: "char_of_byte (byte_of_char c) = c"
proof -
  have "(of_char c :: nat) mod 256 = of_char c" by simp
  then show ?thesis
    by (simp add: char_of_byte_def byte_of_char_def unat_of_nat take_bit_eq_mod)
qed

lemma byte_of_char_of_byte [simp]: "byte_of_char (char_of_byte b) = b"
proof -
  have "unat b < 2 ^ LENGTH(8)" by (rule unsigned_less)
  then show ?thesis by (simp add: char_of_byte_def byte_of_char_def)
qed

section \<open>Shared contracts\<close>

text \<open>
  A state machine whose step keeps an invariant, for the events whose arguments are valid: the
  invariant holds after every run of such events. Each stateful component of the switch
  interprets it, or the special case where every event is valid, with its own operations.
\<close>

locale guarded_system =
  fixes step :: "'s \<Rightarrow> 'e \<Rightarrow> 's" and inv :: "'s \<Rightarrow> bool" and valid :: "'e \<Rightarrow> bool"
  assumes inv_valid_step: "inv s \<Longrightarrow> valid e \<Longrightarrow> inv (step s e)"
begin

lemma inv_valid_run: "inv s \<Longrightarrow> list_all valid es \<Longrightarrow> inv (run step s es)"
  by (induction es arbitrary: s) (auto intro: inv_valid_step)

lemma inv_valid_prefix: "inv s \<Longrightarrow> list_all valid es \<Longrightarrow> inv (run step s (take n es))"
  by (rule inv_valid_run) (auto simp: list_all_iff dest: in_set_takeD)

end

locale invariant_system =
  fixes step :: "'s \<Rightarrow> 'e \<Rightarrow> 's" and inv :: "'s \<Rightarrow> bool"
  assumes inv_step: "inv s \<Longrightarrow> inv (step s e)"

sublocale invariant_system \<subseteq> guarded: guarded_system step inv "\<lambda>_. True"
  by unfold_locales (rule inv_step)

context invariant_system
begin

lemma inv_run: "inv s \<Longrightarrow> inv (run step s es)"
  by (rule guarded.inv_valid_run) (simp_all add: list_all_iff)

end

text \<open>
  A wire format: a serializer, a checked parser and the well-formed values. The parser accepts
  every serialized well-formed value, yields only well-formed values, and what it accepts is
  the serialization of what it yields.
\<close>

locale wire_codec =
  fixes serialize :: "'a \<Rightarrow> bytes" and parse :: "bytes \<Rightarrow> 'a option" and wf :: "'a \<Rightarrow> bool"
  assumes parse_serialize: "wf x \<Longrightarrow> parse (serialize x) = Some x"
    and parse_wf: "parse bs = Some x \<Longrightarrow> wf x"
begin

lemma serialize_inj: "wf x \<Longrightarrow> wf y \<Longrightarrow> serialize x = serialize y \<Longrightarrow> x = y"
  by (metis option.inject parse_serialize)

lemma reparse: "parse bs = Some x \<Longrightarrow> parse (serialize x) = Some x"
  by (blast intro: parse_serialize parse_wf)

lemma parse_range: "{x. \<exists>bs. parse bs = Some x} = {x. wf x}"
  using parse_serialize parse_wf by blast

end

text \<open>A canonical format: no two byte strings parse to the same value.\<close>

locale canonical_codec = wire_codec +
  assumes serialize_parse: "parse bs = Some x \<Longrightarrow> serialize x = bs"
begin

lemma parse_inj: "parse bs = Some x \<Longrightarrow> parse cs = Some x \<Longrightarrow> bs = cs"
  using serialize_parse by blast

lemma parse_iff: "parse bs = Some x \<longleftrightarrow> wf x \<and> serialize x = bs"
  using parse_serialize parse_wf serialize_parse by blast

end

end
