(* ===== verification/Wire.thy ===== *)
theory Wire
  imports Prelude
begin

unbundle bit_operations_syntax

text \<open>
  The big-endian helpers of \<^verbatim>\<open>network/byte_order.hpp\<close> over the byte spans of
  \<^verbatim>\<open>network/byte_span.hpp\<close>. A span is the list of the bytes it covers. The templates are
  instantiated at the four unsigned widths; here the width is the type of the word, and
  \<open>sizeof\<close> is its length in bytes. A write returns whether it happened and the vector after it.
\<close>

section \<open>Reads and writes\<close>

definition sizeof :: "'a::len word itself \<Rightarrow> nat" where
  "sizeof _ = LENGTH('a) div 8"

definition read_big_endian :: "bytes \<Rightarrow> nat \<Rightarrow> 'a::len word option" where
  "read_big_endian bs offset =
     (if offset > length bs \<or> sizeof TYPE('a word) > length bs - offset then None
      else Some (fold (\<lambda>index value. push_bit 8 value OR ucast (bs ! (offset + index)))
                   [0..<sizeof TYPE('a word)] 0))"

definition write_big_endian :: "'a::len word \<Rightarrow> bytes \<Rightarrow> nat \<Rightarrow> bool \<times> bytes" where
  "write_big_endian value bs offset =
     (if offset > length bs \<or> sizeof TYPE('a word) > length bs - offset then (False, bs)
      else (True, fold (\<lambda>index out.
              out[offset + index := ucast (drop_bit ((sizeof TYPE('a word) - index - 1) * 8) value)])
             [0..<sizeof TYPE('a word)] bs))"

text \<open>A chain of writes joined by \<^verbatim>\<open>&&\<close>: a failed write stops the chain.\<close>

fun write_fields :: "(bytes \<Rightarrow> bool \<times> bytes) list \<Rightarrow> bytes \<Rightarrow> bool \<times> bytes" where
  "write_fields [] bs = (True, bs)"
| "write_fields (w # ws) bs = (let (wrote, bs') = w bs in if wrote then write_fields ws bs' else (False, bs'))"

text \<open>The bytes of an integer in network order, and the integer that a run of bytes denotes.\<close>

definition be_bytes :: "'a::len word \<Rightarrow> bytes" where
  "be_bytes v = map (\<lambda>i. ucast (drop_bit ((sizeof TYPE('a word) - i - 1) * 8) v))
     [0..<sizeof TYPE('a word)]"

definition be_value :: "bytes \<Rightarrow> 'a::len word" where
  "be_value bs = foldl (\<lambda>v b. push_bit 8 v OR ucast b) 0 bs"

text \<open>The widths that the sources allow: whole bytes.\<close>

definition whole_bytes :: "'a::len word itself \<Rightarrow> bool" where
  "whole_bytes _ \<longleftrightarrow> 8 dvd LENGTH('a)"

section \<open>The loops compute the byte run\<close>

lemma sizeof_widths [simp]:
  "sizeof TYPE(u8) = 1" "sizeof TYPE(u16) = 2" "sizeof TYPE(u32) = 4" "sizeof TYPE(u64) = 8"
  by (simp_all add: sizeof_def)

lemma whole_bytes_widths [simp]:
  "whole_bytes TYPE(u8)" "whole_bytes TYPE(u16)" "whole_bytes TYPE(u32)" "whole_bytes TYPE(u64)"
  by (simp_all add: whole_bytes_def)

lemma whole_bytes_length: "whole_bytes TYPE('a::len word) \<Longrightarrow> LENGTH('a) = 8 * sizeof TYPE('a word)"
  by (simp add: whole_bytes_def sizeof_def)

lemma length_be_bytes [simp]: "length (be_bytes (v :: 'a::len word)) = sizeof TYPE('a word)"
  by (simp add: be_bytes_def)

lemma fold_nth_eq_foldl:
  "o' + n \<le> length bs \<Longrightarrow>
   fold (\<lambda>i v. f v (bs ! (o' + i))) [0..<n] a = foldl f a (take n (drop o' bs))"
proof (induction n)
  case (Suc n)
  then have "take (Suc n) (drop o' bs) = take n (drop o' bs) @ [bs ! (o' + n)]"
    by (simp add: take_Suc_conv_app_nth)
  with Suc show ?case by simp
qed simp

lemma fold_update_eq_copy_at:
  "o' + n \<le> length bs \<Longrightarrow>
   fold (\<lambda>i out. out[o' + i := g i]) [0..<n] bs = copy_at (map g [0..<n]) bs o'"
proof (induction n)
  case (Suc n)
  then show ?case
    by (simp add: copy_at_def list_update_append min_def Cons_nth_drop_Suc [symmetric])
qed (simp add: copy_at_def)

lemma read_big_endian_eq:
  "(read_big_endian bs offset :: 'a::len word option) =
     (if offset + sizeof TYPE('a word) \<le> length bs
      then Some (be_value (take (sizeof TYPE('a word)) (drop offset bs))) else None)"
  using fold_nth_eq_foldl [where f = "\<lambda>v b. push_bit 8 v OR ucast b" and a = "0 :: 'a word"]
  by (auto simp: read_big_endian_def be_value_def)

lemma write_big_endian_eq:
  "write_big_endian (v :: 'a::len word) bs offset =
     (if offset + sizeof TYPE('a word) \<le> length bs then (True, copy_at (be_bytes v) bs offset)
      else (False, bs))"
  by (auto simp: write_big_endian_def be_bytes_def fold_update_eq_copy_at)

section \<open>Byte runs denote integers\<close>

lemma be_value_snoc: "be_value (bs @ [b]) = (push_bit 8 (be_value bs) OR ucast b :: 'a::len word)"
  by (simp add: be_value_def)

lemma bit_be_value_iff:
  "bit (be_value bs :: 'a::len word) i \<longleftrightarrow>
     i < LENGTH('a) \<and> i div 8 < length bs \<and> bit (bs ! (length bs - 1 - i div 8)) (i mod 8)"
proof (induction bs arbitrary: i rule: rev_induct)
  case (snoc b bs)
  show ?case
  proof (cases "i < 8")
    case True
    then show ?thesis
      by (auto simp: be_value_snoc bit_simps nth_append dest: bit_imp_le_length)
  next
    case False
    then obtain j where j: "i = j + 8" by (metis add.commute le_Suc_ex not_less)
    have "\<not> bit b i" using False by (auto dest: bit_imp_le_length)
    moreover have "(j + 8) div 8 = Suc (j div 8)" by simp
    ultimately show ?thesis
      by (auto simp: be_value_snoc bit_simps snoc.IH j nth_append dest: bit_imp_le_length)
  qed
qed (simp add: be_value_def)

lemma bit_nth_be_bytes_iff:
  "j < sizeof TYPE('a word) \<Longrightarrow>
   bit (be_bytes (v :: 'a::len word) ! j) i \<longleftrightarrow> i < 8 \<and> bit v ((sizeof TYPE('a word) - j - 1) * 8 + i)"
  by (auto simp: be_bytes_def bit_simps)

lemma be_value_be_bytes [simp]:
  assumes "whole_bytes TYPE('a::len word)"
  shows "be_value (be_bytes v) = (v :: 'a word)"
proof (rule bit_word_eqI)
  fix n assume n: "n < LENGTH('a)"
  let ?k = "sizeof TYPE('a word)"
  have d: "n div 8 < ?k"
    using n whole_bytes_length [OF assms] by (simp add: less_mult_imp_div_less mult.commute)
  then have "?k - (?k - 1 - n div 8) - 1 = n div 8" by simp
  moreover have "n div 8 * 8 + n mod 8 = n" by simp
  ultimately show "bit (be_value (be_bytes v) :: 'a word) n \<longleftrightarrow> bit v n"
    using n d by (simp add: bit_be_value_iff bit_nth_be_bytes_iff)
qed

lemma be_bytes_be_value:
  assumes "whole_bytes TYPE('a::len word)" and "length bs = sizeof TYPE('a word)"
  shows "be_bytes (be_value bs :: 'a word) = bs"
proof (rule nth_equalityI)
  fix j assume "j < length (be_bytes (be_value bs :: 'a word))"
  then have j: "j < sizeof TYPE('a word)" by simp
  show "be_bytes (be_value bs :: 'a word) ! j = bs ! j"
  proof (rule bit_word_eqI)
    fix i :: nat assume i: "i < LENGTH(8)"
    define m where "m = sizeof TYPE('a word) - j - 1"
    have q: "(m * 8 + i) div 8 = m" "(m * 8 + i) mod 8 = i" using i by simp_all
    have "m * 8 + i < LENGTH('a)" using i j whole_bytes_length [OF assms(1)] by (simp add: m_def)
    moreover have "length bs - 1 - m = j" "m < length bs" using j assms(2) by (simp_all add: m_def)
    ultimately show "bit (be_bytes (be_value bs :: 'a word) ! j) i \<longleftrightarrow> bit (bs ! j) i"
      using i by (simp only: bit_nth_be_bytes_iff [OF j] m_def [symmetric] bit_be_value_iff q) simp
  qed
qed (simp add: assms)

lemma be_value_eq_iff:
  assumes "whole_bytes TYPE('a::len word)" and "length bs = sizeof TYPE('a word)"
  shows "be_value bs = (v :: 'a word) \<longleftrightarrow> bs = be_bytes v"
  using assms be_bytes_be_value by fastforce

section \<open>Rules for the component proofs\<close>

lemma be_bytes_u8 [simp]: "be_bytes (v :: u8) = [v]"
  by (simp add: be_bytes_def)

lemma be_bytes_u16: "be_bytes (v :: u16) = [ucast (drop_bit 8 v), ucast v]"
  by (simp add: be_bytes_def upt_rec)

lemma be_value_u8 [simp]: "be_value [b] = (b :: u8)"
  by (simp add: be_value_def)

lemmas [wire_simps] = write_big_endian_eq copy_at_def

text \<open>A byte string is cut where the parser reads it.\<close>

lemma cut: "drop n xs = take k (drop n xs) @ drop (n + k) xs"
  by (metis add.commute append_take_drop_id drop_drop)

text \<open>
  A header is read back field by field: the parser's reads see the byte runs that the
  serializer concatenated.
\<close>

lemma read_be_bytes_at:
  assumes "whole_bytes TYPE('a::len word)"
    and "take (sizeof TYPE('a word)) (drop offset bs) = be_bytes (v :: 'a word)"
  shows "read_big_endian bs offset = Some v"
proof -
  have "length (take (sizeof TYPE('a word)) (drop offset bs)) = sizeof TYPE('a word)"
    by (simp only: assms(2) length_be_bytes)
  moreover have "sizeof TYPE('a word) > 0"
    using whole_bytes_length [OF assms(1)] len_gt_0 [where ?'a = 'a] by (cases "sizeof TYPE('a word)") auto
  ultimately have "offset + sizeof TYPE('a word) \<le> length bs" by (auto simp: min_def split: if_splits)
  then show ?thesis using assms by (simp add: read_big_endian_eq)
qed

lemma read_SomeD:
  assumes "read_big_endian bs offset = Some (v :: 'a::len word)" and "whole_bytes TYPE('a word)"
  shows "take (sizeof TYPE('a word)) (drop offset bs) = be_bytes v"
proof -
  have "offset + sizeof TYPE('a word) \<le> length bs"
    and "v = be_value (take (sizeof TYPE('a word)) (drop offset bs))"
    using assms(1) by (auto simp: read_big_endian_eq split: if_splits)
  then show ?thesis using assms(2) by (simp add: be_bytes_be_value)
qed

end
