(* ===== verification/Mac_Address.thy ===== *)
theory Mac_Address
  imports Wire
begin

unbundle bit_operations_syntax

text \<open>
  \<^verbatim>\<open>network/mac_address.hpp\<close> and \<^verbatim>\<open>mac_address.cpp\<close>: the six-byte address value, its
  classification, its order (the key order of the MAC table) and its text form. The
  \<^verbatim>\<open>std::array\<close> of six bytes is a constructor with six byte arguments, so that every value of
  the type has exactly six bytes, as in the sources.
\<close>

section \<open>The value and its text form\<close>

datatype MacAddress = MacAddress u8 u8 u8 u8 u8 u8

fun mac_bytes :: "MacAddress \<Rightarrow> bytes" where
  "mac_bytes (MacAddress a b c d e f) = [a, b, c, d, e, f]"

definition mac_of_bytes :: "bytes \<Rightarrow> MacAddress" where
  "mac_of_bytes bs = MacAddress (bs ! 0) (bs ! 1) (bs ! 2) (bs ! 3) (bs ! 4) (bs ! 5)"

definition MacAddress_is_broadcast :: "MacAddress \<Rightarrow> bool" where
  "MacAddress_is_broadcast m = list_all (\<lambda>byte. byte = 0xFF) (mac_bytes m)"

definition MacAddress_is_multicast :: "MacAddress \<Rightarrow> bool" where
  "MacAddress_is_multicast m \<longleftrightarrow> (hd (mac_bytes m) AND 0x01) \<noteq> 0"

definition MacAddress_is_unicast :: "MacAddress \<Rightarrow> bool" where
  "MacAddress_is_unicast m \<longleftrightarrow> \<not> MacAddress_is_multicast m"

text \<open>The comparison loops of \<open>operator==\<close> and \<open>operator<\<close>.\<close>

fun bytes_eq :: "bytes \<Rightarrow> bytes \<Rightarrow> bool" where
  "bytes_eq (x # xs) (y # ys) = (if x \<noteq> y then False else bytes_eq xs ys)"
| "bytes_eq _ _ = True"

fun bytes_less :: "bytes \<Rightarrow> bytes \<Rightarrow> bool" where
  "bytes_less (x # xs) (y # ys) = (if x \<noteq> y then x < y else bytes_less xs ys)"
| "bytes_less _ _ = False"

definition MacAddress_eq :: "MacAddress \<Rightarrow> MacAddress \<Rightarrow> bool" where
  "MacAddress_eq m n = bytes_eq (mac_bytes m) (mac_bytes n)"

definition MacAddress_less :: "MacAddress \<Rightarrow> MacAddress \<Rightarrow> bool" where
  "MacAddress_less m n = bytes_less (mac_bytes m) (mac_bytes n)"

definition hex_digit_value :: "char \<Rightarrow> u8 option" where
  "hex_digit_value character =
     (let c = (of_char character :: nat) in
      if of_char (CHR ''0'') \<le> c \<and> c \<le> of_char (CHR ''9'') then Some (of_nat (c - of_char (CHR ''0'')))
      else if of_char (CHR ''a'') \<le> c \<and> c \<le> of_char (CHR ''f'')
        then Some (of_nat (c - of_char (CHR ''a'') + 10))
      else if of_char (CHR ''A'') \<le> c \<and> c \<le> of_char (CHR ''F'')
        then Some (of_nat (c - of_char (CHR ''A'') + 10))
      else None)"

function mac_parse_loop :: "string \<Rightarrow> nat \<Rightarrow> bytes \<Rightarrow> bytes option" where
  "mac_parse_loop text index bs =
     (if index < 6 then
        (case (hex_digit_value (text ! (index * 3)), hex_digit_value (text ! (index * 3 + 1))) of
           (Some high_nibble, Some low_nibble) \<Rightarrow>
             (if index + 1 < 6 \<and> text ! (index * 3 + 2) \<noteq> CHR '':'' then None
              else mac_parse_loop text (Suc index)
                (bs[index := ucast (push_bit 4 (ucast high_nibble :: u16) OR ucast low_nibble)]))
         | _ \<Rightarrow> None)
      else Some bs)"
  by pat_completeness auto
termination
  by (relation "measure (\<lambda>(text, index, bs). 6 - index)") auto

definition MacAddress_parse :: "string \<Rightarrow> MacAddress option" where
  "MacAddress_parse text =
     (if length text \<noteq> 6 * 2 + 5 then None
      else map_option mac_of_bytes (mac_parse_loop text 0 (replicate 6 0)))"

definition hexadecimal_digits :: string where
  "hexadecimal_digits = ''0123456789ABCDEF''"

definition MacAddress_to_string :: "MacAddress \<Rightarrow> string" where
  "MacAddress_to_string m =
     fold (\<lambda>index result.
        (result[index * 3 := hexadecimal_digits ! unat (drop_bit 4 (mac_bytes m ! index))])
          [index * 3 + 1 := hexadecimal_digits ! unat (mac_bytes m ! index AND 0x0F)])
       [0..<6] (replicate 17 (CHR '':''))"

text \<open>The all-zero address and the reading and writing of addresses in frames and packets.\<close>

definition unspecified_mac :: MacAddress where
  "unspecified_mac = MacAddress 0 0 0 0 0 0"

definition read_mac_address :: "bytes \<Rightarrow> nat \<Rightarrow> MacAddress" where
  "read_mac_address bs offset = mac_of_bytes (take 6 (drop offset bs))"

definition write_mac_address :: "MacAddress \<Rightarrow> bytes \<Rightarrow> nat \<Rightarrow> bytes" where
  "write_mac_address m bs offset = copy_at (mac_bytes m) bs offset"

text \<open>
  What the tables and the router ask of an address: a unicast address that is not all zero.
  The sources repeat this test in every file that needs it.
\<close>

definition is_valid_unicast :: "MacAddress \<Rightarrow> bool" where
  "is_valid_unicast address \<longleftrightarrow> address \<noteq> unspecified_mac \<and> MacAddress_is_unicast address"

section \<open>Bytes of an address\<close>

lemma length_mac_bytes [simp]: "length (mac_bytes m) = 6"
  by (cases m) simp

lemma mac_of_bytes_mac_bytes [simp]: "mac_of_bytes (mac_bytes m) = m"
  by (cases m) (simp add: mac_of_bytes_def)

lemma mac_bytes_mac_of_bytes: "length bs = 6 \<Longrightarrow> mac_bytes (mac_of_bytes bs) = bs"
  by (auto simp: mac_of_bytes_def length_Suc_conv eval_nat_numeral)

lemma mac_bytes_inject: "mac_bytes m = mac_bytes n \<longleftrightarrow> m = n"
  by (metis mac_of_bytes_mac_bytes)

lemma read_mac_address_bytes:
  "offset + 6 \<le> length bs \<Longrightarrow> mac_bytes (read_mac_address bs offset) = take 6 (drop offset bs)"
  by (simp add: read_mac_address_def mac_bytes_mac_of_bytes)

lemma read_mac_address_at:
  "take 6 (drop offset bs) = mac_bytes m \<Longrightarrow> read_mac_address bs offset = m"
  by (simp add: read_mac_address_def)

lemma broadcast_is_multicast: "MacAddress_is_broadcast m \<Longrightarrow> MacAddress_is_multicast m"
  by (cases m) (simp add: MacAddress_is_broadcast_def MacAddress_is_multicast_def)

section \<open>Equality and order\<close>

lemma bytes_eq_iff: "length xs = length ys \<Longrightarrow> bytes_eq xs ys \<longleftrightarrow> xs = ys"
  by (induction xs ys rule: bytes_eq.induct) auto

lemma MacAddress_eq_iff [simp]: "MacAddress_eq m n \<longleftrightarrow> m = n"
  by (simp add: MacAddress_eq_def bytes_eq_iff mac_bytes_inject)

lemma bytes_less_irrefl: "\<not> bytes_less xs xs"
  by (induction xs) auto

lemma bytes_less_trans: "bytes_less xs ys \<Longrightarrow> bytes_less ys zs \<Longrightarrow> bytes_less xs zs"
proof (induction xs ys arbitrary: zs rule: bytes_less.induct)
  case (1 x xs y ys)
  then show ?case by (cases zs) (auto split: if_splits)
qed auto

lemma bytes_less_total: "length xs = length ys \<Longrightarrow> xs \<noteq> ys \<Longrightarrow> bytes_less xs ys \<or> bytes_less ys xs"
  by (induction xs ys rule: bytes_less.induct) auto

instantiation MacAddress :: linorder
begin

definition less_MacAddress :: "MacAddress \<Rightarrow> MacAddress \<Rightarrow> bool" where
  "less_MacAddress m n \<longleftrightarrow> MacAddress_less m n"

definition less_eq_MacAddress :: "MacAddress \<Rightarrow> MacAddress \<Rightarrow> bool" where
  "less_eq_MacAddress m n \<longleftrightarrow> m = n \<or> MacAddress_less m n"

instance
proof
  fix x y z :: MacAddress
  show "(x < y) = (x \<le> y \<and> \<not> y \<le> x)"
    using bytes_less_irrefl bytes_less_trans
    by (auto simp: less_MacAddress_def less_eq_MacAddress_def MacAddress_less_def)
  show "x \<le> x" by (simp add: less_eq_MacAddress_def)
  show "x \<le> y \<Longrightarrow> y \<le> z \<Longrightarrow> x \<le> z"
    using bytes_less_trans by (auto simp: less_eq_MacAddress_def MacAddress_less_def)
  show "x \<le> y \<Longrightarrow> y \<le> x \<Longrightarrow> x = y"
    using bytes_less_irrefl bytes_less_trans
    by (auto simp: less_eq_MacAddress_def MacAddress_less_def)
  show "x \<le> y \<or> y \<le> x"
    using bytes_less_total [of "mac_bytes x" "mac_bytes y"]
    by (auto simp: less_eq_MacAddress_def MacAddress_less_def mac_bytes_inject)
qed

end

section \<open>Text round trip\<close>

lemma less_16_cases:
  "n < (16::nat) \<Longrightarrow> n \<in> {0, 1, 2, 3, 4, 5, 6, 7, 8, 9, 10, 11, 12, 13, 14, 15}"
  by (simp only: insert_iff empty_iff) presburger

lemma hex_digit_value_of_digit:
  "n < 16 \<Longrightarrow> hex_digit_value (hexadecimal_digits ! n) = Some (of_nat n)"
  by (drule less_16_cases) (auto simp: hexadecimal_digits_def hex_digit_value_def)

lemma unat_high_nibble: "unat (drop_bit 4 (b :: u8)) < 16"
proof -
  have "unat b < 2 ^ LENGTH(8)" by (rule unsigned_less)
  then show ?thesis by (simp add: drop_bit_eq_div unat_div_distrib)
qed

lemma unat_low_nibble: "unat (b AND 0x0F :: u8) < 16"
proof -
  have "b AND 0x0F = take_bit 4 b" by (simp add: take_bit_eq_mask mask_eq_exp_minus_1)
  then show ?thesis using take_bit_nat_less_exp [of 4 "unat b"] by (simp add: unsigned_take_bit_eq)
qed

lemma hex_high [simp]: "hex_digit_value (hexadecimal_digits ! unat (drop_bit 4 b)) = Some (drop_bit 4 b)"
  using hex_digit_value_of_digit [OF unat_high_nibble [of b]] by simp

lemma hex_low [simp]: "hex_digit_value (hexadecimal_digits ! unat (b AND 0x0F)) = Some (b AND 0x0F)"
  using hex_digit_value_of_digit [OF unat_low_nibble [of b]] by simp

lemma nibbles_join [simp]:
  "ucast (push_bit 4 (ucast (drop_bit 4 (b :: u8)) :: u16) OR ucast (b AND 0x0F)) = b"
proof (rule bit_word_eqI)
  fix n assume n: "n < LENGTH(8)"
  have "b AND 0x0F = take_bit 4 b" by (simp add: take_bit_eq_mask mask_eq_exp_minus_1)
  then show "bit (ucast (push_bit 4 (ucast (drop_bit 4 b) :: u16) OR ucast (b AND 0x0F)) :: u8) n = bit b n"
    using n by (auto simp: bit_simps)
qed

lemma MacAddress_to_string_eq:
  "MacAddress_to_string m = concat (map (\<lambda>i.
     [hexadecimal_digits ! unat (drop_bit 4 (mac_bytes m ! i)),
      hexadecimal_digits ! unat (mac_bytes m ! i AND 0x0F)] @ (if i < 5 then '':'' else [])) [0..<6])"
  by (simp add: MacAddress_to_string_def upt_rec replicate_numeral)

text \<open>The other direction: what the parser accepts is printed back in upper case.\<close>

definition ascii_upper :: "char \<Rightarrow> char" where
  "ascii_upper c =
     (if (97 :: nat) \<le> of_char c \<and> of_char c \<le> (122 :: nat) then char_of (of_char c - (32 :: nat)) else c)"

lemma char_range_cases:
  assumes "lo \<le> (of_char c :: nat)" and "of_char c \<le> hi"
  obtains n where "lo \<le> n" "n \<le> hi" "c = char_of (n :: nat)"
proof -
  have "c = char_of (of_char c :: nat)" by simp
  then show ?thesis using that assms by blast
qed

lemma digit_range_values:
  "48 \<le> n \<Longrightarrow> n \<le> 57 \<Longrightarrow> n \<in> {48, 49, 50, 51, 52, 53, 54, 55, 56, 57 :: nat}"
  "97 \<le> n \<Longrightarrow> n \<le> 102 \<Longrightarrow> n \<in> {97, 98, 99, 100, 101, 102 :: nat}"
  "65 \<le> n \<Longrightarrow> n \<le> 70 \<Longrightarrow> n \<in> {65, 66, 67, 68, 69, 70 :: nat}"
  by (simp_all only: insert_iff empty_iff) presburger+

lemma char_of_hex_digits:
  "char_of (48 :: nat) = CHR ''0''"
  "char_of (49 :: nat) = CHR ''1''"
  "char_of (50 :: nat) = CHR ''2''"
  "char_of (51 :: nat) = CHR ''3''"
  "char_of (52 :: nat) = CHR ''4''"
  "char_of (53 :: nat) = CHR ''5''"
  "char_of (54 :: nat) = CHR ''6''"
  "char_of (55 :: nat) = CHR ''7''"
  "char_of (56 :: nat) = CHR ''8''"
  "char_of (57 :: nat) = CHR ''9''"
  "char_of (65 :: nat) = CHR ''A''"
  "char_of (66 :: nat) = CHR ''B''"
  "char_of (67 :: nat) = CHR ''C''"
  "char_of (68 :: nat) = CHR ''D''"
  "char_of (69 :: nat) = CHR ''E''"
  "char_of (70 :: nat) = CHR ''F''"
  by (simp_all add: char_of_eq_iff)

lemma hex_digit_value_SomeD:
  assumes "hex_digit_value c = Some v"
  shows "unat v < 16 \<and> hexadecimal_digits ! unat v = ascii_upper c"
proof -
  consider "48 \<le> (of_char c :: nat)" "of_char c \<le> (57 :: nat)"
    | "97 \<le> (of_char c :: nat)" "of_char c \<le> (102 :: nat)"
    | "65 \<le> (of_char c :: nat)" "of_char c \<le> (70 :: nat)"
    using assms by (auto simp: hex_digit_value_def Let_def split: if_splits)
  then show ?thesis
  proof cases
    case 1
    then obtain n :: nat where n: "48 \<le> n" "n \<le> 57" and c: "c = char_of n" by (rule char_range_cases)
    show ?thesis using digit_range_values(1) [OF n] assms
      by (auto simp: c hex_digit_value_def hexadecimal_digits_def ascii_upper_def char_of_hex_digits)
  next
    case 2
    then obtain n :: nat where n: "97 \<le> n" "n \<le> 102" and c: "c = char_of n" by (rule char_range_cases)
    show ?thesis using digit_range_values(2) [OF n] assms
      by (auto simp: c hex_digit_value_def hexadecimal_digits_def ascii_upper_def char_of_hex_digits)
  next
    case 3
    then obtain n :: nat where n: "65 \<le> n" "n \<le> 70" and c: "c = char_of n" by (rule char_range_cases)
    show ?thesis using digit_range_values(3) [OF n] assms
      by (auto simp: c hex_digit_value_def hexadecimal_digits_def ascii_upper_def char_of_hex_digits)
  qed
qed

lemma nibble_bits:
  assumes "unat (h :: u8) < 16" and "bit h n"
  shows "n < 4"
proof -
  have "take_bit 4 (unat h) = unat h" using assms(1) by (simp add: take_bit_nat_eq_self_iff)
  then have "take_bit 4 h = h" by (metis unsigned_take_bit_eq word_unat_eq_iff)
  then show ?thesis using assms(2) by (metis bit_take_bit_iff)
qed

lemma join_nibbles:
  assumes "unat (h :: u8) < 16" and "unat (l :: u8) < 16"
  shows "drop_bit 4 (ucast (push_bit 4 (ucast h :: u16) OR ucast l) :: u8) = h"
    and "(ucast (push_bit 4 (ucast h :: u16) OR ucast l) :: u8) AND 0x0F = l"
proof -
  have m: "x AND 0x0F = take_bit 4 x" for x :: u8 by (simp add: take_bit_eq_mask mask_eq_exp_minus_1)
  show "drop_bit 4 (ucast (push_bit 4 (ucast h :: u16) OR ucast l) :: u8) = h"
    by (rule bit_word_eqI) (use assms in \<open>auto simp: bit_simps dest: nibble_bits\<close>)
  show "(ucast (push_bit 4 (ucast h :: u16) OR ucast l) :: u8) AND 0x0F = l"
    unfolding m by (rule bit_word_eqI) (use assms in \<open>auto simp: bit_simps dest: nibble_bits\<close>)
qed

declare mac_parse_loop.simps [simp del]

text \<open>The byte that the loop stores at an index spells the two characters it read there.\<close>

definition spells :: "string \<Rightarrow> nat \<Rightarrow> u8 \<Rightarrow> bool" where
  "spells s i b \<longleftrightarrow>
     hexadecimal_digits ! unat (drop_bit 4 b) = ascii_upper (s ! (i * 3)) \<and>
     hexadecimal_digits ! unat (b AND 0x0F) = ascii_upper (s ! (i * 3 + 1)) \<and>
     (i < 5 \<longrightarrow> s ! (i * 3 + 2) = CHR '':'')"

lemma spells_join:
  assumes "hex_digit_value (s ! (i * 3)) = Some h" and "hex_digit_value (s ! (i * 3 + 1)) = Some l"
    and "\<not> (i + 1 < 6 \<and> s ! (i * 3 + 2) \<noteq> CHR '':'')"
  shows "spells s i (ucast (push_bit 4 (ucast h :: u16) OR ucast l))"
  using hex_digit_value_SomeD [OF assms(1)] hex_digit_value_SomeD [OF assms(2)] assms(3)
  by (simp add: spells_def join_nibbles)

lemma mac_parse_loop_spells:
  "mac_parse_loop s index bs = Some out \<Longrightarrow> length bs = 6 \<Longrightarrow>
   length out = 6 \<and> (\<forall>i < index. out ! i = bs ! i) \<and> (\<forall>i. index \<le> i \<and> i < 6 \<longrightarrow> spells s i (out ! i))"
proof (induction s index bs rule: mac_parse_loop.induct)
  case (1 s index bs)
  show ?case
  proof (cases "index < 6")
    case False
    with "1.prems" show ?thesis by (auto simp: mac_parse_loop.simps)
  next
    case True
    with "1.prems"(1) obtain h l where hl: "hex_digit_value (s ! (index * 3)) = Some h"
        "hex_digit_value (s ! (index * 3 + 1)) = Some l"
        "\<not> (index + 1 < 6 \<and> s ! (index * 3 + 2) \<noteq> CHR '':'')"
      and rest: "mac_parse_loop s (Suc index)
        (bs[index := ucast (push_bit 4 (ucast h :: u16) OR ucast l)]) = Some out"
      by (auto simp: mac_parse_loop.simps [of s index] split: option.splits if_splits)
    have ih: "length out = 6 \<and>
        (\<forall>i < Suc index. out ! i = bs[index := ucast (push_bit 4 (ucast h :: u16) OR ucast l)] ! i) \<and>
        (\<forall>i. Suc index \<le> i \<and> i < 6 \<longrightarrow> spells s i (out ! i))"
      using "1.IH" [OF True refl hl(1) hl(2) hl(3) rest] "1.prems"(2) by simp
    then have "out ! index = ucast (push_bit 4 (ucast h :: u16) OR ucast l)"
      using True "1.prems"(2) by simp
    then have "spells s index (out ! index)" using spells_join [OF hl] by simp
    moreover have "spells s i (out ! i)" if "index \<le> i" "i < 6" "i \<noteq> index" for i
      using ih that by (metis Suc_leI le_neq_implies_less)
    ultimately show ?thesis using ih by (metis less_Suc_eq nat_neq_iff nth_list_update_neq)
  qed
qed

lemma mac_parse_to_string: "MacAddress_parse (MacAddress_to_string m) = Some m"
  by (cases m)
    (simp add: MacAddress_to_string_eq MacAddress_parse_def mac_parse_loop.simps upt_rec
      replicate_numeral mac_of_bytes_def)

lemma length_17E:
  assumes "length text = 17"
  obtains c0 c1 c2 c3 c4 c5 c6 c7 c8 c9 c10 c11 c12 c13 c14 c15 c16 where
    "text = [c0, c1, c2, c3, c4, c5, c6, c7, c8, c9, c10, c11, c12, c13, c14, c15, c16]"
  using assms by (auto simp: eval_nat_numeral length_Suc_conv)

lemma mac_to_string_parse:
  assumes "MacAddress_parse s = Some m"
  shows "MacAddress_to_string m = map ascii_upper s"
proof -
  obtain out where len: "length s = 17" and out: "mac_parse_loop s 0 (replicate 6 0) = Some out"
    and m: "m = mac_of_bytes out"
    using assms by (auto simp: MacAddress_parse_def split: if_splits)
  have sp: "spells s i (out ! i)" if "i < 6" for i
    using mac_parse_loop_spells [OF out] that by simp
  have "length out = 6" using mac_parse_loop_spells [OF out] by simp
  then have mb: "mac_bytes m = out" by (simp add: m mac_bytes_mac_of_bytes)
  have "ascii_upper (CHR '':'') = CHR '':''" by (simp add: ascii_upper_def)
  with len show ?thesis
    using sp [of 0] sp [of 1] sp [of 2] sp [of 3] sp [of 4] sp [of 5]
    by (elim length_17E) (simp add: MacAddress_to_string_eq mb spells_def upt_rec eval_nat_numeral)
qed

text \<open>The parser does not distinguish the case of the digits.\<close>

lemma ascii_upper_colon: "ascii_upper c = CHR '':'' \<longleftrightarrow> c = CHR '':''"
proof
  assume a: "ascii_upper c = CHR '':''"
  show "c = CHR '':''"
  proof (cases "(97 :: nat) \<le> of_char c \<and> of_char c \<le> (122 :: nat)")
    case True
    moreover have "(of_char c - 32) mod 256 = (of_char c - 32 :: nat)" using True by (intro mod_less) linarith
    ultimately have "of_char (ascii_upper c) = (of_char c - 32 :: nat)" by (simp add: ascii_upper_def)
    moreover have "of_char (ascii_upper c) = (58 :: nat)" by (simp add: a)
    ultimately show ?thesis using True by linarith
  next
    case False
    then have "ascii_upper c = c" by (auto simp: ascii_upper_def)
    then show ?thesis using a by simp
  qed
qed (simp add: ascii_upper_def)

lemma hex_digit_value_upper: "hex_digit_value (ascii_upper c) = hex_digit_value c"
  by (auto simp: hex_digit_value_def ascii_upper_def Let_def)

lemma mac_parse_loop_upper:
  "length s = 17 \<Longrightarrow> mac_parse_loop (map ascii_upper s) index bs = mac_parse_loop s index bs"
proof (induction s index bs rule: mac_parse_loop.induct)
  case (1 s index bs)
  have e12: "hex_digit_value (map ascii_upper s ! (index * 3)) = hex_digit_value (s ! (index * 3))"
    "hex_digit_value (map ascii_upper s ! (index * 3 + 1)) = hex_digit_value (s ! (index * 3 + 1))"
    if "index < 6"
    using that "1.prems" nth_map [of "index * 3" s] nth_map [of "index * 3 + 1" s]
    by (simp_all add: hex_digit_value_upper)
  have e3: "index + 1 < 6 \<and> map ascii_upper s ! (index * 3 + 2) \<noteq> CHR '':'' \<longleftrightarrow>
      index + 1 < 6 \<and> s ! (index * 3 + 2) \<noteq> CHR '':''"
    using "1.prems" nth_map [of "index * 3 + 2" s ascii_upper] by (cases "index + 1 < 6") (simp_all add: ascii_upper_colon)
  show ?case
  proof (cases "index < 6")
    case True
    show ?thesis
      unfolding mac_parse_loop.simps [of "map ascii_upper s" index] mac_parse_loop.simps [of s index]
        e12 [OF True] e3
      using "1.IH" [OF True refl] "1.prems"
      by (cases "hex_digit_value (s ! (index * 3))"; cases "hex_digit_value (s ! (index * 3 + 1))") auto
  qed (simp add: mac_parse_loop.simps)
qed

lemma mac_parse_upper: "MacAddress_parse (map ascii_upper s) = MacAddress_parse s"
  by (simp add: MacAddress_parse_def mac_parse_loop_upper)

section \<open>Properties\<close>

text \<open>
  The MAC parser accepts a string with an address exactly if the string is, up to
  the case of the hexadecimal digits, the printed form of the address.
\<close>

lemma mac_address_text_iff:
  "MacAddress_parse s = Some m \<longleftrightarrow> map ascii_upper s = MacAddress_to_string m"
  using mac_to_string_parse mac_parse_to_string [of m] mac_parse_upper [of s] by metis

end
