(* ===== verification/Identifiers.thy ===== *)
theory Identifiers
  imports Prelude
begin

unbundle bit_operations_syntax

text \<open>
  The validated identifiers: \<^verbatim>\<open>network/vlan_id.hpp\<close>, \<^verbatim>\<open>network/vlan_tag.hpp\<close> and
  \<^verbatim>\<open>routing/port_id.hpp\<close>. Their constructors are private, so that every value comes from
  \<open>create\<close>; the predicates \<open>VlanId_wf\<close>, \<open>VlanTag_wf\<close> and \<open>PortId_wf\<close> say which values that
  admits. Identifiers are ordered by their value, the key order of the tables.
\<close>

section \<open>VLAN identifiers\<close>

datatype VlanId = VlanId (VlanId_value: u16)

definition VlanId_create :: "u16 \<Rightarrow> VlanId option" where
  "VlanId_create value = (if value < 1 \<or> value > 4094 then None else Some (VlanId value))"

definition VlanId_wf :: "VlanId \<Rightarrow> bool" where
  "VlanId_wf v \<longleftrightarrow> VlanId_create (VlanId_value v) = Some v"

instantiation VlanId :: linorder
begin

definition less_VlanId :: "VlanId \<Rightarrow> VlanId \<Rightarrow> bool" where
  "less_VlanId a b \<longleftrightarrow> VlanId_value a < VlanId_value b"

definition less_eq_VlanId :: "VlanId \<Rightarrow> VlanId \<Rightarrow> bool" where
  "less_eq_VlanId a b \<longleftrightarrow> VlanId_value a \<le> VlanId_value b"

instance
  by standard (auto simp: less_VlanId_def less_eq_VlanId_def intro: VlanId.expand)

end

section \<open>Port identifiers\<close>

datatype PortId = PortId (PortId_value: u16)

definition PortId_create :: "u16 \<Rightarrow> PortId option" where
  "PortId_create value = (if value = 0 then None else Some (PortId value))"

definition PortId_wf :: "PortId \<Rightarrow> bool" where
  "PortId_wf p \<longleftrightarrow> PortId_create (PortId_value p) = Some p"

instantiation PortId :: linorder
begin

definition less_PortId :: "PortId \<Rightarrow> PortId \<Rightarrow> bool" where
  "less_PortId a b \<longleftrightarrow> PortId_value a < PortId_value b"

definition less_eq_PortId :: "PortId \<Rightarrow> PortId \<Rightarrow> bool" where
  "less_eq_PortId a b \<longleftrightarrow> PortId_value a \<le> PortId_value b"

instance
  by standard (auto simp: less_PortId_def less_eq_PortId_def intro: PortId.expand)

end

section \<open>VLAN tags\<close>

record VlanTag =
  vlan_id :: VlanId
  priority :: u8
  drop_eligible :: bool

definition VlanTag_create :: "VlanId \<Rightarrow> u8 \<Rightarrow> bool \<Rightarrow> VlanTag option" where
  "VlanTag_create vid prio dei =
     (if prio > 7 then None
      else Some \<lparr>vlan_id = vid, priority = prio, drop_eligible = dei\<rparr>)"

definition VlanTag_from_tag_control_information :: "u16 \<Rightarrow> VlanTag option" where
  "VlanTag_from_tag_control_information value =
     (case VlanId_create (value AND 0x0FFF) of
        None \<Rightarrow> None
      | Some vid \<Rightarrow> VlanTag_create vid (ucast (drop_bit 13 value)) ((value AND 0x1000) \<noteq> 0))"

definition VlanTag_tag_control_information :: "VlanTag \<Rightarrow> u16" where
  "VlanTag_tag_control_information t =
     push_bit 13 (ucast (priority t)) OR push_bit 12 (of_bool (drop_eligible t)) OR VlanId_value (vlan_id t)"

definition VlanTag_wf :: "VlanTag \<Rightarrow> bool" where
  "VlanTag_wf t \<longleftrightarrow> VlanId_wf (vlan_id t) \<and> VlanTag_create (vlan_id t) (priority t) (drop_eligible t) = Some t"

section \<open>Validity\<close>

lemma VlanId_wf_iff: "VlanId_wf v \<longleftrightarrow> VlanId_value v \<noteq> 0 \<and> VlanId_value v \<le> 4094"
  by (cases v) (auto simp: VlanId_wf_def VlanId_create_def not_less)

lemma VlanId_create_iff: "VlanId_create n = Some v \<longleftrightarrow> VlanId_wf v \<and> VlanId_value v = n"
  by (cases v) (auto simp: VlanId_wf_def VlanId_create_def)

lemma PortId_wf_iff: "PortId_wf p \<longleftrightarrow> PortId_value p \<noteq> 0"
  by (cases p) (auto simp: PortId_wf_def PortId_create_def)

lemma PortId_create_iff: "PortId_create n = Some p \<longleftrightarrow> PortId_wf p \<and> PortId_value p = n"
  by (cases p) (auto simp: PortId_wf_def PortId_create_def)

lemma VlanTag_wf_iff: "VlanTag_wf t \<longleftrightarrow> VlanId_wf (vlan_id t) \<and> priority t \<le> 7"
  by (auto simp: VlanTag_wf_def VlanTag_create_def not_less)

lemma VlanTag_create_wf: "VlanTag_create vid prio dei = Some t \<Longrightarrow> VlanId_wf vid \<Longrightarrow> VlanTag_wf t"
  by (auto simp: VlanTag_create_def VlanTag_wf_iff not_less split: if_splits)

section \<open>The tag control information is read back\<close>

lemma bits_below:
  fixes w :: "'a::len word"
  assumes "unat w < 2 ^ k" and "bit w n"
  shows "n < k"
proof -
  have "take_bit k (unat w) = unat w" using assms(1) by (simp add: take_bit_nat_eq_self)
  then have "take_bit k w = w" by (metis unsigned_take_bit_eq word_unat_eq_iff)
  then show ?thesis using assms(2) by (metis bit_take_bit_iff)
qed

lemma VlanId_bits: "VlanId_wf v \<Longrightarrow> bit (VlanId_value v) n \<Longrightarrow> n < 12"
  by (rule bits_below) (auto simp: VlanId_wf_iff word_le_nat_alt)

lemma priority_bits: "VlanTag_wf t \<Longrightarrow> bit (priority t) n \<Longrightarrow> n < 3"
  by (rule bits_below) (auto simp: VlanTag_wf_iff word_le_nat_alt)

lemma and_1000: "(v AND 0x1000 \<noteq> (0 :: u16)) \<longleftrightarrow> bit v 12"
proof -
  have "(0x1000 :: u16) = push_bit 12 1" by simp
  then show ?thesis by (simp only: bit_iff_and_push_bit_not_eq_0)
qed

lemma bit_tci:
  assumes "VlanTag_wf t"
  shows "bit (VlanTag_tag_control_information t) n \<longleftrightarrow>
    (if n < 12 then bit (VlanId_value (vlan_id t)) n
     else if n = 12 then drop_eligible t else n < 16 \<and> bit (priority t) (n - 13))"
  using assms VlanId_bits [of "vlan_id t" n] priority_bits [OF assms, of "n - 13"]
  by (auto simp: VlanTag_tag_control_information_def bit_simps VlanTag_wf_iff not_bit_beyond)

lemma tci_parts:
  assumes "VlanTag_wf t"
  shows "VlanTag_tag_control_information t AND 0x0FFF = VlanId_value (vlan_id t)"
    and "ucast (drop_bit 13 (VlanTag_tag_control_information t)) = priority t"
  using assms VlanId_bits [of "vlan_id t"] priority_bits [OF assms]
  by (auto simp: and_masks bit_simps bit_tci VlanTag_wf_iff intro!: bit_word_eqI)

lemma tag_from_tci:
  assumes "VlanTag_wf t"
  shows "VlanTag_from_tag_control_information (VlanTag_tag_control_information t) = Some t"
proof -
  have "VlanTag_tag_control_information t AND 0x1000 \<noteq> 0 \<longleftrightarrow> drop_eligible t"
    unfolding and_1000 using assms by (simp add: bit_tci)
  moreover have "VlanId_create (VlanId_value (vlan_id t)) = Some (vlan_id t)"
    using assms by (simp add: VlanTag_wf_def VlanId_wf_def)
  ultimately show ?thesis
    using assms unfolding VlanTag_from_tag_control_information_def tci_parts [OF assms]
    by (simp add: VlanTag_wf_def)
qed

lemma tci_from_tag:
  assumes "VlanTag_from_tag_control_information v = Some t"
  shows "VlanTag_wf t" and "VlanTag_tag_control_information t = v"
proof -
  obtain vid where vid: "VlanId_create (v AND 0x0FFF) = Some vid"
    and t: "VlanTag_create vid (ucast (drop_bit 13 v)) (v AND 0x1000 \<noteq> 0) = Some t"
    using assms by (auto simp: VlanTag_from_tag_control_information_def split: option.splits)
  show wf: "VlanTag_wf t" using t vid by (auto simp: VlanId_create_iff intro: VlanTag_create_wf)
  have parts: "VlanId_value (vlan_id t) = take_bit 12 v" "priority t = ucast (drop_bit 13 v)"
    "drop_eligible t \<longleftrightarrow> bit v 12"
    using t vid unfolding VlanTag_create_def VlanId_create_iff and_1000 and_masks
    by (auto split: if_splits)
  show "VlanTag_tag_control_information t = v"
  proof (rule bit_word_eqI)
    fix n assume "n < LENGTH(16)"
    then show "bit (VlanTag_tag_control_information t) n = bit v n"
      using priority_bits [OF wf, of "n - 13"]
      by (cases "n < 12"; cases "n = 12") (auto simp: bit_tci [OF wf] parts bit_simps)
  qed
qed

section \<open>Properties\<close>

text \<open>
  The tag control information of a VLAN tag determines the tag and is determined
  by it: reading 16 bits as a tag succeeds with exactly the valid tag that encodes to them.
\<close>

lemma vlan_tag_tci_iff:
  "VlanTag_from_tag_control_information v = Some t \<longleftrightarrow>
     VlanTag_wf t \<and> VlanTag_tag_control_information t = v"
  using tag_from_tci tci_from_tag by blast

end
