(* ===== verification/Ethernet_Frame.thy ===== *)
theory Ethernet_Frame
  imports Mac_Address Identifiers
begin

unbundle bit_operations_syntax

text \<open>
  \<^verbatim>\<open>network/ethernet_frame.cpp\<close>: the frame, its checked construction, its wire format with the
  optional 802.1Q tag, and the proof that the format is a canonical codec. \<^verbatim>\<open>EtherType\<close> is an
  open enumeration (the parser casts any 16-bit value into it), so it is the 16-bit word itself.
\<close>

section \<open>The frame\<close>

type_synonym EtherType = u16

definition EtherType_ipv4 :: EtherType where "EtherType_ipv4 = 0x0800"
definition EtherType_arp :: EtherType where "EtherType_arp = 0x0806"
definition EtherType_vlan_tagged :: EtherType where "EtherType_vlan_tagged = 0x8100"
definition EtherType_ipv6 :: EtherType where "EtherType_ipv6 = 0x86DD"

record EthernetFrame =
  destination :: MacAddress
  source :: MacAddress
  ether_type :: EtherType
  payload :: bytes
  vlan_tag :: "VlanTag option"

definition header_size :: nat where "header_size = 14"
definition tagged_header_size :: nat where "tagged_header_size = 18"
definition maximum_payload_size :: nat where "maximum_payload_size = 1500"

definition EthernetFrame_create ::
  "MacAddress \<Rightarrow> MacAddress \<Rightarrow> EtherType \<Rightarrow> bytes \<Rightarrow> VlanTag option \<Rightarrow> EthernetFrame option" where
  "EthernetFrame_create dst src etype pl tag =
     (if length pl > maximum_payload_size then None
      else Some \<lparr>destination = dst, source = src, ether_type = etype, payload = pl, vlan_tag = tag\<rparr>)"

section \<open>The wire format\<close>

definition destination_offset :: nat where "destination_offset = 0"
definition source_offset :: nat where "source_offset = 6"
definition ether_type_offset :: nat where "ether_type_offset = 12"
definition vlan_control_information_offset :: nat where "vlan_control_information_offset = 14"
definition inner_ether_type_offset :: nat where "inner_ether_type_offset = 16"

lemmas frame_constants [codec_defs] =
  EtherType_ipv4_def EtherType_arp_def EtherType_vlan_tagged_def EtherType_ipv6_def
  header_size_def tagged_header_size_def maximum_payload_size_def destination_offset_def
  source_offset_def ether_type_offset_def vlan_control_information_offset_def inner_ether_type_offset_def

text \<open>The part of the parser that looks behind the outer type: type, payload offset and tag.\<close>

definition parse_vlan_header :: "bytes \<Rightarrow> (EtherType \<times> nat \<times> VlanTag option) option" where
  "parse_vlan_header bs =
     (case (read_big_endian bs ether_type_offset :: u16 option) of
        None \<Rightarrow> None
      | Some outer_ether_type_value \<Rightarrow>
          if outer_ether_type_value = EtherType_vlan_tagged then
            (if length bs < tagged_header_size then None
             else case (read_big_endian bs vlan_control_information_offset,
                        read_big_endian bs inner_ether_type_offset) of
               (Some tag_control_information, Some inner_ether_type) \<Rightarrow>
                 (case VlanTag_from_tag_control_information tag_control_information of
                    None \<Rightarrow> None
                  | Some tag \<Rightarrow> Some (inner_ether_type, tagged_header_size, Some tag))
             | _ \<Rightarrow> None)
          else Some (outer_ether_type_value, header_size, None))"

definition EthernetFrame_parse :: "bytes \<Rightarrow> EthernetFrame option" where
  "EthernetFrame_parse bs =
     (if length bs < header_size then None
      else case parse_vlan_header bs of
        None \<Rightarrow> None
      | Some (ether_type_value, payload_offset, tag) \<Rightarrow>
          if length bs - payload_offset > maximum_payload_size then None
          else EthernetFrame_create (read_mac_address bs destination_offset)
                 (read_mac_address bs source_offset) ether_type_value (drop payload_offset bs) tag)"

definition EthernetFrame_serialize :: "EthernetFrame \<Rightarrow> bytes" where
  "EthernetFrame_serialize f =
     (let serialized_header_size = (if vlan_tag f \<noteq> None then tagged_header_size else header_size);
          bs = replicate (serialized_header_size + length (payload f)) 0;
          bs = write_mac_address (destination f) bs destination_offset;
          bs = write_mac_address (source f) bs source_offset;
          outer_ether_type = (if vlan_tag f \<noteq> None then EtherType_vlan_tagged else ether_type f);
          (wrote_outer_ether_type, bs) = write_big_endian outer_ether_type bs ether_type_offset
      in if \<not> wrote_outer_ether_type then []
         else case vlan_tag f of
           None \<Rightarrow> copy_at (payload f) bs serialized_header_size
         | Some tag \<Rightarrow>
             let (wrote_vlan_tag, bs) =
                   write_big_endian (VlanTag_tag_control_information tag) bs vlan_control_information_offset;
                 (wrote_inner_ether_type, bs) = write_big_endian (ether_type f) bs inner_ether_type_offset
             in if \<not> wrote_vlan_tag \<or> \<not> wrote_inner_ether_type then []
                else copy_at (payload f) bs serialized_header_size)"

section \<open>Well-formed frames\<close>

text \<open>What \<open>create\<close> guarantees of a frame, given a valid tag.\<close>

definition EthernetFrame_valid :: "EthernetFrame \<Rightarrow> bool" where
  "EthernetFrame_valid f \<longleftrightarrow>
     length (payload f) \<le> maximum_payload_size \<and> (\<forall>tag \<in> set_option (vlan_tag f). VlanTag_wf tag)"

text \<open>
  A frame that the wire format can represent: an untagged frame whose type is the tag
  protocol identifier would be read back as a tagged one.
\<close>

definition EthernetFrame_wf :: "EthernetFrame \<Rightarrow> bool" where
  "EthernetFrame_wf f \<longleftrightarrow>
     EthernetFrame_valid f \<and> (vlan_tag f = None \<longrightarrow> ether_type f \<noteq> EtherType_vlan_tagged)"

lemma EthernetFrame_create_valid:
  "EthernetFrame_create dst src etype pl tag = Some f \<Longrightarrow> (\<forall>t \<in> set_option tag. VlanTag_wf t) \<Longrightarrow>
   EthernetFrame_valid f"
  by (auto simp: EthernetFrame_create_def EthernetFrame_valid_def split: if_splits)

section \<open>The format is a canonical codec\<close>

lemma serialize_frame:
  "EthernetFrame_serialize f =
     mac_bytes (destination f) @ mac_bytes (source f) @
     (case vlan_tag f of None \<Rightarrow> []
      | Some tag \<Rightarrow> be_bytes EtherType_vlan_tagged @ be_bytes (VlanTag_tag_control_information tag)) @
     be_bytes (ether_type f) @ payload f"
  by (cases "vlan_tag f")
    (simp_all add: EthernetFrame_serialize_def write_mac_address_def wire_simps Let_def frame_constants)

lemma parse_serialize_frame:
  assumes "EthernetFrame_wf f"
  shows "EthernetFrame_parse (EthernetFrame_serialize f) = Some f"
proof (cases "vlan_tag f")
  case None
  let ?bs = "EthernetFrame_serialize f"
  have "read_big_endian ?bs ether_type_offset = Some (ether_type f)"
    by (rule read_be_bytes_at) (simp_all add: serialize_frame None frame_constants)
  moreover have "read_mac_address ?bs destination_offset = destination f"
    "read_mac_address ?bs source_offset = source f"
    by (rule read_mac_address_at, simp add: serialize_frame frame_constants)+
  ultimately show ?thesis
    using assms None
    by (simp add: EthernetFrame_parse_def parse_vlan_header_def EthernetFrame_create_def
        EthernetFrame_wf_def EthernetFrame_valid_def serialize_frame frame_constants)
next
  case (Some tag)
  let ?bs = "EthernetFrame_serialize f"
  have "read_big_endian ?bs ether_type_offset = Some EtherType_vlan_tagged"
    "read_big_endian ?bs vlan_control_information_offset = Some (VlanTag_tag_control_information tag)"
    "read_big_endian ?bs inner_ether_type_offset = Some (ether_type f)"
    by (rule read_be_bytes_at; simp add: serialize_frame Some frame_constants)+
  moreover have "read_mac_address ?bs destination_offset = destination f"
    "read_mac_address ?bs source_offset = source f"
    by (rule read_mac_address_at, simp add: serialize_frame frame_constants)+
  moreover have "VlanTag_from_tag_control_information (VlanTag_tag_control_information tag) = Some tag"
    using assms Some by (simp add: tag_from_tci EthernetFrame_wf_def EthernetFrame_valid_def)
  ultimately show ?thesis
    using assms Some
    by (simp add: EthernetFrame_parse_def parse_vlan_header_def EthernetFrame_create_def
        EthernetFrame_wf_def EthernetFrame_valid_def serialize_frame frame_constants)
qed

lemma parse_frame_SomeD:
  assumes "EthernetFrame_parse bs = Some f"
  shows "EthernetFrame_wf f" and "EthernetFrame_serialize f = bs"
proof -
  obtain offset where len: "length bs \<ge> header_size"
    and h: "parse_vlan_header bs = Some (ether_type f, offset, vlan_tag f)"
    and f: "destination f = read_mac_address bs destination_offset"
      "source f = read_mac_address bs source_offset"
      "payload f = drop offset bs" "length (payload f) \<le> maximum_payload_size"
    using assms by (auto simp: EthernetFrame_parse_def EthernetFrame_create_def not_less split: if_splits option.splits)
  have macs: "mac_bytes (destination f) = take 6 bs" "mac_bytes (source f) = take 6 (drop 6 bs)"
    using len by (simp_all add: f frame_constants read_mac_address_bytes)
  have cut6: "bs = take 6 bs @ take 6 (drop 6 bs) @ take 2 (drop 12 bs) @ drop 14 bs"
    using cut [of 6 bs 6] cut [of 12 bs 2] by (simp add: append_take_drop_id)
  show "EthernetFrame_wf f"
    using h f(4) tci_from_tag(1) by (auto simp: EthernetFrame_wf_def EthernetFrame_valid_def
        parse_vlan_header_def split: option.splits if_splits)
  show "EthernetFrame_serialize f = bs"
  proof (cases "vlan_tag f")
    case None
    then have "read_big_endian bs ether_type_offset = Some (ether_type f)" "offset = header_size"
      using h by (auto simp: parse_vlan_header_def split: option.splits if_splits)
    then show ?thesis
      using None cut6 f(3) macs read_SomeD [of bs ether_type_offset "ether_type f"]
      by (simp add: serialize_frame frame_constants)
  next
    case (Some tag)
    then obtain tci where r: "read_big_endian bs ether_type_offset = Some EtherType_vlan_tagged"
        "read_big_endian bs vlan_control_information_offset = Some tci"
        "read_big_endian bs inner_ether_type_offset = Some (ether_type f)"
      and tag: "VlanTag_from_tag_control_information tci = Some tag" and o: "offset = tagged_header_size"
      using h by (auto simp: parse_vlan_header_def split: option.splits if_splits)
    have "drop 14 bs = take 2 (drop 14 bs) @ take 2 (drop 16 bs) @ drop 18 bs"
      using cut [of 14 bs 2] cut [of 16 bs 2] by simp
    then show ?thesis
      using Some cut6 f(3) macs o r [THEN read_SomeD] tci_from_tag(2) [OF tag]
      by (simp add: serialize_frame frame_constants)
  qed
qed

interpretation ethernet: canonical_codec EthernetFrame_serialize EthernetFrame_parse EthernetFrame_wf
  by unfold_locales (auto intro: parse_serialize_frame parse_frame_SomeD)

lemma length_serialize_frame:
  "length (EthernetFrame_serialize f) =
     (if vlan_tag f = None then header_size else tagged_header_size) + length (payload f)"
  by (cases "vlan_tag f") (simp_all add: serialize_frame frame_constants)

section \<open>Properties\<close>

text \<open>
  Property C31: the Ethernet parser accepts a byte string with a frame exactly if the frame is
  well formed and the string is its serialization. Parsing and serializing are inverse, tagged
  or not, and no two byte strings carry the same frame.
\<close>

theorem ethernet_frame_parse_iff:
  "EthernetFrame_parse bs = Some f \<longleftrightarrow> EthernetFrame_wf f \<and> EthernetFrame_serialize f = bs"
  by (rule ethernet.parse_iff)

end
