(* ===== verification/Text_Format.thy ===== *)
theory Text_Format
  imports Prelude
begin

text \<open>
  What the sources use of the standard library to print and read numbers:
  \<^verbatim>\<open>std::to_chars\<close> and \<^verbatim>\<open>std::to_string\<close> of an unsigned number (its decimal digits without
  leading zeros) and \<^verbatim>\<open>std::from_chars\<close> into an \<^verbatim>\<open>unsigned int\<close>, with the facts that relate
  a canonical digit string to the number it spells.
\<close>

section \<open>Decimal digits\<close>

definition is_digit :: "char \<Rightarrow> bool" where
  "is_digit c \<longleftrightarrow> (48 :: nat) \<le> of_char c \<and> of_char c \<le> (57 :: nat)"

definition digit_value :: "char \<Rightarrow> nat" where
  "digit_value c = of_char c - 48"

definition digit_char :: "nat \<Rightarrow> char" where
  "digit_char n = char_of (48 + n)"

fun decimal :: "nat \<Rightarrow> string" where
  "decimal n = (if n < 10 then [digit_char n] else decimal (n div 10) @ [digit_char (n mod 10)])"

definition digits_value :: "string \<Rightarrow> nat" where
  "digits_value ds = foldl (\<lambda>v c. v * 10 + digit_value c) 0 ds"

text \<open>
  \<^verbatim>\<open>std::from_chars(first, last, unsigned int&)\<close>: the longest prefix of digits is read. The
  result is the number of characters consumed and the value, or \<open>None\<close> for
  \<^verbatim>\<open>errc::invalid_argument\<close> (no digit) and \<^verbatim>\<open>errc::result_out_of_range\<close>.
\<close>

definition from_chars_unsigned :: "string \<Rightarrow> (nat \<times> nat) option" where
  "from_chars_unsigned s =
     (let ds = takeWhile is_digit s in
      if ds = [] \<or> digits_value ds \<ge> 2 ^ 32 then None else Some (length ds, digits_value ds))"

definition canonical_digits :: "string \<Rightarrow> bool" where
  "canonical_digits ds \<longleftrightarrow>
     ds \<noteq> [] \<and> list_all is_digit ds \<and> (length ds > 1 \<longrightarrow> hd ds \<noteq> CHR ''0'')"

declare decimal.simps [simp del]

section \<open>Digit strings and numbers\<close>

lemma digit_char_props [simp]:
  assumes "n < 10"
  shows "is_digit (digit_char n)" and "digit_value (digit_char n) = n"
proof -
  have "(of_char (digit_char n) :: nat) = 48 + n"
    using assms by (simp add: digit_char_def)
  then show "is_digit (digit_char n)" "digit_value (digit_char n) = n"
    using assms by (simp_all add: is_digit_def digit_value_def)
qed

lemma digit_char_digit_value [simp]: "is_digit c \<Longrightarrow> digit_char (digit_value c) = c"
  by (simp add: is_digit_def digit_value_def digit_char_def)

lemma digit_value_less [simp]: "is_digit c \<Longrightarrow> digit_value c < 10"
  by (auto simp: is_digit_def digit_value_def)

lemma digit_value_0_iff: "is_digit c \<Longrightarrow> digit_value c = 0 \<longleftrightarrow> c = CHR ''0''"
proof
  assume "is_digit c" "digit_value c = 0"
  then have "(of_char c :: nat) = of_char (CHR ''0'')" by (simp add: is_digit_def digit_value_def)
  then show "c = CHR ''0''" by (simp only: of_char_eq_iff)
qed (simp add: digit_value_def)

lemma digits_value_Nil [simp]: "digits_value [] = 0"
  by (simp add: digits_value_def)

lemma digits_value_snoc [simp]: "digits_value (ds @ [c]) = digits_value ds * 10 + digit_value c"
  by (simp add: digits_value_def)

lemma digits_value_pos:
  "list_all is_digit ds \<Longrightarrow> ds \<noteq> [] \<Longrightarrow> hd ds \<noteq> CHR ''0'' \<Longrightarrow> digits_value ds > 0"
proof (induction ds rule: rev_induct)
  case (snoc c ds)
  then show ?case
    using digit_value_0_iff [of c] by (cases "ds = []") (auto simp: digits_value_def)
qed simp

lemma decimal_digits_value: "canonical_digits ds \<Longrightarrow> decimal (digits_value ds) = ds"
proof (induction ds rule: rev_induct)
  case (snoc c ds)
  show ?case
  proof (cases "ds = []")
    case True
    then show ?thesis using snoc.prems by (simp add: canonical_digits_def digits_value_def decimal.simps)
  next
    case False
    then have "canonical_digits ds" and pos: "digits_value ds > 0"
      using snoc.prems digits_value_pos [of ds] by (auto simp: canonical_digits_def)
    then have "decimal (digits_value ds) = ds" using snoc.IH by simp
    moreover have "is_digit c" using snoc.prems by (simp add: canonical_digits_def)
    moreover have "(digits_value ds * 10 + digit_value c) div 10 = digits_value ds"
      and "(digits_value ds * 10 + digit_value c) mod 10 = digit_value c"
      using digit_value_less [OF \<open>is_digit c\<close>] by simp_all
    ultimately show ?thesis using pos by (simp add: decimal.simps [of "_ + _"])
  qed
qed (simp add: canonical_digits_def)

lemma decimal_props:
  "digits_value (decimal n) = n \<and> list_all is_digit (decimal n) \<and> decimal n \<noteq> [] \<and>
   (n > 0 \<longrightarrow> hd (decimal n) \<noteq> CHR ''0'')"
proof (induction n rule: decimal.induct)
  case (1 n)
  show ?case
  proof (cases "n < 10")
    case True
    then show ?thesis
      using digit_value_0_iff [of "digit_char n"] by (auto simp: decimal.simps digits_value_def)
  next
    case False
    then have ih: "digits_value (decimal (n div 10)) = n div 10" "list_all is_digit (decimal (n div 10))"
      "decimal (n div 10) \<noteq> []" "hd (decimal (n div 10)) \<noteq> CHR ''0''"
      using 1 by auto
    with False show ?thesis by (simp add: decimal.simps [of n])
  qed
qed

lemma digits_value_decimal [simp]: "digits_value (decimal n) = n"
  and decimal_digits [simp]: "list_all is_digit (decimal n)"
  and decimal_not_Nil [simp]: "decimal n \<noteq> []"
  using decimal_props by blast+

lemma canonical_digits_decimal [simp]: "canonical_digits (decimal n)"
proof (cases "n = 0")
  case True
  then show ?thesis by (simp add: canonical_digits_def decimal.simps)
next
  case False
  then show ?thesis using decimal_props [of n] by (simp add: canonical_digits_def)
qed

lemma canonical_digits_iff: "canonical_digits ds \<longleftrightarrow> ds = decimal (digits_value ds)"
  using decimal_digits_value canonical_digits_decimal by metis

lemma length_decimal_byte: "n < 1000 \<Longrightarrow> length (decimal n) \<le> 3"
  by (simp add: decimal.simps [of n] decimal.simps [of "n div 10"] decimal.simps [of "n div 10 div 10"])

lemma list_all_takeWhile: "list_all P xs \<Longrightarrow> takeWhile P xs = xs"
  by (simp add: list_all_iff)

lemma from_chars_decimal [simp]:
  "n < 2 ^ 32 \<Longrightarrow> from_chars_unsigned (decimal n) = Some (length (decimal n), n)"
  by (simp add: from_chars_unsigned_def list_all_takeWhile)

lemma from_chars_all:
  assumes "from_chars_unsigned s = Some (length s, v)"
  shows "list_all is_digit s \<and> s \<noteq> [] \<and> v = digits_value s"
proof -
  have l: "length (takeWhile is_digit s) = length s" and v: "v = digits_value (takeWhile is_digit s)"
    and n: "takeWhile is_digit s \<noteq> []"
    using assms by (auto simp: from_chars_unsigned_def Let_def split: if_splits)
  have "takeWhile is_digit s = s" using l by (metis takeWhile_eq_take take_all_iff order_refl)
  then show ?thesis using v n by (metis list_all_iff takeWhile_eq_all_conv)
qed

end
