(* ===== verification/Ipv4_Address.thy ===== *)
theory Ipv4_Address
  imports Wire Text_Format
begin

unbundle bit_operations_syntax

text \<open>
  \<^verbatim>\<open>network/ipv4_address.hpp\<close> and \<^verbatim>\<open>ipv4_address.cpp\<close>: the address value, its octets, its
  classes, its order (the key order of the ARP cache) and the dotted-decimal text form. The
  parser is the index-based double loop of the source; it is shown to accept exactly the
  strings that the printer produces.
\<close>

section \<open>The value\<close>

datatype Ipv4Address = Ipv4Address (Ipv4Address_value: u32)

definition Ipv4Address_of_octets :: "u8 \<Rightarrow> u8 \<Rightarrow> u8 \<Rightarrow> u8 \<Rightarrow> Ipv4Address" where
  "Ipv4Address_of_octets a b c d =
     Ipv4Address (push_bit 24 (ucast a) OR push_bit 16 (ucast b) OR push_bit 8 (ucast c) OR ucast d)"

definition Ipv4Address_octets :: "Ipv4Address \<Rightarrow> bytes" where
  "Ipv4Address_octets a =
     (let v = Ipv4Address_value a in
      [ucast (drop_bit 24 v), ucast (drop_bit 16 v AND 0xFF), ucast (drop_bit 8 v AND 0xFF),
       ucast (v AND 0xFF)])"

definition Ipv4Address_is_unspecified :: "Ipv4Address \<Rightarrow> bool" where
  "Ipv4Address_is_unspecified a \<longleftrightarrow> Ipv4Address_value a = 0"

definition Ipv4Address_is_loopback :: "Ipv4Address \<Rightarrow> bool" where
  "Ipv4Address_is_loopback a \<longleftrightarrow> (Ipv4Address_value a AND 0xFF000000) = 0x7F000000"

definition Ipv4Address_is_multicast :: "Ipv4Address \<Rightarrow> bool" where
  "Ipv4Address_is_multicast a \<longleftrightarrow> (Ipv4Address_value a AND 0xF0000000) = 0xE0000000"

definition Ipv4Address_is_limited_broadcast :: "Ipv4Address \<Rightarrow> bool" where
  "Ipv4Address_is_limited_broadcast a \<longleftrightarrow> Ipv4Address_value a = 0xFFFFFFFF"

instantiation Ipv4Address :: linorder
begin

definition less_Ipv4Address :: "Ipv4Address \<Rightarrow> Ipv4Address \<Rightarrow> bool" where
  "less_Ipv4Address a b \<longleftrightarrow> Ipv4Address_value a < Ipv4Address_value b"

definition less_eq_Ipv4Address :: "Ipv4Address \<Rightarrow> Ipv4Address \<Rightarrow> bool" where
  "less_eq_Ipv4Address a b \<longleftrightarrow> Ipv4Address_value a \<le> Ipv4Address_value b"

instance
  by standard (auto simp: less_Ipv4Address_def less_eq_Ipv4Address_def intro: Ipv4Address.expand)

end

section \<open>The text form\<close>

text \<open>
  The inner loop of the parser reads the digits of one octet; it yields the position after
  them, the value and the number of digits. The value is kept in a \<^verbatim>\<open>uint16_t\<close>.
\<close>

function octet_loop :: "string \<Rightarrow> nat \<Rightarrow> nat \<Rightarrow> nat \<Rightarrow> (nat \<times> nat \<times> nat) option" where
  "octet_loop text position octet_value digit_count =
     (if position < length text \<and> text ! position \<noteq> CHR ''.'' then
        (let character = text ! position in
         if \<not> is_digit character then None
         else if digit_count = 3 then None
         else
           let octet_value' = (octet_value * 10 + digit_value character) mod 2 ^ 16 in
           if octet_value' > 255 then None
           else octet_loop text (position + 1) octet_value' (digit_count + 1))
      else Some (position, octet_value, digit_count))"
  by pat_completeness auto
termination
  by (relation "measure (\<lambda>(text, position, _, _). length text - position)") auto

text \<open>The outer loop over the four octets; the octets read so far are accumulated.\<close>

function address_loop :: "string \<Rightarrow> nat \<Rightarrow> nat \<Rightarrow> bytes \<Rightarrow> bytes option" where
  "address_loop text octet_index position octets =
     (if octet_index < 4 then
        (if position \<ge> length text then None
         else case octet_loop text position 0 0 of
           None \<Rightarrow> None
         | Some (position', octet_value, digit_count) \<Rightarrow>
             if digit_count = 0 then None
             else if digit_count > 1 \<and> text ! position = CHR ''0'' then None
             else
               let octets' = octets @ [of_nat octet_value] in
               if octet_index + 1 = 4 then
                 (if position' \<noteq> length text then None
                  else address_loop text (octet_index + 1) position' octets')
               else if position' \<ge> length text \<or> text ! position' \<noteq> CHR ''.'' then None
               else address_loop text (octet_index + 1) (position' + 1) octets')
      else Some octets)"
  by pat_completeness auto
termination
  by (relation "measure (\<lambda>(_, octet_index, _, _). 4 - octet_index)") auto

definition Ipv4Address_parse :: "string \<Rightarrow> Ipv4Address option" where
  "Ipv4Address_parse text =
     (case address_loop text 0 0 [] of
        None \<Rightarrow> None
      | Some octets \<Rightarrow>
          Some (Ipv4Address_of_octets (octets ! 0) (octets ! 1) (octets ! 2) (octets ! 3)))"

definition Ipv4Address_to_string :: "Ipv4Address \<Rightarrow> string" where
  "Ipv4Address_to_string a =
     fold (\<lambda>index text.
        text @ decimal (unat (Ipv4Address_octets a ! index)) @ (if index + 1 < 4 then ''.'' else []))
      [0..<4] []"

declare octet_loop.simps [simp del] address_loop.simps [simp del]

section \<open>Octets\<close>

lemma octets_of_octets [simp]:
  "Ipv4Address_octets (Ipv4Address_of_octets a b c d) = [a, b, c, d]"
  by (auto simp: Ipv4Address_octets_def Ipv4Address_of_octets_def Let_def bit_simps and_masks
      not_bit_beyond intro!: bit_word_eqI)

lemma of_octets_octets [simp]:
  "Ipv4Address_of_octets (Ipv4Address_octets a ! 0) (Ipv4Address_octets a ! Suc 0)
     (Ipv4Address_octets a ! 2) (Ipv4Address_octets a ! 3) = a"
proof (rule Ipv4Address.expand, rule bit_word_eqI)
  fix n assume "n < LENGTH(32)"
  then consider "n < 8" | "8 \<le> n" "n < 16" | "16 \<le> n" "n < 24" | "24 \<le> n" "n < 32" by fastforce
  then show "bit (Ipv4Address_value (Ipv4Address_of_octets (Ipv4Address_octets a ! 0)
      (Ipv4Address_octets a ! Suc 0) (Ipv4Address_octets a ! 2) (Ipv4Address_octets a ! 3))) n =
    bit (Ipv4Address_value a) n"
    by cases (auto simp: Ipv4Address_octets_def Ipv4Address_of_octets_def Let_def bit_simps and_masks
        not_bit_beyond)
qed

lemma length_octets [simp]: "length (Ipv4Address_octets a) = 4"
  by (simp add: Ipv4Address_octets_def Let_def)

lemma octets_be_bytes: "Ipv4Address_octets a = be_bytes (Ipv4Address_value a)"
  by (auto simp: Ipv4Address_octets_def Let_def be_bytes_def upt_rec bit_simps and_masks intro!: bit_word_eqI)

section \<open>The parser reads back what the printer writes, and nothing else\<close>

lemma Ipv4Address_to_string_eq:
  "Ipv4Address_octets a = [w, x, y, z] \<Longrightarrow>
   Ipv4Address_to_string a = decimal (unat w) @ ''.'' @ decimal (unat x) @ ''.'' @
     decimal (unat y) @ ''.'' @ decimal (unat z)"
  by (simp add: Ipv4Address_to_string_def upt_rec)

lemma octet_loop_digits:
  assumes "list_all is_digit ds" and "drop position s = ds @ rest"
    and "rest = [] \<or> hd rest = CHR ''.''"
    and "digits_value (pre @ ds) \<le> 255" and "length (pre @ ds) \<le> 3"
  shows "octet_loop s position (digits_value pre) (length pre) =
    Some (position + length ds, digits_value (pre @ ds), length (pre @ ds))"
  using assms
proof (induction ds arbitrary: position pre)
  case Nil
  then show ?case by (subst octet_loop.simps) (auto simp: hd_drop_conv_nth)
next
  case (Cons c ds)
  have pos: "position < length s" using Cons.prems(2) by (metis append_Cons drop_all list.discI not_less)
  then have c: "s ! position = c" and rest: "drop (position + 1) s = ds @ rest"
    using Cons.prems(2) by (simp_all add: Cons_nth_drop_Suc [symmetric])
  have dot: "c \<noteq> CHR ''.''" using Cons.prems(1) by (auto simp: is_digit_def)
  have le: "digits_value (pre @ [c]) \<le> digits_value ((pre @ [c]) @ ds)"
    by (induction ds rule: rev_induct) (auto simp flip: append_assoc)
  then have small: "digits_value pre * 10 + digit_value c \<le> 255" using Cons.prems(4) by simp
  show ?case
    using Cons.IH [of "position + 1" "pre @ [c]"] Cons.prems pos c rest dot small
    by (subst octet_loop.simps) (simp add: Let_def)
qed

lemma octet_loop_reads:
  assumes "octet_loop s position v k = Some r"
    and "v = digits_value pre" and "list_all is_digit pre" and "length pre = k" and "v \<le> 255" and "k \<le> 3"
  shows "\<exists>ds rest. drop position s = ds @ rest \<and> list_all is_digit ds \<and>
    r = (position + length ds, digits_value (pre @ ds), length (pre @ ds)) \<and>
    digits_value (pre @ ds) \<le> 255 \<and> length (pre @ ds) \<le> 3 \<and> (rest = [] \<or> hd rest = CHR ''.'')"
  using assms
proof (induction s position v k arbitrary: pre rule: octet_loop.induct)
  case (1 s position v k)
  show ?case
  proof (cases "position < length s \<and> s ! position \<noteq> CHR ''.''")
    case False
    then have "r = (position, v, k)" using "1.prems"(1) by (subst (asm) octet_loop.simps) auto
    moreover have "drop position s = [] \<or> hd (drop position s) = CHR ''.''"
      using False by (cases "position < length s") (auto simp: hd_drop_conv_nth)
    ultimately show ?thesis
      using "1.prems" by (intro exI [of _ "[]"] exI [of _ "drop position s"]) auto
  next
    case True
    let ?c = "s ! position"
    let ?v = "(v * 10 + digit_value ?c) mod 2 ^ 16"
    have d: "is_digit ?c" and k: "k \<noteq> 3" and v': "\<not> ?v > 255"
      and go: "octet_loop s (position + 1) ?v (k + 1) = Some r"
      using True "1.prems"(1) by (subst (asm) octet_loop.simps, simp add: Let_def split: if_splits)+
    have "v * 10 + digit_value ?c < 2 ^ 16" using "1.prems"(5) digit_value_less [OF d] by simp
    then have v: "?v = digits_value (pre @ [?c])" using "1.prems"(2) by simp
    obtain ds rest where "drop (position + 1) s = ds @ rest" "list_all is_digit ds"
      "r = (position + 1 + length ds, digits_value ((pre @ [?c]) @ ds), length ((pre @ [?c]) @ ds))"
      "digits_value ((pre @ [?c]) @ ds) \<le> 255" "length ((pre @ [?c]) @ ds) \<le> 3"
      "rest = [] \<or> hd rest = CHR ''.''"
      using "1.IH" [OF True refl _ k refl v' go v] d k v' "1.prems" by fastforce
    moreover have "drop position s = ?c # drop (position + 1) s"
      using True by (simp add: Cons_nth_drop_Suc)
    ultimately show ?thesis using d by (intro exI [of _ "?c # ds"] exI [of _ rest]) auto
  qed
qed

lemma octet_loop_decimal:
  assumes "drop position s = decimal v @ rest" and "v \<le> 255" and "rest = [] \<or> hd rest = CHR ''.''"
  shows "octet_loop s position 0 0 = Some (position + length (decimal v), v, length (decimal v))"
  using octet_loop_digits [of "decimal v" position s rest "[]"] assms length_decimal_byte [of v] by simp

lemma octet_loop_canonical:
  assumes "octet_loop s position 0 0 = Some (position', v, k)" and "k \<noteq> 0"
    and "\<not> (k > 1 \<and> s ! position = CHR ''0'')"
  obtains rest where "drop position s = decimal v @ rest" and "v \<le> 255"
    and "position' = position + length (decimal v)" and "k = length (decimal v)"
proof -
  obtain ds rest where ds: "drop position s = ds @ rest" "list_all is_digit ds"
    "position' = position + length ds" "v = digits_value ds" "k = length ds" "v \<le> 255"
    using octet_loop_reads [OF assms(1), of "[]"] by auto
  then have "ds \<noteq> []" using assms(2) by auto
  then have "s ! position = hd ds"
    using ds(1) by (metis append_is_Nil_conv drop_all hd_append2 hd_drop_conv_nth not_less)
  then have "canonical_digits ds" using ds \<open>ds \<noteq> []\<close> assms(3) by (auto simp: canonical_digits_def)
  then have "ds = decimal v" using ds(4) by (simp add: decimal_digits_value)
  then show ?thesis using that ds by blast
qed

text \<open>One round of the outer loop, in both directions.\<close>

lemma address_loop_decimal:
  assumes "drop position s = decimal v @ CHR ''.'' # rest" and "v \<le> 255" and "i < 3"
  shows "address_loop s i position os =
    address_loop s (i + 1) (position + length (decimal v) + 1) (os @ [of_nat v])"
proof -
  have pos: "position < length s" using assms(1) by (metis drop_all list.distinct(1) Nil_is_append_conv not_less)
  have "drop (position + length (decimal v)) s = CHR ''.'' # rest"
    using assms(1) by (metis add.commute append_eq_conv_conj drop_drop)
  then have dot: "position + length (decimal v) < length s" "s ! (position + length (decimal v)) = CHR ''.''"
    by (metis drop_all list.distinct(1) not_less, metis drop_all hd_drop_conv_nth list.distinct(1) list.sel(1) not_less)
  have "s ! position = hd (decimal v)" using assms(1) pos by (metis decimal_not_Nil hd_append2 hd_drop_conv_nth)
  moreover have "\<not> (length (decimal v) > 1 \<and> hd (decimal v) = CHR ''0'')"
    using canonical_digits_decimal [of v] by (auto simp: canonical_digits_def)
  ultimately show ?thesis
    using octet_loop_decimal [OF assms(1,2)] assms(3) pos dot
    by (subst address_loop.simps) (auto simp: Let_def)
qed

lemma address_loop_last:
  assumes "drop position s = decimal v" and "v \<le> 255"
  shows "address_loop s 3 position os = Some (os @ [of_nat v])"
proof -
  have pos: "position < length s" using assms(1) by (metis drop_all decimal_not_Nil not_less)
  then have "length (decimal v) = length s - position" using assms(1) by (metis length_drop)
  then have fin: "position + length (decimal v) = length s" using pos by simp
  have "s ! position = hd (decimal v)" using assms(1) pos by (metis hd_drop_conv_nth)
  moreover have "\<not> (length (decimal v) > 1 \<and> hd (decimal v) = CHR ''0'')"
    using canonical_digits_decimal [of v] by (auto simp: canonical_digits_def)
  ultimately show ?thesis
    using octet_loop_decimal [of position s v "[]"] assms pos fin
    by (subst address_loop.simps) (auto simp: Let_def address_loop.simps [of _ 4])
qed

lemma address_loop_SomeD:
  assumes "address_loop s i position os = Some out" and "i < 3"
  obtains v rest where "drop position s = decimal v @ CHR ''.'' # rest" and "v \<le> 255"
    and "address_loop s (i + 1) (position + length (decimal v) + 1) (os @ [of_nat v]) = Some out"
proof -
  obtain position' v k where o: "octet_loop s position 0 0 = Some (position', v, k)" and k: "k \<noteq> 0"
    and z: "\<not> (k > 1 \<and> s ! position = CHR ''0'')"
    and dot: "position' < length s" "s ! position' = CHR ''.''"
    and go: "address_loop s (i + 1) (position' + 1) (os @ [of_nat v]) = Some out"
    using assms by (subst (asm) address_loop.simps) (auto simp: Let_def split: option.splits if_splits)
  obtain rest where rest: "drop position s = decimal v @ rest" "v \<le> 255"
    "position' = position + length (decimal v)"
    using octet_loop_canonical [OF o k z] by blast
  have "rest = drop position' s"
    using rest by (metis add.commute append_eq_conv_conj drop_drop)
  then have "rest = CHR ''.'' # drop (Suc position') s" using dot by (simp add: Cons_nth_drop_Suc [symmetric])
  then show ?thesis using that rest go by auto
qed

lemma address_loop_lastD:
  assumes "address_loop s 3 position os = Some out"
  obtains v where "drop position s = decimal v" and "v \<le> 255" and "out = os @ [of_nat v]"
proof -
  obtain position' v k where o: "octet_loop s position 0 0 = Some (position', v, k)" and k: "k \<noteq> 0"
    and z: "\<not> (k > 1 \<and> s ! position = CHR ''0'')" and fin: "position' = length s" and pos: "position < length s"
    and go: "address_loop s 4 position' (os @ [of_nat v]) = Some out"
    using assms by (subst (asm) address_loop.simps) (auto simp: Let_def split: option.splits if_splits)
  obtain rest where rest: "drop position s = decimal v @ rest" "v \<le> 255"
    "position' = position + length (decimal v)"
    using octet_loop_canonical [OF o k z] by blast
  have "length (drop position s) = length (decimal v)" using rest(3) fin by simp
  then have "rest = []" using rest(1) by simp
  then show ?thesis using that rest go by (auto simp: address_loop.simps [of _ 4])
qed

lemma drop_next: "drop p s = xs @ c # rest \<Longrightarrow> drop (p + length xs + 1) s = rest"
  by (metis add.commute append_eq_conv_conj drop_Suc_Cons drop_drop plus_1_eq_Suc add.assoc drop0)

lemma ipv4_parse_to_string: "Ipv4Address_parse (Ipv4Address_to_string a) = Some a"
proof -
  obtain w x y z where o: "Ipv4Address_octets a = [w, x, y, z]"
    by (auto simp: Ipv4Address_octets_def Let_def)
  have b: "unat v \<le> 255" for v :: u8
    using unat_bounds(1) [of v] by simp
  define s where "s = Ipv4Address_to_string a"
  have s0: "drop 0 s = decimal (unat w) @ CHR ''.'' # decimal (unat x) @ CHR ''.'' #
      decimal (unat y) @ CHR ''.'' # decimal (unat z)"
    by (simp add: s_def Ipv4Address_to_string_eq [OF o])
  note s1 = drop_next [OF s0]
  note s2 = drop_next [OF s1]
  note s3 = drop_next [OF s2]
  have "address_loop s 0 0 [] = Some [w, x, y, z]"
    using address_loop_decimal [OF s0 b, of 0 "[]"] address_loop_decimal [OF s1 b, of 1 "[w]"]
      address_loop_decimal [OF s2 b, of 2 "[w, x]"] address_loop_last [OF s3 b, of "[w, x, y]"]
    by (simp add: numeral_2_eq_2 numeral_3_eq_3)
  then show ?thesis
    using of_octets_octets [of a] by (simp add: Ipv4Address_parse_def s_def [symmetric] o)
qed

lemma ipv4_to_string_parse:
  assumes "Ipv4Address_parse s = Some a"
  shows "Ipv4Address_to_string a = s"
proof -
  obtain out where out: "address_loop s 0 0 [] = Some out"
    and a: "a = Ipv4Address_of_octets (out ! 0) (out ! 1) (out ! 2) (out ! 3)"
    using assms by (auto simp: Ipv4Address_parse_def split: option.splits)
  obtain w r1 where w: "drop 0 s = decimal w @ CHR ''.'' # r1" "w \<le> 255"
    and l1: "address_loop s 1 (0 + length (decimal w) + 1) [of_nat w] = Some out"
    using address_loop_SomeD [OF out] by auto
  obtain x r2 where x: "drop (0 + length (decimal w) + 1) s = decimal x @ CHR ''.'' # r2" "x \<le> 255"
    and l2: "address_loop s 2 (0 + length (decimal w) + 1 + length (decimal x) + 1) [of_nat w, of_nat x] = Some out"
    using address_loop_SomeD [OF l1] by (auto simp: numeral_2_eq_2)
  obtain y r3 where y: "drop (0 + length (decimal w) + 1 + length (decimal x) + 1) s = decimal y @ CHR ''.'' # r3" "y \<le> 255"
    and l3: "address_loop s 3 (0 + length (decimal w) + 1 + length (decimal x) + 1 + length (decimal y) + 1)
      [of_nat w, of_nat x, of_nat y] = Some out"
    using address_loop_SomeD [OF l2] by (auto simp: numeral_3_eq_3 numeral_2_eq_2)
  obtain z where z: "drop (0 + length (decimal w) + 1 + length (decimal x) + 1 + length (decimal y) + 1) s = decimal z"
    "z \<le> 255" "out = [of_nat w, of_nat x, of_nat y, of_nat z]"
    using address_loop_lastD [OF l3] by auto
  have r: "r1 = decimal x @ CHR ''.'' # r2" "r2 = decimal y @ CHR ''.'' # r3" "r3 = decimal z"
    using drop_next [OF w(1)] drop_next [OF x(1)] drop_next [OF y(1)] x(1) y(1) z(1) by simp_all
  have u: "unat (of_nat v :: u8) = v" if "v \<le> 255" for v
    using that by (simp add: unat_of_nat take_bit_eq_mod)
  have "Ipv4Address_octets a = [of_nat w, of_nat x, of_nat y, of_nat z]"
    by (simp add: a z(3) numeral_2_eq_2 numeral_3_eq_3)
  then show ?thesis
    using w(1) r u [OF w(2)] u [OF x(2)] u [OF y(2)] u [OF z(2)]
    by (simp add: Ipv4Address_to_string_eq)
qed

section \<open>Properties\<close>

text \<open>
  The address parser accepts a string with an address exactly if the string is
  the printed form of the address. There is one spelling per address: no leading zeros, no
  octet above 255, no other separators, nothing before or after.
\<close>

lemma ipv4_address_text_iff:
  "Ipv4Address_parse s = Some a \<longleftrightarrow> Ipv4Address_to_string a = s"
  using ipv4_parse_to_string ipv4_to_string_parse by blast

end
