(* ===== verification/Arp_Packet.thy ===== *)
theory Arp_Packet
  imports Ethernet_Frame Ipv4_Address
begin

text \<open>
  \<^verbatim>\<open>network/arp_packet.cpp\<close>: ARP requests and replies for IPv4 over Ethernet, their checked
  construction and their 28-byte wire format, which is a canonical codec.
\<close>

section \<open>The packet\<close>

datatype ArpOperation = request | reply

definition ArpOperation_value :: "ArpOperation \<Rightarrow> u16" where
  "ArpOperation_value op = (case op of request \<Rightarrow> 1 | reply \<Rightarrow> 2)"

record ArpPacket =
  operation :: ArpOperation
  sender_mac :: MacAddress
  sender_ip :: Ipv4Address
  target_mac :: MacAddress
  target_ip :: Ipv4Address

definition ArpPacket_create_request :: "MacAddress \<Rightarrow> Ipv4Address \<Rightarrow> Ipv4Address \<Rightarrow> ArpPacket option" where
  "ArpPacket_create_request smac sip tip =
     (if \<not> is_valid_unicast smac then None
      else Some \<lparr>operation = request, sender_mac = smac, sender_ip = sip,
        target_mac = unspecified_mac, target_ip = tip\<rparr>)"

definition ArpPacket_create_reply ::
  "MacAddress \<Rightarrow> Ipv4Address \<Rightarrow> MacAddress \<Rightarrow> Ipv4Address \<Rightarrow> ArpPacket option" where
  "ArpPacket_create_reply smac sip tmac tip =
     (if \<not> is_valid_unicast smac \<or> \<not> is_valid_unicast tmac then None
      else Some \<lparr>operation = reply, sender_mac = smac, sender_ip = sip,
        target_mac = tmac, target_ip = tip\<rparr>)"

definition create_parsed_packet ::
  "ArpOperation \<Rightarrow> MacAddress \<Rightarrow> Ipv4Address \<Rightarrow> MacAddress \<Rightarrow> Ipv4Address \<Rightarrow> ArpPacket option" where
  "create_parsed_packet op smac sip tmac tip =
     (if op = request then
        (if tmac \<noteq> unspecified_mac then None else ArpPacket_create_request smac sip tip)
      else ArpPacket_create_reply smac sip tmac tip)"

section \<open>The wire format\<close>

definition ethernet_hardware_type :: u16 where "ethernet_hardware_type = 1"
definition ethernet_address_length :: u8 where "ethernet_address_length = 6"
definition ipv4_address_length :: u8 where "ipv4_address_length = 4"
definition hardware_type_offset :: nat where "hardware_type_offset = 0"
definition protocol_type_offset :: nat where "protocol_type_offset = 2"
definition hardware_length_offset :: nat where "hardware_length_offset = 4"
definition protocol_length_offset :: nat where "protocol_length_offset = 5"
definition operation_offset :: nat where "operation_offset = 6"
definition sender_mac_offset :: nat where "sender_mac_offset = 8"
definition sender_ip_offset :: nat where "sender_ip_offset = 14"
definition target_mac_offset :: nat where "target_mac_offset = 18"
definition target_ip_offset :: nat where "target_ip_offset = 24"
definition arp_serialized_size :: nat where "arp_serialized_size = 28"

lemmas arp_constants [codec_defs] =
  ethernet_hardware_type_def ethernet_address_length_def ipv4_address_length_def
  hardware_type_offset_def protocol_type_offset_def hardware_length_offset_def
  protocol_length_offset_def operation_offset_def sender_mac_offset_def sender_ip_offset_def
  target_mac_offset_def target_ip_offset_def arp_serialized_size_def

definition ArpPacket_parse :: "bytes \<Rightarrow> ArpPacket option" where
  "ArpPacket_parse bs =
     (if length bs \<noteq> arp_serialized_size then None
      else case (read_big_endian bs hardware_type_offset :: u16 option,
                 read_big_endian bs protocol_type_offset :: u16 option,
                 read_big_endian bs operation_offset :: u16 option,
                 read_big_endian bs sender_ip_offset :: u32 option,
                 read_big_endian bs target_ip_offset :: u32 option) of
        (Some hardware_type, Some protocol_type, Some op, Some sip, Some tip) \<Rightarrow>
          if hardware_type \<noteq> ethernet_hardware_type \<or> protocol_type \<noteq> EtherType_ipv4 \<or>
             bs ! hardware_length_offset \<noteq> ethernet_address_length \<or>
             bs ! protocol_length_offset \<noteq> ipv4_address_length \<or>
             (op \<noteq> ArpOperation_value request \<and> op \<noteq> ArpOperation_value reply)
          then None
          else create_parsed_packet (if op = ArpOperation_value request then request else reply)
                 (read_mac_address bs sender_mac_offset) (Ipv4Address sip)
                 (read_mac_address bs target_mac_offset) (Ipv4Address tip)
      | _ \<Rightarrow> None)"

definition ArpPacket_serialize :: "ArpPacket \<Rightarrow> bytes" where
  "ArpPacket_serialize p =
     (let (wrote_fields, bs) = write_fields
            [\<lambda>bs. write_big_endian ethernet_hardware_type bs hardware_type_offset,
             \<lambda>bs. write_big_endian EtherType_ipv4 bs protocol_type_offset,
             \<lambda>bs. write_big_endian (ArpOperation_value (operation p)) bs operation_offset,
             \<lambda>bs. write_big_endian (Ipv4Address_value (sender_ip p)) bs sender_ip_offset,
             \<lambda>bs. write_big_endian (Ipv4Address_value (target_ip p)) bs target_ip_offset]
            (replicate arp_serialized_size 0)
      in if \<not> wrote_fields then []
         else
           let bs = bs[hardware_length_offset := ethernet_address_length];
               bs = bs[protocol_length_offset := ipv4_address_length];
               bs = write_mac_address (sender_mac p) bs sender_mac_offset
           in write_mac_address (target_mac p) bs target_mac_offset)"

section \<open>The format is a canonical codec\<close>

definition ArpPacket_wf :: "ArpPacket \<Rightarrow> bool" where
  "ArpPacket_wf p \<longleftrightarrow> is_valid_unicast (sender_mac p) \<and>
     (case operation p of request \<Rightarrow> target_mac p = unspecified_mac
      | reply \<Rightarrow> is_valid_unicast (target_mac p))"

lemma create_parsed_packet_iff:
  "create_parsed_packet op smac sip tmac tip = Some p \<longleftrightarrow>
     ArpPacket_wf p \<and> operation p = op \<and> sender_mac p = smac \<and> sender_ip p = sip \<and>
     target_mac p = tmac \<and> target_ip p = tip"
  by (cases op) (auto simp: create_parsed_packet_def ArpPacket_create_request_def
      ArpPacket_create_reply_def ArpPacket_wf_def)

lemma ArpOperation_value_inject: "ArpOperation_value a = ArpOperation_value b \<longleftrightarrow> a = b"
  by (cases a; cases b) (simp_all add: ArpOperation_value_def)

lemma serialize_arp:
  "ArpPacket_serialize p =
     be_bytes ethernet_hardware_type @ be_bytes EtherType_ipv4 @
     [ethernet_address_length, ipv4_address_length] @
     be_bytes (ArpOperation_value (operation p)) @
     mac_bytes (sender_mac p) @ be_bytes (Ipv4Address_value (sender_ip p)) @
     mac_bytes (target_mac p) @ be_bytes (Ipv4Address_value (target_ip p))"
  by (simp add: ArpPacket_serialize_def write_mac_address_def wire_simps Let_def arp_constants
      replicate_numeral list_update_append)

lemma parse_serialize_arp:
  assumes "ArpPacket_wf p"
  shows "ArpPacket_parse (ArpPacket_serialize p) = Some p"
proof -
  let ?bs = "ArpPacket_serialize p"
  have "read_big_endian ?bs hardware_type_offset = Some ethernet_hardware_type"
    "read_big_endian ?bs protocol_type_offset = Some EtherType_ipv4"
    "read_big_endian ?bs operation_offset = Some (ArpOperation_value (operation p))"
    "read_big_endian ?bs sender_ip_offset = Some (Ipv4Address_value (sender_ip p))"
    "read_big_endian ?bs target_ip_offset = Some (Ipv4Address_value (target_ip p))"
    by (rule read_be_bytes_at; simp add: serialize_arp arp_constants)+
  moreover have "read_mac_address ?bs sender_mac_offset = sender_mac p"
    "read_mac_address ?bs target_mac_offset = target_mac p"
    by (rule read_mac_address_at, simp add: serialize_arp arp_constants)+
  moreover have "?bs ! hardware_length_offset = ethernet_address_length"
    "?bs ! protocol_length_offset = ipv4_address_length" "length ?bs = arp_serialized_size"
    by (simp_all add: serialize_arp arp_constants nth_append)
  moreover have "operation p \<noteq> request \<longleftrightarrow> operation p = reply" by (cases "operation p") simp_all
  ultimately show ?thesis
    using assms by (auto simp: ArpPacket_parse_def create_parsed_packet_iff ArpOperation_value_inject)
qed

lemma parse_arp_SomeD:
  assumes "ArpPacket_parse bs = Some p"
  shows "ArpPacket_wf p" and "ArpPacket_serialize p = bs"
proof -
  obtain op where len: "length bs = 28"
    and r: "read_big_endian bs hardware_type_offset = Some ethernet_hardware_type"
      "read_big_endian bs protocol_type_offset = Some EtherType_ipv4"
      "read_big_endian bs operation_offset = Some (ArpOperation_value op)"
      "read_big_endian bs sender_ip_offset = Some (Ipv4Address_value (sender_ip p))"
      "read_big_endian bs target_ip_offset = Some (Ipv4Address_value (target_ip p))"
    and b: "bs ! 4 = ethernet_address_length" "bs ! 5 = ipv4_address_length"
    and p: "create_parsed_packet op (read_mac_address bs sender_mac_offset) (sender_ip p)
      (read_mac_address bs target_mac_offset) (target_ip p) = Some p"
    using assms unfolding ArpPacket_parse_def
    by (auto simp: create_parsed_packet_iff hardware_length_offset_def protocol_length_offset_def
        arp_serialized_size_def split: option.splits if_splits)
  show "ArpPacket_wf p" using p by (simp add: create_parsed_packet_iff)
  have macs: "mac_bytes (sender_mac p) = take 6 (drop 8 bs)" "mac_bytes (target_mac p) = take 6 (drop 18 bs)"
    using p len by (auto simp: create_parsed_packet_iff arp_constants read_mac_address_bytes)
  have "take 2 (drop 4 bs) = [bs ! 4, bs ! 5]"
    using len take_2_drop [of 4 bs] by simp
  moreover have "bs = take 2 bs @ take 2 (drop 2 bs) @ take 2 (drop 4 bs) @ take 2 (drop 6 bs) @
      take 6 (drop 8 bs) @ take 4 (drop 14 bs) @ take 6 (drop 18 bs) @ take 4 (drop 24 bs)"
    using cut [of 2 bs 2] cut [of 4 bs 2] cut [of 6 bs 2] cut [of 8 bs 6] cut [of 14 bs 4]
      cut [of 18 bs 6] cut [of 24 bs 4] len by simp
  ultimately show "ArpPacket_serialize p = bs"
    using p macs b r [THEN read_SomeD]
    by (simp add: serialize_arp create_parsed_packet_iff arp_constants)
qed

interpretation arp: canonical_codec ArpPacket_serialize ArpPacket_parse ArpPacket_wf
  by unfold_locales (auto intro: parse_serialize_arp parse_arp_SomeD)

section \<open>Properties\<close>

text \<open>
  The ARP parser accepts a byte string with a packet exactly if the packet is one
  that \<open>create_request\<close> or \<open>create_reply\<close> makes and the string is its serialization.
\<close>

lemma arp_packet_parse_iff:
  "ArpPacket_parse bs = Some p \<longleftrightarrow>
     (ArpPacket_create_request (sender_mac p) (sender_ip p) (target_ip p) = Some p \<or>
      ArpPacket_create_reply (sender_mac p) (sender_ip p) (target_mac p) (target_ip p) = Some p) \<and>
     ArpPacket_serialize p = bs"
proof -
  have "ArpPacket_wf p \<longleftrightarrow>
      ArpPacket_create_request (sender_mac p) (sender_ip p) (target_ip p) = Some p \<or>
      ArpPacket_create_reply (sender_mac p) (sender_ip p) (target_mac p) (target_ip p) = Some p"
    by (cases p; cases "operation p")
      (auto simp: ArpPacket_wf_def ArpPacket_create_request_def ArpPacket_create_reply_def)
  then show ?thesis by (simp add: arp.parse_iff)
qed

end
