(* ===== verification/Internet_Checksum.thy ===== *)
theory Internet_Checksum
  imports Prelude
begin

unbundle bit_operations_syntax

text \<open>
  \<^verbatim>\<open>network/internet_checksum.cpp\<close>: the ones'-complement checksum with its 32-bit accumulator.
  The loop is related to the plain sum of the 16-bit words: the accumulator never exceeds
  \<open>0xFFFF\<close> between rounds, so the 32-bit addition never wraps, and the checksum is a function of
  that sum modulo 65535.
\<close>

section \<open>The loop\<close>

definition fold_carry :: "u32 \<Rightarrow> u32" where
  "fold_carry value = (value AND 0xFFFF) + drop_bit 16 value"

definition checksum_word :: "u8 \<Rightarrow> u8 \<Rightarrow> u16" where
  "checksum_word high low = push_bit 8 (ucast high) OR ucast low"

text \<open>The loop over pairs of bytes, then the odd byte if there is one.\<close>

fun checksum_loop :: "u32 \<Rightarrow> bytes \<Rightarrow> u32" where
  "checksum_loop acc (high # low # rest) = checksum_loop (fold_carry (acc + ucast (checksum_word high low))) rest"
| "checksum_loop acc [final] = fold_carry (acc + ucast (push_bit 8 (ucast final) :: u16))"
| "checksum_loop acc [] = acc"

definition compute_internet_checksum :: "bytes \<Rightarrow> u16" where
  "compute_internet_checksum bs = ucast (NOT (fold_carry (checksum_loop 0 bs)) AND 0xFFFF)"

definition has_valid_internet_checksum :: "bytes \<Rightarrow> bool" where
  "has_valid_internet_checksum bs \<longleftrightarrow> bs \<noteq> [] \<and> compute_internet_checksum bs = 0"

section \<open>The sum of the words\<close>

fun word_sum :: "bytes \<Rightarrow> nat" where
  "word_sum (high # low # rest) = unat high * 256 + unat low + word_sum rest"
| "word_sum [final] = unat final * 256"
| "word_sum [] = 0"

text \<open>The ones'-complement sum that a total folds to.\<close>

definition ones_sum :: "nat \<Rightarrow> nat" where
  "ones_sum t = (if t = 0 then 0 else (t - 1) mod 65535 + 1)"

lemma unat_checksum_word: "unat (checksum_word high low) = unat high * 256 + unat low"
proof -
  have "push_bit 8 (ucast high :: u16) AND ucast low = 0"
    by (rule bit_word_eqI) (auto simp: bit_simps dest: bit_imp_le_length)
  then have "checksum_word high low = push_bit 8 (ucast high) + ucast low"
    using word_plus_and_or [of "push_bit 8 (ucast high :: u16)" "ucast low"]
    by (simp add: checksum_word_def)
  then show ?thesis
    using unat_bounds(1) [of high] unat_bounds(1) [of low]
    by (simp add: unat_word_ariths push_bit_eq_mult unsigned_ucast_eq take_bit_nat_eq_self)
qed

lemma unat_checksum_final: "unat (push_bit 8 (ucast final) :: u16) = unat (final :: u8) * 256"
  using unat_checksum_word [of final 0] by (simp add: checksum_word_def)

lemma unat_fold_carry: "unat (fold_carry v) = unat v mod 65536 + unat v div 65536"
proof -
  have "unat v mod 65536 + unat v div 65536 < 2 ^ 32"
    using unat_bounds(3) [of v] mod_less_divisor [of 65536 "unat v"] div_le_dividend [of "unat v" 65536]
    by (simp add: less_mult_imp_div_less)
  then show ?thesis
    by (simp add: fold_carry_def and_masks unat_word_ariths unsigned_take_bit_eq unsigned_drop_bit_eq
        take_bit_eq_mod drop_bit_eq_div)
qed

lemma fold_carry_ones_sum:
  assumes "s \<le> 65535" and "w \<le> 65535" and "unat v = s + w"
  shows "unat (fold_carry v) = (if s + w \<ge> 65536 then s + w - 65535 else s + w)"
  using assms by (auto simp: unat_fold_carry not_le div_if mod_if)

lemma ones_sum_small: "t \<le> 65535 \<Longrightarrow> ones_sum t = t"
  by (auto simp: ones_sum_def)

lemma ones_sum_le: "ones_sum t \<le> 65535"
  using mod_less_divisor [of 65535 "t - 1"] by (auto simp: ones_sum_def Suc_le_eq simp del: mod_less_divisor)

lemma ones_sum_add: "ones_sum (ones_sum a + b) = ones_sum (a + b)"
proof (cases "a = 0")
  case False
  then have "(a - 1) + b = a + b - 1" by simp
  then show ?thesis using False mod_add_left_eq [of "a - 1" 65535 b] by (simp add: ones_sum_def)
qed (simp add: ones_sum_def)

lemma ones_sum_top_iff: "ones_sum t = 65535 \<longleftrightarrow> t > 0 \<and> 65535 dvd t"
proof (cases "t = 0")
  case False
  then obtain u where u: "t = Suc u" by (cases t) auto
  have "u mod 65535 = 65534 \<longleftrightarrow> Suc u mod 65535 = 0" by (simp add: mod_Suc)
  then show ?thesis by (simp add: ones_sum_def u mod_eq_0_iff_dvd)
qed (simp add: ones_sum_def)

lemma fold_carry_sum:
  assumes "unat acc \<le> 65535"
  shows "unat (fold_carry (acc + ucast (w :: u16))) = ones_sum (unat acc + unat w)"
proof -
  have w: "unat w \<le> 65535" using unat_bounds(2) [of w] by simp
  then have "unat (acc + ucast w) = unat acc + unat w"
    using assms by (simp add: unat_word_ariths unsigned_ucast_eq take_bit_nat_eq_self)
  then have "unat (fold_carry (acc + ucast w)) =
      (if unat acc + unat w \<ge> 65536 then unat acc + unat w - 65535 else unat acc + unat w)"
    by (rule fold_carry_ones_sum [OF assms w])
  also have "\<dots> = ones_sum (unat acc + unat w)"
    using assms w by (auto simp: ones_sum_def mod_if)
  finally show ?thesis .
qed

lemma checksum_loop_sum:
  "unat acc \<le> 65535 \<Longrightarrow> unat (checksum_loop acc bs) = ones_sum (unat acc + word_sum bs)"
proof (induction acc bs rule: checksum_loop.induct)
  case (1 acc high low rest)
  have "unat (fold_carry (acc + ucast (checksum_word high low))) =
      ones_sum (unat acc + (unat high * 256 + unat low))"
    using fold_carry_sum [OF "1.prems"] by (simp add: unat_checksum_word)
  moreover from this have "unat (fold_carry (acc + ucast (checksum_word high low))) \<le> 65535"
    by (simp add: ones_sum_le)
  ultimately show ?case using "1.IH" by (simp add: ones_sum_add add.assoc)
next
  case (2 acc final)
  then show ?case using fold_carry_sum [OF "2.prems"] by (simp add: unat_checksum_final)
qed (simp add: ones_sum_small)

lemma unat_not_u16: "unat (NOT x :: u16) = 65535 - unat x"
proof -
  have "NOT x = - 1 - x" by (simp only: not_eq_complement diff_conv_add_uminus add.commute)
  moreover have "unat (- 1 - x) = unat (- 1 :: u16) - unat x" by (rule unat_sub) simp
  moreover have "unat (- 1 :: u16) = 65535" by (simp add: unsigned_minus_1_eq_mask mask_nat_def)
  ultimately show ?thesis by (simp only:)
qed

lemma compute_internet_checksum_sum:
  "unat (compute_internet_checksum bs) = 65535 - ones_sum (word_sum bs)"
proof -
  let ?s = "fold_carry (checksum_loop 0 bs)"
  have "unat (checksum_loop 0 bs) = ones_sum (word_sum bs)" using checksum_loop_sum [of 0 bs] by simp
  then have s: "unat ?s = ones_sum (word_sum bs)"
    using ones_sum_le [of "word_sum bs"] by (simp add: unat_fold_carry)
  have "compute_internet_checksum bs = NOT (ucast ?s)"
    by (rule bit_word_eqI) (auto simp: compute_internet_checksum_def and_masks bit_simps)
  moreover have "unat (ucast ?s :: u16) = ones_sum (word_sum bs)"
    using s ones_sum_le [of "word_sum bs"] by (simp add: unsigned_ucast_eq take_bit_nat_eq_self)
  ultimately show ?thesis using unat_not_u16 by simp
qed

text \<open>The accumulator stays within 16 bits between rounds: the 32-bit sum cannot wrap.\<close>

lemma checksum_no_overflow: "unat (checksum_loop 0 bs) \<le> 65535"
  using checksum_loop_sum [of 0 bs] ones_sum_le by simp

lemma checksum_valid_iff: "has_valid_internet_checksum bs \<longleftrightarrow> word_sum bs > 0 \<and> 65535 dvd word_sum bs"
proof -
  have "compute_internet_checksum bs = 0 \<longleftrightarrow> ones_sum (word_sum bs) = 65535"
    using compute_internet_checksum_sum [of bs] ones_sum_le [of "word_sum bs"]
    by (simp add: word_unat_eq_iff)
  then show ?thesis by (cases bs) (auto simp: has_valid_internet_checksum_def ones_sum_top_iff)
qed

section \<open>Filling in and corrupting a checksum\<close>

lemma word_sum_append: "even (length xs) \<Longrightarrow> word_sum (xs @ ys) = word_sum xs + word_sum ys"
  by (induction xs rule: word_sum.induct) auto

lemma checksum_fill_in:
  assumes "even (length pre)" and c_def: "c = compute_internet_checksum (pre @ [0, 0] @ post)"
  shows "has_valid_internet_checksum (pre @ [ucast (drop_bit 8 c), ucast c] @ post)"
proof -
  let ?t = "word_sum (pre @ [0, 0] @ post)"
  have "checksum_word (ucast (drop_bit 8 c)) (ucast c) = c"
    by (rule bit_word_eqI) (auto simp: checksum_word_def bit_simps)
  then have "unat (ucast (drop_bit 8 c) :: u8) * 256 + unat (ucast c :: u8) = unat c"
    using unat_checksum_word [of "ucast (drop_bit 8 c)" "ucast c"] by simp
  then have "word_sum (pre @ [ucast (drop_bit 8 c), ucast c] @ post) = ?t + unat c"
    using assms(1) by (simp add: word_sum_append)
  also have "\<dots> = ?t + (65535 - ones_sum ?t)"
    using compute_internet_checksum_sum [of "pre @ [0, 0] @ post"] by (simp add: c_def)
  finally have total: "word_sum (pre @ [ucast (drop_bit 8 c), ucast c] @ post) = ?t + (65535 - ones_sum ?t)" .
  have "?t + (65535 - ones_sum ?t) > 0 \<and> 65535 dvd ?t + (65535 - ones_sum ?t)"
  proof (cases "?t = 0")
    case False
    then have "?t = (?t - 1) div 65535 * 65535 + ones_sum ?t" by (simp add: ones_sum_def)
    then have "?t + (65535 - ones_sum ?t) = ((?t - 1) div 65535 + 1) * 65535"
      using ones_sum_le [of ?t] by simp
    then show ?thesis using False by (metis add_gr_0 dvd_triv_right gr0I)
  qed (simp add: ones_sum_def)
  then show ?thesis by (simp only: checksum_valid_iff total)
qed

text \<open>A change of one byte moves the sum by a nonzero amount below 65535.\<close>

lemma word_sum_update:
  assumes "i < length bs"
  shows "int (word_sum (bs[i := b])) =
    int (word_sum bs) + (int (unat b) - int (unat (bs ! i))) * (if even i then 256 else 1)"
  using assms
proof (induction bs arbitrary: i rule: word_sum.induct)
  case (1 high low rest)
  then show ?case by (cases i rule: nat.exhaust; cases "i - 1") (auto simp: algebra_simps)
next
  case (2 final)
  then show ?case by (simp add: algebra_simps)
qed simp

lemma checksum_detects_byte:
  assumes "has_valid_internet_checksum bs" and "i < length bs" and "b \<noteq> bs ! i"
  shows "\<not> has_valid_internet_checksum (bs[i := b])"
proof
  assume "has_valid_internet_checksum (bs[i := b])"
  then have "65535 dvd int (word_sum (bs[i := b]))" and "65535 dvd int (word_sum bs)"
    using assms(1) int_dvd_int_iff [of 65535] by (simp_all add: checksum_valid_iff)
  then have dvd: "65535 dvd (int (unat b) - int (unat (bs ! i))) * (if even i then 256 else 1)"
    unfolding word_sum_update [OF assms(2)] by (metis dvd_add_right_iff)
  let ?d = "int (unat b) - int (unat (bs ! i))"
  have "?d \<noteq> 0" using assms(3) by (simp add: word_uint_eq_iff)
  moreover have "\<bar>?d\<bar> \<le> 255" using unat_bounds(1) [of b] unat_bounds(1) [of "bs ! i"] by linarith
  ultimately have "\<bar>?d * (if even i then 256 else 1)\<bar> < 65535" "?d * (if even i then 256 else 1) \<noteq> 0"
    by auto
  then show False using dvd_imp_le_int [OF _ dvd] by linarith
qed

section \<open>Properties\<close>

text \<open>
  Property C34: the folding loop with its 32-bit accumulator computes the ones'-complement
  checksum of the plain sum of the 16-bit words, for byte strings of every length.
\<close>

theorem internet_checksum_correct:
  "unat (compute_internet_checksum bs) = 65535 - ones_sum (word_sum bs)"
  by (rule compute_internet_checksum_sum)

end
