(* ===== verification/Ipv4_Packet.thy ===== *)
theory Ipv4_Packet
  imports Ipv4_Address Internet_Checksum
begin

unbundle bit_operations_syntax

text \<open>
  \<^verbatim>\<open>network/ipv4_packet.cpp\<close>: IPv4 packets with the fixed 20-byte header, their checked
  construction and their wire format. The format is a codec but not a canonical one: a header
  whose other words sum to a multiple of 65535 is valid with the checksum \<open>0x0000\<close> and with
  \<open>0xFFFF\<close>. \<open>parse_ipv4_SomeD\<close> says that this field is the only freedom.
\<close>

section \<open>The packet\<close>

type_synonym IpProtocol = u8

definition IpProtocol_icmp :: IpProtocol where "IpProtocol_icmp = 1"
definition IpProtocol_tcp :: IpProtocol where "IpProtocol_tcp = 6"
definition IpProtocol_udp :: IpProtocol where "IpProtocol_udp = 17"

record Ipv4Packet =
  ip_source :: Ipv4Address
  ip_destination :: Ipv4Address
  ip_protocol :: IpProtocol
  ip_payload :: bytes
  ip_time_to_live :: u8
  ip_identification :: u16
  ip_dont_fragment :: bool

definition ip_header_size :: nat where "ip_header_size = 20"
definition maximum_packet_size :: nat where "maximum_packet_size = 65535"
definition ip_maximum_payload_size :: nat where
  "ip_maximum_payload_size = maximum_packet_size - ip_header_size"

definition Ipv4Packet_create ::
  "Ipv4Address \<Rightarrow> Ipv4Address \<Rightarrow> IpProtocol \<Rightarrow> bytes \<Rightarrow> u8 \<Rightarrow> u16 \<Rightarrow> bool \<Rightarrow> Ipv4Packet option" where
  "Ipv4Packet_create src dst proto pl ttl ident df =
     (if length pl > ip_maximum_payload_size \<or> ttl = 0 then None
      else Some \<lparr>ip_source = src, ip_destination = dst, ip_protocol = proto, ip_payload = pl,
        ip_time_to_live = ttl, ip_identification = ident, ip_dont_fragment = df\<rparr>)"

section \<open>The wire format\<close>

definition version_and_header_length :: u8 where "version_and_header_length = 0x45"
definition supported_differentiated_services :: u8 where "supported_differentiated_services = 0"
definition dont_fragment_mask :: u16 where "dont_fragment_mask = 0x4000"
definition unsupported_fragmentation_mask :: u16 where "unsupported_fragmentation_mask = 0xBFFF"
definition version_and_header_length_offset :: nat where "version_and_header_length_offset = 0"
definition differentiated_services_offset :: nat where "differentiated_services_offset = 1"
definition total_length_offset :: nat where "total_length_offset = 2"
definition identification_offset :: nat where "identification_offset = 4"
definition flags_and_fragment_offset :: nat where "flags_and_fragment_offset = 6"
definition time_to_live_offset :: nat where "time_to_live_offset = 8"
definition protocol_offset :: nat where "protocol_offset = 9"
definition checksum_offset :: nat where "checksum_offset = 10"
definition ip_source_offset :: nat where "ip_source_offset = 12"
definition ip_destination_offset :: nat where "ip_destination_offset = 16"

lemmas ipv4_constants [codec_defs] =
  ip_header_size_def maximum_packet_size_def ip_maximum_payload_size_def
  version_and_header_length_def supported_differentiated_services_def
  version_and_header_length_offset_def
  differentiated_services_offset_def total_length_offset_def identification_offset_def
  flags_and_fragment_offset_def time_to_live_offset_def protocol_offset_def checksum_offset_def
  ip_source_offset_def ip_destination_offset_def

text \<open>The source dereferences the read; both reads lie within the header that was checked.\<close>

definition read_address :: "bytes \<Rightarrow> nat \<Rightarrow> Ipv4Address" where
  "read_address bs offset = Ipv4Address (the (read_big_endian bs offset))"

definition Ipv4Packet_parse :: "bytes \<Rightarrow> Ipv4Packet option" where
  "Ipv4Packet_parse bs =
     (if length bs < ip_header_size \<or>
         bs ! version_and_header_length_offset \<noteq> version_and_header_length \<or>
         bs ! differentiated_services_offset \<noteq> supported_differentiated_services
      then None
      else case (read_big_endian bs total_length_offset :: u16 option,
                 read_big_endian bs identification_offset :: u16 option,
                 read_big_endian bs flags_and_fragment_offset :: u16 option) of
        (Some total_length, Some identification, Some flags_and_fragment) \<Rightarrow>
          if unat total_length \<noteq> length bs \<or> unat total_length < ip_header_size \<or>
             flags_and_fragment AND unsupported_fragmentation_mask \<noteq> 0 \<or>
             bs ! time_to_live_offset = 0 \<or>
             \<not> has_valid_internet_checksum (take ip_header_size bs)
          then None
          else Ipv4Packet_create (read_address bs ip_source_offset) (read_address bs ip_destination_offset)
                 (bs ! protocol_offset) (drop ip_header_size bs) (bs ! time_to_live_offset)
                 identification (flags_and_fragment AND dont_fragment_mask \<noteq> 0)
      | _ \<Rightarrow> None)"

definition Ipv4Packet_serialize :: "Ipv4Packet \<Rightarrow> bytes" where
  "Ipv4Packet_serialize p =
     (let bs = replicate (ip_header_size + length (ip_payload p)) 0;
          bs = bs[version_and_header_length_offset := version_and_header_length];
          bs = bs[differentiated_services_offset := supported_differentiated_services];
          bs = bs[time_to_live_offset := ip_time_to_live p];
          bs = bs[protocol_offset := ip_protocol p];
          total_length = (of_nat (length bs) :: u16);
          flags_and_fragment = (if ip_dont_fragment p then dont_fragment_mask else 0);
          (wrote_header, bs) = write_fields
            [\<lambda>bs. write_big_endian total_length bs total_length_offset,
             \<lambda>bs. write_big_endian (ip_identification p) bs identification_offset,
             \<lambda>bs. write_big_endian flags_and_fragment bs flags_and_fragment_offset,
             \<lambda>bs. write_big_endian (Ipv4Address_value (ip_source p)) bs ip_source_offset,
             \<lambda>bs. write_big_endian (Ipv4Address_value (ip_destination p)) bs ip_destination_offset] bs
      in if \<not> wrote_header then []
         else
           let checksum = compute_internet_checksum (take ip_header_size bs);
               (wrote_checksum, bs) = write_big_endian checksum bs checksum_offset
           in if \<not> wrote_checksum then [] else copy_at (ip_payload p) bs ip_header_size)"

section \<open>The packet is read back\<close>

definition Ipv4Packet_wf :: "Ipv4Packet \<Rightarrow> bool" where
  "Ipv4Packet_wf p \<longleftrightarrow> length (ip_payload p) \<le> ip_maximum_payload_size \<and> ip_time_to_live p \<noteq> 0"

lemma Ipv4Packet_create_wf: "Ipv4Packet_create src dst proto pl ttl ident df = Some p \<Longrightarrow> Ipv4Packet_wf p"
  by (auto simp: Ipv4Packet_create_def Ipv4Packet_wf_def split: if_splits)

text \<open>The header before and after the checksum field.\<close>

definition ipv4_header_front :: "Ipv4Packet \<Rightarrow> bytes" where
  "ipv4_header_front p =
     [version_and_header_length, supported_differentiated_services] @
     be_bytes (of_nat (ip_header_size + length (ip_payload p)) :: u16) @
     be_bytes (ip_identification p) @
     be_bytes (if ip_dont_fragment p then dont_fragment_mask else 0) @
     [ip_time_to_live p, ip_protocol p]"

definition ipv4_header_back :: "Ipv4Packet \<Rightarrow> bytes" where
  "ipv4_header_back p = be_bytes (Ipv4Address_value (ip_source p)) @ be_bytes (Ipv4Address_value (ip_destination p))"

definition ipv4_checksum :: "Ipv4Packet \<Rightarrow> u16" where
  "ipv4_checksum p = compute_internet_checksum (ipv4_header_front p @ [0, 0] @ ipv4_header_back p)"

lemma length_header_parts [simp]:
  "length (ipv4_header_front p) = 10" "length (ipv4_header_back p) = 8"
  by (simp_all add: ipv4_header_front_def ipv4_header_back_def)

lemma serialize_ipv4:
  "Ipv4Packet_serialize p =
     ipv4_header_front p @ be_bytes (ipv4_checksum p) @ ipv4_header_back p @ ip_payload p"
  by (simp add: Ipv4Packet_serialize_def wire_simps Let_def ipv4_constants replicate_numeral
      list_update_append ipv4_header_front_def ipv4_header_back_def ipv4_checksum_def replicate_add)

lemma serialized_checksum_valid: "has_valid_internet_checksum (take ip_header_size (Ipv4Packet_serialize p))"
  using checksum_fill_in [of "ipv4_header_front p" "ipv4_checksum p" "ipv4_header_back p"]
  by (simp add: serialize_ipv4 ipv4_checksum_def ip_header_size_def be_bytes_u16)

lemma flags_read_back:
  "(if df then dont_fragment_mask else 0) AND unsupported_fragmentation_mask = 0"
  "((if df then dont_fragment_mask else 0) AND dont_fragment_mask \<noteq> 0) = df"
  by (simp_all add: dont_fragment_mask_def unsupported_fragmentation_mask_def)

text \<open>The parser reads a header back with any valid checksum in place.\<close>

definition ipv4_wire :: "Ipv4Packet \<Rightarrow> u16 \<Rightarrow> bytes" where
  "ipv4_wire p c = ipv4_header_front p @ be_bytes c @ ipv4_header_back p @ ip_payload p"

lemma take_header_wire: "take ip_header_size (ipv4_wire p c) = ipv4_header_front p @ be_bytes c @ ipv4_header_back p"
  by (simp add: ipv4_wire_def ip_header_size_def)

lemma parse_ipv4_wire:
  assumes "Ipv4Packet_wf p"
    and "has_valid_internet_checksum (ipv4_header_front p @ be_bytes c @ ipv4_header_back p)"
  shows "Ipv4Packet_parse (ipv4_wire p c) = Some p"
proof -
  let ?bs = "ipv4_wire p c"
  let ?flags = "if ip_dont_fragment p then dont_fragment_mask else 0"
  have len: "length ?bs = ip_header_size + length (ip_payload p)"
    by (simp add: ipv4_wire_def ip_header_size_def)
  have "read_big_endian ?bs total_length_offset = Some (of_nat (length ?bs) :: u16)"
    "read_big_endian ?bs identification_offset = Some (ip_identification p)"
    "read_big_endian ?bs flags_and_fragment_offset = Some ?flags"
    by (rule read_be_bytes_at; simp add: ipv4_wire_def ipv4_header_front_def ipv4_constants)+
  moreover have "read_address ?bs ip_source_offset = ip_source p"
    "read_address ?bs ip_destination_offset = ip_destination p"
    using read_be_bytes_at [of 12 ?bs "Ipv4Address_value (ip_source p)"]
      read_be_bytes_at [of 16 ?bs "Ipv4Address_value (ip_destination p)"]
    by (simp_all add: read_address_def ipv4_wire_def ipv4_header_back_def ipv4_constants)
  moreover have "length ?bs < 2 ^ 16" using assms len by (simp add: Ipv4Packet_wf_def ipv4_constants)
  then have "unat (of_nat (length ?bs) :: u16) = length ?bs" by (simp add: unat_of_nat take_bit_nat_eq_self)
  moreover have "?bs ! 0 = version_and_header_length" "?bs ! 1 = supported_differentiated_services"
    "?bs ! 8 = ip_time_to_live p" "?bs ! 9 = ip_protocol p" "drop 20 ?bs = ip_payload p"
    by (simp_all add: ipv4_wire_def ipv4_header_front_def nth_append nth_Cons')
  ultimately show ?thesis
    using assms len take_header_wire [of p c] flags_read_back [of "ip_dont_fragment p"]
    by (simp add: Ipv4Packet_parse_def Ipv4Packet_create_def Ipv4Packet_wf_def ipv4_constants)
qed

lemma serialize_ipv4_wire: "Ipv4Packet_serialize p = ipv4_wire p (ipv4_checksum p)"
  by (simp add: serialize_ipv4 ipv4_wire_def)

lemma parse_serialize_ipv4: "Ipv4Packet_wf p \<Longrightarrow> Ipv4Packet_parse (Ipv4Packet_serialize p) = Some p"
  using serialized_checksum_valid [of p] by (simp add: serialize_ipv4_wire take_header_wire parse_ipv4_wire)

section \<open>What the parser accepts\<close>

lemma flags_cases:
  assumes "x AND unsupported_fragmentation_mask = 0"
  shows "x = (if x AND dont_fragment_mask \<noteq> 0 then dont_fragment_mask else 0)"
proof -
  have d: "dont_fragment_mask = push_bit 14 1" and u: "unsupported_fragmentation_mask = NOT (push_bit 14 1)"
    by (simp_all add: dont_fragment_mask_def unsupported_fragmentation_mask_def)
  have b: "bit (push_bit 14 1 :: u16) n \<longleftrightarrow> n = 14" for n
    by (simp only: bit_push_bit_iff) (auto simp: bit_1_iff)
  have x: "bit x n \<Longrightarrow> n = 14" for n
    using arg_cong [OF assms, of "\<lambda>w. bit w n"]
    by (simp only: u bit_and_iff bit_not_iff_eq b bit_0_eq bot_apply) (auto dest: bit_imp_le_length)
  moreover have "x AND dont_fragment_mask \<noteq> 0 \<longleftrightarrow> bit x 14"
    by (simp only: d bit_iff_and_push_bit_not_eq_0)
  moreover have "x = dont_fragment_mask" if "bit x 14"
    unfolding d by (rule bit_word_eqI) (metis b that x)
  moreover have "x = 0" if "\<not> bit x 14"
  proof -
    have "\<not> bit (0 :: u16) n" for n by simp
    with that x show ?thesis by (intro bit_word_eqI) metis
  qed
  ultimately show ?thesis by metis
qed

lemma ones_sum_dvd:
  assumes "t > 0"
  shows "65535 dvd t + u \<longleftrightarrow> 65535 dvd ones_sum t + u"
proof -
  have "t + u = (t - 1) div 65535 * 65535 + (ones_sum t + u)" using assms by (simp add: ones_sum_def)
  then show ?thesis by (simp only: dvd_add_right_iff [OF dvd_triv_right])
qed

lemma two_multiples:
  assumes "65535 dvd s + u" and "0 < s" and "s \<le> 65535" and "u < (65536 :: nat)"
  shows "s + u = 65535 \<or> s + u = 131070"
proof -
  obtain k where k: "s + u = 65535 * k" using assms(1) by (rule dvdE)
  have "k \<noteq> 0" using k assms(2) by (intro notI) simp
  moreover have "k < 3" using k assms(3,4) by linarith
  ultimately have "k = 1 \<or> k = 2" by arith
  then show ?thesis using k by auto
qed

lemma valid_checksum_cases:
  assumes "has_valid_internet_checksum (pre @ be_bytes (c :: u16) @ post)" and "even (length pre)"
    and "word_sum (pre @ [0, 0] @ post) > 0"
  shows "c = compute_internet_checksum (pre @ [0, 0] @ post) \<or>
    c = 0xFFFF \<and> compute_internet_checksum (pre @ [0, 0] @ post) = 0"
proof -
  let ?t = "word_sum (pre @ [0, 0] @ post)" and ?k = "compute_internet_checksum (pre @ [0, 0] @ post)"
  have "checksum_word (ucast (drop_bit 8 c)) (ucast c) = c"
    by (rule bit_word_eqI) (auto simp: checksum_word_def bit_simps)
  then have "word_sum (pre @ be_bytes c @ post) = ?t + unat c"
    using unat_checksum_word [of "ucast (drop_bit 8 c)" "ucast c"] assms(2)
    by (simp add: word_sum_append be_bytes_u16)
  then have "65535 dvd ?t + unat c" using assms(1) by (simp add: checksum_valid_iff)
  then have "65535 dvd ones_sum ?t + unat c" using ones_sum_dvd [OF assms(3)] by blast
  moreover have "ones_sum ?t > 0" using assms(3) by (simp add: ones_sum_def)
  ultimately have "ones_sum ?t + unat c = 65535 \<or> ones_sum ?t + unat c = 131070"
    using ones_sum_le [of ?t] unat_bounds(2) [of c] by (rule two_multiples)
  then show ?thesis
    using compute_internet_checksum_sum [of "pre @ [0, 0] @ post"] ones_sum_le [of ?t] unat_bounds(2) [of c]
    by (auto simp: word_unat_eq_iff)
qed

lemma parse_ipv4_SomeD:
  assumes "Ipv4Packet_parse bs = Some p"
  shows "Ipv4Packet_wf p"
    and "bs = Ipv4Packet_serialize p \<or> ipv4_checksum p = 0 \<and>
      bs = ipv4_wire p 0xFFFF"
proof -
  obtain total flags where len: "length bs \<ge> 20" "unat total = length bs"
    and b: "bs ! 0 = version_and_header_length" "bs ! 1 = supported_differentiated_services"
    and r: "read_big_endian bs total_length_offset = Some (total :: u16)"
      "read_big_endian bs identification_offset = Some (ip_identification p)"
      "read_big_endian bs flags_and_fragment_offset = Some flags"
    and fl: "flags AND unsupported_fragmentation_mask = 0" "ip_dont_fragment p = (flags AND dont_fragment_mask \<noteq> 0)"
    and valid: "has_valid_internet_checksum (take 20 bs)"
    and p: "ip_source p = read_address bs 12" "ip_destination p = read_address bs 16"
      "ip_protocol p = bs ! 9" "ip_payload p = drop 20 bs" "ip_time_to_live p = bs ! 8" "bs ! 8 \<noteq> 0"
      "length (drop 20 bs) \<le> ip_maximum_payload_size"
    using assms unfolding Ipv4Packet_parse_def Ipv4Packet_create_def
    by (auto simp: ipv4_constants split: option.splits if_splits)
  show "Ipv4Packet_wf p" using p by (simp add: Ipv4Packet_wf_def)
  have addr: "take 4 (drop 12 bs) = be_bytes (Ipv4Address_value (ip_source p))"
    "take 4 (drop 16 bs) = be_bytes (Ipv4Address_value (ip_destination p))"
    using len read_SomeD [of bs 12 "Ipv4Address_value (ip_source p)"]
      read_SomeD [of bs 16 "Ipv4Address_value (ip_destination p)"]
    by (simp_all add: p read_address_def read_big_endian_eq)
  have total: "total = of_nat (ip_header_size + length (ip_payload p))"
  proof -
    have "unat total = ip_header_size + length (ip_payload p)" using len p(4) by (simp add: ip_header_size_def)
    moreover have "total = of_nat (unat total)" by simp
    ultimately show ?thesis by (simp only:)
  qed
  define c where "c = (be_value (take 2 (drop 10 bs)) :: u16)"
  have c: "take 2 (drop 10 bs) = be_bytes c" using len by (simp add: c_def be_bytes_be_value)
  have "take 2 bs = [bs ! 0, bs ! 1]" "take 2 (drop 8 bs) = [bs ! 8, bs ! 9]"
    using len take_2_drop [of 0 bs] take_2_drop [of 8 bs] by simp_all
  moreover have "take 10 bs = take 2 bs @ take 2 (drop 2 bs) @ take 2 (drop 4 bs) @ take 2 (drop 6 bs) @
      take 2 (drop 8 bs)"
    using take_add [of 2 8 bs] take_add [of 2 6 "drop 2 bs"] take_add [of 2 4 "drop 4 bs"]
      take_add [of 2 2 "drop 6 bs"] by simp
  moreover have "(if ip_dont_fragment p then dont_fragment_mask else 0) = flags"
    using flags_cases [OF fl(1)] fl(2) by simp
  ultimately have front: "take 10 bs = ipv4_header_front p"
    using r [THEN read_SomeD] total b p
    by (simp add: ipv4_header_front_def total_length_offset_def identification_offset_def flags_and_fragment_offset_def)
  have "drop 10 bs = take 2 (drop 10 bs) @ take 4 (drop 12 bs) @ take 4 (drop 16 bs) @ drop 20 bs"
    using cut [of 10 bs 2] cut [of 12 bs 4] cut [of 16 bs 4] by simp
  then have bs: "bs = ipv4_header_front p @ be_bytes c @ ipv4_header_back p @ ip_payload p"
    using append_take_drop_id [of 10 bs] by (simp add: front addr c ipv4_header_back_def p(4))
  have "take 20 bs = ipv4_header_front p @ be_bytes c @ ipv4_header_back p" by (subst bs) simp
  then have v: "has_valid_internet_checksum (ipv4_header_front p @ be_bytes c @ ipv4_header_back p)"
    using valid by simp
  have "word_sum (ipv4_header_front p @ [0, 0] @ ipv4_header_back p) > 0"
    by (simp add: ipv4_header_front_def version_and_header_length_def)
  from valid_checksum_cases [OF v _ this]
  show "bs = Ipv4Packet_serialize p \<or> ipv4_checksum p = 0 \<and>
      bs = ipv4_wire p 0xFFFF"
    using bs by (auto simp: serialize_ipv4_wire ipv4_wire_def ipv4_checksum_def)
qed

lemma parse_ipv4_alternative:
  assumes "Ipv4Packet_wf p" and "ipv4_checksum p = 0"
  shows "Ipv4Packet_parse (ipv4_wire p 0xFFFF) = Some p"
proof (rule parse_ipv4_wire [OF assms(1)])
  let ?t = "word_sum (ipv4_header_front p @ [0, 0] @ ipv4_header_back p)"
  have "ones_sum ?t = 65535"
    using assms(2) compute_internet_checksum_sum [of "ipv4_header_front p @ [0, 0] @ ipv4_header_back p"]
      ones_sum_le [of ?t] by (simp add: ipv4_checksum_def)
  then have "65535 dvd ?t" by (simp add: ones_sum_top_iff)
  moreover have "word_sum (ipv4_header_front p @ be_bytes (0xFFFF :: u16) @ ipv4_header_back p) = ?t + 65535"
    by (simp add: word_sum_append be_bytes_u16)
  ultimately show "has_valid_internet_checksum (ipv4_header_front p @ be_bytes (0xFFFF :: u16) @ ipv4_header_back p)"
    by (simp add: checksum_valid_iff)
qed

interpretation ipv4: wire_codec Ipv4Packet_serialize Ipv4Packet_parse Ipv4Packet_wf
  by unfold_locales (auto intro: parse_serialize_ipv4 parse_ipv4_SomeD)

section \<open>Properties\<close>

text \<open>
  Property C32: the parser accepts exactly the serializations of the packets that \<open>create\<close>
  admits, and the one alternative spelling of a zero checksum.
\<close>

theorem ipv4_packet_parse_iff:
  "Ipv4Packet_parse bs = Some p \<longleftrightarrow>
     Ipv4Packet_wf p \<and>
     (bs = Ipv4Packet_serialize p \<or> (ipv4_checksum p = 0 \<and> bs = ipv4_wire p 0xFFFF))"
  using parse_serialize_ipv4 parse_ipv4_alternative parse_ipv4_SomeD by blast

text \<open>
  Property C33: a packet whose header was corrupted in one byte, whichever byte and to
  whatever value, is rejected by the parser.
\<close>

theorem ipv4_header_corruption_rejected:
  assumes "Ipv4Packet_wf p" and "i < ip_header_size" and "b \<noteq> Ipv4Packet_serialize p ! i"
  shows "Ipv4Packet_parse ((Ipv4Packet_serialize p)[i := b]) = None"
proof -
  let ?bs = "Ipv4Packet_serialize p"
  have "length ?bs \<ge> ip_header_size" by (simp add: serialize_ipv4 ip_header_size_def)
  then have "\<not> has_valid_internet_checksum ((take ip_header_size ?bs)[i := b])"
    using assms by (intro checksum_detects_byte serialized_checksum_valid) auto
  then have "\<not> has_valid_internet_checksum (take ip_header_size (?bs[i := b]))"
    using assms(2) by (simp add: take_update_swap)
  then show ?thesis by (simp add: Ipv4Packet_parse_def split: option.split)
qed

definition sample_packet :: Ipv4Packet where
  "sample_packet = \<lparr>ip_source = Ipv4Address 0x0A000101, ip_destination = Ipv4Address 0x0A000202,
     ip_protocol = IpProtocol_udp, ip_payload = [1, 2, 3], ip_time_to_live = 64,
     ip_identification = 7, ip_dont_fragment = True\<rparr>"

theorem ipv4_header_corruption_rejected_witness:
  "Ipv4Packet_parse ((Ipv4Packet_serialize sample_packet)[8 := 63]) = None"
proof (rule ipv4_header_corruption_rejected)
  show "Ipv4Packet_wf sample_packet"
    by (simp add: Ipv4Packet_wf_def sample_packet_def ipv4_constants)
  show "8 < ip_header_size" by (simp add: ip_header_size_def)
  show "63 \<noteq> Ipv4Packet_serialize sample_packet ! 8"
    by (simp add: serialize_ipv4 ipv4_header_front_def sample_packet_def nth_append nth_Cons')
qed

end
