(* ===== verification/Ipv4_Prefix.thy ===== *)
theory Ipv4_Prefix
  imports Ipv4_Address
begin

unbundle bit_operations_syntax

text \<open>
  \<^verbatim>\<open>network/ipv4_prefix.hpp\<close> and \<^verbatim>\<open>ipv4_prefix.cpp\<close>: a network address with a prefix length.
  The constructor is private and masks the host bits, so every prefix of a program run was
  made by \<open>create\<close>; \<open>Ipv4Prefix_wf\<close> says what that gives. Containment, a mask test in the
  code, is characterised as membership in the interval from the network address to the last
  address and as agreement of the leading bits.
\<close>

section \<open>The value\<close>

datatype Ipv4Prefix =
  Ipv4Prefix (Ipv4Prefix_network_address: Ipv4Address) (Ipv4Prefix_length: u8)

definition mask_value :: "u8 \<Rightarrow> u32" where
  "mask_value len = (if len = 0 then 0 else push_bit (32 - unat len) 0xFFFFFFFF)"

definition Ipv4Prefix_create :: "Ipv4Address \<Rightarrow> u8 \<Rightarrow> Ipv4Prefix option" where
  "Ipv4Prefix_create address len =
     (if len > 32 then None
      else Some (Ipv4Prefix (Ipv4Address (Ipv4Address_value address AND mask_value len)) len))"

definition Ipv4Prefix_subnet_mask :: "Ipv4Prefix \<Rightarrow> Ipv4Address" where
  "Ipv4Prefix_subnet_mask p = Ipv4Address (mask_value (Ipv4Prefix_length p))"

definition Ipv4Prefix_last_address :: "Ipv4Prefix \<Rightarrow> Ipv4Address" where
  "Ipv4Prefix_last_address p =
     Ipv4Address (Ipv4Address_value (Ipv4Prefix_network_address p) OR NOT (mask_value (Ipv4Prefix_length p)))"

definition Ipv4Prefix_contains :: "Ipv4Prefix \<Rightarrow> Ipv4Address \<Rightarrow> bool" where
  "Ipv4Prefix_contains p address \<longleftrightarrow>
     Ipv4Address_value address AND mask_value (Ipv4Prefix_length p) =
     Ipv4Address_value (Ipv4Prefix_network_address p)"

definition Ipv4Prefix_less :: "Ipv4Prefix \<Rightarrow> Ipv4Prefix \<Rightarrow> bool" where
  "Ipv4Prefix_less p q \<longleftrightarrow>
     Ipv4Prefix_network_address p < Ipv4Prefix_network_address q \<or>
     (Ipv4Prefix_network_address p = Ipv4Prefix_network_address q \<and>
      Ipv4Prefix_length p < Ipv4Prefix_length q)"

definition Ipv4Prefix_wf :: "Ipv4Prefix \<Rightarrow> bool" where
  "Ipv4Prefix_wf p \<longleftrightarrow>
     Ipv4Prefix_create (Ipv4Prefix_network_address p) (Ipv4Prefix_length p) = Some p"

section \<open>The text form\<close>

definition Ipv4Prefix_parse :: "string \<Rightarrow> Ipv4Prefix option" where
  "Ipv4Prefix_parse text =
     (case find_if (\<lambda>c. c = CHR ''/'') text of
        None \<Rightarrow> None
      | Some separator_position \<Rightarrow>
          if find_if (\<lambda>c. c = CHR ''/'') (drop (separator_position + 1) text) \<noteq> None then None
          else
            let address_text = take separator_position text;
                length_text = drop (separator_position + 1) text
            in case Ipv4Address_parse address_text of
                 None \<Rightarrow> None
               | Some address \<Rightarrow>
                   if length_text = [] \<or> (length length_text > 1 \<and> hd length_text = CHR ''0'') then None
                   else case from_chars_unsigned length_text of
                     None \<Rightarrow> None
                   | Some (consumed, parsed_length) \<Rightarrow>
                       if consumed \<noteq> length length_text \<or> parsed_length > 32 then None
                       else Ipv4Prefix_create address (of_nat parsed_length))"

definition Ipv4Prefix_to_string :: "Ipv4Prefix \<Rightarrow> string" where
  "Ipv4Prefix_to_string p =
     Ipv4Address_to_string (Ipv4Prefix_network_address p) @ ''/'' @ decimal (unat (Ipv4Prefix_length p))"

section \<open>Masks\<close>

lemma mask_value_eq: "mask_value l = push_bit (32 - unat l) (- 1)"
proof -
  have "push_bit 32 (- 1 :: u32) = 0" by (simp add: push_bit_eq_mult)
  moreover have e: "(0xFFFFFFFF :: u32) = - 1" by simp
  ultimately show ?thesis unfolding mask_value_def e by simp
qed

lemma bit_mask_value: "bit (mask_value l) n \<longleftrightarrow> 32 - unat l \<le> n \<and> n < 32"
  by (auto simp: mask_value_eq bit_simps)

lemma unat_and_mask_value:
  "unat (v AND mask_value l) = unat v div 2 ^ (32 - unat l) * 2 ^ (32 - unat l)"
proof -
  let ?k = "32 - unat l"
  have e: "v AND mask_value l = push_bit ?k (drop_bit ?k v)"
    by (rule bit_word_eqI) (auto simp: bit_simps bit_mask_value)
  have "unat (v AND mask_value l) = take_bit LENGTH(32) (push_bit ?k (drop_bit ?k (unat v)))"
    using unat_bounds(3) [of v]
    by (simp only: e unsigned_push_bit_eq unsigned_drop_bit_eq) (simp add: take_bit_nat_eq_self)
  moreover have "unat v div 2 ^ ?k * 2 ^ ?k < 2 ^ 32"
    using unat_bounds(3) [of v] by (intro le_less_trans [OF div_times_less_eq_dividend]) simp
  ultimately show ?thesis
    by (simp add: push_bit_eq_mult drop_bit_eq_div take_bit_eq_mod)
qed

lemma unat_not_mask_value: "unat (NOT (mask_value l)) = 2 ^ (32 - unat l) - 1"
proof -
  have "NOT (mask_value l) = mask (32 - unat l)"
    by (rule bit_word_eqI) (auto simp: bit_simps bit_mask_value)
  then have "uint (NOT (mask_value l)) = mask (32 - unat l)" by (simp add: uint_mask_eq)
  then have "int (unat (NOT (mask_value l))) = int (mask (32 - unat l))"
    by (simp only: uint_nat [symmetric] of_nat_mask_eq)
  then show ?thesis by (simp only: of_nat_eq_iff mask_nat_def)
qed

lemma Ipv4Prefix_wf_iff:
  "Ipv4Prefix_wf p \<longleftrightarrow> Ipv4Prefix_length p \<le> 32 \<and>
     Ipv4Address_value (Ipv4Prefix_network_address p) AND mask_value (Ipv4Prefix_length p) =
     Ipv4Address_value (Ipv4Prefix_network_address p)"
  by (cases p; cases "Ipv4Prefix_network_address p")
    (auto simp: Ipv4Prefix_wf_def Ipv4Prefix_create_def not_less)

lemma Ipv4Prefix_create_wf: "Ipv4Prefix_create a l = Some p \<Longrightarrow> Ipv4Prefix_wf p"
  by (auto simp: Ipv4Prefix_create_def Ipv4Prefix_wf_iff and.assoc split: if_splits)

lemma Ipv4Prefix_create_contains: "Ipv4Prefix_create a l = Some p \<Longrightarrow> Ipv4Prefix_contains p a"
  by (auto simp: Ipv4Prefix_create_def Ipv4Prefix_contains_def split: if_splits)

section \<open>Containment\<close>

lemma div_eq_interval: "0 < n \<Longrightarrow> (m :: nat) div n = q \<longleftrightarrow> q * n \<le> m \<and> m < (q + 1) * n"
  by (auto simp: mult.commute div_nat_eqI dividend_less_times_div)

lemma prefix_contains_interval_nat:
  assumes "Ipv4Prefix_wf p"
  shows "Ipv4Prefix_contains p a \<longleftrightarrow>
    unat (Ipv4Address_value (Ipv4Prefix_network_address p)) \<le> unat (Ipv4Address_value a) \<and>
    unat (Ipv4Address_value a) \<le> unat (Ipv4Address_value (Ipv4Prefix_last_address p))"
proof -
  let ?l = "Ipv4Prefix_length p" and ?net = "Ipv4Address_value (Ipv4Prefix_network_address p)"
  let ?v = "Ipv4Address_value a"
  define k where "k = 32 - unat ?l"
  have net: "?net AND mask_value ?l = ?net" using assms by (simp add: Ipv4Prefix_wf_iff)
  then have q: "unat ?net = unat ?net div 2 ^ k * 2 ^ k"
    unfolding k_def by (metis unat_and_mask_value)
  have "?net AND NOT (mask_value ?l) = 0"
    by (rule bit_word_eqI) (subst net [symmetric], auto simp: bit_simps bit_mask_value)
  then have last: "?net OR NOT (mask_value ?l) = ?net + NOT (mask_value ?l)"
    using word_plus_and_or [of ?net "NOT (mask_value ?l)"] by simp
  have "unat ?net div 2 ^ k < 2 ^ (32 - k)"
    using unat_bounds(3) [of ?net] by (simp add: less_mult_imp_div_less k_def flip: power_add)
  then have "(unat ?net div 2 ^ k + 1) * 2 ^ k \<le> 2 ^ (32 - k) * 2 ^ k"
    by (intro mult_right_mono) simp_all
  also have "\<dots> = 2 ^ 32" by (simp add: k_def flip: power_add)
  finally have "unat ?net + 2 ^ k \<le> 2 ^ 32" by (subst q) simp
  then have ul: "unat (Ipv4Address_value (Ipv4Prefix_last_address p)) = unat ?net + (2 ^ k - 1)"
    by (simp add: Ipv4Prefix_last_address_def last unat_word_ariths unat_not_mask_value k_def)
  have "Ipv4Prefix_contains p a \<longleftrightarrow> unat ?v div 2 ^ k * 2 ^ k = unat ?net"
    by (simp add: Ipv4Prefix_contains_def word_unat_eq_iff unat_and_mask_value k_def)
  also have "\<dots> \<longleftrightarrow> unat ?v div 2 ^ k = unat ?net div 2 ^ k" by (subst q) simp
  also have "\<dots> \<longleftrightarrow> unat ?net div 2 ^ k * 2 ^ k \<le> unat ?v \<and> unat ?v < (unat ?net div 2 ^ k + 1) * 2 ^ k"
    by (rule div_eq_interval) simp
  also have "\<dots> \<longleftrightarrow> unat ?net \<le> unat ?v \<and> unat ?v < unat ?net + 2 ^ k"
    using q by (simp add: distrib_right add.commute)
  also have "\<dots> \<longleftrightarrow> unat ?net \<le> unat ?v \<and> unat ?v \<le> unat ?net + (2 ^ k - 1)"
    by (cases "2 ^ k :: nat") auto
  finally show ?thesis by (simp add: ul)
qed

lemma prefix_contains_interval:
  assumes "Ipv4Prefix_wf p"
  shows "Ipv4Prefix_contains p a \<longleftrightarrow> Ipv4Prefix_network_address p \<le> a \<and> a \<le> Ipv4Prefix_last_address p"
  using prefix_contains_interval_nat [OF assms]
  by (simp add: less_eq_Ipv4Address_def word_le_nat_alt)

lemma prefix_contains_bits:
  assumes "Ipv4Prefix_wf p"
  shows "Ipv4Prefix_contains p a \<longleftrightarrow>
    (\<forall>n. 32 - unat (Ipv4Prefix_length p) \<le> n \<and> n < 32 \<longrightarrow>
      bit (Ipv4Address_value a) n = bit (Ipv4Address_value (Ipv4Prefix_network_address p)) n)"
proof -
  let ?m = "mask_value (Ipv4Prefix_length p)"
    and ?net = "Ipv4Address_value (Ipv4Prefix_network_address p)"
  have "?net AND ?m = ?net" using assms by (simp add: Ipv4Prefix_wf_iff)
  then have "Ipv4Prefix_contains p a \<longleftrightarrow> Ipv4Address_value a AND ?m = ?net AND ?m"
    by (simp add: Ipv4Prefix_contains_def)
  also have "\<dots> \<longleftrightarrow> (\<forall>n. bit ?m n \<longrightarrow> bit (Ipv4Address_value a) n = bit ?net n)"
    by (subst bit_eq_iff) (auto simp: bit_simps bit_mask_value)
  finally show ?thesis by (simp add: bit_mask_value)
qed

text \<open>Two prefixes of the same length that contain a common address are the same prefix.\<close>

lemma prefix_same_length_unique:
  assumes "Ipv4Prefix_contains p a" and "Ipv4Prefix_contains q a"
    and "Ipv4Prefix_length p = Ipv4Prefix_length q"
  shows "p = q"
  using assms by (cases p; cases q; cases "Ipv4Prefix_network_address p";
      cases "Ipv4Prefix_network_address q") (simp add: Ipv4Prefix_contains_def)

section \<open>The text form is read back\<close>

lemma digit_not_slash: "is_digit c \<Longrightarrow> c \<noteq> CHR ''/''"
  by (auto simp: is_digit_def)

lemma decimal_no_slash: "CHR ''/'' \<notin> set (decimal n)"
  using decimal_digits [of n] digit_not_slash by (auto simp: list_all_iff)

lemma ipv4_text_no_slash: "CHR ''/'' \<notin> set (Ipv4Address_to_string a)"
proof -
  obtain w x y z where "Ipv4Address_octets a = [w, x, y, z]"
    by (auto simp: Ipv4Address_octets_def Let_def)
  from Ipv4Address_to_string_eq [OF this] show ?thesis by (simp add: decimal_no_slash)
qed

lemma find_if_append:
  "\<forall>x \<in> set xs. \<not> P x \<Longrightarrow> find_if P (xs @ ys) = map_option ((+) (length xs)) (find_if P ys)"
  by (induction xs) (cases "find_if P ys"; auto)+

lemma prefix_parse_parts:
  assumes "l \<le> 32"
  shows "Ipv4Prefix_parse (Ipv4Address_to_string a @ ''/'' @ decimal l) = Ipv4Prefix_create a (of_nat l)"
proof -
  let ?s = "Ipv4Address_to_string a @ ''/'' @ decimal l"
  have sep: "find_if (\<lambda>c. c = CHR ''/'') ?s = Some (length (Ipv4Address_to_string a))"
    using ipv4_text_no_slash [of a] by (subst find_if_append) auto
  have "find_if (\<lambda>c. c = CHR ''/'') (decimal l) = None"
    using decimal_no_slash [of l] by (auto simp: find_if_None_iff)
  moreover have "\<not> (length (decimal l) > 1 \<and> hd (decimal l) = CHR ''0'')"
    using canonical_digits_decimal [of l] by (auto simp: canonical_digits_def)
  moreover have "from_chars_unsigned (decimal l) = Some (length (decimal l), l)"
    using assms by (intro from_chars_decimal) simp
  ultimately show ?thesis
    using assms unfolding Ipv4Prefix_parse_def sep by (auto simp: Let_def ipv4_parse_to_string)
qed

lemma prefix_parse_to_string:
  assumes "Ipv4Prefix_wf p"
  shows "Ipv4Prefix_parse (Ipv4Prefix_to_string p) = Some p"
proof -
  have "unat (Ipv4Prefix_length p) \<le> 32" using assms by (simp add: Ipv4Prefix_wf_iff word_le_nat_alt)
  from prefix_parse_parts [OF this, of "Ipv4Prefix_network_address p"] show ?thesis
    using assms by (simp add: Ipv4Prefix_to_string_def Ipv4Prefix_wf_def)
qed

lemma prefix_parse_SomeD:
  assumes "Ipv4Prefix_parse s = Some p"
  shows "\<exists>a. s = Ipv4Address_to_string a @ ''/'' @ decimal (unat (Ipv4Prefix_length p)) \<and>
    Ipv4Prefix_create a (Ipv4Prefix_length p) = Some p"
proof -
  obtain i a l where i: "find_if (\<lambda>c. c = CHR ''/'') s = Some i"
    and a: "Ipv4Address_parse (take i s) = Some a"
    and z: "\<not> (length (drop (i + 1) s) > 1 \<and> hd (drop (i + 1) s) = CHR ''0'')"
    and l: "from_chars_unsigned (drop (i + 1) s) = Some (length (drop (i + 1) s), l)" "l \<le> 32"
    and p: "Ipv4Prefix_create a (of_nat l) = Some p"
    using assms by (auto simp: Ipv4Prefix_parse_def Let_def split: option.splits if_splits)
  have s: "s = take i s @ ''/'' @ drop (i + 1) s"
    using find_if_SomeD [OF i] id_take_nth_drop [of i s] by simp
  have "canonical_digits (drop (i + 1) s)" and lv: "l = digits_value (drop (i + 1) s)"
    using from_chars_all [OF l(1)] z by (auto simp: canonical_digits_def)
  then have "drop (i + 1) s = decimal l" by (simp add: decimal_digits_value)
  moreover have "Ipv4Prefix_length p = of_nat l"
    using p by (auto simp: Ipv4Prefix_create_def split: if_splits)
  moreover have "unat (of_nat l :: u8) = l" using l(2) by (simp add: unat_of_nat take_bit_eq_mod)
  ultimately show ?thesis
    using s p ipv4_to_string_parse [OF a] by (intro exI [of _ a]) metis
qed

section \<open>Properties\<close>

text \<open>
  A prefix that \<open>create\<close> makes contains an address exactly if the address lies
  between the network address and the last address; the mask test of the code is an interval
  test, for every length from 0 to 32.
\<close>

lemma ipv4_prefix_contains_interval:
  assumes "Ipv4Prefix_create network len = Some p"
  shows "Ipv4Prefix_contains p a \<longleftrightarrow> Ipv4Prefix_network_address p \<le> a \<and> a \<le> Ipv4Prefix_last_address p"
  by (rule prefix_contains_interval [OF Ipv4Prefix_create_wf [OF assms]])

lemma ipv4_prefix_contains_interval_witness:
  "Ipv4Prefix_contains (Ipv4Prefix (Ipv4Address 0x0A010000) 16) (Ipv4Address 0x0A0155AA) \<longleftrightarrow>
     Ipv4Address 0x0A010000 \<le> Ipv4Address 0x0A0155AA \<and> Ipv4Address 0x0A0155AA \<le> Ipv4Address 0x0A01FFFF"
proof -
  have "Ipv4Prefix_create (Ipv4Address 0x0A010203) 16 = Some (Ipv4Prefix (Ipv4Address 0x0A010000) 16)"
    by (simp add: Ipv4Prefix_create_def mask_value_def)
  moreover have "Ipv4Prefix_last_address (Ipv4Prefix (Ipv4Address 0x0A010000) 16) = Ipv4Address 0x0A01FFFF"
    by (simp add: Ipv4Prefix_last_address_def mask_value_def)
  ultimately show ?thesis using ipv4_prefix_contains_interval [of "Ipv4Address 0x0A010203" 16 _ "Ipv4Address 0x0A0155AA"]
    by simp
qed

text \<open>
  The prefix parser accepts exactly an address in dotted-decimal form, a slash
  and a canonical length of at most 32, and yields the prefix with the host bits cleared.
\<close>

lemma ipv4_prefix_text_iff:
  "Ipv4Prefix_parse s = Some p \<longleftrightarrow>
     (\<exists>a. s = Ipv4Address_to_string a @ ''/'' @ decimal (unat (Ipv4Prefix_length p)) \<and>
          Ipv4Prefix_create a (Ipv4Prefix_length p) = Some p)"
proof
  assume "\<exists>a. s = Ipv4Address_to_string a @ ''/'' @ decimal (unat (Ipv4Prefix_length p)) \<and>
    Ipv4Prefix_create a (Ipv4Prefix_length p) = Some p"
  then obtain a where s: "s = Ipv4Address_to_string a @ ''/'' @ decimal (unat (Ipv4Prefix_length p))"
    and p: "Ipv4Prefix_create a (Ipv4Prefix_length p) = Some p" by blast
  have "unat (Ipv4Prefix_length p) \<le> 32"
    using p by (auto simp: Ipv4Prefix_create_def word_le_nat_alt not_less split: if_splits)
  from prefix_parse_parts [OF this, of a] show "Ipv4Prefix_parse s = Some p" using s p by simp
qed (rule prefix_parse_SomeD)

end
