(* ===== verification/Std_Containers.thy ===== *)
theory Std_Containers
  imports Prelude
begin

text \<open>
  What the sources use of the ordered containers of the standard library. A \<^verbatim>\<open>std::map\<close> is
  its sequence of key-value pairs in iteration order, strictly ascending in the key; a
  \<^verbatim>\<open>std::set\<close> is a map to the unit value. The contract \<open>keyed_store\<close> states what a client of
  a keyed table relies on; it is interpreted on \<^verbatim>\<open>std::map\<close> here and on the vectors with
  replace-or-append insertion that several components use.
\<close>

section \<open>Ordered maps\<close>

type_synonym ('k, 'v) std_map = "('k \<times> 'v) list"

fun map_find :: "('k, 'v) std_map \<Rightarrow> 'k \<Rightarrow> 'v option" where
  "map_find [] k = None"
| "map_find ((k', v) # m) k = (if k = k' then Some v else map_find m k)"

text \<open>\<^verbatim>\<open>map[key] = value\<close> and \<^verbatim>\<open>insert_or_assign\<close>.\<close>

fun map_assign :: "'k::linorder \<Rightarrow> 'v \<Rightarrow> ('k, 'v) std_map \<Rightarrow> ('k, 'v) std_map" where
  "map_assign k v [] = [(k, v)]"
| "map_assign k v ((k', v') # m) =
     (if k < k' then (k, v) # (k', v') # m
      else if k = k' then (k, v) # m
      else (k', v') # map_assign k v m)"

text \<open>\<^verbatim>\<open>emplace\<close>: an existing key keeps its value. The result says whether it inserted.\<close>

definition map_emplace :: "'k::linorder \<Rightarrow> 'v \<Rightarrow> ('k, 'v) std_map \<Rightarrow> bool \<times> ('k, 'v) std_map" where
  "map_emplace k v m = (if map_find m k = None then (True, map_assign k v m) else (False, m))"

text \<open>\<^verbatim>\<open>erase(key)\<close>: the number of elements removed and the map after it.\<close>

definition map_erase :: "'k \<Rightarrow> ('k, 'v) std_map \<Rightarrow> nat \<times> ('k, 'v) std_map" where
  "map_erase k m = (if map_find m k = None then 0 else 1, filter (\<lambda>e. fst e \<noteq> k) m)"

text \<open>
  The loop that walks the map with an iterator and erases the entries that satisfy a
  predicate, with the count of removals.
\<close>

fun map_erase_if :: "('k \<times> 'v \<Rightarrow> bool) \<Rightarrow> ('k, 'v) std_map \<Rightarrow> nat \<times> ('k, 'v) std_map" where
  "map_erase_if P [] = (0, [])"
| "map_erase_if P (e # m) =
     (let (removed, m') = map_erase_if P m in if P e then (Suc removed, m') else (removed, e # m'))"

definition map_wf :: "('k::linorder, 'v) std_map \<Rightarrow> bool" where
  "map_wf m \<longleftrightarrow> sorted_wrt (<) (map fst m)"

section \<open>Ordered sets\<close>

type_synonym 'k std_set = "('k, unit) std_map"

definition set_contains :: "'k std_set \<Rightarrow> 'k \<Rightarrow> bool" where
  "set_contains s k \<longleftrightarrow> map_find s k \<noteq> None"

definition set_insert :: "'k::linorder \<Rightarrow> 'k std_set \<Rightarrow> bool \<times> 'k std_set" where
  "set_insert k s = map_emplace k () s"

definition set_erase :: "'k \<Rightarrow> 'k std_set \<Rightarrow> nat \<times> 'k std_set" where
  "set_erase k s = map_erase k s"

section \<open>Keyed vectors\<close>

text \<open>
  A vector searched by a key of its elements: \<^verbatim>\<open>find_if\<close>, then assignment through the
  iterator or \<^verbatim>\<open>push_back\<close>, or \<^verbatim>\<open>erase\<close> of the iterator.
\<close>

definition vec_find :: "('v \<Rightarrow> 'k) \<Rightarrow> 'v list \<Rightarrow> 'k \<Rightarrow> 'v option" where
  "vec_find key xs k = map_option ((!) xs) (find_if (\<lambda>x. key x = k) xs)"

definition vec_upsert :: "('v \<Rightarrow> 'k) \<Rightarrow> 'v \<Rightarrow> 'v list \<Rightarrow> bool \<times> 'v list" where
  "vec_upsert key x xs =
     (case find_if (\<lambda>y. key y = key x) xs of
        Some i \<Rightarrow> (True, xs[i := x])
      | None \<Rightarrow> (False, xs @ [x]))"

definition vec_remove :: "('v \<Rightarrow> 'k) \<Rightarrow> 'k \<Rightarrow> 'v list \<Rightarrow> bool \<times> 'v list" where
  "vec_remove key k xs =
     (case find_if (\<lambda>y. key y = k) xs of
        Some i \<Rightarrow> (True, erase_at i xs)
      | None \<Rightarrow> (False, xs))"

section \<open>The contract of a keyed store\<close>

text \<open>
  The operations of a table keyed by \<open>'k\<close>, the invariant that makes them work, and the laws:
  each operation acts on the finite map that \<open>lookup\<close> presents, and the size is the number of
  keys of that map.
\<close>

locale keyed_store =
  fixes empty :: 's
    and lookup :: "'s \<Rightarrow> 'k \<Rightarrow> 'v option"
    and update :: "'k \<Rightarrow> 'v \<Rightarrow> 's \<Rightarrow> 's"
    and delete :: "'k \<Rightarrow> 's \<Rightarrow> 's"
    and size_of :: "'s \<Rightarrow> nat"
    and inv :: "'s \<Rightarrow> bool"
    and fits :: "'k \<Rightarrow> 'v \<Rightarrow> bool"
  assumes inv_empty: "inv empty"
    and lookup_empty: "lookup empty = Map.empty"
    and inv_update: "inv s \<Longrightarrow> fits k v \<Longrightarrow> inv (update k v s)"
    and lookup_update: "inv s \<Longrightarrow> fits k v \<Longrightarrow> lookup (update k v s) = (lookup s)(k \<mapsto> v)"
    and inv_delete: "inv s \<Longrightarrow> inv (delete k s)"
    and lookup_delete: "inv s \<Longrightarrow> lookup (delete k s) = (lookup s)(k := None)"
    and finite_keys: "finite (dom (lookup s))"
    and size_keys: "inv s \<Longrightarrow> size_of s = card (dom (lookup s))"
begin

lemma size_empty: "size_of empty = 0"
  by (simp add: size_keys inv_empty lookup_empty)

lemma size_update:
  "inv s \<Longrightarrow> fits k v \<Longrightarrow>
   size_of (update k v s) = (if lookup s k = None then Suc (size_of s) else size_of s)"
  using finite_keys [of s]
  by (auto simp: size_keys inv_update lookup_update domIff insert_absorb)

lemma size_delete:
  "inv s \<Longrightarrow> size_of (delete k s) = (if lookup s k = None then size_of s else size_of s - 1)"
  using finite_keys [of s] by (auto simp: size_keys inv_delete lookup_delete domIff dom_fun_upd)

lemma size_delete_le: "inv s \<Longrightarrow> size_of (delete k s) \<le> size_of s"
  by (simp add: size_delete)

lemma lookup_update_other: "inv s \<Longrightarrow> fits k v \<Longrightarrow> k' \<noteq> k \<Longrightarrow> lookup (update k v s) k' = lookup s k'"
  by (simp add: lookup_update)

lemma update_update: "inv s \<Longrightarrow> fits k v \<Longrightarrow> fits k w \<Longrightarrow> lookup (update k w (update k v s)) = lookup (update k w s)"
  by (simp add: lookup_update inv_update)

lemma delete_update: "inv s \<Longrightarrow> fits k v \<Longrightarrow> lookup s k = None \<Longrightarrow> lookup (delete k (update k v s)) = lookup s"
  by (auto simp: lookup_update lookup_delete inv_update)

end

section \<open>Maps keep the contract\<close>

lemma map_find_eq_map_of: "map_find m = map_of m"
proof
  show "map_find m k = map_of m k" for k by (induction m) auto
qed

lemma map_find_None_iff: "map_find m k = None \<longleftrightarrow> k \<notin> fst ` set m"
  by (simp add: map_find_eq_map_of map_of_eq_None_iff)

lemma set_map_assign: "fst ` set (map_assign k v m) = insert k (fst ` set m)"
  by (induction k v m rule: map_assign.induct) auto

lemma map_wf_Nil [simp]: "map_wf []"
  by (simp add: map_wf_def)

lemma map_wf_Cons: "map_wf ((k, v) # m) \<longleftrightarrow> (\<forall>k' \<in> fst ` set m. k < k') \<and> map_wf m"
  by (auto simp: map_wf_def)

lemma map_wf_assign: "map_wf m \<Longrightarrow> map_wf (map_assign k v m)"
proof (induction k v m rule: map_assign.induct)
  case (2 k v k' v' m)
  consider "k < k'" | "k = k'" | "k' < k" by (meson linorder_cases)
  then show ?case
  proof cases
    case 1
    then show ?thesis using 2 by (auto simp: map_wf_Cons)
  next
    case 3
    then show ?thesis using 2 by (auto simp: map_wf_Cons set_map_assign)
  qed (use 2 in \<open>auto simp: map_wf_Cons\<close>)
qed (simp add: map_wf_def)

lemma map_find_assign: "map_wf m \<Longrightarrow> map_find (map_assign k v m) = (map_find m)(k \<mapsto> v)"
  by (induction k v m rule: map_assign.induct) (auto simp: map_wf_Cons map_find_None_iff fun_eq_iff)

lemma map_wf_filter: "map_wf m \<Longrightarrow> map_wf (filter P m)"
  by (induction m) (auto simp: map_wf_Cons)

lemma map_wf_distinct: "map_wf m \<Longrightarrow> distinct (map fst m)"
  by (simp add: map_wf_def strict_sorted_iff)

lemma map_find_filter:
  "map_wf m \<Longrightarrow> map_find (filter P m) k =
     (case map_find m k of Some v \<Rightarrow> if P (k, v) then Some v else None | None \<Rightarrow> None)"
proof (induction m)
  case (Cons e m)
  obtain k' v' where e: "e = (k', v')" by (cases e)
  have "map_find (filter P m) k' = None" using Cons.prems by (auto simp: e map_find_None_iff map_wf_Cons)
  then show ?case using Cons by (auto simp: e map_wf_Cons)
qed simp

lemma map_erase_if_eq: "map_erase_if P m = (length (filter P m), filter (\<lambda>e. \<not> P e) m)"
  by (induction m) (auto simp: Let_def)

lemma map_wf_erase: "map_wf m \<Longrightarrow> map_wf (snd (map_erase k m))"
  by (simp add: map_erase_def map_wf_filter)

lemma map_find_erase: "map_wf m \<Longrightarrow> map_find (snd (map_erase k m)) = (map_find m)(k := None)"
  by (auto simp: map_erase_def map_find_filter fun_eq_iff split: option.split)

lemma length_map_wf: "map_wf m \<Longrightarrow> length m = card (dom (map_find m))"
  using map_wf_distinct [of m] distinct_card [of "map fst m"]
  by (simp add: map_find_eq_map_of dom_map_of_conv_image_fst)

lemma map_find_Some_set: "map_wf m \<Longrightarrow> map_find m k = Some v \<longleftrightarrow> (k, v) \<in> set m"
  by (simp add: map_find_eq_map_of map_wf_distinct map_of_eq_Some_iff)

lemma map_emplace_wf: "map_wf m \<Longrightarrow> map_wf (snd (map_emplace k v m))"
  by (simp add: map_emplace_def map_wf_assign)

lemma map_find_emplace:
  "map_wf m \<Longrightarrow> map_find (snd (map_emplace k v m)) =
     (if map_find m k = None then (map_find m)(k \<mapsto> v) else map_find m)"
  by (simp add: map_emplace_def map_find_assign)

interpretation std_map: keyed_store
  "[] :: ('k::linorder, 'v) std_map" map_find map_assign "\<lambda>k m. snd (map_erase k m)" length map_wf "\<lambda>_ _. True"
proof unfold_locales
  show "finite (dom (map_find m))" for m :: "('k, 'v) std_map"
    by (simp add: map_find_eq_map_of finite_dom_map_of)
qed (auto simp: map_wf_assign map_find_assign map_wf_erase map_find_erase length_map_wf)

lemma set_insert_wf: "map_wf s \<Longrightarrow> map_wf (snd (set_insert k s))"
  by (simp add: set_insert_def map_emplace_wf)

lemma set_erase_wf: "map_wf s \<Longrightarrow> map_wf (snd (set_erase k s))"
  by (simp add: set_erase_def map_wf_erase)

lemma set_contains_insert: "map_wf s \<Longrightarrow> set_contains (snd (set_insert k s)) j \<longleftrightarrow> j = k \<or> set_contains s j"
  by (auto simp: set_contains_def set_insert_def map_find_emplace)

lemma set_contains_erase: "map_wf s \<Longrightarrow> set_contains (snd (set_erase k s)) j \<longleftrightarrow> j \<noteq> k \<and> set_contains s j"
  by (auto simp: set_contains_def set_erase_def map_find_erase)

section \<open>Keyed vectors keep the contract\<close>

definition vec_wf :: "('v \<Rightarrow> 'k) \<Rightarrow> 'v list \<Rightarrow> bool" where
  "vec_wf key xs \<longleftrightarrow> distinct (map key xs)"

lemma vec_find_Some_iff:
  "vec_wf key xs \<Longrightarrow> vec_find key xs k = Some x \<longleftrightarrow> x \<in> set xs \<and> key x = k"
proof (unfold vec_find_def find_if_map_nth, induction xs)
  case (Cons y xs)
  then show ?case by (auto simp: vec_wf_def)
qed simp

lemma vec_find_None_iff: "vec_find key xs k = None \<longleftrightarrow> (\<forall>x \<in> set xs. key x \<noteq> k)"
  by (simp add: vec_find_def find_if_None_iff)

lemma vec_upsert_keys:
  "map key (snd (vec_upsert key x xs)) =
     (if key x \<in> key ` set xs then map key xs else map key xs @ [key x])"
proof (cases "find_if (\<lambda>y. key y = key x) xs")
  case (Some i)
  then have "i < length xs" "key (xs ! i) = key x" using find_if_SomeD by fastforce+
  moreover from this have "key x \<in> key ` set xs" by (metis image_eqI nth_mem)
  moreover have "map key (xs[i := x]) = map key xs"
    using calculation by (simp add: map_update list_update_same_conv)
  ultimately show ?thesis using Some by (simp add: vec_upsert_def)
next
  case None
  then have "key x \<notin> key ` set xs" by (auto simp: find_if_None_iff)
  with None show ?thesis by (simp add: vec_upsert_def)
qed

lemma vec_wf_upsert: "vec_wf key xs \<Longrightarrow> vec_wf key (snd (vec_upsert key x xs))"
  by (simp add: vec_wf_def vec_upsert_keys)

lemma vec_wf_remove: "vec_wf key xs \<Longrightarrow> vec_wf key (snd (vec_remove key k xs))"
proof (cases "find_if (\<lambda>y. key y = k) xs")
  case (Some i)
  assume "vec_wf key xs"
  then have "distinct (erase_at i (map key xs))" by (simp add: vec_wf_def distinct_erase_at)
  then show ?thesis using Some by (simp add: vec_remove_def vec_wf_def erase_at_def take_map drop_map)
qed (simp add: vec_remove_def)

lemma set_upsert:
  "vec_wf key xs \<Longrightarrow> set (snd (vec_upsert key x xs)) = insert x {y \<in> set xs. key y \<noteq> key x}"
proof (cases "find_if (\<lambda>y. key y = key x) xs")
  case (Some i)
  assume wf: "vec_wf key xs"
  from Some have i: "i < length xs" "key (xs ! i) = key x" using find_if_SomeD by fastforce+
  have "set (xs[i := x]) = insert x {xs ! j |j. j < length xs \<and> j \<noteq> i}"
    using i by (auto simp: set_conv_nth nth_list_update)
  also have "{xs ! j |j. j < length xs \<and> j \<noteq> i} = {y \<in> set xs. key y \<noteq> key x}"
    using wf i by (auto simp: vec_wf_def set_conv_nth distinct_conv_nth) (metis length_map nth_map)
  finally show ?thesis using Some by (simp add: vec_upsert_def)
next
  case None
  then have "\<forall>y \<in> set xs. key y \<noteq> key x" by (simp add: find_if_None_iff)
  with None show ?thesis by (auto simp: vec_upsert_def)
qed

lemma set_remove:
  "vec_wf key xs \<Longrightarrow> set (snd (vec_remove key k xs)) = {y \<in> set xs. key y \<noteq> k}"
proof (cases "find_if (\<lambda>y. key y = k) xs")
  case (Some i)
  assume wf: "vec_wf key xs"
  from Some have i: "i < length xs" "key (xs ! i) = k" using find_if_SomeD by fastforce+
  then have xs: "xs = take i xs @ xs ! i # drop (Suc i) xs" by (simp add: id_take_nth_drop)
  have "distinct (map key (take i xs @ xs ! i # drop (Suc i) xs))"
    using wf xs by (simp add: vec_wf_def)
  then have "k \<notin> key ` set (take i xs)" "k \<notin> key ` set (drop (Suc i) xs)" using i by auto
  then have "\<forall>y \<in> set (take i xs) \<union> set (drop (Suc i) xs). key y \<noteq> k" by blast
  then have "set (erase_at i xs) = {y \<in> set (take i xs @ xs ! i # drop (Suc i) xs). key y \<noteq> k}"
    using i by (auto simp: erase_at_def)
  then show ?thesis using Some xs by (simp add: vec_remove_def)
next
  case None
  then have "\<forall>y \<in> set xs. key y \<noteq> k" by (simp add: find_if_None_iff)
  with None show ?thesis by (auto simp: vec_remove_def)
qed

lemma vec_find_upsert:
  assumes "vec_wf key xs"
  shows "vec_find key (snd (vec_upsert key x xs)) = (vec_find key xs)(key x \<mapsto> x)"
proof (rule ext, rule option.expand)
  fix k
  have eq: "vec_find key (snd (vec_upsert key x xs)) k = Some y \<longleftrightarrow>
      ((vec_find key xs)(key x \<mapsto> x)) k = Some y" for y
    using assms by (auto simp: vec_find_Some_iff vec_wf_upsert set_upsert)
  then show "(vec_find key (snd (vec_upsert key x xs)) k = None) = (((vec_find key xs)(key x \<mapsto> x)) k = None)"
    by (metis not_Some_eq)
  show "the (vec_find key (snd (vec_upsert key x xs)) k) = the (((vec_find key xs)(key x \<mapsto> x)) k)"
    if "vec_find key (snd (vec_upsert key x xs)) k \<noteq> None"
    using that eq by (metis option.collapse)
qed

lemma vec_find_remove:
  assumes "vec_wf key xs"
  shows "vec_find key (snd (vec_remove key k xs)) = (vec_find key xs)(k := None)"
proof (rule ext)
  fix j
  have eq: "vec_find key (snd (vec_remove key k xs)) j = Some y \<longleftrightarrow>
      ((vec_find key xs)(k := None)) j = Some y" for y
    using assms by (auto simp: vec_find_Some_iff vec_wf_remove set_remove)
  then show "vec_find key (snd (vec_remove key k xs)) j = ((vec_find key xs)(k := None)) j"
    by (metis not_Some_eq)
qed

lemma dom_vec_find: "dom (vec_find key xs) = key ` set xs"
proof -
  have "k \<in> dom (vec_find key xs) \<longleftrightarrow> k \<in> key ` set xs" for k
    using vec_find_None_iff [of key xs k] by (simp add: domIff) blast
  then show ?thesis by blast
qed

interpretation keyed_vector: keyed_store
  "[] :: 'v list" "vec_find key" "\<lambda>k x xs. snd (vec_upsert key x xs)" "\<lambda>k xs. snd (vec_remove key k xs)"
  length "vec_wf key" "\<lambda>k x. key x = k" for key :: "'v \<Rightarrow> 'k"
proof unfold_locales
  show "length xs = card (dom (vec_find key xs))" if "vec_wf key xs" for xs
    using that distinct_card [of "map key xs"] by (simp add: vec_wf_def dom_vec_find)
qed (auto simp: vec_wf_upsert vec_find_upsert vec_wf_remove vec_find_remove dom_vec_find vec_find_None_iff
    vec_wf_def [of _ "[]"] fun_eq_iff)

text \<open>Whether the operation met the key.\<close>

lemma vec_upsert_fst: "fst (vec_upsert key x xs) \<longleftrightarrow> vec_find key xs (key x) \<noteq> None"
  by (auto simp: vec_upsert_def vec_find_def split: option.split)

lemma vec_remove_fst: "fst (vec_remove key k xs) \<longleftrightarrow> vec_find key xs k \<noteq> None"
  by (auto simp: vec_remove_def vec_find_def split: option.split)

end
