(* ===== verification/Route_Table.thy ===== *)
theory Route_Table
  imports Ipv4_Prefix Identifiers Std_Containers
begin

text \<open>
  \<^verbatim>\<open>routing/route_entry.hpp\<close> and \<^verbatim>\<open>routing/ipv4_route_table.cpp\<close>: the route entries and the
  table, a vector with at most one entry per prefix. The table refines a finite map from
  prefixes to entries, and \<open>longest_prefix_match\<close>, a scan that keeps the best entry so far,
  yields the entry with the longest of the matching prefixes, which is unique.
\<close>

section \<open>Entries and the table\<close>

record RouteEntry =
  route_prefix :: Ipv4Prefix
  route_next_hop :: "Ipv4Address option"
  route_output_port :: PortId

definition RouteEntry_create :: "Ipv4Prefix \<Rightarrow> Ipv4Address option \<Rightarrow> PortId \<Rightarrow> RouteEntry option" where
  "RouteEntry_create pfx next_hop output_port =
     (case next_hop of
        Some hop \<Rightarrow>
          if Ipv4Address_is_unspecified hop \<or> Ipv4Address_is_multicast hop \<or>
             Ipv4Address_is_limited_broadcast hop
          then None
          else Some \<lparr>route_prefix = pfx, route_next_hop = next_hop, route_output_port = output_port\<rparr>
      | None \<Rightarrow> Some \<lparr>route_prefix = pfx, route_next_hop = next_hop, route_output_port = output_port\<rparr>)"

definition RouteEntry_is_directly_connected :: "RouteEntry \<Rightarrow> bool" where
  "RouteEntry_is_directly_connected e \<longleftrightarrow> route_next_hop e = None"

datatype RouteUpdate = route_inserted | route_replaced

type_synonym Ipv4RouteTable = "RouteEntry list"

definition Ipv4RouteTable_add_or_replace :: "RouteEntry \<Rightarrow> Ipv4RouteTable \<Rightarrow> RouteUpdate \<times> Ipv4RouteTable" where
  "Ipv4RouteTable_add_or_replace entry entries =
     (case find_if (\<lambda>candidate. route_prefix candidate = route_prefix entry) entries of
        Some existing \<Rightarrow> (route_replaced, entries[existing := entry])
      | None \<Rightarrow> (route_inserted, entries @ [entry]))"

definition Ipv4RouteTable_remove :: "Ipv4Prefix \<Rightarrow> Ipv4RouteTable \<Rightarrow> bool \<times> Ipv4RouteTable" where
  "Ipv4RouteTable_remove pfx entries =
     (case find_if (\<lambda>entry. route_prefix entry = pfx) entries of
        None \<Rightarrow> (False, entries)
      | Some existing \<Rightarrow> (True, erase_at existing entries))"

definition Ipv4RouteTable_find_exact :: "Ipv4RouteTable \<Rightarrow> Ipv4Prefix \<Rightarrow> RouteEntry option" where
  "Ipv4RouteTable_find_exact entries pfx =
     (case find_if (\<lambda>entry. route_prefix entry = pfx) entries of
        None \<Rightarrow> None
      | Some existing \<Rightarrow> Some (entries ! existing))"

text \<open>The scan; the pointer \<^verbatim>\<open>best_match\<close> is the entry it points to, \<open>None\<close> for null.\<close>

definition better_match :: "Ipv4Address \<Rightarrow> RouteEntry \<Rightarrow> RouteEntry option \<Rightarrow> RouteEntry option" where
  "better_match dest entry best_match =
     (if Ipv4Prefix_contains (route_prefix entry) dest \<and>
         (case best_match of None \<Rightarrow> True
          | Some best \<Rightarrow> Ipv4Prefix_length (route_prefix entry) > Ipv4Prefix_length (route_prefix best))
      then Some entry else best_match)"

definition Ipv4RouteTable_longest_prefix_match :: "Ipv4RouteTable \<Rightarrow> Ipv4Address \<Rightarrow> RouteEntry option" where
  "Ipv4RouteTable_longest_prefix_match entries dest = fold (better_match dest) entries None"

definition Ipv4RouteTable_size :: "Ipv4RouteTable \<Rightarrow> nat" where
  "Ipv4RouteTable_size entries = length entries"

text \<open>The updates of a table as events of a machine that starts with the empty table.\<close>

datatype RouteOp = AddRoute RouteEntry | RemoveRoute Ipv4Prefix

fun RouteTable_step :: "Ipv4RouteTable \<Rightarrow> RouteOp \<Rightarrow> Ipv4RouteTable" where
  "RouteTable_step t (AddRoute entry) = snd (Ipv4RouteTable_add_or_replace entry t)"
| "RouteTable_step t (RemoveRoute pfx) = snd (Ipv4RouteTable_remove pfx t)"

definition RouteTable_inv :: "Ipv4RouteTable \<Rightarrow> bool" where
  "RouteTable_inv t \<longleftrightarrow> vec_wf route_prefix t"

section \<open>The table is a keyed vector\<close>

lemma add_or_replace_eq:
  "Ipv4RouteTable_add_or_replace entry t =
     (if fst (vec_upsert route_prefix entry t) then route_replaced else route_inserted,
      snd (vec_upsert route_prefix entry t))"
  by (simp add: Ipv4RouteTable_add_or_replace_def vec_upsert_def split: option.split)

lemma route_remove_eq: "Ipv4RouteTable_remove pfx t = vec_remove route_prefix pfx t"
  by (simp add: Ipv4RouteTable_remove_def vec_remove_def split: option.split)

lemma find_exact_eq: "Ipv4RouteTable_find_exact = vec_find route_prefix"
  by (auto simp: Ipv4RouteTable_find_exact_def vec_find_def fun_eq_iff split: option.split)

lemmas route_table_eqs [table_defs] = add_or_replace_eq route_remove_eq find_exact_eq

interpretation route_table: keyed_store "[]" Ipv4RouteTable_find_exact
  "\<lambda>_ entry t. snd (Ipv4RouteTable_add_or_replace entry t)"
  "\<lambda>pfx t. snd (Ipv4RouteTable_remove pfx t)" Ipv4RouteTable_size RouteTable_inv
  "\<lambda>pfx entry. route_prefix entry = pfx"
proof -
  have eqs: "Ipv4RouteTable_size = length" "RouteTable_inv = vec_wf route_prefix"
    by (simp_all add: fun_eq_iff Ipv4RouteTable_size_def RouteTable_inv_def)
  show "keyed_store [] Ipv4RouteTable_find_exact
      (\<lambda>_ entry t. snd (Ipv4RouteTable_add_or_replace entry t))
      (\<lambda>pfx t. snd (Ipv4RouteTable_remove pfx t)) Ipv4RouteTable_size RouteTable_inv
      (\<lambda>pfx entry. route_prefix entry = pfx)"
    unfolding eqs route_table_eqs snd_conv by (rule keyed_vector.keyed_store_axioms)
qed

interpretation route_machine: invariant_system RouteTable_step RouteTable_inv
proof
  fix t e assume "RouteTable_inv t"
  then show "RouteTable_inv (RouteTable_step t e)"
    by (cases e) (simp_all add: route_table.inv_update route_table.inv_delete)
qed

section \<open>Longest prefix match\<close>

text \<open>The scan keeps the first of the longest matching entries of the part it has seen.\<close>

definition best_of :: "Ipv4Address \<Rightarrow> RouteEntry set \<Rightarrow> RouteEntry option \<Rightarrow> bool" where
  "best_of dest es best \<longleftrightarrow>
     (case best of
        None \<Rightarrow> \<forall>e \<in> es. \<not> Ipv4Prefix_contains (route_prefix e) dest
      | Some b \<Rightarrow> b \<in> es \<and> Ipv4Prefix_contains (route_prefix b) dest \<and>
          (\<forall>e \<in> es. Ipv4Prefix_contains (route_prefix e) dest \<longrightarrow>
             Ipv4Prefix_length (route_prefix e) \<le> Ipv4Prefix_length (route_prefix b)))"

lemma best_of_step: "best_of dest es best \<Longrightarrow> best_of dest (insert e es) (better_match dest e best)"
  by (auto simp: best_of_def better_match_def not_less split: option.splits)

lemma best_of_fold: "best_of dest es best \<Longrightarrow> best_of dest (set t \<union> es) (fold (better_match dest) t best)"
proof (induction t arbitrary: es best)
  case (Cons e t)
  then show ?case using Cons.IH [OF best_of_step [OF Cons.prems, of e]] by simp
qed simp

lemma best_of_longest_prefix_match: "best_of dest (set t) (Ipv4RouteTable_longest_prefix_match t dest)"
  using best_of_fold [of dest "{}" None t] by (simp add: Ipv4RouteTable_longest_prefix_match_def best_of_def)

lemma best_of_unique:
  assumes "RouteTable_inv t" and "best_of dest (set t) (Some a)" and "best_of dest (set t) (Some b)"
  shows "a = b"
proof -
  have "route_prefix a = route_prefix b"
    using assms(2,3) by (intro prefix_same_length_unique [of _ dest]) (auto simp: best_of_def intro: antisym)
  then show ?thesis
    using assms by (auto simp: best_of_def RouteTable_inv_def vec_wf_def dest: inj_onD [OF distinct_map [THEN iffD1, THEN conjunct2]])
qed

lemma lpm_Some_iff:
  assumes "RouteTable_inv t"
  shows "Ipv4RouteTable_longest_prefix_match t dest = Some e \<longleftrightarrow> best_of dest (set t) (Some e)"
proof
  assume e: "best_of dest (set t) (Some e)"
  then obtain b where "Ipv4RouteTable_longest_prefix_match t dest = Some b"
    using best_of_longest_prefix_match [of dest t]
    by (cases "Ipv4RouteTable_longest_prefix_match t dest") (auto simp: best_of_def)
  then show "Ipv4RouteTable_longest_prefix_match t dest = Some e"
    using best_of_unique [OF assms e] best_of_longest_prefix_match [of dest t] by simp
qed (metis best_of_longest_prefix_match)

lemma lpm_None_iff:
  "Ipv4RouteTable_longest_prefix_match t dest = None \<longleftrightarrow>
     (\<forall>e \<in> set t. \<not> Ipv4Prefix_contains (route_prefix e) dest)"
proof
  assume "\<forall>e \<in> set t. \<not> Ipv4Prefix_contains (route_prefix e) dest"
  then show "Ipv4RouteTable_longest_prefix_match t dest = None"
    using best_of_longest_prefix_match [of dest t]
    by (cases "Ipv4RouteTable_longest_prefix_match t dest") (auto simp: best_of_def)
qed (use best_of_longest_prefix_match [of dest t] in \<open>simp add: best_of_def\<close>)

lemma lpm_in_table: "Ipv4RouteTable_longest_prefix_match t dest = Some e \<Longrightarrow> e \<in> set t"
  using best_of_longest_prefix_match [of dest t] by (simp add: best_of_def)

section \<open>Properties\<close>

text \<open>The abstract table: a finite map from prefixes, changed by the same events.\<close>

fun RouteMap_step :: "(Ipv4Prefix \<rightharpoonup> RouteEntry) \<Rightarrow> RouteOp \<Rightarrow> (Ipv4Prefix \<rightharpoonup> RouteEntry)" where
  "RouteMap_step m (AddRoute entry) = m(route_prefix entry \<mapsto> entry)"
| "RouteMap_step m (RemoveRoute pfx) = m(pfx := None)"

lemma find_exact_step:
  "RouteTable_inv t \<Longrightarrow> Ipv4RouteTable_find_exact (RouteTable_step t e) = RouteMap_step (Ipv4RouteTable_find_exact t) e"
  by (cases e) (simp_all add: route_table.lookup_update route_table.lookup_delete)

lemma find_exact_run:
  "RouteTable_inv t \<Longrightarrow>
   Ipv4RouteTable_find_exact (run RouteTable_step t ops) = run RouteMap_step (Ipv4RouteTable_find_exact t) ops"
proof (induction ops arbitrary: t)
  case (Cons e ops)
  then show ?case using route_machine.inv_step [of t e] by (simp add: find_exact_step)
qed simp

text \<open>
  Property C15: a route table that went through any sequence of insertions, replacements and
  removals presents, through its exact lookup, the finite map that the same sequence gives.
\<close>

theorem route_table_refines_map:
  "Ipv4RouteTable_find_exact (run RouteTable_step [] ops) = run RouteMap_step Map.empty ops"
  using find_exact_run [of "[]" ops] by (simp add: route_table.inv_empty route_table.lookup_empty)

text \<open>
  Property C14: on every table that updates can build, \<open>longest_prefix_match\<close> yields an entry
  exactly if that entry is in the table, its prefix contains the destination and no entry whose
  prefix contains the destination has a longer prefix.
\<close>

theorem longest_prefix_match_correct:
  assumes "t = run RouteTable_step [] ops"
  shows "Ipv4RouteTable_longest_prefix_match t dest = Some e \<longleftrightarrow>
    Ipv4RouteTable_find_exact t (route_prefix e) = Some e \<and> Ipv4Prefix_contains (route_prefix e) dest \<and>
    (\<forall>p e'. Ipv4RouteTable_find_exact t p = Some e' \<and> Ipv4Prefix_contains p dest \<longrightarrow>
       Ipv4Prefix_length p \<le> Ipv4Prefix_length (route_prefix e))"
proof -
  have inv: "RouteTable_inv t" using route_machine.inv_run [OF route_table.inv_empty] assms by simp
  then have "Ipv4RouteTable_find_exact t p = Some e' \<longleftrightarrow> e' \<in> set t \<and> route_prefix e' = p" for p e'
    by (simp add: find_exact_eq vec_find_Some_iff RouteTable_inv_def)
  then show ?thesis by (auto simp: lpm_Some_iff [OF inv] best_of_def)
qed

definition sample_default_route :: RouteEntry where
  "sample_default_route = \<lparr>route_prefix = Ipv4Prefix (Ipv4Address 0) 0,
     route_next_hop = Some (Ipv4Address 0x0A000001), route_output_port = PortId 1\<rparr>"

definition sample_subnet_route :: RouteEntry where
  "sample_subnet_route = \<lparr>route_prefix = Ipv4Prefix (Ipv4Address 0x0A010000) 16,
     route_next_hop = None, route_output_port = PortId 2\<rparr>"

theorem longest_prefix_match_correct_witness:
  "Ipv4RouteTable_find_exact [sample_default_route, sample_subnet_route] (route_prefix sample_subnet_route) =
     Some sample_subnet_route \<and>
   Ipv4RouteTable_longest_prefix_match [sample_default_route, sample_subnet_route] (Ipv4Address 0x0A010203) =
     Some sample_subnet_route"
proof -
  have t: "[sample_default_route, sample_subnet_route] =
      run RouteTable_step [] [AddRoute sample_default_route, AddRoute sample_subnet_route]"
    by (simp add: Ipv4RouteTable_add_or_replace_def sample_default_route_def sample_subnet_route_def)
  have "Ipv4RouteTable_longest_prefix_match [sample_default_route, sample_subnet_route] (Ipv4Address 0x0A010203) =
      Some sample_subnet_route"
    by (simp add: Ipv4RouteTable_longest_prefix_match_def better_match_def sample_default_route_def
        sample_subnet_route_def Ipv4Prefix_contains_def mask_value_def)
  then show ?thesis
    using longest_prefix_match_correct [OF t, of "Ipv4Address 0x0A010203" sample_subnet_route] by blast
qed

end
