(* ===== verification/Arp_Cache.thy ===== *)
theory Arp_Cache
  imports Mac_Address Ipv4_Address Std_Containers
begin

text \<open>
  \<^verbatim>\<open>routing/arp_cache.cpp\<close>: the neighbour table with entry lifetimes. The overloads without a
  time argument read the clock and call the ones modelled here. The contract
  \<open>neighbour_resolver\<close> is what the encapsulation of routed packets relies on.
\<close>

section \<open>The cache\<close>

record ArpEntry =
  arp_mac_address :: MacAddress
  arp_learned_at :: TimePoint

record ArpCache =
  arp_entry_lifetime :: Duration
  arp_entries :: "(Ipv4Address, ArpEntry) std_map"

datatype ArpCacheUpdate = arp_inserted | arp_replaced | arp_rejected

definition is_valid_address :: "Ipv4Address \<Rightarrow> bool" where
  "is_valid_address address \<longleftrightarrow>
     \<not> Ipv4Address_is_unspecified address \<and> \<not> Ipv4Address_is_multicast address \<and>
     \<not> Ipv4Address_is_limited_broadcast address"

text \<open>The constructor throws for a lifetime that is not positive.\<close>

definition ArpCache_create :: "Duration \<Rightarrow> ArpCache option" where
  "ArpCache_create lifetime =
     (if lifetime \<le> 0 then None else Some \<lparr>arp_entry_lifetime = lifetime, arp_entries = []\<rparr>)"

definition ArpCache_is_expired :: "ArpCache \<Rightarrow> ArpEntry \<Rightarrow> TimePoint \<Rightarrow> bool" where
  "ArpCache_is_expired c entry now \<longleftrightarrow>
     now \<ge> arp_learned_at entry \<and> now - arp_learned_at entry \<ge> arp_entry_lifetime c"

definition ArpCache_add_or_replace ::
  "Ipv4Address \<Rightarrow> MacAddress \<Rightarrow> TimePoint \<Rightarrow> ArpCache \<Rightarrow> ArpCacheUpdate \<times> ArpCache" where
  "ArpCache_add_or_replace address mac learned_at c =
     (if \<not> is_valid_address address \<or> \<not> is_valid_unicast mac then (arp_rejected, c)
      else
        let entry = \<lparr>arp_mac_address = mac, arp_learned_at = learned_at\<rparr> in
        case map_find (arp_entries c) address of
          None \<Rightarrow> (arp_inserted, c\<lparr>arp_entries := snd (map_emplace address entry (arp_entries c))\<rparr>)
        | Some _ \<Rightarrow> (arp_replaced, c\<lparr>arp_entries := map_assign address entry (arp_entries c)\<rparr>))"

definition ArpCache_lookup :: "ArpCache \<Rightarrow> Ipv4Address \<Rightarrow> TimePoint \<Rightarrow> MacAddress option" where
  "ArpCache_lookup c address now =
     (case map_find (arp_entries c) address of
        None \<Rightarrow> None
      | Some entry \<Rightarrow> if ArpCache_is_expired c entry now then None else Some (arp_mac_address entry))"

definition ArpCache_remove :: "Ipv4Address \<Rightarrow> ArpCache \<Rightarrow> bool \<times> ArpCache" where
  "ArpCache_remove address c =
     (let (erased, entries) = map_erase address (arp_entries c)
      in (erased \<noteq> 0, c\<lparr>arp_entries := entries\<rparr>))"

definition ArpCache_expire :: "TimePoint \<Rightarrow> ArpCache \<Rightarrow> nat \<times> ArpCache" where
  "ArpCache_expire now c =
     (let (removed, entries) = map_erase_if (\<lambda>(_, entry). ArpCache_is_expired c entry now) (arp_entries c)
      in (removed, c\<lparr>arp_entries := entries\<rparr>))"

definition ArpCache_size :: "ArpCache \<Rightarrow> nat" where
  "ArpCache_size c = length (arp_entries c)"

datatype ArpOp = ArpAdd Ipv4Address MacAddress TimePoint | ArpRemove Ipv4Address | ArpExpire TimePoint

fun ArpCache_step :: "ArpCache \<Rightarrow> ArpOp \<Rightarrow> ArpCache" where
  "ArpCache_step c (ArpAdd address mac learned_at) = snd (ArpCache_add_or_replace address mac learned_at c)"
| "ArpCache_step c (ArpRemove address) = snd (ArpCache_remove address c)"
| "ArpCache_step c (ArpExpire now) = snd (ArpCache_expire now c)"

section \<open>The invariant\<close>

definition ArpCache_inv :: "ArpCache \<Rightarrow> bool" where
  "ArpCache_inv c \<longleftrightarrow>
     arp_entry_lifetime c > 0 \<and> map_wf (arp_entries c) \<and>
     (\<forall>address entry. map_find (arp_entries c) address = Some entry \<longrightarrow>
        is_valid_address address \<and> is_valid_unicast (arp_mac_address entry))"

lemma ArpCache_add_eq:
  "ArpCache_add_or_replace address mac t c =
     (if is_valid_address address \<and> is_valid_unicast mac
      then (if map_find (arp_entries c) address = None then arp_inserted else arp_replaced,
            c\<lparr>arp_entries := map_assign address \<lparr>arp_mac_address = mac, arp_learned_at = t\<rparr> (arp_entries c)\<rparr>)
      else (arp_rejected, c))"
  by (auto simp: ArpCache_add_or_replace_def map_emplace_def Let_def split: option.split)

lemma ArpCache_expire_eq:
  "ArpCache_expire now c =
     (length (filter (\<lambda>(_, entry). ArpCache_is_expired c entry now) (arp_entries c)),
      c\<lparr>arp_entries := filter (\<lambda>(_, entry). \<not> ArpCache_is_expired c entry now) (arp_entries c)\<rparr>)"
  by (simp add: ArpCache_expire_def map_erase_if_eq case_prod_unfold)

lemma ArpCache_remove_eq:
  "ArpCache_remove address c =
     (map_find (arp_entries c) address \<noteq> None,
      c\<lparr>arp_entries := snd (map_erase address (arp_entries c))\<rparr>)"
  by (simp add: ArpCache_remove_def map_erase_def)

lemmas arp_cache_eqs [table_defs] = ArpCache_add_eq ArpCache_expire_eq ArpCache_remove_eq

lemma ArpCache_create_inv: "ArpCache_create lifetime = Some c \<Longrightarrow> ArpCache_inv c"
  by (auto simp: ArpCache_create_def ArpCache_inv_def split: if_splits)

lemma ArpCache_lifetime_step [simp]: "arp_entry_lifetime (ArpCache_step c e) = arp_entry_lifetime c"
  by (cases e) (simp_all add: arp_cache_eqs)

lemma map_find_arp_expire:
  "map_wf m \<Longrightarrow> map_find (filter (\<lambda>(_, entry). \<not> P entry) m) k =
     (case map_find m k of Some v \<Rightarrow> if P v then None else Some v | None \<Rightarrow> None)"
  by (simp add: map_find_filter split: option.split)

interpretation arp_machine: invariant_system ArpCache_step ArpCache_inv
proof
  fix c e assume inv: "ArpCache_inv c"
  show "ArpCache_inv (ArpCache_step c e)"
  proof (cases e)
    case (ArpAdd address mac t)
    then show ?thesis using inv
      by (auto simp: arp_cache_eqs ArpCache_inv_def map_wf_assign map_find_assign split: if_splits)
  next
    case (ArpRemove address)
    then show ?thesis using inv
      by (auto simp: arp_cache_eqs ArpCache_inv_def map_wf_erase map_find_erase split: if_splits)
  next
    case (ArpExpire now)
    then show ?thesis using inv
      by (auto simp: arp_cache_eqs ArpCache_inv_def map_wf_filter map_find_arp_expire
          split: if_splits option.splits)
  qed
qed

section \<open>What a lookup yields\<close>

lemma is_expired_update [simp]: "ArpCache_is_expired (c\<lparr>arp_entries := m\<rparr>) = ArpCache_is_expired c"
  by (simp add: ArpCache_is_expired_def fun_eq_iff)

lemma is_expired_mono: "ArpCache_is_expired c entry t \<Longrightarrow> t \<le> now \<Longrightarrow> ArpCache_is_expired c entry now"
  by (simp add: ArpCache_is_expired_def)

lemma ArpCache_lookup_valid:
  "ArpCache_inv c \<Longrightarrow> ArpCache_lookup c address now = Some mac \<Longrightarrow>
   is_valid_address address \<and> is_valid_unicast mac"
  by (auto simp: ArpCache_lookup_def ArpCache_inv_def split: option.splits if_splits)

lemma ArpCache_lookup_add:
  assumes "ArpCache_inv c" and "is_valid_address address" and "is_valid_unicast mac"
  shows "ArpCache_lookup (snd (ArpCache_add_or_replace address mac t c)) a now =
    (if a = address then (if now < t + arp_entry_lifetime c then Some mac else None)
     else ArpCache_lookup c a now)"
  using assms
  by (auto simp: ArpCache_lookup_def ArpCache_add_eq ArpCache_inv_def map_find_assign split: option.split)
    (auto simp: ArpCache_is_expired_def)

lemma ArpCache_lookup_remove:
  "ArpCache_inv c \<Longrightarrow> ArpCache_lookup (snd (ArpCache_remove address c)) a now =
     (if a = address then None else ArpCache_lookup c a now)"
  by (auto simp: ArpCache_lookup_def ArpCache_remove_eq ArpCache_inv_def map_find_erase
      split: option.split)

text \<open>Expiry never changes what a lookup at that time or later yields.\<close>

lemma ArpCache_lookup_expire:
  "ArpCache_inv c \<Longrightarrow> t \<le> now \<Longrightarrow> ArpCache_lookup (snd (ArpCache_expire t c)) a now = ArpCache_lookup c a now"
  by (auto simp: ArpCache_lookup_def ArpCache_expire_eq ArpCache_inv_def map_find_arp_expire
      intro: is_expired_mono split: option.split)

section \<open>The contract of a neighbour table\<close>

text \<open>
  What a router relies on: a resolved neighbour has a usable address, a fresh announcement
  resolves until its lifetime is over, and tidying up does not change the answers.
\<close>

locale neighbour_resolver =
  fixes resolve :: "'s \<Rightarrow> Ipv4Address \<Rightarrow> TimePoint \<Rightarrow> MacAddress option"
    and announce :: "Ipv4Address \<Rightarrow> MacAddress \<Rightarrow> TimePoint \<Rightarrow> 's \<Rightarrow> 's"
    and tidy :: "TimePoint \<Rightarrow> 's \<Rightarrow> 's"
    and lifetime :: "'s \<Rightarrow> Duration"
    and inv :: "'s \<Rightarrow> bool"
  assumes resolve_unicast: "inv s \<Longrightarrow> resolve s a now = Some mac \<Longrightarrow> is_valid_unicast mac"
    and resolve_announce: "inv s \<Longrightarrow> is_valid_address b \<Longrightarrow> is_valid_unicast mac \<Longrightarrow>
      resolve (announce b mac t s) a now =
        (if a = b then (if now < t + lifetime s then Some mac else None) else resolve s a now)"
    and resolve_tidy: "inv s \<Longrightarrow> t \<le> now \<Longrightarrow> resolve (tidy t s) a now = resolve s a now"
    and inv_announce: "inv s \<Longrightarrow> inv (announce b mac t s)"
    and inv_tidy: "inv s \<Longrightarrow> inv (tidy t s)"
    and lifetime_announce: "lifetime (announce b mac t s) = lifetime s"
begin

lemma announce_then_resolve:
  "inv s \<Longrightarrow> is_valid_address a \<Longrightarrow> is_valid_unicast mac \<Longrightarrow> now < t + lifetime s \<Longrightarrow>
   resolve (announce a mac t s) a now = Some mac"
  by (simp add: resolve_announce)

lemma announce_tidy_resolve:
  "inv s \<Longrightarrow> is_valid_address a \<Longrightarrow> is_valid_unicast mac \<Longrightarrow> u \<le> now \<Longrightarrow> now < t + lifetime s \<Longrightarrow>
   resolve (tidy u (announce a mac t s)) a now = Some mac"
  by (simp add: resolve_tidy resolve_announce inv_announce)

lemma last_announcement_wins:
  "inv s \<Longrightarrow> is_valid_address a \<Longrightarrow> is_valid_unicast mac \<Longrightarrow> is_valid_unicast mac' \<Longrightarrow>
   now < t' + lifetime s \<Longrightarrow> resolve (announce a mac' t' (announce a mac t s)) a now = Some mac'"
  by (simp add: resolve_announce inv_announce lifetime_announce)

end

interpretation arp_cache: neighbour_resolver ArpCache_lookup
  "\<lambda>a mac t c. snd (ArpCache_add_or_replace a mac t c)" "\<lambda>t c. snd (ArpCache_expire t c)"
  arp_entry_lifetime ArpCache_inv
proof
  show "ArpCache_inv (snd (ArpCache_add_or_replace b mac t s))" if "ArpCache_inv s" for s b mac t
    using arp_machine.inv_step [OF that, of "ArpAdd b mac t"] by simp
  show "ArpCache_inv (snd (ArpCache_expire t s))" if "ArpCache_inv s" for s t
    using arp_machine.inv_step [OF that, of "ArpExpire t"] by simp
  show "arp_entry_lifetime (snd (ArpCache_add_or_replace b mac t s)) = arp_entry_lifetime s" for s b mac t
    by (simp add: ArpCache_add_eq)
qed (auto simp: ArpCache_lookup_add ArpCache_lookup_expire dest: ArpCache_lookup_valid)

section \<open>Properties\<close>

text \<open>
  Whatever updates, removals and expiry sweeps a cache went through, it answers a
  lookup only for an address that can belong to a host and only with a unicast address that is
  not all zero.
\<close>

lemma arp_cache_answers_valid:
  assumes "ArpCache_create lifetime = Some c"
    and "ArpCache_lookup (run ArpCache_step c ops) address now = Some mac"
  shows "is_valid_address address \<and> is_valid_unicast mac"
  using arp_machine.inv_run [OF ArpCache_create_inv [OF assms(1)], of ops] assms(2)
  by (rule ArpCache_lookup_valid)

text \<open>The cache after one announcement, as the witnesses use it.\<close>

definition sample_neighbour :: MacAddress where
  "sample_neighbour = MacAddress 2 0 0 0 0 0x10"

lemma sample_neighbour_valid: "is_valid_unicast sample_neighbour"
  by (simp add: is_valid_unicast_def sample_neighbour_def unspecified_mac_def
      MacAddress_is_unicast_def MacAddress_is_multicast_def)

lemma sample_address_valid: "is_valid_address (Ipv4Address 0x0A000102)"
  by (simp add: is_valid_address_def Ipv4Address_is_unspecified_def Ipv4Address_is_multicast_def
      Ipv4Address_is_limited_broadcast_def)

lemma arp_cache_answers_valid_example:
  "is_valid_address (Ipv4Address 0x0A000102) \<and> is_valid_unicast sample_neighbour"
proof (rule arp_cache_answers_valid)
  show "ArpCache_create 300 = Some \<lparr>arp_entry_lifetime = 300, arp_entries = []\<rparr>"
    by (simp add: ArpCache_create_def)
  show "ArpCache_lookup (run ArpCache_step \<lparr>arp_entry_lifetime = 300, arp_entries = []\<rparr>
      [ArpAdd (Ipv4Address 0x0A000102) sample_neighbour 5]) (Ipv4Address 0x0A000102) 304 = Some sample_neighbour"
    by (simp add: ArpCache_add_eq sample_neighbour_valid sample_address_valid ArpCache_lookup_def
        ArpCache_is_expired_def)
qed

text \<open>
  An accepted announcement is answered for exactly its lifetime from the moment
  it was learned, leaves every other address alone, and expiry sweeps on the way change nothing.
\<close>

lemma arp_cache_announcement:
  assumes "ArpCache_create lifetime = Some c0" and "c = run ArpCache_step c0 ops"
    and "is_valid_address address" and "is_valid_unicast mac" and "sweep \<le> now"
  shows "ArpCache_lookup (snd (ArpCache_expire sweep (snd (ArpCache_add_or_replace address mac learned_at c)))) a now =
    (if a = address then (if now < learned_at + lifetime then Some mac else None)
     else ArpCache_lookup c a now)"
proof -
  have inv: "ArpCache_inv c"
    using arp_machine.inv_run [OF ArpCache_create_inv [OF assms(1)]] assms(2) by simp
  have "arp_entry_lifetime (run ArpCache_step d ops) = arp_entry_lifetime d" for d
    by (induction ops arbitrary: d) simp_all
  then have "arp_entry_lifetime c = lifetime"
    using assms(1,2) by (auto simp: ArpCache_create_def split: if_splits)
  then show ?thesis
    using inv assms(3-5) by (simp add: arp_cache.resolve_tidy arp_cache.inv_announce arp_cache.resolve_announce)
qed

lemma arp_cache_announcement_witness:
  "ArpCache_lookup (snd (ArpCache_expire 100 (snd (ArpCache_add_or_replace (Ipv4Address 0x0A000102)
     sample_neighbour 5 \<lparr>arp_entry_lifetime = 300, arp_entries = []\<rparr>)))) (Ipv4Address 0x0A000102) 304 =
   Some sample_neighbour"
  using arp_cache_announcement [of 300 "\<lparr>arp_entry_lifetime = 300, arp_entries = []\<rparr>" _ "[]"
      "Ipv4Address 0x0A000102" sample_neighbour 100 304 5 "Ipv4Address 0x0A000102"]
  by (simp add: ArpCache_create_def sample_neighbour_valid sample_address_valid)

end
