(* ===== verification/Ipv4_Forwarding.thy ===== *)
theory Ipv4_Forwarding
  imports Ipv4_Packet Ethernet_Frame Route_Table Arp_Cache
begin

text \<open>
  The routing path: \<^verbatim>\<open>routing/ipv4_ttl.cpp\<close>, \<^verbatim>\<open>routing/ipv4_forwarding_engine.cpp\<close> and
  \<^verbatim>\<open>routing/l3_ethernet_encapsulation.cpp\<close>. A \<^verbatim>\<open>std::variant\<close> result is a datatype with one
  constructor per alternative. The overload of the encapsulation without a time reads the clock
  and calls the one modelled here.
\<close>

section \<open>Time to live and route selection\<close>

datatype Ipv4DropReason = time_to_live_expired | route_not_found

record ForwardedIpv4Packet =
  fwd_packet :: Ipv4Packet
  fwd_output_port :: PortId
  fwd_next_hop :: Ipv4Address

datatype Ipv4ForwardingResult = Forwarded ForwardedIpv4Packet | Dropped Ipv4DropReason

datatype Ipv4TtlUpdateResult = TtlUpdated Ipv4Packet | TtlDropped Ipv4DropReason

text \<open>The optional that \<open>create\<close> returns is dereferenced without a check.\<close>

definition decrement_ipv4_ttl :: "Ipv4Packet \<Rightarrow> Ipv4TtlUpdateResult" where
  "decrement_ipv4_ttl p =
     (if ip_time_to_live p \<le> 1 then TtlDropped time_to_live_expired
      else TtlUpdated (the (Ipv4Packet_create (ip_source p) (ip_destination p) (ip_protocol p) (ip_payload p)
        (ip_time_to_live p - 1) (ip_identification p) (ip_dont_fragment p))))"

definition Ipv4ForwardingEngine_forward :: "Ipv4RouteTable \<Rightarrow> Ipv4Packet \<Rightarrow> Ipv4ForwardingResult" where
  "Ipv4ForwardingEngine_forward route_table p =
     (case decrement_ipv4_ttl p of
        TtlDropped reason \<Rightarrow> Dropped reason
      | TtlUpdated decremented \<Rightarrow>
          (case Ipv4RouteTable_longest_prefix_match route_table (ip_destination p) of
             None \<Rightarrow> Dropped route_not_found
           | Some route \<Rightarrow>
               Forwarded \<lparr>fwd_packet = decremented, fwd_output_port = route_output_port route,
                 fwd_next_hop = (case route_next_hop route of Some hop \<Rightarrow> hop | None \<Rightarrow> ip_destination p)\<rparr>))"

section \<open>Encapsulation\<close>

datatype L3EncapsulationFailure = invalid_source_mac | neighbor_not_found | packet_too_large

datatype L3EncapsulationResult = Encapsulated EthernetFrame | EncapsulationFailed L3EncapsulationFailure

definition encapsulate_with_destination ::
  "ForwardedIpv4Packet \<Rightarrow> MacAddress \<Rightarrow> MacAddress \<Rightarrow> L3EncapsulationResult" where
  "encapsulate_with_destination forwarding source_mac destination_mac =
     (let bs = Ipv4Packet_serialize (fwd_packet forwarding) in
      if length bs > maximum_payload_size then EncapsulationFailed packet_too_large
      else case EthernetFrame_create destination_mac source_mac EtherType_ipv4 bs None of
        None \<Rightarrow> EncapsulationFailed packet_too_large
      | Some frame \<Rightarrow> Encapsulated frame)"

definition encapsulate_ipv4_in_ethernet ::
  "ForwardedIpv4Packet \<Rightarrow> MacAddress \<Rightarrow> ArpCache \<Rightarrow> TimePoint \<Rightarrow> L3EncapsulationResult" where
  "encapsulate_ipv4_in_ethernet forwarding source_mac cache now =
     (if \<not> is_valid_unicast source_mac then EncapsulationFailed invalid_source_mac
      else case ArpCache_lookup cache (fwd_next_hop forwarding) now of
        None \<Rightarrow> EncapsulationFailed neighbor_not_found
      | Some destination_mac \<Rightarrow> encapsulate_with_destination forwarding source_mac destination_mac)"

section \<open>Forwarding decrements, and only decrements, the time to live\<close>

lemma ttl_decrement_pos: "\<not> (ttl :: u8) \<le> 1 \<Longrightarrow> ttl - 1 \<noteq> 0 \<and> Suc (unat (ttl - 1)) = unat ttl"
proof
  assume a: "\<not> ttl \<le> 1"
  then have "unat ttl > 1" by (simp add: word_le_nat_alt)
  moreover have "unat (ttl - 1) = unat ttl - 1" using a by (simp add: unat_sub)
  ultimately show "ttl - 1 \<noteq> 0" "Suc (unat (ttl - 1)) = unat ttl" by (auto simp: unat_eq_0 [symmetric])
qed

lemma decrement_ttl_eq:
  assumes "Ipv4Packet_wf p"
  shows "decrement_ipv4_ttl p =
    (if ip_time_to_live p \<le> 1 then TtlDropped time_to_live_expired
     else TtlUpdated (p\<lparr>ip_time_to_live := ip_time_to_live p - 1\<rparr>))"
  using assms ttl_decrement_pos [of "ip_time_to_live p"]
  by (auto simp: decrement_ipv4_ttl_def Ipv4Packet_create_def Ipv4Packet_wf_def)

lemma forward_Forwarded_iff:
  assumes "Ipv4Packet_wf p"
  shows "Ipv4ForwardingEngine_forward t p = Forwarded f \<longleftrightarrow>
    \<not> ip_time_to_live p \<le> 1 \<and>
    (\<exists>route. Ipv4RouteTable_longest_prefix_match t (ip_destination p) = Some route \<and>
       f = \<lparr>fwd_packet = p\<lparr>ip_time_to_live := ip_time_to_live p - 1\<rparr>,
         fwd_output_port = route_output_port route,
         fwd_next_hop = (case route_next_hop route of Some hop \<Rightarrow> hop | None \<Rightarrow> ip_destination p)\<rparr>)"
  using assms by (auto simp: Ipv4ForwardingEngine_forward_def decrement_ttl_eq split: option.splits)

lemma forward_wf:
  "Ipv4Packet_wf p \<Longrightarrow> Ipv4ForwardingEngine_forward t p = Forwarded f \<Longrightarrow> Ipv4Packet_wf (fwd_packet f)"
  using ttl_decrement_pos [of "ip_time_to_live p"] by (auto simp: forward_Forwarded_iff) (auto simp: Ipv4Packet_wf_def)

lemma forward_ttl:
  "Ipv4Packet_wf p \<Longrightarrow> Ipv4ForwardingEngine_forward t p = Forwarded f \<Longrightarrow>
   Suc (unat (ip_time_to_live (fwd_packet f))) = unat (ip_time_to_live p)"
  using ttl_decrement_pos [of "ip_time_to_live p"] by (auto simp: forward_Forwarded_iff)

text \<open>A packet that travels from router to router, each with its own table.\<close>

fun travels :: "Ipv4Packet \<Rightarrow> Ipv4RouteTable list \<Rightarrow> bool" where
  "travels p [] = True"
| "travels p (t # ts) =
     (case Ipv4ForwardingEngine_forward t p of
        Forwarded f \<Rightarrow> travels (fwd_packet f) ts
      | Dropped _ \<Rightarrow> False)"

lemma travels_ttl: "Ipv4Packet_wf p \<Longrightarrow> travels p ts \<Longrightarrow> ts = [] \<or> length ts < unat (ip_time_to_live p)"
proof (induction p ts rule: travels.induct)
  case (2 p t ts)
  then obtain f where f: "Ipv4ForwardingEngine_forward t p = Forwarded f" "travels (fwd_packet f) ts"
    by (auto split: Ipv4ForwardingResult.splits)
  have "ip_time_to_live (fwd_packet f) \<noteq> 0" using forward_wf [OF "2.prems"(1) f(1)] by (simp add: Ipv4Packet_wf_def)
  then have "unat (ip_time_to_live (fwd_packet f)) > 0" by (simp add: unat_gt_0)
  then show ?case
    using "2.IH" [OF f(1)] f forward_wf [OF "2.prems"(1) f(1)] forward_ttl [OF "2.prems"(1) f(1)] by auto
qed simp

section \<open>Encapsulated packets\<close>

lemma encapsulate_Encapsulated_iff:
  "encapsulate_ipv4_in_ethernet fw src cache now = Encapsulated frame \<longleftrightarrow>
     is_valid_unicast src \<and> length (Ipv4Packet_serialize (fwd_packet fw)) \<le> maximum_payload_size \<and>
     (\<exists>dst. ArpCache_lookup cache (fwd_next_hop fw) now = Some dst \<and>
        frame = \<lparr>destination = dst, source = src, ether_type = EtherType_ipv4,
          payload = Ipv4Packet_serialize (fwd_packet fw), vlan_tag = None\<rparr>)"
  by (auto simp: encapsulate_ipv4_in_ethernet_def encapsulate_with_destination_def EthernetFrame_create_def
      Let_def split: option.splits)

lemma encapsulate_wf: "encapsulate_ipv4_in_ethernet fw src cache now = Encapsulated frame \<Longrightarrow> EthernetFrame_wf frame"
  by (auto simp: encapsulate_Encapsulated_iff EthernetFrame_wf_def EthernetFrame_valid_def frame_constants)

section \<open>Properties\<close>

text \<open>
  The forwarding decision on every branch. A valid packet is dropped for its time
  to live exactly if that is at most one, for want of a route exactly if it may live on and no
  prefix of the table contains its destination, and otherwise forwarded with its time to live
  one lower and all else unchanged, out of the port of the longest matching route, to the
  route's next hop or, on a connected network, to the destination itself.
\<close>

lemma forward_decision:
  assumes "Ipv4Packet_wf p" and "t = run RouteTable_step [] ops"
  shows "(Ipv4ForwardingEngine_forward t p = Dropped time_to_live_expired \<longleftrightarrow> unat (ip_time_to_live p) \<le> 1) \<and>
    (Ipv4ForwardingEngine_forward t p = Dropped route_not_found \<longleftrightarrow>
      unat (ip_time_to_live p) > 1 \<and> (\<nexists>e. e \<in> set t \<and> Ipv4Prefix_contains (route_prefix e) (ip_destination p))) \<and>
    (Ipv4ForwardingEngine_forward t p = Forwarded f \<longleftrightarrow>
      unat (ip_time_to_live p) > 1 \<and>
      (\<exists>route. best_of (ip_destination p) (set t) (Some route) \<and>
         fwd_packet f = p\<lparr>ip_time_to_live := ip_time_to_live p - 1\<rparr> \<and>
         fwd_output_port f = route_output_port route \<and>
         fwd_next_hop f = (case route_next_hop route of Some hop \<Rightarrow> hop | None \<Rightarrow> ip_destination p)))"
proof (intro conjI)
  have inv: "RouteTable_inv t" using route_machine.inv_run [OF route_table.inv_empty] assms(2) by simp
  have le: "ip_time_to_live p \<le> 1 \<longleftrightarrow> unat (ip_time_to_live p) \<le> 1" by (simp add: word_le_nat_alt)
  show "Ipv4ForwardingEngine_forward t p = Dropped time_to_live_expired \<longleftrightarrow> unat (ip_time_to_live p) \<le> 1"
    using assms(1) by (auto simp: Ipv4ForwardingEngine_forward_def decrement_ttl_eq le split: option.splits)
  show "Ipv4ForwardingEngine_forward t p = Dropped route_not_found \<longleftrightarrow>
      unat (ip_time_to_live p) > 1 \<and> (\<nexists>e. e \<in> set t \<and> Ipv4Prefix_contains (route_prefix e) (ip_destination p))"
    using assms(1) lpm_None_iff [of t "ip_destination p"]
    by (auto simp: Ipv4ForwardingEngine_forward_def decrement_ttl_eq le split: option.splits)
  show "Ipv4ForwardingEngine_forward t p = Forwarded f \<longleftrightarrow>
      unat (ip_time_to_live p) > 1 \<and>
      (\<exists>route. best_of (ip_destination p) (set t) (Some route) \<and>
         fwd_packet f = p\<lparr>ip_time_to_live := ip_time_to_live p - 1\<rparr> \<and>
         fwd_output_port f = route_output_port route \<and>
         fwd_next_hop f = (case route_next_hop route of Some hop \<Rightarrow> hop | None \<Rightarrow> ip_destination p))"
    unfolding forward_Forwarded_iff [OF assms(1)] lpm_Some_iff [OF inv] le by auto
qed

lemma forward_decision_witness:
  "Ipv4ForwardingEngine_forward [sample_default_route, sample_subnet_route] (sample_packet\<lparr>ip_time_to_live := 1\<rparr>) =
     Dropped time_to_live_expired"
proof -
  have t: "[sample_default_route, sample_subnet_route] =
      run RouteTable_step [] [AddRoute sample_default_route, AddRoute sample_subnet_route]"
    by (simp add: Ipv4RouteTable_add_or_replace_def sample_default_route_def sample_subnet_route_def)
  have "Ipv4Packet_wf (sample_packet\<lparr>ip_time_to_live := 1\<rparr>)"
    by (simp add: Ipv4Packet_wf_def sample_packet_def ipv4_constants)
  from forward_decision [OF this t] show ?thesis by simp
qed

text \<open>
  No routing loop keeps a packet alive. Whatever the tables of the routers on its
  way, a valid packet is forwarded fewer times than its time to live.
\<close>

lemma routing_loop_bounded:
  assumes "Ipv4Packet_wf p" and "travels p ts"
  shows "length ts < unat (ip_time_to_live p)"
  using travels_ttl [OF assms] assms(1) by (auto simp: Ipv4Packet_wf_def unat_gt_0)

lemma routing_loop_bounded_witness:
  "length [[sample_default_route], [sample_default_route]] < unat (ip_time_to_live sample_packet)"
proof (rule routing_loop_bounded)
  show "Ipv4Packet_wf sample_packet" by (simp add: Ipv4Packet_wf_def sample_packet_def ipv4_constants)
  show "travels sample_packet [[sample_default_route], [sample_default_route]]"
    by (simp add: Ipv4ForwardingEngine_forward_def decrement_ipv4_ttl_def Ipv4Packet_create_def ipv4_constants
        Ipv4RouteTable_longest_prefix_match_def better_match_def Ipv4Prefix_contains_def mask_value_def
        sample_default_route_def sample_packet_def word_le_nat_alt)
qed

text \<open>
  A routed packet that is encapsulated reaches the neighbour intact. The frame is
  addressed to the neighbour that the cache resolves for the next hop, carries the sender's
  address, reads back from its bytes, and its payload reads back as the forwarded packet.
\<close>

lemma encapsulated_packet_delivered:
  assumes "Ipv4Packet_wf (fwd_packet fw)"
    and "encapsulate_ipv4_in_ethernet fw src cache now = Encapsulated frame"
  shows "EthernetFrame_parse (EthernetFrame_serialize frame) = Some frame \<and>
    ether_type frame = EtherType_ipv4 \<and> vlan_tag frame = None \<and> source frame = src \<and>
    ArpCache_lookup cache (fwd_next_hop fw) now = Some (destination frame) \<and>
    Ipv4Packet_parse (payload frame) = Some (fwd_packet fw)"
proof -
  have "EthernetFrame_parse (EthernetFrame_serialize frame) = Some frame"
    using encapsulate_wf [OF assms(2)] by (rule ethernet.parse_serialize)
  moreover have "Ipv4Packet_parse (Ipv4Packet_serialize (fwd_packet fw)) = Some (fwd_packet fw)"
    using assms(1) by (rule ipv4.parse_serialize)
  ultimately show ?thesis using assms(2) by (auto simp: encapsulate_Encapsulated_iff)
qed

definition sample_forwarded :: ForwardedIpv4Packet where
  "sample_forwarded = \<lparr>fwd_packet = sample_packet, fwd_output_port = PortId 2,
     fwd_next_hop = Ipv4Address 0x0A000102\<rparr>"

definition sample_cache :: ArpCache where
  "sample_cache = \<lparr>arp_entry_lifetime = 300,
     arp_entries = [(Ipv4Address 0x0A000102, \<lparr>arp_mac_address = sample_neighbour, arp_learned_at = 5\<rparr>)]\<rparr>"

definition sample_frame :: EthernetFrame where
  "sample_frame = \<lparr>destination = sample_neighbour, source = MacAddress 2 0 0 0 0 1,
     ether_type = EtherType_ipv4, payload = Ipv4Packet_serialize sample_packet, vlan_tag = None\<rparr>"

lemma encapsulated_packet_delivered_example:
  "EthernetFrame_parse (EthernetFrame_serialize sample_frame) = Some sample_frame \<and>
   Ipv4Packet_parse (payload sample_frame) = Some sample_packet"
proof -
  have "Ipv4Packet_wf (fwd_packet sample_forwarded)"
    by (simp add: Ipv4Packet_wf_def sample_packet_def sample_forwarded_def ipv4_constants)
  moreover have "is_valid_unicast (MacAddress 2 0 0 0 0 1)"
    by (simp add: is_valid_unicast_def unspecified_mac_def MacAddress_is_unicast_def MacAddress_is_multicast_def)
  then have "encapsulate_ipv4_in_ethernet sample_forwarded (MacAddress 2 0 0 0 0 1) sample_cache 100 =
      Encapsulated sample_frame"
    by (simp add: encapsulate_Encapsulated_iff sample_forwarded_def sample_cache_def sample_frame_def
        ArpCache_lookup_def ArpCache_is_expired_def serialize_ipv4 sample_packet_def maximum_payload_size_def)
  ultimately show ?thesis
    using encapsulated_packet_delivered [of sample_forwarded "MacAddress 2 0 0 0 0 1" sample_cache 100 sample_frame]
    by (simp add: sample_forwarded_def)
qed

end
