(* ===== verification/Vlan_Ingress.thy ===== *)
theory Vlan_Ingress
  imports Ethernet_Frame Std_Containers
begin

text \<open>
  \<^verbatim>\<open>switching/vlan_port_config.cpp\<close> and \<^verbatim>\<open>switching/vlan_ingress.cpp\<close>: access and trunk ports
  and the classification of a received frame into a VLAN.
\<close>

section \<open>Port configuration\<close>

datatype VlanPortMode = access | trunk

record VlanPortConfig =
  vlan_mode :: VlanPortMode
  access_vlan :: "VlanId option"
  allowed_vlans :: "VlanId std_set"
  native_vlan :: "VlanId option"

definition VlanPortConfig_access :: "VlanId \<Rightarrow> VlanPortConfig" where
  "VlanPortConfig_access vlan =
     \<lparr>vlan_mode = access, access_vlan = Some vlan, allowed_vlans = snd (set_insert vlan []), native_vlan = None\<rparr>"

definition VlanPortConfig_trunk :: "VlanId std_set \<Rightarrow> VlanId option \<Rightarrow> VlanPortConfig option" where
  "VlanPortConfig_trunk allowed native =
     (if allowed = [] \<or> (case native of Some vlan \<Rightarrow> \<not> set_contains allowed vlan | None \<Rightarrow> False) then None
      else Some \<lparr>vlan_mode = trunk, access_vlan = None, allowed_vlans = allowed, native_vlan = native\<rparr>)"

definition VlanPortConfig_is_access :: "VlanPortConfig \<Rightarrow> bool" where
  "VlanPortConfig_is_access c \<longleftrightarrow> vlan_mode c = access"

definition VlanPortConfig_allows :: "VlanPortConfig \<Rightarrow> VlanId \<Rightarrow> bool" where
  "VlanPortConfig_allows c vlan \<longleftrightarrow> set_contains (allowed_vlans c) vlan"

text \<open>What the two factory functions guarantee of a configuration.\<close>

definition VlanPortConfig_wf :: "VlanPortConfig \<Rightarrow> bool" where
  "VlanPortConfig_wf c \<longleftrightarrow> map_wf (allowed_vlans c) \<and>
     (case vlan_mode c of
        access \<Rightarrow> (\<exists>vlan. access_vlan c = Some vlan \<and> allowed_vlans c = [(vlan, ())]) \<and> native_vlan c = None
      | trunk \<Rightarrow> access_vlan c = None \<and> allowed_vlans c \<noteq> [] \<and>
          (\<forall>vlan. native_vlan c = Some vlan \<longrightarrow> VlanPortConfig_allows c vlan))"

section \<open>Classification\<close>

datatype VlanIngressDropReason =
  tagged_frame_on_access_port | untagged_frame_without_native_vlan | vlan_not_allowed

datatype VlanIngressResult = AcceptedVlanIngress VlanId | DroppedVlanIngress VlanIngressDropReason

definition classify_vlan_ingress :: "EthernetFrame \<Rightarrow> VlanPortConfig \<Rightarrow> VlanIngressResult" where
  "classify_vlan_ingress frame port_config =
     (if VlanPortConfig_is_access port_config then
        (if vlan_tag frame \<noteq> None then DroppedVlanIngress tagged_frame_on_access_port
         else AcceptedVlanIngress (the (access_vlan port_config)))
      else
        (case vlan_tag frame of
           None \<Rightarrow>
             (case native_vlan port_config of
                None \<Rightarrow> DroppedVlanIngress untagged_frame_without_native_vlan
              | Some vlan \<Rightarrow> AcceptedVlanIngress vlan)
         | Some tag \<Rightarrow>
             if \<not> VlanPortConfig_allows port_config (vlan_id tag) then DroppedVlanIngress vlan_not_allowed
             else AcceptedVlanIngress (vlan_id tag)))"

lemma VlanPortConfig_access_wf: "VlanPortConfig_wf (VlanPortConfig_access vlan)"
  by (simp add: VlanPortConfig_wf_def VlanPortConfig_access_def set_insert_def map_emplace_def map_wf_def)

lemma VlanPortConfig_trunk_wf:
  "VlanPortConfig_trunk allowed native = Some c \<Longrightarrow> map_wf allowed \<Longrightarrow> VlanPortConfig_wf c"
  by (auto simp: VlanPortConfig_wf_def VlanPortConfig_trunk_def VlanPortConfig_allows_def
      split: if_splits option.splits)

text \<open>A frame enters the switch only in a VLAN that its port is a member of.\<close>

lemma classify_allowed:
  assumes "VlanPortConfig_wf c" and "classify_vlan_ingress frame c = AcceptedVlanIngress vlan"
  shows "VlanPortConfig_allows c vlan"
  using assms
  by (cases "vlan_mode c")
    (auto simp: classify_vlan_ingress_def VlanPortConfig_wf_def VlanPortConfig_is_access_def
      VlanPortConfig_allows_def set_contains_def split: if_splits option.splits)

text \<open>
  The VLAN a frame belongs to where it comes in: on an access port that of the port, for untagged frames only; on a
  trunk the one of the tag, or without a tag the native VLAN, if there is one.
\<close>

definition vlan_of_frame :: "VlanPortConfig \<Rightarrow> EthernetFrame \<Rightarrow> VlanId option" where
  "vlan_of_frame config frame =
     (case (vlan_mode config, vlan_tag frame) of
        (access, None) \<Rightarrow> access_vlan config
      | (access, Some tag) \<Rightarrow> None
      | (trunk, None) \<Rightarrow> native_vlan config
      | (trunk, Some tag) \<Rightarrow> Some (vlan_id tag))"

lemma classify_vlan_of_frame:
  assumes "VlanPortConfig_wf c" and "classify_vlan_ingress frame c = AcceptedVlanIngress vlan"
  shows "vlan_of_frame c frame = Some vlan"
  using assms
  by (cases "vlan_mode c")
    (auto simp: vlan_of_frame_def classify_vlan_ingress_def VlanPortConfig_wf_def VlanPortConfig_is_access_def
      split: if_splits option.splits)

end
