(* ===== verification/Mac_Table.thy ===== *)
theory Mac_Table
  imports Mac_Address Identifiers Std_Containers
begin

text \<open>
  \<^verbatim>\<open>switching/mac_table.cpp\<close>: the learning table, keyed by VLAN and address, of bounded
  capacity, with dynamic entries that age and static entries that do not. The overload of
  \<open>learn\<close> without a time reads the clock and calls the one modelled here.
\<close>

section \<open>Entries and keys\<close>

datatype MacEntryType = dynamic | static_entry

datatype MacTableUpdate = mac_inserted | mac_refreshed | mac_moved | mac_table_full | mac_rejected | mac_static_conflict

record MacTableEntry =
  mac_port :: PortId
  mac_type :: MacEntryType
  mac_learned_at :: TimePoint

definition MacTableEntry_is_static :: "MacTableEntry \<Rightarrow> bool" where
  "MacTableEntry_is_static entry \<longleftrightarrow> mac_type entry = static_entry"

datatype MacKey = MacKey (key_vlan: VlanId) (key_mac_address: MacAddress)

definition MacKey_less :: "MacKey \<Rightarrow> MacKey \<Rightarrow> bool" where
  "MacKey_less left right =
     (if key_vlan left \<noteq> key_vlan right then key_vlan left < key_vlan right
      else key_mac_address left < key_mac_address right)"

instantiation MacKey :: linorder
begin

definition less_MacKey :: "MacKey \<Rightarrow> MacKey \<Rightarrow> bool" where
  "less_MacKey left right \<longleftrightarrow> MacKey_less left right"

definition less_eq_MacKey :: "MacKey \<Rightarrow> MacKey \<Rightarrow> bool" where
  "less_eq_MacKey left right \<longleftrightarrow> left = right \<or> MacKey_less left right"

instance
  by standard
    (auto simp: less_MacKey_def less_eq_MacKey_def MacKey_less_def intro: MacKey.expand split: if_splits)

end

section \<open>The table\<close>

record MacTable =
  mac_capacity :: nat
  mac_entry_lifetime :: Duration
  mac_entries :: "(MacKey, MacTableEntry) std_map"

text \<open>The constructor throws for a capacity of zero or a lifetime that is not positive.\<close>

definition MacTable_create :: "nat \<Rightarrow> Duration \<Rightarrow> MacTable option" where
  "MacTable_create capacity lifetime =
     (if capacity = 0 then None
      else if lifetime \<le> 0 then None
      else Some \<lparr>mac_capacity = capacity, mac_entry_lifetime = lifetime, mac_entries = []\<rparr>)"

definition MacTable_update ::
  "MacKey \<Rightarrow> PortId \<Rightarrow> MacEntryType \<Rightarrow> TimePoint \<Rightarrow> MacTable \<Rightarrow> MacTableUpdate \<times> MacTable" where
  "MacTable_update key port type learned_at t =
     (let new_entry = \<lparr>mac_port = port, mac_type = type, mac_learned_at = learned_at\<rparr> in
      case map_find (mac_entries t) key of
        None \<Rightarrow>
          if length (mac_entries t) \<ge> mac_capacity t then (mac_table_full, t)
          else (mac_inserted, t\<lparr>mac_entries := snd (map_emplace key new_entry (mac_entries t))\<rparr>)
      | Some existing \<Rightarrow>
          if MacTableEntry_is_static existing \<and> type = dynamic then
            (if mac_port existing \<noteq> port then (mac_static_conflict, t) else (mac_refreshed, t))
          else
            let moved = (mac_port existing \<noteq> port) in
            (if moved then mac_moved else mac_refreshed,
             t\<lparr>mac_entries := map_assign key new_entry (mac_entries t)\<rparr>))"

definition MacTable_learn ::
  "VlanId \<Rightarrow> MacAddress \<Rightarrow> PortId \<Rightarrow> TimePoint \<Rightarrow> MacTable \<Rightarrow> MacTableUpdate \<times> MacTable" where
  "MacTable_learn vlan mac ingress_port learned_at t =
     (if \<not> is_valid_unicast mac then (mac_rejected, t)
      else MacTable_update (MacKey vlan mac) ingress_port dynamic learned_at t)"

definition MacTable_add_static :: "VlanId \<Rightarrow> MacAddress \<Rightarrow> PortId \<Rightarrow> MacTable \<Rightarrow> MacTableUpdate \<times> MacTable" where
  "MacTable_add_static vlan mac port t =
     (if \<not> is_valid_unicast mac then (mac_rejected, t)
      else MacTable_update (MacKey vlan mac) port static_entry 0 t)"

definition MacTable_lookup :: "MacTable \<Rightarrow> VlanId \<Rightarrow> MacAddress \<Rightarrow> MacTableEntry option" where
  "MacTable_lookup t vlan mac = map_find (mac_entries t) (MacKey vlan mac)"

definition MacTable_remove :: "VlanId \<Rightarrow> MacAddress \<Rightarrow> MacTable \<Rightarrow> bool \<times> MacTable" where
  "MacTable_remove vlan mac t =
     (let (erased, entries) = map_erase (MacKey vlan mac) (mac_entries t)
      in (erased \<noteq> 0, t\<lparr>mac_entries := entries\<rparr>))"

definition mac_entry_expired :: "MacTable \<Rightarrow> TimePoint \<Rightarrow> MacTableEntry \<Rightarrow> bool" where
  "mac_entry_expired t now entry \<longleftrightarrow>
     \<not> MacTableEntry_is_static entry \<and> now \<ge> mac_learned_at entry \<and>
     now - mac_learned_at entry \<ge> mac_entry_lifetime t"

definition MacTable_expire :: "TimePoint \<Rightarrow> MacTable \<Rightarrow> nat \<times> MacTable" where
  "MacTable_expire now t =
     (let (removed, entries) = map_erase_if (\<lambda>(_, entry). mac_entry_expired t now entry) (mac_entries t)
      in (removed, t\<lparr>mac_entries := entries\<rparr>))"

definition MacTable_size :: "MacTable \<Rightarrow> nat" where
  "MacTable_size t = length (mac_entries t)"

datatype MacOp =
  MacLearn VlanId MacAddress PortId TimePoint
| MacAddStatic VlanId MacAddress PortId
| MacRemove VlanId MacAddress
| MacExpire TimePoint

fun MacTable_step :: "MacTable \<Rightarrow> MacOp \<Rightarrow> MacTable" where
  "MacTable_step t (MacLearn vlan mac port learned_at) = snd (MacTable_learn vlan mac port learned_at t)"
| "MacTable_step t (MacAddStatic vlan mac port) = snd (MacTable_add_static vlan mac port t)"
| "MacTable_step t (MacRemove vlan mac) = snd (MacTable_remove vlan mac t)"
| "MacTable_step t (MacExpire now) = snd (MacTable_expire now t)"

section \<open>The invariant\<close>

definition MacTable_inv :: "MacTable \<Rightarrow> bool" where
  "MacTable_inv t \<longleftrightarrow>
     mac_entry_lifetime t > 0 \<and> map_wf (mac_entries t) \<and> length (mac_entries t) \<le> mac_capacity t \<and>
     (\<forall>key entry. map_find (mac_entries t) key = Some entry \<longrightarrow> is_valid_unicast (key_mac_address key))"

lemma MacTable_create_inv: "MacTable_create capacity lifetime = Some t \<Longrightarrow> MacTable_inv t"
  by (auto simp: MacTable_create_def MacTable_inv_def split: if_splits)

lemma MacTable_update_cases:
  "MacTable_update key port type time t =
     (let new_entry = \<lparr>mac_port = port, mac_type = type, mac_learned_at = time\<rparr>;
          assigned = t\<lparr>mac_entries := map_assign key new_entry (mac_entries t)\<rparr>
      in case map_find (mac_entries t) key of
           None \<Rightarrow> if length (mac_entries t) < mac_capacity t then (mac_inserted, assigned) else (mac_table_full, t)
         | Some old \<Rightarrow>
             if mac_type old = static_entry \<and> type = dynamic
             then (if mac_port old = port then mac_refreshed else mac_static_conflict, t)
             else (if mac_port old = port then mac_refreshed else mac_moved, assigned))"
  by (auto simp: MacTable_update_def map_emplace_def MacTableEntry_is_static_def Let_def split: option.split)

lemma MacTable_update_inv:
  assumes "MacTable_inv t" and "is_valid_unicast (key_mac_address key)"
  shows "MacTable_inv (snd (MacTable_update key port type time t))"
  using assms
  by (auto simp: MacTable_update_cases Let_def MacTable_inv_def map_wf_assign map_find_assign
      std_map.size_update split: option.splits if_splits)

lemma MacTable_expire_eq:
  "MacTable_expire now t =
     (length (filter (\<lambda>(_, entry). mac_entry_expired t now entry) (mac_entries t)),
      t\<lparr>mac_entries := filter (\<lambda>(_, entry). \<not> mac_entry_expired t now entry) (mac_entries t)\<rparr>)"
  by (simp add: MacTable_expire_def map_erase_if_eq case_prod_unfold)

lemma MacTable_remove_eq:
  "MacTable_remove vlan mac t =
     (MacTable_lookup t vlan mac \<noteq> None,
      t\<lparr>mac_entries := snd (map_erase (MacKey vlan mac) (mac_entries t))\<rparr>)"
  by (simp add: MacTable_remove_def map_erase_def MacTable_lookup_def)

lemma MacTable_parameters_step [simp]:
  "mac_capacity (MacTable_step t e) = mac_capacity t"
  "mac_entry_lifetime (MacTable_step t e) = mac_entry_lifetime t"
  by (cases e; auto simp: MacTable_learn_def MacTable_add_static_def MacTable_update_cases Let_def
      MacTable_remove_eq MacTable_expire_eq split: option.split)+

interpretation mac_machine: invariant_system MacTable_step MacTable_inv
proof
  fix t e assume inv: "MacTable_inv t"
  show "MacTable_inv (MacTable_step t e)"
  proof (cases e)
    case (MacRemove vlan mac)
    have "length (snd (map_erase (MacKey vlan mac) (mac_entries t))) \<le> length (mac_entries t)"
      by (simp add: map_erase_def)
    then show ?thesis using inv MacRemove
      by (auto simp: MacTable_remove_eq MacTable_inv_def map_wf_erase map_find_erase split: if_splits)
  next
    case (MacExpire now)
    show ?thesis using inv MacExpire
      by (auto simp: MacTable_expire_eq MacTable_inv_def map_wf_filter map_find_filter
          intro: le_trans [OF length_filter_le] split: if_splits option.splits)
  qed (use inv in \<open>auto simp: MacTable_learn_def MacTable_add_static_def intro: MacTable_update_inv\<close>)
qed

section \<open>Lookups after each operation\<close>

lemma MacTable_lookup_update:
  assumes "MacTable_inv t"
  shows "MacTable_lookup (snd (MacTable_update (MacKey vlan mac) port type time t)) v m =
    (if v = vlan \<and> m = mac \<and> fst (MacTable_update (MacKey vlan mac) port type time t) \<noteq> mac_table_full \<and>
        \<not> (type = dynamic \<and> map_option mac_type (MacTable_lookup t vlan mac) = Some static_entry)
     then Some \<lparr>mac_port = port, mac_type = type, mac_learned_at = time\<rparr>
     else MacTable_lookup t v m)"
  using assms
  by (auto simp: MacTable_lookup_def MacTable_update_cases Let_def MacTable_inv_def map_find_assign split: option.split)

lemma MacTable_lookup_remove:
  "MacTable_inv t \<Longrightarrow> MacTable_lookup (snd (MacTable_remove vlan mac t)) v m =
     (if v = vlan \<and> m = mac then None else MacTable_lookup t v m)"
  by (simp add: MacTable_lookup_def MacTable_remove_eq MacTable_inv_def map_find_erase)

lemma MacTable_lookup_expire:
  "MacTable_inv t \<Longrightarrow> MacTable_lookup (snd (MacTable_expire now t)) v m =
     (case MacTable_lookup t v m of None \<Rightarrow> None
      | Some entry \<Rightarrow> if mac_entry_expired t now entry then None else Some entry)"
  by (simp add: MacTable_lookup_def MacTable_expire_eq MacTable_inv_def map_find_filter split: option.split)

lemma MacTable_update_full_iff:
  "fst (MacTable_update (MacKey vlan mac) port type time t) = mac_table_full \<longleftrightarrow>
     MacTable_lookup t vlan mac = None \<and> MacTable_size t \<ge> mac_capacity t"
  by (auto simp: MacTable_update_cases Let_def MacTable_lookup_def MacTable_size_def not_less split: option.split)

lemma MacTable_learn_result_iff:
  "fst (MacTable_learn vlan mac port time t) = mac_rejected \<longleftrightarrow> \<not> is_valid_unicast mac"
  "fst (MacTable_learn vlan mac port time t) = mac_static_conflict \<longleftrightarrow>
     is_valid_unicast mac \<and> (\<exists>e. MacTable_lookup t vlan mac = Some e \<and> mac_type e = static_entry \<and> mac_port e \<noteq> port)"
  by (auto simp: MacTable_learn_def MacTable_update_cases Let_def MacTable_lookup_def split: option.splits)

text \<open>An operation that is not an explicit change of a key.\<close>

fun leaves_static :: "VlanId \<Rightarrow> MacAddress \<Rightarrow> MacOp \<Rightarrow> bool" where
  "leaves_static vlan mac (MacLearn _ _ _ _) = True"
| "leaves_static vlan mac (MacAddStatic v m _) = (v \<noteq> vlan \<or> m \<noteq> mac)"
| "leaves_static vlan mac (MacRemove v m) = (v \<noteq> vlan \<or> m \<noteq> mac)"
| "leaves_static vlan mac (MacExpire _) = True"

lemma static_kept_step:
  assumes "MacTable_inv t" and "MacTable_lookup t vlan mac = Some e" and "mac_type e = static_entry"
    and "leaves_static vlan mac op"
  shows "MacTable_lookup (MacTable_step t op) vlan mac = Some e"
  using assms
  by (cases op) (auto simp: MacTable_learn_def MacTable_add_static_def MacTable_lookup_update
      MacTable_lookup_remove MacTable_lookup_expire mac_entry_expired_def MacTableEntry_is_static_def)

lemma static_kept_run:
  "MacTable_inv t \<Longrightarrow> MacTable_lookup t vlan mac = Some e \<Longrightarrow> mac_type e = static_entry \<Longrightarrow>
   list_all (leaves_static vlan mac) ops \<Longrightarrow> MacTable_lookup (run MacTable_step t ops) vlan mac = Some e"
proof (induction ops arbitrary: t)
  case (Cons op ops)
  then show ?case by (simp add: static_kept_step mac_machine.inv_step)
qed simp

section \<open>The contract of a learning table\<close>

text \<open>
  What the forwarding decision relies on: learning an address binds it to the ingress port,
  unless it is pinned or there is no room for it, and touches no other address or VLAN.
\<close>

locale learning_table =
  fixes port_of :: "'s \<Rightarrow> VlanId \<Rightarrow> MacAddress \<Rightarrow> PortId option"
    and learn :: "VlanId \<Rightarrow> MacAddress \<Rightarrow> PortId \<Rightarrow> TimePoint \<Rightarrow> 's \<Rightarrow> 's"
    and room :: "'s \<Rightarrow> bool"
    and pinned :: "'s \<Rightarrow> VlanId \<Rightarrow> MacAddress \<Rightarrow> bool"
    and inv :: "'s \<Rightarrow> bool"
  assumes inv_learn: "inv s \<Longrightarrow> inv (learn vlan mac port now s)"
    and learn_other: "inv s \<Longrightarrow> v \<noteq> vlan \<or> m \<noteq> mac \<Longrightarrow> port_of (learn vlan mac port now s) v m = port_of s v m"
    and learn_same: "inv s \<Longrightarrow> is_valid_unicast mac \<Longrightarrow> \<not> pinned s vlan mac \<Longrightarrow>
      room s \<or> port_of s vlan mac \<noteq> None \<Longrightarrow> port_of (learn vlan mac port now s) vlan mac = Some port"
begin

lemma learn_then_learn_other:
  "inv s \<Longrightarrow> is_valid_unicast mac \<Longrightarrow> \<not> pinned s vlan mac \<Longrightarrow> room s \<or> port_of s vlan mac \<noteq> None \<Longrightarrow>
   v \<noteq> vlan \<or> m \<noteq> mac \<Longrightarrow>
   port_of (learn v m p' now' (learn vlan mac port now s)) vlan mac = Some port"
  by (metis inv_learn learn_other learn_same)

lemma learn_moves:
  "inv s \<Longrightarrow> is_valid_unicast mac \<Longrightarrow> \<not> pinned s vlan mac \<Longrightarrow> port_of s vlan mac = Some old \<Longrightarrow>
   port_of (learn vlan mac port now s) vlan mac = Some port"
  by (rule learn_same) simp_all

end

definition MacTable_port_of :: "MacTable \<Rightarrow> VlanId \<Rightarrow> MacAddress \<Rightarrow> PortId option" where
  "MacTable_port_of t vlan mac = map_option mac_port (MacTable_lookup t vlan mac)"

definition MacTable_pinned :: "MacTable \<Rightarrow> VlanId \<Rightarrow> MacAddress \<Rightarrow> bool" where
  "MacTable_pinned t vlan mac \<longleftrightarrow> map_option mac_type (MacTable_lookup t vlan mac) = Some static_entry"

interpretation mac_learning: learning_table MacTable_port_of
  "\<lambda>vlan mac port now t. snd (MacTable_learn vlan mac port now t)"
  "\<lambda>t. MacTable_size t < mac_capacity t" MacTable_pinned MacTable_inv
proof
  fix s vlan mac port now assume inv: "MacTable_inv s"
  show "MacTable_inv (snd (MacTable_learn vlan mac port now s))"
    using mac_machine.inv_step [OF inv, of "MacLearn vlan mac port now"] by simp
  show "MacTable_port_of (snd (MacTable_learn vlan mac port now s)) v m = MacTable_port_of s v m"
    if "v \<noteq> vlan \<or> m \<noteq> mac" for v m
    using inv that by (auto simp: MacTable_port_of_def MacTable_learn_def MacTable_lookup_update)
  show "MacTable_port_of (snd (MacTable_learn vlan mac port now s)) vlan mac = Some port"
    if "is_valid_unicast mac" "\<not> MacTable_pinned s vlan mac"
      "MacTable_size s < mac_capacity s \<or> MacTable_port_of s vlan mac \<noteq> None"
    using inv that
    by (auto simp: MacTable_port_of_def MacTable_pinned_def MacTable_learn_def MacTable_lookup_update
        MacTable_update_full_iff)
qed

section \<open>Properties\<close>

text \<open>
  A MAC table never holds more entries than its capacity and never an address
  that is not learnable, whatever sequence of learning, static configuration, removal and
  ageing it goes through.
\<close>

lemma mac_table_bounded:
  assumes "MacTable_create capacity lifetime = Some t"
  shows "MacTable_size (run MacTable_step t ops) \<le> capacity \<and>
    (\<forall>vlan mac e. MacTable_lookup (run MacTable_step t ops) vlan mac = Some e \<longrightarrow> is_valid_unicast mac)"
proof -
  have "mac_capacity (run MacTable_step u ops) = mac_capacity u" for u
    by (induction ops arbitrary: u) simp_all
  moreover have "mac_capacity t = capacity" using assms by (auto simp: MacTable_create_def split: if_splits)
  ultimately show ?thesis
    using mac_machine.inv_run [OF MacTable_create_inv [OF assms], of ops]
    by (fastforce simp: MacTable_inv_def MacTable_size_def MacTable_lookup_def)
qed

definition sample_mac :: MacAddress where
  "sample_mac = MacAddress 2 0 0 0 0 0xA1"

lemma sample_mac_valid: "is_valid_unicast sample_mac"
  by (simp add: is_valid_unicast_def sample_mac_def unspecified_mac_def
      MacAddress_is_unicast_def MacAddress_is_multicast_def)

definition sample_table :: MacTable where
  "sample_table = \<lparr>mac_capacity = 1, mac_entry_lifetime = 300, mac_entries = []\<rparr>"

lemma sample_table_created: "MacTable_create 1 300 = Some sample_table"
  by (simp add: MacTable_create_def sample_table_def)

lemma mac_table_bounded_witness:
  "MacTable_size (run MacTable_step sample_table
     [MacLearn (VlanId 10) sample_mac (PortId 1) 0, MacLearn (VlanId 20) sample_mac (PortId 1) 0]) \<le> 1"
  using mac_table_bounded [OF sample_table_created] by blast

text \<open>
  The answer of \<open>learn\<close> on every branch, and what the table knows of the
  address afterwards. A static entry is never overwritten, a full table refuses only new keys.
\<close>

lemma mac_learn_outcome:
  assumes "MacTable_create capacity lifetime = Some t0" and "t = run MacTable_step t0 ops"
    and "is_valid_unicast mac"
  shows "let (answer, t') = MacTable_learn vlan mac port now t; e' = MacTable_lookup t' vlan mac;
      fresh = \<lparr>mac_port = port, mac_type = dynamic, mac_learned_at = now\<rparr>
    in case MacTable_lookup t vlan mac of
         None \<Rightarrow> if MacTable_size t < capacity then answer = mac_inserted \<and> e' = Some fresh
                 else answer = mac_table_full \<and> t' = t
       | Some e \<Rightarrow>
           if mac_type e = static_entry
           then answer = (if mac_port e = port then mac_refreshed else mac_static_conflict) \<and> t' = t
           else answer = (if mac_port e = port then mac_refreshed else mac_moved) \<and> e' = Some fresh"
proof -
  have "mac_capacity (run MacTable_step u ops) = mac_capacity u" for u
    by (induction ops arbitrary: u) simp_all
  then have "mac_capacity t = capacity" using assms(1,2) by (auto simp: MacTable_create_def split: if_splits)
  moreover have "map_wf (mac_entries t)"
    using mac_machine.inv_run [OF MacTable_create_inv [OF assms(1)], of ops] assms(2) by (simp add: MacTable_inv_def)
  ultimately show ?thesis
    using assms(3) by (auto simp: MacTable_learn_def MacTable_update_cases MacTable_lookup_def MacTable_size_def
        Let_def map_find_assign split: option.split)
qed

lemma mac_learn_outcome_witness:
  "fst (MacTable_learn (VlanId 10) sample_mac (PortId 3) 7 sample_table) = mac_inserted"
  using mac_learn_outcome [OF sample_table_created, of sample_table "[]" sample_mac "VlanId 10" "PortId 3" 7]
  by (simp add: sample_mac_valid MacTable_lookup_def MacTable_size_def sample_table_def Let_def case_prod_beta)

text \<open>
  A static entry stays until it is explicitly reconfigured or removed. No learning,
  on any port or VLAN, no ageing at any time and no change of other keys touches it.
\<close>

lemma mac_static_entry_kept:
  assumes "MacTable_create capacity lifetime = Some t0" and "t = run MacTable_step t0 before"
    and "fst (MacTable_add_static vlan mac port t) \<notin> {mac_table_full, mac_rejected}"
    and "list_all (leaves_static vlan mac) ops"
  shows "map_option mac_port (MacTable_lookup (run MacTable_step (snd (MacTable_add_static vlan mac port t)) ops) vlan mac) =
    Some port"
proof -
  have inv: "MacTable_inv t"
    using mac_machine.inv_run [OF MacTable_create_inv [OF assms(1)], of before] assms(2) by simp
  let ?e = "\<lparr>mac_port = port, mac_type = static_entry, mac_learned_at = 0\<rparr>"
  have "MacTable_lookup (snd (MacTable_add_static vlan mac port t)) vlan mac = Some ?e"
    using assms(3) by (auto simp: MacTable_add_static_def MacTable_lookup_update [OF inv] split: if_splits)
  moreover have "MacTable_inv (snd (MacTable_add_static vlan mac port t))"
    using mac_machine.inv_step [OF inv, of "MacAddStatic vlan mac port"] by simp
  ultimately show ?thesis using static_kept_run [of _ vlan mac ?e ops] assms(4) by simp
qed

lemma mac_static_entry_kept_witness:
  "map_option mac_port (MacTable_lookup (run MacTable_step
     (snd (MacTable_add_static (VlanId 10) sample_mac (PortId 1) sample_table))
     [MacLearn (VlanId 10) sample_mac (PortId 2) 9, MacExpire 10000]) (VlanId 10) sample_mac) = Some (PortId 1)"
proof (rule mac_static_entry_kept [OF sample_table_created])
  show "sample_table = run MacTable_step sample_table []" by simp
  show "fst (MacTable_add_static (VlanId 10) sample_mac (PortId 1) sample_table) \<notin> {mac_table_full, mac_rejected}"
    by (simp add: MacTable_add_static_def sample_mac_valid MacTable_update_def sample_table_def Let_def)
qed simp

end
