(* ===== verification/L2_L3_Pipeline.thy ===== *)
theory L2_L3_Pipeline
  imports Vlan_Ingress Mac_Table
begin

text \<open>
  \<^verbatim>\<open>switching/l2_forwarding.cpp\<close> and \<^verbatim>\<open>switching/l2_l3_pipeline.cpp\<close>: the layer-2 forwarding
  decision and the ingress pipeline that classifies a frame, learns its source, hands frames for
  the router to layer 3 and switches the rest. The pipeline returns the MAC table it updated.
\<close>

section \<open>Layer-2 decision\<close>

datatype L2ForwardingAction =
  known_unicast | unknown_unicast_flood | broadcast_flood | multicast_flood | l2_drop

datatype L2ForwardingDropReason = l2_same_ingress_port | l2_destination_not_in_vlan | l2_no_eligible_egress_port

record L2ForwardingDecision =
  l2_action :: L2ForwardingAction
  l2_output_ports :: "PortId list"
  l2_drop_reason :: "L2ForwardingDropReason option"

definition L2ForwardingDecision_forward :: "L2ForwardingAction \<Rightarrow> PortId list \<Rightarrow> L2ForwardingDecision" where
  "L2ForwardingDecision_forward action ports =
     \<lparr>l2_action = action, l2_output_ports = ports, l2_drop_reason = None\<rparr>"

definition L2ForwardingDecision_drop :: "L2ForwardingDropReason \<Rightarrow> L2ForwardingDecision" where
  "L2ForwardingDecision_drop reason =
     \<lparr>l2_action = l2_drop, l2_output_ports = [], l2_drop_reason = Some reason\<rparr>"

definition flood_outputs :: "PortId \<Rightarrow> PortId list \<Rightarrow> PortId list" where
  "flood_outputs ingress_port vlan_ports =
     foldl (\<lambda>outputs port. if port \<noteq> ingress_port \<and> port \<notin> set outputs then outputs @ [port] else outputs)
       [] vlan_ports"

definition flood :: "L2ForwardingAction \<Rightarrow> PortId \<Rightarrow> PortId list \<Rightarrow> L2ForwardingDecision" where
  "flood action ingress_port vlan_ports =
     (let outputs = flood_outputs ingress_port vlan_ports in
      if outputs = [] then L2ForwardingDecision_drop l2_no_eligible_egress_port
      else L2ForwardingDecision_forward action outputs)"

definition decide_l2_forwarding ::
  "EthernetFrame \<Rightarrow> VlanId \<Rightarrow> PortId \<Rightarrow> PortId list \<Rightarrow> MacTable \<Rightarrow> L2ForwardingDecision" where
  "decide_l2_forwarding frame vlan ingress_port vlan_ports mac_table =
     (if MacAddress_is_broadcast (destination frame) then flood broadcast_flood ingress_port vlan_ports
      else if MacAddress_is_multicast (destination frame) then flood multicast_flood ingress_port vlan_ports
      else case MacTable_lookup mac_table vlan (destination frame) of
        None \<Rightarrow> flood unknown_unicast_flood ingress_port vlan_ports
      | Some entry \<Rightarrow>
          if mac_port entry = ingress_port then L2ForwardingDecision_drop l2_same_ingress_port
          else if mac_port entry \<notin> set vlan_ports then L2ForwardingDecision_drop l2_destination_not_in_vlan
          else L2ForwardingDecision_forward known_unicast [mac_port entry])"

section \<open>The ingress pipeline\<close>

datatype PipelineAction = switch_known_unicast | pipeline_flood | route_ipv4 | deliver_to_control_plane | pipeline_drop

datatype PipelineDropReason =
  drop_tagged_frame_on_access_port | drop_untagged_frame_without_native_vlan | drop_vlan_not_allowed
| drop_invalid_source_mac | drop_static_mac_conflict | drop_same_ingress_port
| drop_destination_not_in_vlan | drop_no_eligible_egress_port | drop_unsupported_router_protocol

record PipelineDecision =
  pipeline_action :: PipelineAction
  pipeline_vlan :: "VlanId option"
  pipeline_output_ports :: "PortId list"
  pipeline_drop_reason :: "PipelineDropReason option"

definition PipelineDecision_accept :: "PipelineAction \<Rightarrow> VlanId \<Rightarrow> PortId list \<Rightarrow> PipelineDecision" where
  "PipelineDecision_accept action vlan ports =
     \<lparr>pipeline_action = action, pipeline_vlan = Some vlan, pipeline_output_ports = ports, pipeline_drop_reason = None\<rparr>"

definition PipelineDecision_drop :: "VlanId option \<Rightarrow> PipelineDropReason \<Rightarrow> PipelineDecision" where
  "PipelineDecision_drop vlan reason =
     \<lparr>pipeline_action = pipeline_drop, pipeline_vlan = vlan, pipeline_output_ports = [],
      pipeline_drop_reason = Some reason\<rparr>"

definition map_vlan_drop :: "VlanIngressDropReason \<Rightarrow> PipelineDropReason" where
  "map_vlan_drop reason =
     (case reason of
        tagged_frame_on_access_port \<Rightarrow> drop_tagged_frame_on_access_port
      | untagged_frame_without_native_vlan \<Rightarrow> drop_untagged_frame_without_native_vlan
      | vlan_not_allowed \<Rightarrow> drop_vlan_not_allowed)"

definition map_l2_drop :: "L2ForwardingDropReason \<Rightarrow> PipelineDropReason" where
  "map_l2_drop reason =
     (case reason of
        l2_same_ingress_port \<Rightarrow> drop_same_ingress_port
      | l2_destination_not_in_vlan \<Rightarrow> drop_destination_not_in_vlan
      | l2_no_eligible_egress_port \<Rightarrow> drop_no_eligible_egress_port)"

type_synonym RouterInterfaces = "(VlanId, MacAddress) std_map"

text \<open>The part of the pipeline after learning.\<close>

definition pipeline_dispatch ::
  "EthernetFrame \<Rightarrow> VlanId \<Rightarrow> PortId \<Rightarrow> PortId list \<Rightarrow> MacTable \<Rightarrow> RouterInterfaces \<Rightarrow> PipelineDecision" where
  "pipeline_dispatch frame vlan ingress_port vlan_ports mac_table router_interfaces =
     (if map_find router_interfaces vlan = Some (destination frame) then
        (if ether_type frame = EtherType_ipv4 then PipelineDecision_accept route_ipv4 vlan []
         else if ether_type frame = EtherType_arp then PipelineDecision_accept deliver_to_control_plane vlan []
         else PipelineDecision_drop (Some vlan) drop_unsupported_router_protocol)
      else
        let l2 = decide_l2_forwarding frame vlan ingress_port vlan_ports mac_table in
        if l2_action l2 = l2_drop then PipelineDecision_drop (Some vlan) (map_l2_drop (the (l2_drop_reason l2)))
        else if l2_action l2 = known_unicast
          then PipelineDecision_accept switch_known_unicast vlan (l2_output_ports l2)
        else PipelineDecision_accept pipeline_flood vlan (l2_output_ports l2))"

definition process_l2_l3_ingress ::
  "EthernetFrame \<Rightarrow> PortId \<Rightarrow> VlanPortConfig \<Rightarrow> PortId list \<Rightarrow> MacTable \<Rightarrow> RouterInterfaces \<Rightarrow> TimePoint \<Rightarrow>
   PipelineDecision \<times> MacTable" where
  "process_l2_l3_ingress frame ingress_port port_config vlan_ports mac_table router_interfaces now =
     (case classify_vlan_ingress frame port_config of
        DroppedVlanIngress reason \<Rightarrow> (PipelineDecision_drop None (map_vlan_drop reason), mac_table)
      | AcceptedVlanIngress vlan \<Rightarrow>
          let (learning, mac_table) = MacTable_learn vlan (source frame) ingress_port now mac_table in
          if learning = mac_rejected then (PipelineDecision_drop (Some vlan) drop_invalid_source_mac, mac_table)
          else if learning = mac_static_conflict
            then (PipelineDecision_drop (Some vlan) drop_static_mac_conflict, mac_table)
          else (pipeline_dispatch frame vlan ingress_port vlan_ports mac_table router_interfaces, mac_table))"

lemmas l2_decision_defs [asic_defs] =
  L2ForwardingDecision_forward_def L2ForwardingDecision_drop_def PipelineDecision_accept_def PipelineDecision_drop_def

section \<open>Where frames go\<close>

lemma flood_outputs_eq:
  "set (flood_outputs ingress ports) = set ports - {ingress} \<and> distinct (flood_outputs ingress ports)"
proof -
  have "set (foldl (\<lambda>outputs port. if port \<noteq> ingress \<and> port \<notin> set outputs then outputs @ [port] else outputs) acc ports) =
      set acc \<union> (set ports - {ingress}) \<and>
    (distinct acc \<longrightarrow> distinct (foldl (\<lambda>outputs port. if port \<noteq> ingress \<and> port \<notin> set outputs
       then outputs @ [port] else outputs) acc ports))" for acc
    by (induction ports arbitrary: acc) auto
  then show ?thesis by (simp add: flood_outputs_def)
qed

lemma set_flood_outputs [simp]: "set (flood_outputs ingress ports) = set ports - {ingress}"
  and distinct_flood_outputs [simp]: "distinct (flood_outputs ingress ports)"
  using flood_outputs_eq by blast+

lemma flood_cases:
  "flood action ingress ports =
     (if set ports \<subseteq> {ingress} then L2ForwardingDecision_drop l2_no_eligible_egress_port
      else L2ForwardingDecision_forward action (flood_outputs ingress ports))"
proof -
  have "flood_outputs ingress ports = [] \<longleftrightarrow> set ports \<subseteq> {ingress}"
    using set_flood_outputs [of ingress ports] by (metis Diff_eq_empty_iff set_empty)
  then show ?thesis by (simp add: flood_def Let_def)
qed

text \<open>What every decision promises about its ports.\<close>

definition eligible :: "PortId \<Rightarrow> PortId list \<Rightarrow> PortId list \<Rightarrow> bool" where
  "eligible ingress vlan_ports outputs \<longleftrightarrow> distinct outputs \<and> set outputs \<subseteq> set vlan_ports - {ingress}"

lemma eligible_simps [simp]:
  "eligible ingress ports []"
  "eligible ingress ports (flood_outputs ingress ports)"
  "eligible ingress ports [p] \<longleftrightarrow> p \<in> set ports \<and> p \<noteq> ingress"
  by (auto simp: eligible_def)

lemma decide_l2_eligible:
  "eligible ingress ports (l2_output_ports (decide_l2_forwarding frame vlan ingress ports t))"
  by (auto simp: decide_l2_forwarding_def flood_cases l2_decision_defs split: option.split)

lemma decide_l2_drop_iff:
  "l2_action (decide_l2_forwarding frame vlan ingress ports t) = l2_drop \<longleftrightarrow>
     l2_output_ports (decide_l2_forwarding frame vlan ingress ports t) = []"
proof -
  have "flood_outputs ingress ports = [] \<longleftrightarrow> set ports \<subseteq> {ingress}"
    using set_flood_outputs [of ingress ports] by (metis Diff_eq_empty_iff set_empty)
  then show ?thesis
    by (auto simp: decide_l2_forwarding_def flood_cases l2_decision_defs split: option.split)
qed

lemma dispatch_eligible:
  "eligible ingress ports (pipeline_output_ports (pipeline_dispatch frame vlan ingress ports t routers))"
  by (simp add: pipeline_dispatch_def Let_def l2_decision_defs decide_l2_eligible)

lemma process_eligible:
  "eligible ingress ports (pipeline_output_ports (fst (process_l2_l3_ingress frame ingress c ports t routers now)))"
  by (simp add: process_l2_l3_ingress_def Let_def case_prod_beta dispatch_eligible PipelineDecision_drop_def
      split: VlanIngressResult.split)

lemma process_mac_table:
  "snd (process_l2_l3_ingress frame ingress c ports t routers now) =
     (case classify_vlan_ingress frame c of
        AcceptedVlanIngress vlan \<Rightarrow> snd (MacTable_learn vlan (source frame) ingress now t)
      | DroppedVlanIngress _ \<Rightarrow> t)"
  by (simp add: process_l2_l3_ingress_def Let_def case_prod_beta split: VlanIngressResult.split)

lemma process_inv:
  "MacTable_inv t \<Longrightarrow> MacTable_inv (snd (process_l2_l3_ingress frame ingress c ports t routers now))"
  by (simp add: process_mac_table mac_learning.inv_learn split: VlanIngressResult.split)

lemma process_vlan:
  "pipeline_vlan (fst (process_l2_l3_ingress frame ingress c ports t routers now)) =
     (case classify_vlan_ingress frame c of AcceptedVlanIngress vlan \<Rightarrow> Some vlan | DroppedVlanIngress _ \<Rightarrow> None)"
  by (simp add: process_l2_l3_ingress_def pipeline_dispatch_def Let_def case_prod_beta l2_decision_defs
      split: VlanIngressResult.split)

lemma process_capacity:
  "mac_capacity (snd (process_l2_l3_ingress frame ingress c ports t routers now)) = mac_capacity t"
  using MacTable_parameters_step(1) [of t "MacLearn _ _ _ _"]
  by (simp add: process_mac_table split: VlanIngressResult.split)

section \<open>Properties\<close>

text \<open>
  The pipeline never sends a frame back out of the port it came in on, never out
  of a port that is not in the port list of the VLAN, and never twice out of the same port.
\<close>

lemma pipeline_outputs_eligible:
  "distinct (pipeline_output_ports (fst (process_l2_l3_ingress frame ingress c ports t routers now))) \<and>
   set (pipeline_output_ports (fst (process_l2_l3_ingress frame ingress c ports t routers now))) \<subseteq> set ports - {ingress}"
  using process_eligible [of ingress ports frame c t routers now] by (simp add: eligible_def)

text \<open>
  A frame to a broadcast address, to a group or to an address the VLAN has not
  learned goes to every other port of the VLAN: the decision floods to exactly those ports, or
  drops the frame if there is none.
\<close>

lemma flood_reaches_all:
  assumes "MacAddress_is_multicast (destination frame) \<or> MacTable_lookup t vlan (destination frame) = None"
  shows "set (l2_output_ports (decide_l2_forwarding frame vlan ingress ports t)) = set ports - {ingress} \<and>
    (l2_action (decide_l2_forwarding frame vlan ingress ports t) = l2_drop \<longleftrightarrow> set ports \<subseteq> {ingress})"
proof -
  have "MacAddress_is_broadcast (destination frame) \<Longrightarrow> MacAddress_is_multicast (destination frame)"
    by (rule broadcast_is_multicast)
  then show ?thesis
    using assms by (auto simp: decide_l2_forwarding_def flood_cases l2_decision_defs split: option.split)
qed

definition sample_broadcast :: EthernetFrame where
  "sample_broadcast = \<lparr>destination = MacAddress 0xFF 0xFF 0xFF 0xFF 0xFF 0xFF, source = sample_mac,
     ether_type = EtherType_arp, payload = [], vlan_tag = None\<rparr>"

lemma flood_reaches_all_witness:
  "set (l2_output_ports (decide_l2_forwarding sample_broadcast (VlanId 10) (PortId 1)
     [PortId 1, PortId 2, PortId 3] sample_table)) = {PortId 2, PortId 3}"
proof -
  have "MacAddress_is_multicast (destination sample_broadcast)"
    by (simp add: MacAddress_is_multicast_def sample_broadcast_def)
  then show ?thesis
    using flood_reaches_all [of sample_broadcast sample_table "VlanId 10" "PortId 1" "[PortId 1, PortId 2, PortId 3]"]
    by auto
qed

text \<open>
  The switch learns. Once a frame from a host was accepted in a VLAN, and the
  table had room for it, a later frame to that host in the same VLAN, arriving from another host
  on another port, is switched to the one port that the host was seen on.
\<close>

lemma pipeline_learns_reply_path:
  assumes "MacTable_inv t" and "MacTable_size t < mac_capacity t"
    and "classify_vlan_ingress request_frame c = AcceptedVlanIngress vlan"
    and "classify_vlan_ingress reply_frame d = AcceptedVlanIngress vlan"
    and "is_valid_unicast (source request_frame)" and "\<not> MacTable_pinned t vlan (source request_frame)"
    and "destination reply_frame = source request_frame" and "source reply_frame \<noteq> source request_frame"
    and "is_valid_unicast (source reply_frame)" and "\<not> MacTable_pinned t vlan (source reply_frame)"
    and "map_find routers vlan \<noteq> Some (source request_frame)"
    and "port \<noteq> port'" and "port \<in> set ports'"
    and "t' = snd (process_l2_l3_ingress request_frame port c ports t routers now)"
  shows "fst (process_l2_l3_ingress reply_frame port' d ports' t' routers now') =
    PipelineDecision_accept switch_known_unicast vlan [port]"
proof -
  let ?a = "source request_frame" and ?b = "source reply_frame"
  let ?u = "snd (MacTable_learn vlan ?b port' now' t')"
  have t': "t' = snd (MacTable_learn vlan ?a port now t)" using assms(3,14) by (simp add: process_mac_table)
  have inv: "MacTable_inv t'" using assms(1) by (simp add: t' mac_learning.inv_learn)
  have "MacTable_port_of ?u vlan ?a = Some port"
    unfolding t' using assms(1,2,5,6,8) by (intro mac_learning.learn_then_learn_other) auto
  then obtain e where e: "MacTable_lookup ?u vlan ?a = Some e" "mac_port e = port"
    by (auto simp: MacTable_port_of_def)
  have "\<not> MacTable_pinned t' vlan ?b"
    using assms(1,8,10) by (auto simp: t' MacTable_pinned_def MacTable_learn_def MacTable_lookup_update)
  then have "fst (MacTable_learn vlan ?b port' now' t') \<notin> {mac_rejected, mac_static_conflict}"
    using assms(9) by (auto simp: MacTable_learn_result_iff MacTable_pinned_def)
  moreover have "\<not> MacAddress_is_multicast ?a" using assms(5) by (simp add: is_valid_unicast_def MacAddress_is_unicast_def)
  moreover from this have "\<not> MacAddress_is_broadcast ?a" using broadcast_is_multicast by blast
  ultimately show ?thesis
    using assms(4,7,11-13) e
    by (auto simp: process_l2_l3_ingress_def case_prod_beta pipeline_dispatch_def Let_def
        decide_l2_forwarding_def l2_decision_defs)
qed

definition sample_request :: EthernetFrame where
  "sample_request = \<lparr>destination = MacAddress 2 0 0 0 0 0xB2, source = sample_mac,
     ether_type = EtherType_ipv4, payload = [], vlan_tag = None\<rparr>"

definition sample_reply :: EthernetFrame where
  "sample_reply = \<lparr>destination = sample_mac, source = MacAddress 2 0 0 0 0 0xB2,
     ether_type = EtherType_ipv4, payload = [], vlan_tag = None\<rparr>"

lemma pipeline_learns_reply_path_witness:
  "fst (process_l2_l3_ingress sample_reply (PortId 2) (VlanPortConfig_access (VlanId 10)) [PortId 1, PortId 2]
     (snd (process_l2_l3_ingress sample_request (PortId 1) (VlanPortConfig_access (VlanId 10)) [PortId 1, PortId 2]
       sample_table [] 0)) [] 1) = PipelineDecision_accept switch_known_unicast (VlanId 10) [PortId 1]"
proof -
  have macs: "is_valid_unicast (source sample_request)" "is_valid_unicast (source sample_reply)"
    by (simp_all add: sample_request_def sample_mac_valid,
        simp add: sample_reply_def is_valid_unicast_def unspecified_mac_def MacAddress_is_unicast_def
          MacAddress_is_multicast_def)
  show ?thesis
    by (rule pipeline_learns_reply_path [where t = sample_table and request_frame = sample_request and port = "PortId 1"
          and c = "VlanPortConfig_access (VlanId 10)" and ports = "[PortId 1, PortId 2]" and now = 0,
          OF MacTable_create_inv [OF sample_table_created] _ _ _ macs(1) _ _ _ macs(2)])
      (simp_all add: MacTable_size_def sample_table_def classify_vlan_ingress_def VlanPortConfig_access_def
        VlanPortConfig_is_access_def sample_request_def sample_reply_def MacTable_pinned_def MacTable_lookup_def
        sample_mac_def)
qed

end
