(* ===== verification/Virtual_Port.thy ===== *)
theory Virtual_Port
  imports Vlan_Ingress
begin

text \<open>
  \<^verbatim>\<open>switching/virtual_port.cpp\<close>: a port with its link state, MTU, VLAN configuration and
  64-bit counters. The counters wrap as \<^verbatim>\<open>uint64_t\<close> does.
\<close>

section \<open>The port\<close>

datatype PortSpeed = mbps_100 | gbps_1 | gbps_10 | gbps_25 | gbps_40 | gbps_100

record PortCounters =
  received_packets :: u64
  received_bytes :: u64
  transmitted_packets :: u64
  transmitted_bytes :: u64
  receive_errors :: u64
  transmit_errors :: u64
  receive_drops :: u64
  transmit_drops :: u64

definition no_counters :: PortCounters where
  "no_counters = \<lparr>received_packets = 0, received_bytes = 0, transmitted_packets = 0, transmitted_bytes = 0,
     receive_errors = 0, transmit_errors = 0, receive_drops = 0, transmit_drops = 0\<rparr>"

record VirtualPort =
  port_id :: PortId
  port_mac_address :: MacAddress
  port_speed :: PortSpeed
  port_mtu :: nat
  port_vlan_config :: VlanPortConfig
  port_admin_enabled :: bool
  port_link_up :: bool
  port_counters :: PortCounters

definition minimum_mtu :: nat where "minimum_mtu = 64"
definition maximum_mtu :: nat where "maximum_mtu = 9216"

definition VirtualPort_create ::
  "PortId \<Rightarrow> MacAddress \<Rightarrow> PortSpeed \<Rightarrow> nat \<Rightarrow> VlanPortConfig \<Rightarrow> VirtualPort option" where
  "VirtualPort_create pid mac speed mtu config =
     (if \<not> is_valid_unicast mac \<or> mtu < minimum_mtu \<or> mtu > maximum_mtu then None
      else Some \<lparr>port_id = pid, port_mac_address = mac, port_speed = speed, port_mtu = mtu,
        port_vlan_config = config, port_admin_enabled = False, port_link_up = False,
        port_counters = no_counters\<rparr>)"

definition VirtualPort_operational :: "VirtualPort \<Rightarrow> bool" where
  "VirtualPort_operational p \<longleftrightarrow> port_admin_enabled p \<and> port_link_up p"

definition VirtualPort_set_admin_enabled :: "bool \<Rightarrow> VirtualPort \<Rightarrow> VirtualPort" where
  "VirtualPort_set_admin_enabled enabled p = p\<lparr>port_admin_enabled := enabled\<rparr>"

definition VirtualPort_set_link_up :: "bool \<Rightarrow> VirtualPort \<Rightarrow> VirtualPort" where
  "VirtualPort_set_link_up up p = p\<lparr>port_link_up := up\<rparr>"

definition VirtualPort_set_speed :: "PortSpeed \<Rightarrow> VirtualPort \<Rightarrow> VirtualPort" where
  "VirtualPort_set_speed speed p = p\<lparr>port_speed := speed\<rparr>"

definition VirtualPort_set_mtu :: "nat \<Rightarrow> VirtualPort \<Rightarrow> bool \<times> VirtualPort" where
  "VirtualPort_set_mtu mtu p =
     (if mtu < minimum_mtu \<or> mtu > maximum_mtu then (False, p) else (True, p\<lparr>port_mtu := mtu\<rparr>))"

definition VirtualPort_set_vlan_config :: "VlanPortConfig \<Rightarrow> VirtualPort \<Rightarrow> VirtualPort" where
  "VirtualPort_set_vlan_config config p = p\<lparr>port_vlan_config := config\<rparr>"

definition VirtualPort_receive :: "nat \<Rightarrow> VirtualPort \<Rightarrow> bool \<times> VirtualPort" where
  "VirtualPort_receive packet_bytes p =
     (let c = port_counters p in
      if \<not> VirtualPort_operational p then
        (False, p\<lparr>port_counters := c\<lparr>receive_drops := receive_drops c + 1\<rparr>\<rparr>)
      else if packet_bytes > port_mtu p then
        (False, p\<lparr>port_counters := c\<lparr>receive_errors := receive_errors c + 1, receive_drops := receive_drops c + 1\<rparr>\<rparr>)
      else
        (True, p\<lparr>port_counters := c\<lparr>received_packets := received_packets c + 1,
           received_bytes := received_bytes c + of_nat packet_bytes\<rparr>\<rparr>))"

definition VirtualPort_transmit :: "nat \<Rightarrow> VirtualPort \<Rightarrow> bool \<times> VirtualPort" where
  "VirtualPort_transmit packet_bytes p =
     (let c = port_counters p in
      if \<not> VirtualPort_operational p then
        (False, p\<lparr>port_counters := c\<lparr>transmit_drops := transmit_drops c + 1\<rparr>\<rparr>)
      else if packet_bytes > port_mtu p then
        (False, p\<lparr>port_counters := c\<lparr>transmit_errors := transmit_errors c + 1, transmit_drops := transmit_drops c + 1\<rparr>\<rparr>)
      else
        (True, p\<lparr>port_counters := c\<lparr>transmitted_packets := transmitted_packets c + 1,
           transmitted_bytes := transmitted_bytes c + of_nat packet_bytes\<rparr>\<rparr>))"

definition VirtualPort_record_receive_error :: "VirtualPort \<Rightarrow> VirtualPort" where
  "VirtualPort_record_receive_error p =
     p\<lparr>port_counters := (port_counters p)\<lparr>receive_errors := receive_errors (port_counters p) + 1\<rparr>\<rparr>"

definition VirtualPort_record_transmit_error :: "VirtualPort \<Rightarrow> VirtualPort" where
  "VirtualPort_record_transmit_error p =
     p\<lparr>port_counters := (port_counters p)\<lparr>transmit_errors := transmit_errors (port_counters p) + 1\<rparr>\<rparr>"

definition VirtualPort_reset_counters :: "VirtualPort \<Rightarrow> VirtualPort" where
  "VirtualPort_reset_counters p = p\<lparr>port_counters := no_counters\<rparr>"

datatype PortOp =
  PortAdmin bool | PortLink bool | PortSetSpeed PortSpeed | PortSetMtu nat | PortVlan VlanPortConfig
| PortReceive nat | PortTransmit nat | PortReceiveError | PortTransmitError | PortResetCounters

fun VirtualPort_step :: "VirtualPort \<Rightarrow> PortOp \<Rightarrow> VirtualPort" where
  "VirtualPort_step p (PortAdmin enabled) = VirtualPort_set_admin_enabled enabled p"
| "VirtualPort_step p (PortLink up) = VirtualPort_set_link_up up p"
| "VirtualPort_step p (PortSetSpeed speed) = VirtualPort_set_speed speed p"
| "VirtualPort_step p (PortSetMtu mtu) = snd (VirtualPort_set_mtu mtu p)"
| "VirtualPort_step p (PortVlan config) = VirtualPort_set_vlan_config config p"
| "VirtualPort_step p (PortReceive n) = snd (VirtualPort_receive n p)"
| "VirtualPort_step p (PortTransmit n) = snd (VirtualPort_transmit n p)"
| "VirtualPort_step p PortReceiveError = VirtualPort_record_receive_error p"
| "VirtualPort_step p PortTransmitError = VirtualPort_record_transmit_error p"
| "VirtualPort_step p PortResetCounters = VirtualPort_reset_counters p"

lemmas virtual_port_defs [asic_defs] =
  VirtualPort_set_admin_enabled_def VirtualPort_set_link_up_def VirtualPort_set_speed_def VirtualPort_set_mtu_def
  VirtualPort_set_vlan_config_def VirtualPort_receive_def VirtualPort_transmit_def
  VirtualPort_record_receive_error_def VirtualPort_record_transmit_error_def VirtualPort_reset_counters_def

section \<open>The invariant and the accounting\<close>

definition VirtualPort_inv :: "VirtualPort \<Rightarrow> bool" where
  "VirtualPort_inv p \<longleftrightarrow>
     is_valid_unicast (port_mac_address p) \<and> minimum_mtu \<le> port_mtu p \<and> port_mtu p \<le> maximum_mtu"

lemma VirtualPort_create_inv: "VirtualPort_create pid mac speed mtu config = Some p \<Longrightarrow> VirtualPort_inv p"
  by (auto simp: VirtualPort_create_def VirtualPort_inv_def split: if_splits)

lemma VirtualPort_step_id [simp]: "port_id (VirtualPort_step p e) = port_id p"
  by (cases e) (auto simp: virtual_port_defs Let_def)

interpretation port_machine: invariant_system VirtualPort_step VirtualPort_inv
proof
  show "VirtualPort_inv (VirtualPort_step p e)" if "VirtualPort_inv p" for p e
    using that by (cases e) (auto simp: virtual_port_defs Let_def VirtualPort_inv_def not_less)
qed

text \<open>Every packet offered to the port is counted, as received or as dropped, and never as both.\<close>

definition receive_total :: "VirtualPort \<Rightarrow> u64" where
  "receive_total p = received_packets (port_counters p) + receive_drops (port_counters p)"

definition transmit_total :: "VirtualPort \<Rightarrow> u64" where
  "transmit_total p = transmitted_packets (port_counters p) + transmit_drops (port_counters p)"

fun is_receive :: "PortOp \<Rightarrow> bool" where
  "is_receive (PortReceive _) = True"
| "is_receive _ = False"

fun is_transmit :: "PortOp \<Rightarrow> bool" where
  "is_transmit (PortTransmit _) = True"
| "is_transmit _ = False"

lemma totals_step:
  "e \<noteq> PortResetCounters \<Longrightarrow>
   receive_total (VirtualPort_step p e) = receive_total p + of_bool (is_receive e) \<and>
   transmit_total (VirtualPort_step p e) = transmit_total p + of_bool (is_transmit e)"
  by (cases e) (auto simp: virtual_port_defs Let_def receive_total_def transmit_total_def)

lemma totals_run:
  "PortResetCounters \<notin> set ops \<Longrightarrow>
   receive_total (run VirtualPort_step p ops) = receive_total p + of_nat (length (filter is_receive ops)) \<and>
   transmit_total (run VirtualPort_step p ops) = transmit_total p + of_nat (length (filter is_transmit ops))"
proof (induction ops arbitrary: p)
  case (Cons e ops)
  then have "e \<noteq> PortResetCounters" by auto
  from totals_step [OF this, of p] Cons show ?case by simp
qed simp

section \<open>Properties\<close>

text \<open>
  A port accounts for every packet. Over any sequence of operations without a
  counter reset, the packets received and dropped on receive add up to the packets offered, and
  likewise on transmit, modulo the width of the counters.
\<close>

lemma virtual_port_accounting:
  assumes "VirtualPort_create pid mac speed mtu config = Some p" and "PortResetCounters \<notin> set ops"
  shows "receive_total (run VirtualPort_step p ops) = of_nat (length (filter is_receive ops)) \<and>
    transmit_total (run VirtualPort_step p ops) = of_nat (length (filter is_transmit ops)) \<and>
    VirtualPort_inv (run VirtualPort_step p ops)"
proof -
  have "receive_total p = 0" "transmit_total p = 0"
    using assms(1) by (auto simp: VirtualPort_create_def receive_total_def transmit_total_def no_counters_def
        split: if_splits)
  then show ?thesis
    using totals_run [OF assms(2), of p] port_machine.inv_run [OF VirtualPort_create_inv [OF assms(1)], of ops] by simp
qed

lemma virtual_port_accounting_witness:
  "\<exists>p. VirtualPort_create (PortId 1) (MacAddress 2 0 0 0 0 1) gbps_1 1500 (VlanPortConfig_access (VlanId 10)) = Some p \<and>
     receive_total (run VirtualPort_step p
       [PortReceive 10, PortAdmin True, PortLink True, PortReceive 2000, PortReceive 64]) = 3"
proof -
  obtain p where p: "VirtualPort_create (PortId 1) (MacAddress 2 0 0 0 0 1) gbps_1 1500
      (VlanPortConfig_access (VlanId 10)) = Some p"
    by (simp add: VirtualPort_create_def is_valid_unicast_def unspecified_mac_def MacAddress_is_unicast_def
        MacAddress_is_multicast_def minimum_mtu_def maximum_mtu_def)
  from virtual_port_accounting [OF p, of "[PortReceive 10, PortAdmin True, PortLink True, PortReceive 2000, PortReceive 64]"]
  show ?thesis using p by simp
qed

end
