(* ===== verification/Bounded_Queue.thy ===== *)
theory Bounded_Queue
  imports Prelude
begin

text \<open>
  \<^verbatim>\<open>asic/bounded_queue.hpp\<close>: the bounded queue between the packet processor and the consumers
  of a port. Every operation runs under the mutex, so that a concurrent execution is a sequence
  of operations; the condition variable makes \<open>wait_dequeue\<close> an operation that is enabled only
  when the queue is closed or not empty. The executions are an inductive step relation with the
  trace of what happened.
\<close>

section \<open>The queue\<close>

datatype QueueEnqueueResult = enqueued | full | closed

record 'v BoundedQueue =
  queue_capacity :: nat
  queue_items :: "'v list"
  queue_closed :: bool

text \<open>The constructor throws for a capacity of zero.\<close>

definition BoundedQueue_create :: "nat \<Rightarrow> 'v BoundedQueue option" where
  "BoundedQueue_create capacity =
     (if capacity = 0 then None
      else Some \<lparr>queue_capacity = capacity, queue_items = [], queue_closed = False\<rparr>)"

definition BoundedQueue_try_enqueue :: "'v \<Rightarrow> 'v BoundedQueue \<Rightarrow> QueueEnqueueResult \<times> 'v BoundedQueue" where
  "BoundedQueue_try_enqueue value q =
     (if queue_closed q then (closed, q)
      else if length (queue_items q) \<ge> queue_capacity q then (full, q)
      else (enqueued, q\<lparr>queue_items := queue_items q @ [value]\<rparr>))"

definition BoundedQueue_pop_front :: "'v BoundedQueue \<Rightarrow> 'v option \<times> 'v BoundedQueue" where
  "BoundedQueue_pop_front q =
     (case queue_items q of
        [] \<Rightarrow> (None, q)
      | value # rest \<Rightarrow> (Some value, q\<lparr>queue_items := rest\<rparr>))"

definition BoundedQueue_try_dequeue :: "'v BoundedQueue \<Rightarrow> 'v option \<times> 'v BoundedQueue" where
  "BoundedQueue_try_dequeue q = BoundedQueue_pop_front q"

text \<open>The predicate that the waiting thread waits for, and what it does once it holds.\<close>

definition BoundedQueue_wait_ready :: "'v BoundedQueue \<Rightarrow> bool" where
  "BoundedQueue_wait_ready q \<longleftrightarrow> queue_closed q \<or> queue_items q \<noteq> []"

definition BoundedQueue_wait_dequeue :: "'v BoundedQueue \<Rightarrow> ('v option \<times> 'v BoundedQueue) option" where
  "BoundedQueue_wait_dequeue q =
     (if BoundedQueue_wait_ready q then Some (BoundedQueue_pop_front q) else None)"

definition BoundedQueue_close :: "'v BoundedQueue \<Rightarrow> bool \<times> 'v BoundedQueue" where
  "BoundedQueue_close q = (if queue_closed q then (False, q) else (True, q\<lparr>queue_closed := True\<rparr>))"

definition BoundedQueue_full :: "'v BoundedQueue \<Rightarrow> bool" where
  "BoundedQueue_full q \<longleftrightarrow> length (queue_items q) \<ge> queue_capacity q"

definition BoundedQueue_empty :: "'v BoundedQueue \<Rightarrow> bool" where
  "BoundedQueue_empty q \<longleftrightarrow> queue_items q = []"

lemmas queue_defs [asic_defs] =
  BoundedQueue_try_enqueue_def BoundedQueue_pop_front_def BoundedQueue_try_dequeue_def
  BoundedQueue_wait_dequeue_def BoundedQueue_wait_ready_def BoundedQueue_close_def

definition BoundedQueue_inv :: "'v BoundedQueue \<Rightarrow> bool" where
  "BoundedQueue_inv q \<longleftrightarrow> queue_capacity q > 0 \<and> length (queue_items q) \<le> queue_capacity q"

section \<open>The contract of a bounded FIFO\<close>

text \<open>
  Values leave in the order in which they entered, and the number held is bounded. The client
  lemma follows a run of puts and takes.
\<close>

datatype 'v QueueEvent = Put 'v | Take

locale bounded_fifo =
  fixes contents :: "'s \<Rightarrow> 'v list" and bound :: "'s \<Rightarrow> nat"
    and put :: "'v \<Rightarrow> 's \<Rightarrow> bool \<times> 's" and take_one :: "'s \<Rightarrow> 'v option \<times> 's"
    and inv :: "'s \<Rightarrow> bool"
  assumes contents_bound: "inv s \<Longrightarrow> length (contents s) \<le> bound s"
    and put_accepted: "put v s = (True, s') \<Longrightarrow> contents s' = contents s @ [v]"
    and put_refused: "put v s = (False, s') \<Longrightarrow> s' = s"
    and take_some: "take_one s = (Some v, s') \<Longrightarrow> contents s = v # contents s'"
    and take_none: "take_one s = (None, s') \<Longrightarrow> s' = s \<and> contents s = []"
    and inv_put: "inv s \<Longrightarrow> inv (snd (put v s))"
    and inv_take: "inv s \<Longrightarrow> inv (snd (take_one s))"
    and bound_put: "bound (snd (put v s)) = bound s"
    and bound_take: "bound (snd (take_one s)) = bound s"
begin

text \<open>The values accepted, the values taken and the final state of a run.\<close>

fun trace :: "'s \<Rightarrow> 'v QueueEvent list \<Rightarrow> 'v list \<times> 'v list \<times> 's" where
  "trace s [] = ([], [], s)"
| "trace s (Put v # es) =
     (let (accepted, s') = put v s; (ins, outs, final) = trace s' es
      in (if accepted then v # ins else ins, outs, final))"
| "trace s (Take # es) =
     (let (taken, s') = take_one s; (ins, outs, final) = trace s' es
      in (ins, (case taken of Some v \<Rightarrow> v # outs | None \<Rightarrow> outs), final))"

lemma fifo:
  "trace s es = (ins, outs, final) \<Longrightarrow> contents s @ ins = outs @ contents final"
proof (induction s es arbitrary: ins outs final rule: trace.induct)
  case (2 s v es)
  obtain accepted s' where p: "put v s = (accepted, s')" by (cases "put v s")
  obtain ins' outs' final' where t: "trace s' es = (ins', outs', final')" by (cases "trace s' es")
  have "contents s' @ ins' = outs' @ contents final'" using "2.IH" p t by auto
  then show ?case using "2.prems" p t put_accepted [of v s s'] put_refused [of v s s'] by (cases accepted) auto
next
  case (3 s es)
  obtain taken s' where p: "take_one s = (taken, s')" by (cases "take_one s")
  obtain ins' outs' final' where t: "trace s' es = (ins', outs', final')" by (cases "trace s' es")
  have "contents s' @ ins' = outs' @ contents final'" using "3.IH" p t by auto
  then show ?case using "3.prems" p t take_some [of s _ s'] take_none [of s s'] by (cases taken) auto
qed auto

lemma trace_inv: "inv s \<Longrightarrow> trace s es = (ins, outs, final) \<Longrightarrow> inv final \<and> bound final = bound s"
proof (induction s es arbitrary: ins outs final rule: trace.induct)
  case (2 s v es)
  obtain accepted s' where p: "put v s = (accepted, s')" by (cases "put v s")
  obtain ins' outs' final' where t: "trace s' es = (ins', outs', final')" by (cases "trace s' es")
  show ?case using "2.IH" [OF p [symmetric]] "2.prems" p t inv_put [of s v] bound_put [of v s] by auto
next
  case (3 s es)
  obtain taken s' where p: "take_one s = (taken, s')" by (cases "take_one s")
  obtain ins' outs' final' where t: "trace s' es = (ins', outs', final')" by (cases "trace s' es")
  show ?case using "3.IH" [OF p [symmetric]] "3.prems" p t inv_take [of s] bound_take [of s] by auto
qed auto

lemma accepted_bounded:
  assumes "inv s" and "trace s es = (ins, outs, final)" and "contents s = []"
  shows "length ins \<le> length outs + bound s"
  using fifo [OF assms(2)] trace_inv [OF assms(1,2)] contents_bound [of final] assms(3)
  by (metis add_left_mono append_Nil length_append)

end

definition queue_put :: "'v \<Rightarrow> 'v BoundedQueue \<Rightarrow> bool \<times> 'v BoundedQueue" where
  "queue_put v q = (fst (BoundedQueue_try_enqueue v q) = enqueued, snd (BoundedQueue_try_enqueue v q))"

lemma BoundedQueue_create_inv: "BoundedQueue_create n = Some q \<Longrightarrow> BoundedQueue_inv q"
  by (auto simp: BoundedQueue_create_def BoundedQueue_inv_def split: if_splits)

interpretation bounded_queue: bounded_fifo queue_items queue_capacity queue_put BoundedQueue_try_dequeue BoundedQueue_inv
  by unfold_locales
    (auto simp: queue_put_def queue_defs BoundedQueue_inv_def split: if_splits list.splits)

section \<open>Concurrent executions\<close>

text \<open>
  One operation of one thread. The history records the values accepted so far and the values
  handed out so far, in the order in which the mutex was taken.
\<close>

record 'v QueueHistory =
  accepted_values :: "'v list"
  handed_out :: "'v list"

type_synonym 'v queue_state = "'v BoundedQueue \<times> 'v QueueHistory"

inductive queue_step :: "'v queue_state \<Rightarrow> 'v queue_state \<Rightarrow> bool" where
  enqueue: "BoundedQueue_try_enqueue v q = (result, q') \<Longrightarrow>
    h' = (if result = enqueued then h\<lparr>accepted_values := accepted_values h @ [v]\<rparr> else h) \<Longrightarrow>
    queue_step (q, h) (q', h')"
| dequeue: "BoundedQueue_try_dequeue q = (result, q') \<Longrightarrow>
    h' = h\<lparr>handed_out := handed_out h @ (case result of Some v \<Rightarrow> [v] | None \<Rightarrow> [])\<rparr> \<Longrightarrow>
    queue_step (q, h) (q', h')"
| wait: "BoundedQueue_wait_dequeue q = Some (result, q') \<Longrightarrow>
    h' = h\<lparr>handed_out := handed_out h @ (case result of Some v \<Rightarrow> [v] | None \<Rightarrow> [])\<rparr> \<Longrightarrow>
    queue_step (q, h) (q', h')"
| close: "BoundedQueue_close q = (result, q') \<Longrightarrow> queue_step (q, h) (q', h)"

inductive_cases queue_stepE: "queue_step s s'"

inductive queue_reachable :: "nat \<Rightarrow> 'v queue_state \<Rightarrow> bool" for capacity where
  start: "BoundedQueue_create capacity = Some q \<Longrightarrow>
    queue_reachable capacity (q, \<lparr>accepted_values = [], handed_out = []\<rparr>)"
| step: "queue_reachable capacity s \<Longrightarrow> queue_step s s' \<Longrightarrow> queue_reachable capacity s'"

definition queue_state_inv :: "nat \<Rightarrow> 'v queue_state \<Rightarrow> bool" where
  "queue_state_inv capacity s \<longleftrightarrow>
     queue_capacity (fst s) = capacity \<and> BoundedQueue_inv (fst s) \<and>
     accepted_values (snd s) = handed_out (snd s) @ queue_items (fst s)"

lemma queue_step_inv: "queue_step s s' \<Longrightarrow> queue_state_inv capacity s \<Longrightarrow> queue_state_inv capacity s'"
  by (erule queue_step.cases)
    (auto simp: queue_state_inv_def queue_defs BoundedQueue_inv_def split: if_splits list.splits)

lemma queue_reachable_inv: "queue_reachable capacity s \<Longrightarrow> queue_state_inv capacity s"
proof (induction rule: queue_reachable.induct)
  case (start q)
  then show ?case
    by (auto simp: queue_state_inv_def BoundedQueue_create_def BoundedQueue_inv_def split: if_splits)
qed (rule queue_step_inv)

lemma queue_step_closed:
  "queue_step s s' \<Longrightarrow> queue_closed (fst s) \<Longrightarrow>
   queue_closed (fst s') \<and> accepted_values (snd s') = accepted_values (snd s)"
  by (erule queue_step.cases) (auto simp: queue_defs split: if_splits list.splits)

section \<open>Properties\<close>

text \<open>
  Property C35: in every concurrent execution the queue is first in, first out, loses nothing
  and invents nothing: the values accepted so far are the values handed out so far followed by
  the values still held, and the queue never holds more than its capacity.
\<close>

theorem bounded_queue_fifo:
  assumes "queue_reachable capacity (q, h)"
  shows "accepted_values h = handed_out h @ queue_items q \<and> length (queue_items q) \<le> capacity"
  using queue_reachable_inv [OF assms] by (auto simp: queue_state_inv_def BoundedQueue_inv_def)

theorem bounded_queue_fifo_witness:
  "accepted_values \<lparr>accepted_values = [7 :: nat], handed_out = []\<rparr> =
     handed_out \<lparr>accepted_values = [7 :: nat], handed_out = []\<rparr> @
     queue_items \<lparr>queue_capacity = 1, queue_items = [7], queue_closed = False\<rparr> \<and>
   length (queue_items \<lparr>queue_capacity = 1, queue_items = [7 :: nat], queue_closed = False\<rparr>) \<le> 1"
proof (rule bounded_queue_fifo)
  let ?q = "\<lparr>queue_capacity = 1, queue_items = [], queue_closed = False\<rparr> :: nat BoundedQueue"
  have "queue_reachable 1 (?q, \<lparr>accepted_values = [], handed_out = []\<rparr>)"
    by (rule queue_reachable.start) (simp add: BoundedQueue_create_def)
  then show "queue_reachable 1 (\<lparr>queue_capacity = 1, queue_items = [7 :: nat], queue_closed = False\<rparr>,
      \<lparr>accepted_values = [7], handed_out = []\<rparr>)"
    by (rule queue_reachable.step)
      (rule queue_step.enqueue [of 7 _ enqueued], simp_all add: BoundedQueue_try_enqueue_def)
qed

text \<open>
  Closing the queue lets the consumers finish. Once it is closed, no further value
  is accepted, a waiting consumer is never blocked, and it gets a value as long as one is left.
\<close>

lemma bounded_queue_close_drains:
  assumes "queue_closed (fst s)" and "queue_step s s'"
  shows "queue_closed (fst s') \<and> accepted_values (snd s') = accepted_values (snd s) \<and>
    (\<exists>result q'. BoundedQueue_wait_dequeue (fst s') = Some (result, q') \<and>
       (result = None \<longleftrightarrow> queue_items (fst s') = []))"
  using queue_step_closed [OF assms(2,1)]
  by (auto simp: queue_defs split: list.split)

lemma bounded_queue_close_drains_witness:
  "\<exists>result q'. BoundedQueue_wait_dequeue \<lparr>queue_capacity = 2, queue_items = [7 :: nat], queue_closed = True\<rparr> =
     Some (result, q') \<and> (result = None \<longleftrightarrow> queue_items \<lparr>queue_capacity = 2, queue_items = [7 :: nat], queue_closed = True\<rparr> = [])"
proof -
  let ?h = "\<lparr>accepted_values = [6, 7], handed_out = []\<rparr> :: nat QueueHistory"
  have "queue_step (\<lparr>queue_capacity = 2, queue_items = [6, 7], queue_closed = True\<rparr>, ?h)
      (\<lparr>queue_capacity = 2, queue_items = [7], queue_closed = True\<rparr>, ?h\<lparr>handed_out := handed_out ?h @ [6]\<rparr>)"
    by (rule queue_step.dequeue [of _ "Some 6"]) (simp_all add: queue_defs)
  from bounded_queue_close_drains [OF _ this] show ?thesis by simp
qed

end
