(* ===== verification/Fault_Injector.thy ===== *)
theory Fault_Injector
  imports Identifiers Std_Containers
begin

unbundle bit_operations_syntax

text \<open>
  \<^verbatim>\<open>asic/traffic_statistics.cpp\<close> and \<^verbatim>\<open>asic/fault_injector.cpp\<close>: the counters of the switch and
  the deterministic fault injection. The counter array is a function from the counters to their
  64-bit values; the atomics are used with relaxed increments and loads only.
\<close>

section \<open>Traffic statistics\<close>

datatype TrafficCounter =
  ingress_packets | ingress_bytes | egress_packets | egress_bytes | parse_errors | route_misses
| ttl_expirations | vlan_drops | neighbor_misses | filtered_frames | queue_drops | fault_drops
| corrupted_packets | resource_exhaustion_count

type_synonym TrafficStatistics = "TrafficCounter \<Rightarrow> u64"

definition TrafficStatistics_zero :: TrafficStatistics where
  "TrafficStatistics_zero = (\<lambda>_. 0)"

definition TrafficStatistics_increment :: "TrafficCounter \<Rightarrow> u64 \<Rightarrow> TrafficStatistics \<Rightarrow> TrafficStatistics" where
  "TrafficStatistics_increment counter amount s = s(counter := s counter + amount)"

definition TrafficStatistics_snapshot :: "TrafficStatistics \<Rightarrow> TrafficStatistics" where
  "TrafficStatistics_snapshot s = (\<lambda>counter. s counter)"

definition TrafficStatistics_reset :: "TrafficStatistics \<Rightarrow> TrafficStatistics" where
  "TrafficStatistics_reset s = (\<lambda>_. 0)"

section \<open>Fault injection\<close>

record FaultInjectionConfig =
  failed_ports :: "PortId std_set"
  drop_every_nth_packet :: u64
  corrupt_every_nth_packet :: u64
  fault_latency :: Duration
  resource_exhausted :: bool

datatype FaultDropReason = failed_port | deterministic_packet_loss | resource_exhaustion

record FaultInjectedPacket =
  injected_bytes :: bytes
  injected_latency :: Duration
  injected_corrupted :: bool

datatype FaultInjectionResult = Injected FaultInjectedPacket | FaultDropped FaultDropReason

record FaultInjector =
  fault_config :: FaultInjectionConfig
  processed_packets :: u64

definition no_faults :: FaultInjectionConfig where
  "no_faults = \<lparr>failed_ports = [], drop_every_nth_packet = 0, corrupt_every_nth_packet = 0,
     fault_latency = 0, resource_exhausted = False\<rparr>"

text \<open>\<open>validate\<close> throws for a negative latency.\<close>

definition validate :: "FaultInjectionConfig \<Rightarrow> bool" where
  "validate config \<longleftrightarrow> \<not> fault_latency config < 0"

definition FaultInjector_create :: "FaultInjectionConfig \<Rightarrow> FaultInjector option" where
  "FaultInjector_create config =
     (if validate config then Some \<lparr>fault_config = config, processed_packets = 0\<rparr> else None)"

definition FaultInjector_process :: "PortId \<Rightarrow> bytes \<Rightarrow> FaultInjector \<Rightarrow> FaultInjectionResult \<times> FaultInjector" where
  "FaultInjector_process port packet f =
     (let f = f\<lparr>processed_packets := processed_packets f + 1\<rparr>;
          config = fault_config f
      in if set_contains (failed_ports config) port then (FaultDropped failed_port, f)
         else if resource_exhausted config then (FaultDropped resource_exhaustion, f)
         else if drop_every_nth_packet config \<noteq> 0 \<and>
                 processed_packets f mod drop_every_nth_packet config = 0
           then (FaultDropped deterministic_packet_loss, f)
         else
           let corrupted = (packet \<noteq> [] \<and> corrupt_every_nth_packet config \<noteq> 0 \<and>
                 processed_packets f mod corrupt_every_nth_packet config = 0);
               packet = (if corrupted then packet[0 := packet ! 0 XOR 0x01] else packet)
           in (Injected \<lparr>injected_bytes = packet, injected_latency = fault_latency config,
                 injected_corrupted = corrupted\<rparr>, f))"

text \<open>A configuration that \<open>validate\<close> throws for leaves the injector unchanged.\<close>

definition FaultInjector_set_config :: "FaultInjectionConfig \<Rightarrow> FaultInjector \<Rightarrow> FaultInjector option" where
  "FaultInjector_set_config config f = (if validate config then Some (f\<lparr>fault_config := config\<rparr>) else None)"

definition FaultInjector_reset_sequence :: "FaultInjector \<Rightarrow> FaultInjector" where
  "FaultInjector_reset_sequence f = f\<lparr>processed_packets := 0\<rparr>"

section \<open>Behaviour\<close>

lemma process_config [simp]: "fault_config (snd (FaultInjector_process port packet f)) = fault_config f"
  by (simp add: FaultInjector_process_def Let_def)

lemma process_count [simp]:
  "processed_packets (snd (FaultInjector_process port packet f)) = processed_packets f + 1"
  by (simp add: FaultInjector_process_def Let_def)

lemma process_length:
  "FaultInjector_process port packet f = (Injected p, f') \<Longrightarrow> length (injected_bytes p) = length packet"
  by (auto simp: FaultInjector_process_def Let_def split: if_splits)

text \<open>The only corruption there is: the lowest bit of the first byte flips.\<close>

definition corruption_of :: "bytes \<Rightarrow> bytes \<Rightarrow> bool" where
  "corruption_of packet bs \<longleftrightarrow> bs = packet \<or> bs = packet[0 := packet ! 0 XOR 1]"

lemma corruption_of_refl [simp]: "corruption_of packet packet"
  by (simp add: corruption_of_def)

lemma corruption_of_trans: "corruption_of packet bs \<Longrightarrow> corruption_of bs bs' \<Longrightarrow> corruption_of packet bs'"
  by (cases packet) (auto simp: corruption_of_def xor.assoc)

lemma process_corruption:
  "FaultInjector_process port packet f = (Injected p, f') \<Longrightarrow> corruption_of packet (injected_bytes p)"
  by (auto simp: FaultInjector_process_def corruption_of_def Let_def split: if_splits)

lemma process_latency:
  "FaultInjector_process port packet f = (Injected p, f') \<Longrightarrow> injected_latency p = fault_latency (fault_config f)"
  by (auto simp: FaultInjector_process_def Let_def split: if_splits)

lemma process_uncorrupted:
  "FaultInjector_process port packet f = (Injected p, f') \<Longrightarrow> \<not> injected_corrupted p \<Longrightarrow> injected_bytes p = packet"
  by (auto simp: FaultInjector_process_def Let_def split: if_splits)

text \<open>Without configured faults the injector passes packets through.\<close>

definition fault_free :: "FaultInjectionConfig \<Rightarrow> bool" where
  "fault_free c \<longleftrightarrow> failed_ports c = [] \<and> \<not> resource_exhausted c \<and>
     drop_every_nth_packet c = 0 \<and> corrupt_every_nth_packet c = 0"

lemma process_fault_free:
  "fault_free (fault_config f) \<Longrightarrow> FaultInjector_process port packet f =
     (Injected \<lparr>injected_bytes = packet, injected_latency = fault_latency (fault_config f),
        injected_corrupted = False\<rparr>, f\<lparr>processed_packets := processed_packets f + 1\<rparr>)"
  by (simp add: FaultInjector_process_def Let_def fault_free_def set_contains_def)

text \<open>The results of a stream of packets.\<close>

fun process_stream :: "FaultInjector \<Rightarrow> (PortId \<times> bytes) list \<Rightarrow> FaultInjectionResult list" where
  "process_stream f [] = []"
| "process_stream f ((port, packet) # rest) =
     (let (result, f') = FaultInjector_process port packet f in result # process_stream f' rest)"

lemma process_state:
  "snd (FaultInjector_process port packet f) = f\<lparr>processed_packets := processed_packets f + 1\<rparr>"
  by (simp add: FaultInjector_process_def Let_def)

lemma nth_process_stream:
  "i < length ps \<Longrightarrow>
   process_stream f ps ! i =
     fst (FaultInjector_process (fst (ps ! i)) (snd (ps ! i)) (f\<lparr>processed_packets := processed_packets f + of_nat i\<rparr>))"
proof (induction f ps arbitrary: i rule: process_stream.induct)
  case (2 f port packet rest)
  show ?case
  proof (cases i)
    case (Suc j)
    then have "process_stream f ((port, packet) # rest) ! i =
        process_stream (f\<lparr>processed_packets := processed_packets f + 1\<rparr>) rest ! j"
      by (simp add: case_prod_beta process_state)
    also have "\<dots> = fst (FaultInjector_process (fst (rest ! j)) (snd (rest ! j))
        (f\<lparr>processed_packets := processed_packets f + 1 + of_nat j\<rparr>))"
      using 2 Suc process_state [of port packet f] by (cases "FaultInjector_process port packet f") auto
    finally show ?thesis using Suc by (simp add: add.assoc)
  qed (simp add: case_prod_beta)
qed simp

section \<open>Properties\<close>

text \<open>
  Fault injection is deterministic and periodic. With a loss period and no other
  fault, the packets of a stream that are lost are exactly those whose position, counted from
  one, is a multiple of the period, as long as the 64-bit sequence number has not wrapped.
\<close>

lemma fault_injection_periodic:
  assumes "FaultInjector_create config = Some f" and "failed_ports config = []" and "\<not> resource_exhausted config"
    and "drop_every_nth_packet config = n" and "n \<noteq> 0" and "i < length stream" and "Suc i < 2 ^ 64"
  shows "process_stream f stream ! i = FaultDropped deterministic_packet_loss \<longleftrightarrow> unat n dvd Suc i"
proof -
  have f: "f = \<lparr>fault_config = config, processed_packets = 0\<rparr>"
    using assms(1) by (simp add: FaultInjector_create_def split: if_splits)
  have "process_stream f stream ! i = FaultDropped deterministic_packet_loss \<longleftrightarrow> (of_nat (Suc i) :: u64) mod n = 0"
    using assms(2-6) by (simp add: nth_process_stream f FaultInjector_process_def Let_def set_contains_def add.commute)
  also have "\<dots> \<longleftrightarrow> unat (of_nat (Suc i) :: u64) mod unat n = 0"
    by (simp only: word_unat_eq_iff unat_mod_distrib unsigned_0)
  also have "unat (of_nat (Suc i) :: u64) = Suc i"
    using assms(7) by (simp only: unat_of_nat) (simp add: take_bit_nat_eq_self)
  finally show ?thesis by (simp add: mod_eq_0_iff_dvd)
qed

lemma fault_injection_periodic_witness:
  "process_stream \<lparr>fault_config = no_faults\<lparr>drop_every_nth_packet := 2\<rparr>, processed_packets = 0\<rparr>
     [(PortId 1, [1]), (PortId 1, [2])] ! 1 = FaultDropped deterministic_packet_loss"
  using fault_injection_periodic [of "no_faults\<lparr>drop_every_nth_packet := 2\<rparr>"
      "\<lparr>fault_config = no_faults\<lparr>drop_every_nth_packet := 2\<rparr>, processed_packets = 0\<rparr>" 2 1
      "[(PortId 1, [1]), (PortId 1, [2])]"]
  by (simp add: FaultInjector_create_def validate_def no_faults_def)

end
