(* ===== verification/Software_Asic.thy ===== *)
theory Software_Asic
  imports Arp_Packet Ipv4_Forwarding L2_L3_Pipeline Virtual_Port Bounded_Queue Fault_Injector
begin

text \<open>
  \<^verbatim>\<open>asic/software_asic.cpp\<close> behind the interface of \<^verbatim>\<open>asic/switch_asic.hpp\<close>: the software
  switch that owns the ports, their queues, the VLANs, the router interfaces and the tables, and
  processes packets from parsing to the egress queues. Every member function is a function from
  the state to its answer and the state after it. The stages of \<open>process_packet\<close> are separate
  definitions; each returns where the source returns.
\<close>

section \<open>The interface\<close>

datatype AsicStatus =
  success | already_exists | not_found | invalid_argument | dependency_missing | asic_resource_exhausted

datatype PacketDisposition = switched | flooded | routed | delivered_to_control_plane | dropped

datatype PacketDropReason =
  drop_none | drop_ingress_port_unavailable | drop_malformed_frame | drop_vlan_rejected
| drop_forwarding_filtered | drop_malformed_ipv4 | drop_route_miss | drop_ttl_expired
| drop_neighbor_miss | drop_egress_port_unavailable | drop_queue_congestion | drop_injected_fault
| drop_resource_exhaustion

record PacketProcessingResult =
  disposition :: PacketDisposition
  drop_reason :: PacketDropReason
  output_ports :: "PortId list"
  result_latency :: Duration

definition dropped_result :: "PacketDropReason \<Rightarrow> Duration \<Rightarrow> PacketProcessingResult" where
  "dropped_result reason latency =
     \<lparr>disposition = dropped, drop_reason = reason, output_ports = [], result_latency = latency\<rparr>"

section \<open>The switch\<close>

record SoftwareAsic =
  asic_ports :: "(PortId, VirtualPort) std_map"
  asic_queues :: "(PortId, bytes BoundedQueue) std_map"
  asic_vlans :: "VlanId std_set"
  asic_vlan_members :: "(VlanId, PortId list) std_map"
  asic_router_interfaces :: RouterInterfaces
  asic_mac_table :: MacTable
  asic_route_table :: Ipv4RouteTable
  asic_arp_cache :: ArpCache
  asic_fault_injector :: FaultInjector
  asic_statistics :: TrafficStatistics

text \<open>Three hundred seconds in nanoseconds, the default of the MAC table and of the ARP cache.\<close>

definition default_entry_lifetime :: Duration where
  "default_entry_lifetime = 300000000000"

definition SoftwareAsic_create :: "nat \<Rightarrow> SoftwareAsic option" where
  "SoftwareAsic_create capacity =
     (case (MacTable_create capacity default_entry_lifetime, ArpCache_create default_entry_lifetime,
            FaultInjector_create no_faults) of
        (Some mac_table, Some arp_cache, Some fault_injector) \<Rightarrow>
          Some \<lparr>asic_ports = [], asic_queues = [], asic_vlans = [], asic_vlan_members = [],
            asic_router_interfaces = [], asic_mac_table = mac_table, asic_route_table = [],
            asic_arp_cache = arp_cache, asic_fault_injector = fault_injector,
            asic_statistics = TrafficStatistics_zero\<rparr>
      | _ \<Rightarrow> None)"

section \<open>Configuration\<close>

definition SoftwareAsic_create_port :: "VirtualPort \<Rightarrow> nat \<Rightarrow> SoftwareAsic \<Rightarrow> AsicStatus \<times> SoftwareAsic" where
  "SoftwareAsic_create_port port capacity a =
     (if capacity = 0 then (invalid_argument, a)
      else if map_find (asic_ports a) (port_id port) \<noteq> None then (already_exists, a)
      else
        let queue = \<lparr>queue_capacity = capacity, queue_items = [], queue_closed = False\<rparr> in
        (success, a\<lparr>asic_queues := snd (map_emplace (port_id port) queue (asic_queues a)),
           asic_ports := snd (map_emplace (port_id port) port (asic_ports a))\<rparr>))"

text \<open>The queue is closed and then destroyed with its packets.\<close>

definition SoftwareAsic_remove_port :: "PortId \<Rightarrow> SoftwareAsic \<Rightarrow> AsicStatus \<times> SoftwareAsic" where
  "SoftwareAsic_remove_port port a =
     (if map_find (asic_ports a) port = None then (not_found, a)
      else (success, a\<lparr>
        asic_vlan_members := map (\<lambda>(vlan, members). (vlan, filter (\<lambda>p. p \<noteq> port) members)) (asic_vlan_members a),
        asic_queues := snd (map_erase port (asic_queues a)),
        asic_ports := snd (map_erase port (asic_ports a))\<rparr>))"

definition SoftwareAsic_set_port_state :: "PortId \<Rightarrow> bool \<Rightarrow> bool \<Rightarrow> SoftwareAsic \<Rightarrow> AsicStatus \<times> SoftwareAsic" where
  "SoftwareAsic_set_port_state port admin link a =
     (case map_find (asic_ports a) port of
        None \<Rightarrow> (not_found, a)
      | Some existing \<Rightarrow>
          (success, a\<lparr>asic_ports := map_assign port
             (VirtualPort_set_link_up link (VirtualPort_set_admin_enabled admin existing)) (asic_ports a)\<rparr>))"

definition SoftwareAsic_create_vlan :: "VlanId \<Rightarrow> SoftwareAsic \<Rightarrow> AsicStatus \<times> SoftwareAsic" where
  "SoftwareAsic_create_vlan vlan a =
     (let (inserted, vlans) = set_insert vlan (asic_vlans a)
      in (if inserted then success else already_exists, a\<lparr>asic_vlans := vlans\<rparr>))"

text \<open>\<^verbatim>\<open>vlan_members_[vlan]\<close> inserts an empty member list when there is none.\<close>

definition members_subscript :: "VlanId \<Rightarrow> SoftwareAsic \<Rightarrow> PortId list \<times> SoftwareAsic" where
  "members_subscript vlan a =
     (let members = snd (map_emplace vlan [] (asic_vlan_members a))
      in (the (map_find members vlan), a\<lparr>asic_vlan_members := members\<rparr>))"

definition SoftwareAsic_remove_vlan :: "VlanId \<Rightarrow> SoftwareAsic \<Rightarrow> AsicStatus \<times> SoftwareAsic" where
  "SoftwareAsic_remove_vlan vlan a =
     (if \<not> set_contains (asic_vlans a) vlan then (not_found, a)
      else
        let (members, a) = members_subscript vlan a in
        if members \<noteq> [] \<or> map_find (asic_router_interfaces a) vlan \<noteq> None then (dependency_missing, a)
        else (success, a\<lparr>asic_vlan_members := snd (map_erase vlan (asic_vlan_members a)),
          asic_vlans := snd (set_erase vlan (asic_vlans a))\<rparr>))"

definition SoftwareAsic_add_vlan_member :: "VlanId \<Rightarrow> PortId \<Rightarrow> SoftwareAsic \<Rightarrow> AsicStatus \<times> SoftwareAsic" where
  "SoftwareAsic_add_vlan_member vlan port a =
     (if \<not> set_contains (asic_vlans a) vlan \<or> map_find (asic_ports a) port = None then (dependency_missing, a)
      else
        let (members, a) = members_subscript vlan a in
        if port \<in> set members then (already_exists, a)
        else if \<not> VlanPortConfig_allows (port_vlan_config (the (map_find (asic_ports a) port))) vlan
          then (invalid_argument, a)
        else (success, a\<lparr>asic_vlan_members := map_assign vlan (members @ [port]) (asic_vlan_members a)\<rparr>))"

definition SoftwareAsic_set_router_interface :: "VlanId \<Rightarrow> MacAddress \<Rightarrow> SoftwareAsic \<Rightarrow> AsicStatus \<times> SoftwareAsic" where
  "SoftwareAsic_set_router_interface vlan mac a =
     (if \<not> set_contains (asic_vlans a) vlan then (dependency_missing, a)
      else if \<not> is_valid_unicast mac then (invalid_argument, a)
      else (success, a\<lparr>asic_router_interfaces := map_assign vlan mac (asic_router_interfaces a)\<rparr>))"

definition SoftwareAsic_add_or_replace_route :: "RouteEntry \<Rightarrow> SoftwareAsic \<Rightarrow> AsicStatus \<times> SoftwareAsic" where
  "SoftwareAsic_add_or_replace_route route a =
     (if map_find (asic_ports a) (route_output_port route) = None then (dependency_missing, a)
      else (success, a\<lparr>asic_route_table := snd (Ipv4RouteTable_add_or_replace route (asic_route_table a))\<rparr>))"

definition SoftwareAsic_remove_route :: "Ipv4Prefix \<Rightarrow> SoftwareAsic \<Rightarrow> AsicStatus \<times> SoftwareAsic" where
  "SoftwareAsic_remove_route pfx a =
     (let (removed, table) = Ipv4RouteTable_remove pfx (asic_route_table a)
      in (if removed then success else not_found, a\<lparr>asic_route_table := table\<rparr>))"

definition SoftwareAsic_add_or_replace_neighbor ::
  "Ipv4Address \<Rightarrow> MacAddress \<Rightarrow> TimePoint \<Rightarrow> SoftwareAsic \<Rightarrow> AsicStatus \<times> SoftwareAsic" where
  "SoftwareAsic_add_or_replace_neighbor address mac learned_at a =
     (let (update, cache) = ArpCache_add_or_replace address mac learned_at (asic_arp_cache a)
      in (if update = arp_rejected then invalid_argument else success, a\<lparr>asic_arp_cache := cache\<rparr>))"

definition SoftwareAsic_remove_neighbor :: "Ipv4Address \<Rightarrow> SoftwareAsic \<Rightarrow> AsicStatus \<times> SoftwareAsic" where
  "SoftwareAsic_remove_neighbor address a =
     (let (removed, cache) = ArpCache_remove address (asic_arp_cache a)
      in (if removed then success else not_found, a\<lparr>asic_arp_cache := cache\<rparr>))"

definition SoftwareAsic_configure_faults :: "FaultInjectionConfig \<Rightarrow> SoftwareAsic \<Rightarrow> AsicStatus \<times> SoftwareAsic" where
  "SoftwareAsic_configure_faults config a =
     (case FaultInjector_set_config config (asic_fault_injector a) of
        None \<Rightarrow> (invalid_argument, a)
      | Some injector \<Rightarrow> (success, a\<lparr>asic_fault_injector := injector\<rparr>))"

definition SoftwareAsic_has_port :: "SoftwareAsic \<Rightarrow> PortId \<Rightarrow> bool" where
  "SoftwareAsic_has_port a port \<longleftrightarrow> map_find (asic_ports a) port \<noteq> None"

definition SoftwareAsic_has_vlan :: "SoftwareAsic \<Rightarrow> VlanId \<Rightarrow> bool" where
  "SoftwareAsic_has_vlan a vlan \<longleftrightarrow> set_contains (asic_vlans a) vlan"

definition SoftwareAsic_find_route :: "SoftwareAsic \<Rightarrow> Ipv4Prefix \<Rightarrow> RouteEntry option" where
  "SoftwareAsic_find_route a pfx = Ipv4RouteTable_find_exact (asic_route_table a) pfx"

definition SoftwareAsic_find_neighbor :: "SoftwareAsic \<Rightarrow> Ipv4Address \<Rightarrow> TimePoint \<Rightarrow> MacAddress option" where
  "SoftwareAsic_find_neighbor a address now = ArpCache_lookup (asic_arp_cache a) address now"

section \<open>Packet processing\<close>

definition count :: "TrafficCounter \<Rightarrow> u64 \<Rightarrow> SoftwareAsic \<Rightarrow> SoftwareAsic" where
  "count counter amount a = a\<lparr>asic_statistics := TrafficStatistics_increment counter amount (asic_statistics a)\<rparr>"

definition SoftwareAsic_count_pipeline_drop :: "PipelineDropReason \<Rightarrow> SoftwareAsic \<Rightarrow> SoftwareAsic" where
  "SoftwareAsic_count_pipeline_drop reason a =
     (if reason \<in> {drop_tagged_frame_on_access_port, drop_untagged_frame_without_native_vlan, drop_vlan_not_allowed}
      then count vlan_drops 1 a else count filtered_frames 1 a)"

definition count_fault_drop :: "FaultDropReason \<Rightarrow> SoftwareAsic \<Rightarrow> SoftwareAsic" where
  "count_fault_drop reason a =
     count (if reason = resource_exhaustion then resource_exhaustion_count else fault_drops) 1 a"

text \<open>One round of the loop of \<open>enqueue_outputs\<close>; \<^verbatim>\<open>continue\<close> ends the round.\<close>

definition enqueue_one ::
  "bytes \<Rightarrow> SoftwareAsic \<times> PortId list \<times> Duration \<Rightarrow> PortId \<Rightarrow> SoftwareAsic \<times> PortId list \<times> Duration" where
  "enqueue_one frame = (\<lambda>(a, outputs, latency) out_id.
     case (map_find (asic_ports a) out_id, map_find (asic_queues a) out_id) of
       (Some port, Some queue) \<Rightarrow>
         if \<not> VirtualPort_operational port then (a, outputs, latency)
         else
           let (fault, injector) = FaultInjector_process out_id frame (asic_fault_injector a);
               a = a\<lparr>asic_fault_injector := injector\<rparr>
           in case fault of
                FaultDropped reason \<Rightarrow> (count_fault_drop reason a, outputs, latency)
              | Injected packet \<Rightarrow>
                  let latency = max latency (injected_latency packet);
                      a = (if injected_corrupted packet then count corrupted_packets 1 a else a);
                      size = length (injected_bytes packet);
                      transmitted = a\<lparr>asic_ports := map_assign out_id (snd (VirtualPort_transmit size port)) (asic_ports a)\<rparr>
                  in if size > port_mtu port then (transmitted, outputs, latency)
                     else
                       let (result, queue') = BoundedQueue_try_enqueue (injected_bytes packet) queue in
                       if result \<noteq> enqueued then (count queue_drops 1 a, outputs, latency)
                       else
                         let a = transmitted\<lparr>asic_queues := map_assign out_id queue' (asic_queues a)\<rparr>;
                             a = count egress_packets 1 a;
                             a = count egress_bytes (of_nat size) a
                         in (a, outputs @ [out_id], latency)
     | _ \<Rightarrow> (a, outputs, latency))"

definition SoftwareAsic_enqueue_outputs ::
  "PacketDisposition \<Rightarrow> PortId list \<Rightarrow> bytes \<Rightarrow> Duration \<Rightarrow> SoftwareAsic \<Rightarrow> PacketProcessingResult \<times> SoftwareAsic" where
  "SoftwareAsic_enqueue_outputs disp requested frame latency a =
     (let (a, outputs, latency) = foldl (enqueue_one frame) (a, [], latency) requested
      in if outputs = [] then (dropped_result drop_queue_congestion latency, a)
         else (\<lparr>disposition = disp, drop_reason = drop_none, output_ports = outputs, result_latency = latency\<rparr>, a))"

text \<open>Frames for the router's control plane: an ARP packet teaches the neighbour cache.\<close>

definition process_control_plane :: "EthernetFrame \<Rightarrow> Duration \<Rightarrow> TimePoint \<Rightarrow> SoftwareAsic \<Rightarrow> PacketProcessingResult \<times> SoftwareAsic" where
  "process_control_plane frame latency now a =
     (case ArpPacket_parse (payload frame) of
        None \<Rightarrow> (dropped_result drop_malformed_frame latency, count parse_errors 1 a)
      | Some arp \<Rightarrow>
          (\<lparr>disposition = delivered_to_control_plane, drop_reason = drop_none, output_ports = [],
             result_latency = latency\<rparr>,
           a\<lparr>asic_arp_cache := snd (ArpCache_add_or_replace (sender_ip arp) (sender_mac arp) now (asic_arp_cache a))\<rparr>))"

definition process_route :: "EthernetFrame \<Rightarrow> Duration \<Rightarrow> TimePoint \<Rightarrow> SoftwareAsic \<Rightarrow> PacketProcessingResult \<times> SoftwareAsic" where
  "process_route frame latency now a =
     (case Ipv4Packet_parse (payload frame) of
        None \<Rightarrow> (dropped_result drop_malformed_ipv4 latency, count parse_errors 1 a)
      | Some packet \<Rightarrow>
          (case Ipv4ForwardingEngine_forward (asic_route_table a) packet of
             Dropped reason \<Rightarrow>
               if reason = route_not_found then (dropped_result drop_route_miss latency, count route_misses 1 a)
               else (dropped_result drop_ttl_expired latency, count ttl_expirations 1 a)
           | Forwarded forwarded \<Rightarrow>
               (case map_find (asic_ports a) (fwd_output_port forwarded) of
                  None \<Rightarrow> (dropped_result drop_egress_port_unavailable latency, a)
                | Some egress \<Rightarrow>
                    if \<not> VirtualPort_operational egress then (dropped_result drop_egress_port_unavailable latency, a)
                    else
                      (case encapsulate_ipv4_in_ethernet forwarded (port_mac_address egress) (asic_arp_cache a) now of
                         EncapsulationFailed failure \<Rightarrow>
                           if failure = neighbor_not_found
                           then (dropped_result drop_neighbor_miss latency, count neighbor_misses 1 a)
                           else (dropped_result drop_egress_port_unavailable latency, a)
                       | Encapsulated out \<Rightarrow>
                           SoftwareAsic_enqueue_outputs routed [fwd_output_port forwarded]
                             (EthernetFrame_serialize out) latency a))))"

text \<open>The VLAN whose members are offered to the pipeline.\<close>

definition member_vlan :: "VlanPortConfig \<Rightarrow> EthernetFrame \<Rightarrow> VlanId" where
  "member_vlan config frame =
     (if VlanPortConfig_is_access config then the (access_vlan config)
      else case vlan_tag frame of
        Some tag \<Rightarrow> vlan_id tag
      | None \<Rightarrow> (case native_vlan config of Some vlan \<Rightarrow> vlan | None \<Rightarrow> fst (hd (allowed_vlans config))))"

text \<open>From the parsed frame on.\<close>

definition process_frame ::
  "PortId \<Rightarrow> VirtualPort \<Rightarrow> EthernetFrame \<Rightarrow> Duration \<Rightarrow> TimePoint \<Rightarrow> SoftwareAsic \<Rightarrow> PacketProcessingResult \<times> SoftwareAsic" where
  "process_frame ingress_port port frame latency now a =
     (let (accepted, port) = VirtualPort_receive (length (payload frame)) port;
          a = a\<lparr>asic_ports := map_assign ingress_port port (asic_ports a)\<rparr>
      in if \<not> accepted then (dropped_result drop_ingress_port_unavailable latency, a)
         else
           let config = port_vlan_config port;
               vlan_ports = (case map_find (asic_vlan_members a) (member_vlan config frame) of
                   None \<Rightarrow> [] | Some members \<Rightarrow> members);
               (pipeline, mac_table) = process_l2_l3_ingress frame ingress_port config vlan_ports
                   (asic_mac_table a) (asic_router_interfaces a) now;
               a = a\<lparr>asic_mac_table := mac_table\<rparr>
           in case pipeline_action pipeline of
                pipeline_drop \<Rightarrow>
                  (dropped_result drop_vlan_rejected latency,
                   SoftwareAsic_count_pipeline_drop (the (pipeline_drop_reason pipeline)) a)
              | deliver_to_control_plane \<Rightarrow> process_control_plane frame latency now a
              | route_ipv4 \<Rightarrow> process_route frame latency now a
              | pipeline_flood \<Rightarrow>
                  SoftwareAsic_enqueue_outputs flooded (pipeline_output_ports pipeline)
                    (EthernetFrame_serialize frame) latency a
              | switch_known_unicast \<Rightarrow>
                  SoftwareAsic_enqueue_outputs switched (pipeline_output_ports pipeline)
                    (EthernetFrame_serialize frame) latency a)"

definition SoftwareAsic_process_packet ::
  "PortId \<Rightarrow> bytes \<Rightarrow> TimePoint \<Rightarrow> SoftwareAsic \<Rightarrow> PacketProcessingResult \<times> SoftwareAsic" where
  "SoftwareAsic_process_packet ingress_port bs now a =
     (case map_find (asic_ports a) ingress_port of
        None \<Rightarrow> (dropped_result drop_ingress_port_unavailable 0, a)
      | Some port \<Rightarrow>
          if \<not> VirtualPort_operational port then (dropped_result drop_ingress_port_unavailable 0, a)
          else
            let a = count ingress_packets 1 a;
                a = count ingress_bytes (of_nat (length bs)) a;
                (fault, injector) = FaultInjector_process ingress_port bs (asic_fault_injector a);
                a = a\<lparr>asic_fault_injector := injector\<rparr>
            in case fault of
                 FaultDropped reason \<Rightarrow>
                   (dropped_result (if reason = resource_exhaustion then drop_resource_exhaustion else drop_injected_fault) 0,
                    count_fault_drop reason a)
               | Injected injected \<Rightarrow>
                   let a = (if injected_corrupted injected then count corrupted_packets 1 a else a) in
                   case EthernetFrame_parse (injected_bytes injected) of
                     None \<Rightarrow> (dropped_result drop_malformed_frame (injected_latency injected), count parse_errors 1 a)
                   | Some frame \<Rightarrow> process_frame ingress_port port frame (injected_latency injected) now a)"

definition SoftwareAsic_dequeue_packet :: "PortId \<Rightarrow> SoftwareAsic \<Rightarrow> bytes option \<times> SoftwareAsic" where
  "SoftwareAsic_dequeue_packet port a =
     (case map_find (asic_queues a) port of
        None \<Rightarrow> (None, a)
      | Some queue \<Rightarrow>
          let (packet, queue) = BoundedQueue_try_dequeue queue
          in (packet, a\<lparr>asic_queues := map_assign port queue (asic_queues a)\<rparr>))"

definition SoftwareAsic_counters :: "SoftwareAsic \<Rightarrow> TrafficStatistics" where
  "SoftwareAsic_counters a = TrafficStatistics_snapshot (asic_statistics a)"

section \<open>The operations as events\<close>

datatype AsicOp =
  CreatePort VirtualPort nat | RemovePort PortId | SetPortState PortId bool bool
| CreateVlan VlanId | RemoveVlan VlanId | AddVlanMember VlanId PortId
| SetRouterInterface VlanId MacAddress | AddOrReplaceRoute RouteEntry | DeleteRoute Ipv4Prefix
| AddOrReplaceNeighbor Ipv4Address MacAddress TimePoint | RemoveNeighbor Ipv4Address
| ConfigureFaults FaultInjectionConfig | ProcessPacket PortId bytes TimePoint | DequeuePacket PortId

fun SoftwareAsic_step :: "SoftwareAsic \<Rightarrow> AsicOp \<Rightarrow> SoftwareAsic" where
  "SoftwareAsic_step a (CreatePort port capacity) = snd (SoftwareAsic_create_port port capacity a)"
| "SoftwareAsic_step a (RemovePort port) = snd (SoftwareAsic_remove_port port a)"
| "SoftwareAsic_step a (SetPortState port admin link) = snd (SoftwareAsic_set_port_state port admin link a)"
| "SoftwareAsic_step a (CreateVlan vlan) = snd (SoftwareAsic_create_vlan vlan a)"
| "SoftwareAsic_step a (RemoveVlan vlan) = snd (SoftwareAsic_remove_vlan vlan a)"
| "SoftwareAsic_step a (AddVlanMember vlan port) = snd (SoftwareAsic_add_vlan_member vlan port a)"
| "SoftwareAsic_step a (SetRouterInterface vlan mac) = snd (SoftwareAsic_set_router_interface vlan mac a)"
| "SoftwareAsic_step a (AddOrReplaceRoute route) = snd (SoftwareAsic_add_or_replace_route route a)"
| "SoftwareAsic_step a (DeleteRoute pfx) = snd (SoftwareAsic_remove_route pfx a)"
| "SoftwareAsic_step a (AddOrReplaceNeighbor ip mac t) = snd (SoftwareAsic_add_or_replace_neighbor ip mac t a)"
| "SoftwareAsic_step a (RemoveNeighbor ip) = snd (SoftwareAsic_remove_neighbor ip a)"
| "SoftwareAsic_step a (ConfigureFaults config) = snd (SoftwareAsic_configure_faults config a)"
| "SoftwareAsic_step a (ProcessPacket port bs now) = snd (SoftwareAsic_process_packet port bs now a)"
| "SoftwareAsic_step a (DequeuePacket port) = snd (SoftwareAsic_dequeue_packet port a)"

text \<open>A port that a caller can pass was made by \<open>create\<close> with a configuration of the factories.\<close>

fun valid_op :: "AsicOp \<Rightarrow> bool" where
  "valid_op (CreatePort port capacity) = (VirtualPort_inv port \<and> VlanPortConfig_wf (port_vlan_config port))"
| "valid_op _ = True"

end
