(* ===== verification/Asic_Invariant.thy ===== *)
theory Asic_Invariant
  imports Software_Asic
begin

text \<open>
  The invariant of the software switch, kept by every operation: ports and queues go together,
  VLAN members are existing ports whose configuration allows the VLAN, router interfaces belong
  to existing VLANs, no queue overflows, and every table keeps its own invariant.
\<close>

section \<open>The invariant\<close>

definition port_ok :: "PortId \<Rightarrow> VirtualPort \<Rightarrow> bool" where
  "port_ok key p \<longleftrightarrow> port_id p = key \<and> VirtualPort_inv p \<and> VlanPortConfig_wf (port_vlan_config p)"

definition queue_ok :: "bytes BoundedQueue \<Rightarrow> bool" where
  "queue_ok q \<longleftrightarrow> BoundedQueue_inv q \<and> \<not> queue_closed q"

definition ports_inv :: "SoftwareAsic \<Rightarrow> bool" where
  "ports_inv a \<longleftrightarrow> map_wf (asic_ports a) \<and> map_wf (asic_queues a) \<and>
     (\<forall>i. map_find (asic_ports a) i = None \<longleftrightarrow> map_find (asic_queues a) i = None) \<and>
     (\<forall>i p. map_find (asic_ports a) i = Some p \<longrightarrow> port_ok i p) \<and>
     (\<forall>i q. map_find (asic_queues a) i = Some q \<longrightarrow> queue_ok q)"

definition member_ok :: "SoftwareAsic \<Rightarrow> VlanId \<Rightarrow> PortId \<Rightarrow> bool" where
  "member_ok a vlan p \<longleftrightarrow> set_contains (asic_vlans a) vlan \<and>
     (\<exists>port. map_find (asic_ports a) p = Some port \<and> VlanPortConfig_allows (port_vlan_config port) vlan)"

definition vlans_inv :: "SoftwareAsic \<Rightarrow> bool" where
  "vlans_inv a \<longleftrightarrow> map_wf (asic_vlans a) \<and> map_wf (asic_vlan_members a) \<and> map_wf (asic_router_interfaces a) \<and>
     (\<forall>vlan members. map_find (asic_vlan_members a) vlan = Some members \<longrightarrow>
        distinct members \<and> (\<forall>p \<in> set members. member_ok a vlan p)) \<and>
     (\<forall>vlan mac. map_find (asic_router_interfaces a) vlan = Some mac \<longrightarrow>
        set_contains (asic_vlans a) vlan \<and> is_valid_unicast mac)"

definition tables_inv :: "SoftwareAsic \<Rightarrow> bool" where
  "tables_inv a \<longleftrightarrow> MacTable_inv (asic_mac_table a) \<and> RouteTable_inv (asic_route_table a) \<and>
     ArpCache_inv (asic_arp_cache a) \<and> validate (fault_config (asic_fault_injector a))"

definition SoftwareAsic_inv :: "SoftwareAsic \<Rightarrow> bool" where
  "SoftwareAsic_inv a \<longleftrightarrow> ports_inv a \<and> vlans_inv a \<and> tables_inv a"

lemmas asic_inv_defs [asic_defs] = SoftwareAsic_inv_def ports_inv_def vlans_inv_def tables_inv_def

section \<open>Updates that keep it\<close>

lemma asic_inv_count [simp]: "SoftwareAsic_inv (count c n a) = SoftwareAsic_inv a"
  by (simp add: asic_inv_defs member_ok_def count_def)

lemma asic_inv_count_fault_drop [simp]: "SoftwareAsic_inv (count_fault_drop r a) = SoftwareAsic_inv a"
  by (simp add: count_fault_drop_def)

lemma asic_inv_injector:
  "SoftwareAsic_inv a \<Longrightarrow> SoftwareAsic_inv (a\<lparr>asic_fault_injector := snd (FaultInjector_process i bs (asic_fault_injector a))\<rparr>)"
  by (simp add: asic_inv_defs member_ok_def)

lemma asic_inv_mac_table:
  "SoftwareAsic_inv a \<Longrightarrow> MacTable_inv t \<Longrightarrow> SoftwareAsic_inv (a\<lparr>asic_mac_table := t\<rparr>)"
  by (simp add: asic_inv_defs member_ok_def)

lemma asic_inv_arp_cache:
  "SoftwareAsic_inv a \<Longrightarrow> ArpCache_inv c \<Longrightarrow> SoftwareAsic_inv (a\<lparr>asic_arp_cache := c\<rparr>)"
  by (simp add: asic_inv_defs member_ok_def)

lemma port_queue_iff:
  "SoftwareAsic_inv a \<Longrightarrow> map_find (asic_ports a) i = None \<longleftrightarrow> map_find (asic_queues a) i = None"
  by (simp add: SoftwareAsic_inv_def ports_inv_def)

lemma asic_inv_port:
  assumes "SoftwareAsic_inv a" and "map_find (asic_ports a) i = Some p"
    and "VirtualPort_inv p'" and "port_id p' = port_id p" and "port_vlan_config p' = port_vlan_config p"
  shows "SoftwareAsic_inv (a\<lparr>asic_ports := map_assign i p' (asic_ports a)\<rparr>)"
proof -
  have wf: "map_wf (asic_ports a)" and ok: "port_ok i p" using assms(1,2) by (simp_all add: SoftwareAsic_inv_def ports_inv_def)
  have q: "map_find (asic_queues a) i \<noteq> None" using port_queue_iff [OF assms(1), of i] assms(2) by simp
  have "port_ok i p'" using ok assms(3-5) by (simp add: port_ok_def)
  then have "ports_inv (a\<lparr>asic_ports := map_assign i p' (asic_ports a)\<rparr>)"
    using assms(1) wf q unfolding SoftwareAsic_inv_def ports_inv_def
    by (simp add: map_wf_assign map_find_assign)
  moreover have "member_ok (a\<lparr>asic_ports := map_assign i p' (asic_ports a)\<rparr>) vlan m \<longleftrightarrow> member_ok a vlan m" for vlan m
    using assms(2,5) wf by (simp add: member_ok_def map_find_assign)
  ultimately show ?thesis using assms(1) by (simp add: SoftwareAsic_inv_def vlans_inv_def tables_inv_def)
qed

lemma asic_inv_queue:
  assumes "SoftwareAsic_inv a" and "map_find (asic_queues a) i = Some q" and "queue_ok q'"
  shows "SoftwareAsic_inv (a\<lparr>asic_queues := map_assign i q' (asic_queues a)\<rparr>)"
proof -
  have wf: "map_wf (asic_queues a)" using assms(1) by (simp add: SoftwareAsic_inv_def ports_inv_def)
  have "map_find (asic_ports a) i \<noteq> None" using port_queue_iff [OF assms(1), of i] assms(2) by simp
  then have "ports_inv (a\<lparr>asic_queues := map_assign i q' (asic_queues a)\<rparr>)"
    using assms(1,3) wf unfolding SoftwareAsic_inv_def ports_inv_def
    by (simp add: map_wf_assign map_find_assign)
  then show ?thesis using assms(1) by (simp add: SoftwareAsic_inv_def vlans_inv_def tables_inv_def member_ok_def)
qed

lemma transmit_keeps [simp]:
  "VirtualPort_inv (snd (VirtualPort_transmit n p)) = VirtualPort_inv p"
  "port_id (snd (VirtualPort_transmit n p)) = port_id p"
  "port_mac_address (snd (VirtualPort_transmit n p)) = port_mac_address p"
  "port_vlan_config (snd (VirtualPort_transmit n p)) = port_vlan_config p"
  "port_mtu (snd (VirtualPort_transmit n p)) = port_mtu p"
  "VirtualPort_operational (snd (VirtualPort_transmit n p)) = VirtualPort_operational p"
  by (simp_all add: VirtualPort_transmit_def VirtualPort_inv_def VirtualPort_operational_def Let_def)

lemma receive_keeps [simp]:
  "VirtualPort_inv (snd (VirtualPort_receive n p)) = VirtualPort_inv p"
  "port_id (snd (VirtualPort_receive n p)) = port_id p"
  "port_mac_address (snd (VirtualPort_receive n p)) = port_mac_address p"
  "port_vlan_config (snd (VirtualPort_receive n p)) = port_vlan_config p"
  "port_mtu (snd (VirtualPort_receive n p)) = port_mtu p"
  "VirtualPort_operational (snd (VirtualPort_receive n p)) = VirtualPort_operational p"
  by (simp_all add: VirtualPort_receive_def VirtualPort_inv_def VirtualPort_operational_def Let_def)

lemma port_lookup_ok: "SoftwareAsic_inv a \<Longrightarrow> map_find (asic_ports a) i = Some p \<Longrightarrow> port_ok i p"
  by (simp add: SoftwareAsic_inv_def ports_inv_def)

lemma queue_lookup_ok: "SoftwareAsic_inv a \<Longrightarrow> map_find (asic_queues a) i = Some q \<Longrightarrow> queue_ok q"
  by (simp add: SoftwareAsic_inv_def ports_inv_def)

lemma try_enqueue_ok: "queue_ok q \<Longrightarrow> queue_ok (snd (BoundedQueue_try_enqueue v q))"
  by (simp add: queue_ok_def BoundedQueue_inv_def BoundedQueue_try_enqueue_def)

lemma count_fields [simp]:
  "asic_ports (count c n a) = asic_ports a" "asic_queues (count c n a) = asic_queues a"
  "asic_vlans (count c n a) = asic_vlans a" "asic_vlan_members (count c n a) = asic_vlan_members a"
  "asic_router_interfaces (count c n a) = asic_router_interfaces a"
  "asic_mac_table (count c n a) = asic_mac_table a" "asic_route_table (count c n a) = asic_route_table a"
  "asic_arp_cache (count c n a) = asic_arp_cache a" "asic_fault_injector (count c n a) = asic_fault_injector a"
  by (simp_all add: count_def)

section \<open>Packet processing keeps it\<close>

text \<open>
  The two ways a round of the egress loop can change the switch, besides counters and the fault
  sequence: a port's counters, and one packet at the end of its queue.
\<close>

lemma asic_inv_transmit:
  assumes "SoftwareAsic_inv a" and "map_find (asic_ports a) i = Some p"
  shows "SoftwareAsic_inv (a\<lparr>asic_ports := map_assign i (snd (VirtualPort_transmit n p)) (asic_ports a)\<rparr>)"
  by (rule asic_inv_port [OF assms]) (use port_lookup_ok [OF assms] in \<open>simp_all add: port_ok_def\<close>)

lemma asic_inv_enqueue:
  assumes "SoftwareAsic_inv a" and "map_find (asic_ports a) i = Some p" and "map_find (asic_queues a) i = Some q"
  shows "SoftwareAsic_inv (a\<lparr>asic_ports := map_assign i (snd (VirtualPort_transmit n p)) (asic_ports a),
      asic_queues := map_assign i (snd (BoundedQueue_try_enqueue bs q)) (asic_queues a)\<rparr>)"
proof -
  have "SoftwareAsic_inv (a\<lparr>asic_ports := map_assign i (snd (VirtualPort_transmit n p)) (asic_ports a)\<rparr>)"
    by (rule asic_inv_transmit [OF assms(1,2)])
  from asic_inv_queue [OF this, of i q "snd (BoundedQueue_try_enqueue bs q)"] show ?thesis
    using assms(3) try_enqueue_ok [OF queue_lookup_ok [OF assms(1,3)]] by simp
qed

lemma enqueue_one_inv:
  assumes "SoftwareAsic_inv a"
  shows "SoftwareAsic_inv (fst (enqueue_one frame (a, outputs, latency) i))"
proof (cases "map_find (asic_ports a) i"; cases "map_find (asic_queues a) i")
  fix p q assume p: "map_find (asic_ports a) i = Some p" and q: "map_find (asic_queues a) i = Some q"
  define b where "b = a\<lparr>asic_fault_injector := snd (FaultInjector_process i frame (asic_fault_injector a))\<rparr>"
  have b: "SoftwareAsic_inv b" "map_find (asic_ports b) i = Some p" "map_find (asic_queues b) i = Some q"
    using asic_inv_injector [OF assms] p q by (simp_all add: b_def)
  let ?c = "count corrupted_packets 1 b"
  have c: "SoftwareAsic_inv ?c" "map_find (asic_ports ?c) i = Some p" "map_find (asic_queues ?c) i = Some q"
    using b by simp_all
  show ?thesis
    using assms p q b(1) asic_inv_transmit [OF b(1,2)] asic_inv_enqueue [OF b]
      asic_inv_transmit [OF c(1,2)] asic_inv_enqueue [OF c]
    by (auto simp: enqueue_one_def Let_def case_prod_beta b_def [symmetric] split: FaultInjectionResult.split)
qed (use assms in \<open>simp_all add: enqueue_one_def\<close>)

lemma enqueue_fold_inv:
  "SoftwareAsic_inv (fst s) \<Longrightarrow> SoftwareAsic_inv (fst (foldl (enqueue_one frame) s ports))"
proof (induction ports arbitrary: s)
  case (Cons i ports)
  then show ?case by (cases s) (simp add: enqueue_one_inv)
qed simp

lemma enqueue_outputs_inv:
  "SoftwareAsic_inv a \<Longrightarrow> SoftwareAsic_inv (snd (SoftwareAsic_enqueue_outputs disp ports frame latency a))"
  using enqueue_fold_inv [of "(a, [], latency)" frame ports]
  by (simp add: SoftwareAsic_enqueue_outputs_def case_prod_beta)

lemma process_control_plane_inv:
  "SoftwareAsic_inv a \<Longrightarrow> SoftwareAsic_inv (snd (process_control_plane frame latency now a))"
  using arp_cache.inv_announce [of "asic_arp_cache a"]
  by (auto simp: process_control_plane_def SoftwareAsic_inv_def [of a] tables_inv_def [of a]
      intro!: asic_inv_arp_cache [of a] split: option.split)

lemma process_route_inv:
  "SoftwareAsic_inv a \<Longrightarrow> SoftwareAsic_inv (snd (process_route frame latency now a))"
  by (simp add: process_route_def enqueue_outputs_inv
      split: option.split Ipv4ForwardingResult.split L3EncapsulationResult.split)

lemma process_frame_inv:
  assumes "SoftwareAsic_inv a" and "map_find (asic_ports a) i = Some p"
  shows "SoftwareAsic_inv (snd (process_frame i p frame latency now a))"
proof -
  let ?p = "snd (VirtualPort_receive (length (payload frame)) p)"
  define b where "b = a\<lparr>asic_ports := map_assign i ?p (asic_ports a)\<rparr>"
  have b: "SoftwareAsic_inv b"
    unfolding b_def by (rule asic_inv_port [OF assms]) (use port_lookup_ok [OF assms] in \<open>simp_all add: port_ok_def\<close>)
  have "MacTable_inv (asic_mac_table b)" using b by (simp add: SoftwareAsic_inv_def tables_inv_def)
  then have "SoftwareAsic_inv (b\<lparr>asic_mac_table :=
      snd (process_l2_l3_ingress frame i c ports (asic_mac_table b) routers now)\<rparr>)" for c ports routers
    using b by (intro asic_inv_mac_table process_inv)
  then show ?thesis
    using b by (auto simp: process_frame_def Let_def case_prod_beta b_def [symmetric] SoftwareAsic_count_pipeline_drop_def
        intro: enqueue_outputs_inv process_control_plane_inv process_route_inv split: PipelineAction.split)
qed

lemma process_packet_inv:
  assumes "SoftwareAsic_inv a"
  shows "SoftwareAsic_inv (snd (SoftwareAsic_process_packet i bs now a))"
proof (cases "map_find (asic_ports a) i")
  case (Some p)
  define b where "b = count ingress_bytes (of_nat (length bs)) (count ingress_packets 1 a)"
  have b: "SoftwareAsic_inv b" "map_find (asic_ports b) i = Some p" using assms Some by (simp_all add: b_def)
  define c where "c = b\<lparr>asic_fault_injector := snd (FaultInjector_process i bs (asic_fault_injector b))\<rparr>"
  have c: "SoftwareAsic_inv c" "map_find (asic_ports c) i = Some p"
    using asic_inv_injector [OF b(1)] b(2) by (simp_all add: c_def)
  define d where "d x = (if x then count corrupted_packets 1 c else c)" for x
  have "SoftwareAsic_inv (d x)" "map_find (asic_ports (d x)) i = Some p" for x using c by (simp_all add: d_def)
  then show ?thesis
    using assms Some c process_frame_inv
    by (simp add: SoftwareAsic_process_packet_def Let_def case_prod_beta b_def [symmetric] c_def [symmetric]
        d_def [symmetric] split: FaultInjectionResult.split option.split)
qed (use assms in \<open>simp add: SoftwareAsic_process_packet_def\<close>)

section \<open>Configuration keeps it\<close>

lemma create_port_inv:
  assumes "SoftwareAsic_inv a" and "VirtualPort_inv port" and "VlanPortConfig_wf (port_vlan_config port)"
  shows "SoftwareAsic_inv (snd (SoftwareAsic_create_port port capacity a))"
proof (cases "capacity = 0 \<or> map_find (asic_ports a) (port_id port) \<noteq> None")
  case False
  let ?q = "\<lparr>queue_capacity = capacity, queue_items = [], queue_closed = False\<rparr>"
  let ?i = "port_id port"
  let ?a = "a\<lparr>asic_queues := map_assign ?i ?q (asic_queues a), asic_ports := map_assign ?i port (asic_ports a)\<rparr>"
  have wf: "map_wf (asic_ports a)" "map_wf (asic_queues a)"
    using assms(1) by (simp_all add: SoftwareAsic_inv_def ports_inv_def)
  have none: "map_find (asic_ports a) ?i = None" "map_find (asic_queues a) ?i = None"
    using False port_queue_iff [OF assms(1), of ?i] by simp_all
  have "queue_ok ?q" using False by (simp add: queue_ok_def BoundedQueue_inv_def)
  moreover have "port_ok ?i port" using assms(2,3) by (simp add: port_ok_def)
  ultimately have "ports_inv ?a"
    using assms(1) wf unfolding SoftwareAsic_inv_def ports_inv_def by (simp add: map_wf_assign map_find_assign)
  moreover have "member_ok ?a vlan m" if "member_ok a vlan m" for vlan m
    using that none(1) wf(1) by (auto simp: member_ok_def map_find_assign)
  then have "vlans_inv ?a" using assms(1) by (auto simp: SoftwareAsic_inv_def vlans_inv_def)
  ultimately have "SoftwareAsic_inv ?a" using assms(1) by (simp add: SoftwareAsic_inv_def tables_inv_def)
  then show ?thesis using False none by (simp add: SoftwareAsic_create_port_def map_emplace_def)
qed (use assms in \<open>auto simp: SoftwareAsic_create_port_def\<close>)

lemma map_find_map_values: "map_find (map (\<lambda>(k, v). (k, f v)) m) k = map_option f (map_find m k)"
  by (induction m) auto

lemma map_wf_map_values: "map_wf (map (\<lambda>(k, v). (k, f v)) m) = map_wf m"
  by (simp add: map_wf_def comp_def case_prod_beta)

lemma remove_port_inv:
  assumes "SoftwareAsic_inv a"
  shows "SoftwareAsic_inv (snd (SoftwareAsic_remove_port port a))"
proof (cases "map_find (asic_ports a) port = None")
  case False
  let ?a = "snd (SoftwareAsic_remove_port port a)"
  have wf: "map_wf (asic_ports a)" "map_wf (asic_queues a)"
    using assms by (simp_all add: SoftwareAsic_inv_def ports_inv_def)
  have "ports_inv ?a"
    using assms wf False unfolding SoftwareAsic_inv_def ports_inv_def
    by (simp add: SoftwareAsic_remove_port_def map_wf_erase map_find_erase)
  moreover have "member_ok ?a vlan m" if "member_ok a vlan m" "m \<noteq> port" for vlan m
    using that wf False by (simp add: member_ok_def SoftwareAsic_remove_port_def map_find_erase)
  then have "vlans_inv ?a"
    using assms False unfolding SoftwareAsic_inv_def vlans_inv_def
    by (auto simp: SoftwareAsic_remove_port_def map_find_map_values map_wf_map_values)
  ultimately show ?thesis
    using assms False by (simp add: SoftwareAsic_inv_def tables_inv_def SoftwareAsic_remove_port_def)
qed (use assms in \<open>simp add: SoftwareAsic_remove_port_def\<close>)

lemma set_port_state_inv:
  assumes "SoftwareAsic_inv a"
  shows "SoftwareAsic_inv (snd (SoftwareAsic_set_port_state port admin link a))"
proof (cases "map_find (asic_ports a) port")
  case (Some p)
  let ?p = "p\<lparr>port_admin_enabled := admin, port_link_up := link\<rparr>"
  have "VirtualPort_inv ?p" using port_lookup_ok [OF assms Some] by (simp add: port_ok_def VirtualPort_inv_def)
  with asic_inv_port [OF assms Some, of ?p] Some show ?thesis
    by (simp add: SoftwareAsic_set_port_state_def virtual_port_defs)
qed (use assms in \<open>simp add: SoftwareAsic_set_port_state_def\<close>)

lemma create_vlan_inv:
  assumes "SoftwareAsic_inv a"
  shows "SoftwareAsic_inv (snd (SoftwareAsic_create_vlan vlan a))"
proof -
  let ?a = "snd (SoftwareAsic_create_vlan vlan a)"
  have wf: "map_wf (asic_vlans a)" using assms by (simp add: SoftwareAsic_inv_def vlans_inv_def)
  have "member_ok ?a v m" if "member_ok a v m" for v m
    using that wf by (auto simp: member_ok_def SoftwareAsic_create_vlan_def case_prod_beta set_contains_insert)
  then have "vlans_inv ?a"
    using assms wf unfolding SoftwareAsic_inv_def vlans_inv_def
    by (auto simp: SoftwareAsic_create_vlan_def case_prod_beta set_insert_wf set_contains_insert)
  then show ?thesis
    using assms by (simp add: SoftwareAsic_inv_def ports_inv_def tables_inv_def SoftwareAsic_create_vlan_def case_prod_beta)
qed

lemma members_subscript_eq:
  "map_wf (asic_vlan_members a) \<Longrightarrow>
   members_subscript vlan a =
     (case map_find (asic_vlan_members a) vlan of Some members \<Rightarrow> members | None \<Rightarrow> [],
      snd (members_subscript vlan a))"
  by (auto simp: members_subscript_def map_emplace_def map_find_assign Let_def split: option.split)

lemma members_subscript_fields [simp]:
  "asic_vlans (snd (members_subscript vlan a)) = asic_vlans a"
  "asic_ports (snd (members_subscript vlan a)) = asic_ports a"
  "asic_router_interfaces (snd (members_subscript vlan a)) = asic_router_interfaces a"
  by (simp_all add: members_subscript_def Let_def)

lemma members_subscript_inv: "SoftwareAsic_inv a \<Longrightarrow> SoftwareAsic_inv (snd (members_subscript vlan a))"
  by (auto simp: members_subscript_def map_emplace_def Let_def asic_inv_defs member_ok_def map_wf_assign map_find_assign)

lemma members_subscript_find:
  "map_wf (asic_vlan_members a) \<Longrightarrow>
   map_find (asic_vlan_members (snd (members_subscript vlan a))) vlan = Some (fst (members_subscript vlan a))"
  by (auto simp: members_subscript_def map_emplace_def Let_def map_find_assign)

lemma remove_vlan_inv:
  assumes "SoftwareAsic_inv a"
  shows "SoftwareAsic_inv (snd (SoftwareAsic_remove_vlan vlan a))"
proof -
  let ?b = "snd (members_subscript vlan a)"
  let ?c = "?b\<lparr>asic_vlan_members := snd (map_erase vlan (asic_vlan_members ?b)),
    asic_vlans := snd (set_erase vlan (asic_vlans ?b))\<rparr>"
  have b: "SoftwareAsic_inv ?b" by (rule members_subscript_inv [OF assms])
  have "SoftwareAsic_inv ?c" if "map_find (asic_router_interfaces a) vlan = None"
  proof -
    have wf: "map_wf (asic_vlans ?b)" "map_wf (asic_vlan_members ?b)"
      using b by (simp_all add: SoftwareAsic_inv_def vlans_inv_def)
    have "member_ok ?c v m" if "member_ok ?b v m" "v \<noteq> vlan" for v m
      using that wf by (simp add: member_ok_def set_contains_erase)
    moreover have "v \<noteq> vlan" if "map_find (asic_router_interfaces a) v = Some mac" for v mac
      using that \<open>map_find (asic_router_interfaces a) vlan = None\<close> by auto
    ultimately have "vlans_inv ?c"
      using b wf unfolding SoftwareAsic_inv_def vlans_inv_def
      by (simp add: set_erase_wf map_wf_erase map_find_erase set_contains_erase)
    then show ?thesis using b by (simp add: SoftwareAsic_inv_def ports_inv_def tables_inv_def)
  qed
  then show ?thesis
    using assms b by (auto simp: SoftwareAsic_remove_vlan_def case_prod_beta Let_def)
qed

lemma add_vlan_member_inv:
  assumes "SoftwareAsic_inv a"
  shows "SoftwareAsic_inv (snd (SoftwareAsic_add_vlan_member vlan port a))"
proof -
  let ?b = "snd (members_subscript vlan a)" and ?m = "fst (members_subscript vlan a)"
  let ?c = "?b\<lparr>asic_vlan_members := map_assign vlan (?m @ [port]) (asic_vlan_members ?b)\<rparr>"
  have b: "SoftwareAsic_inv ?b" by (rule members_subscript_inv [OF assms])
  have wf: "map_wf (asic_vlan_members ?b)" using b by (simp add: SoftwareAsic_inv_def vlans_inv_def)
  have m: "map_find (asic_vlan_members ?b) vlan = Some ?m"
    using assms by (intro members_subscript_find) (simp add: SoftwareAsic_inv_def vlans_inv_def)
  have "SoftwareAsic_inv ?c"
    if "set_contains (asic_vlans a) vlan" "map_find (asic_ports a) port = Some p" "port \<notin> set ?m"
      "VlanPortConfig_allows (port_vlan_config p) vlan" for p
  proof -
    have "member_ok ?c vlan port" using that by (simp add: member_ok_def)
    moreover have "member_ok ?c v q = member_ok ?b v q" for v q by (simp add: member_ok_def)
    ultimately have "vlans_inv ?c"
      using b wf m that(3) unfolding SoftwareAsic_inv_def vlans_inv_def
      by (auto simp: map_wf_assign map_find_assign)
    then show ?thesis using b by (simp add: SoftwareAsic_inv_def ports_inv_def tables_inv_def)
  qed
  then show ?thesis
    using assms b by (auto simp: SoftwareAsic_add_vlan_member_def case_prod_beta Let_def)
qed

lemma set_router_interface_inv:
  assumes "SoftwareAsic_inv a"
  shows "SoftwareAsic_inv (snd (SoftwareAsic_set_router_interface vlan mac a))"
  using assms
  by (auto simp: SoftwareAsic_set_router_interface_def asic_inv_defs member_ok_def map_wf_assign map_find_assign)

lemma route_ops_inv:
  assumes "SoftwareAsic_inv a"
  shows "SoftwareAsic_inv (snd (SoftwareAsic_add_or_replace_route route a))"
    and "SoftwareAsic_inv (snd (SoftwareAsic_remove_route pfx a))"
  using assms
  by (simp_all add: SoftwareAsic_add_or_replace_route_def SoftwareAsic_remove_route_def case_prod_beta
      asic_inv_defs member_ok_def route_table.inv_update route_table.inv_delete)

lemma neighbor_ops_inv:
  assumes "SoftwareAsic_inv a"
  shows "SoftwareAsic_inv (snd (SoftwareAsic_add_or_replace_neighbor ip mac t a))"
    and "SoftwareAsic_inv (snd (SoftwareAsic_remove_neighbor ip a))"
  using assms arp_machine.inv_step [of "asic_arp_cache a" "ArpRemove ip"] arp_cache.inv_announce [of "asic_arp_cache a"]
  by (simp_all add: SoftwareAsic_add_or_replace_neighbor_def SoftwareAsic_remove_neighbor_def case_prod_beta
      asic_inv_defs member_ok_def)

lemma configure_faults_inv:
  "SoftwareAsic_inv a \<Longrightarrow> SoftwareAsic_inv (snd (SoftwareAsic_configure_faults config a))"
  by (simp add: SoftwareAsic_configure_faults_def FaultInjector_set_config_def asic_inv_defs member_ok_def)

lemma dequeue_packet_inv:
  assumes "SoftwareAsic_inv a"
  shows "SoftwareAsic_inv (snd (SoftwareAsic_dequeue_packet port a))"
proof (cases "map_find (asic_queues a) port")
  case (Some q)
  have "queue_ok (snd (BoundedQueue_try_dequeue q))"
    using queue_lookup_ok [OF assms Some] by (auto simp: queue_ok_def queue_defs BoundedQueue_inv_def split: list.split)
  then show ?thesis using Some asic_inv_queue [OF assms Some] by (simp add: SoftwareAsic_dequeue_packet_def case_prod_beta)
qed (use assms in \<open>simp add: SoftwareAsic_dequeue_packet_def\<close>)

interpretation asic_machine: guarded_system SoftwareAsic_step SoftwareAsic_inv valid_op
proof
  show "SoftwareAsic_inv (SoftwareAsic_step a e)" if "SoftwareAsic_inv a" "valid_op e" for a e
    using that
    by (cases e) (simp_all add: create_port_inv remove_port_inv set_port_state_inv create_vlan_inv remove_vlan_inv
        add_vlan_member_inv set_router_interface_inv route_ops_inv neighbor_ops_inv configure_faults_inv
        process_packet_inv dequeue_packet_inv)
qed

lemma SoftwareAsic_create_inv: "SoftwareAsic_create capacity = Some a \<Longrightarrow> SoftwareAsic_inv a"
  using MacTable_create_inv ArpCache_create_inv
  by (auto simp: SoftwareAsic_create_def asic_inv_defs FaultInjector_create_def RouteTable_inv_def vec_wf_def
      split: option.splits if_splits)

section \<open>Properties\<close>

text \<open>
  Property C12: whatever sequence of configuration, traffic and dequeue operations a switch goes
  through, its invariant holds: a port has a queue and a queue has a port, queues stay within
  their capacity, every VLAN member is an existing port that allows the VLAN, every router
  interface belongs to an existing VLAN, and all tables are well formed.
\<close>

theorem software_asic_invariant:
  assumes "SoftwareAsic_create capacity = Some a" and "list_all valid_op ops"
  shows "SoftwareAsic_inv (run SoftwareAsic_step a ops)"
  by (rule asic_machine.inv_valid_run [OF SoftwareAsic_create_inv [OF assms(1)] assms(2)])

definition sample_asic :: SoftwareAsic where
  "sample_asic = the (SoftwareAsic_create 16)"

definition sample_port :: "u16 \<Rightarrow> VirtualPort" where
  "sample_port n = \<lparr>port_id = PortId n, port_mac_address = MacAddress 2 0 0 0 1 1, port_speed = gbps_1,
     port_mtu = 1600, port_vlan_config = VlanPortConfig_access (VlanId 10), port_admin_enabled = False,
     port_link_up = False, port_counters = no_counters\<rparr>"

lemma sample_asic_created: "SoftwareAsic_create 16 = Some sample_asic"
  by (simp add: sample_asic_def SoftwareAsic_create_def MacTable_create_def ArpCache_create_def
      FaultInjector_create_def validate_def no_faults_def default_entry_lifetime_def)

lemma sample_port_valid: "valid_op (CreatePort (sample_port n) capacity)"
  by (simp add: sample_port_def VirtualPort_inv_def is_valid_unicast_def unspecified_mac_def
      MacAddress_is_unicast_def MacAddress_is_multicast_def minimum_mtu_def maximum_mtu_def VlanPortConfig_access_wf)

theorem software_asic_invariant_witness:
  "SoftwareAsic_inv (run SoftwareAsic_step sample_asic
     [CreatePort (sample_port 1) 4, CreateVlan (VlanId 10), AddVlanMember (VlanId 10) (PortId 1), RemovePort (PortId 1)])"
  by (rule software_asic_invariant [OF sample_asic_created]) (simp add: sample_port_valid del: valid_op.simps(1))

end
