(* ===== verification/Asic_Forwarding.thy ===== *)
theory Asic_Forwarding
  imports Asic_Invariant
begin

text \<open>
  What the software switch does with a packet: which queues receive it, in what form, and what
  the counters say. \<open>delivery\<close> relates the state before and after the processing of a packet to
  the ports that the result names.
\<close>

section \<open>Deliveries\<close>

definition queue_of :: "SoftwareAsic \<Rightarrow> PortId \<Rightarrow> bytes list" where
  "queue_of a p = (case map_find (asic_queues a) p of None \<Rightarrow> [] | Some q \<Rightarrow> queue_items q)"

text \<open>
  One packet was appended to the queue of each port of \<open>outs\<close>, and nothing else happened to any
  queue; the egress counter advanced by the number of ports.
\<close>

definition delivery :: "SoftwareAsic \<Rightarrow> SoftwareAsic \<Rightarrow> PortId list \<Rightarrow> (PortId \<Rightarrow> bytes) \<Rightarrow> bool" where
  "delivery a a' outs x \<longleftrightarrow> distinct outs \<and>
     (\<forall>p. queue_of a' p = queue_of a p @ (if p \<in> set outs then [x p] else [])) \<and>
     asic_statistics a' egress_packets = asic_statistics a egress_packets + of_nat (length outs)"

lemma delivery_refl: "queue_of a' = queue_of a \<Longrightarrow> asic_statistics a' egress_packets = asic_statistics a egress_packets \<Longrightarrow>
  delivery a a' [] x"
  by (simp add: delivery_def)

lemma delivery_from:
  "delivery b a' outs x \<Longrightarrow> queue_of b = queue_of a \<Longrightarrow>
   asic_statistics b egress_packets = asic_statistics a egress_packets \<Longrightarrow> delivery a a' outs x"
  by (simp add: delivery_def)

lemma queue_of_update [simp]:
  "queue_of (a\<lparr>asic_ports := ps\<rparr>) = queue_of a" "queue_of (a\<lparr>asic_mac_table := t\<rparr>) = queue_of a"
  "queue_of (a\<lparr>asic_arp_cache := cache\<rparr>) = queue_of a" "queue_of (a\<lparr>asic_fault_injector := f\<rparr>) = queue_of a"
  "queue_of (count c n a) = queue_of a" "queue_of (count_fault_drop r a) = queue_of a"
  by (simp_all add: queue_of_def fun_eq_iff count_def count_fault_drop_def)

lemma egress_count [simp]:
  "asic_statistics (count c n a) egress_packets =
     (if c = egress_packets then asic_statistics a egress_packets + n else asic_statistics a egress_packets)"
  by (simp add: count_def TrafficStatistics_increment_def)

lemma egress_count_fault_drop [simp]:
  "asic_statistics (count_fault_drop r a) egress_packets = asic_statistics a egress_packets"
  by (simp add: count_fault_drop_def)

section \<open>The egress loop\<close>

lemma fault_config_process [simp]:
  "fault_config (asic_fault_injector (count c n a)) = fault_config (asic_fault_injector a)"
  by simp

text \<open>One round: nothing is sent, or one packet goes to the end of the port's queue.\<close>

lemma enqueue_one_effect:
  assumes "SoftwareAsic_inv a" and "enqueue_one frame (a, outs, latency) i = (a', outs', latency')"
  shows "fault_config (asic_fault_injector a') = fault_config (asic_fault_injector a) \<and>
    (outs' = outs \<and> queue_of a' = queue_of a \<and>
       asic_statistics a' egress_packets = asic_statistics a egress_packets \<or>
     (\<exists>x. outs' = outs @ [i] \<and> queue_of a' = (queue_of a)(i := queue_of a i @ [x]) \<and>
        asic_statistics a' egress_packets = asic_statistics a egress_packets + 1 \<and>
        corruption_of frame x \<and> (fault_free (fault_config (asic_fault_injector a)) \<longrightarrow> x = frame)))"
proof (cases "map_find (asic_ports a) i"; cases "map_find (asic_queues a) i")
  fix p q assume p: "map_find (asic_ports a) i = Some p" and q: "map_find (asic_queues a) i = Some q"
  have wf: "map_wf (asic_queues a)" using assms(1) by (simp add: SoftwareAsic_inv_def ports_inv_def)
  define result where "result = FaultInjector_process i frame (asic_fault_injector a)"
  have config: "fault_config (snd result) = fault_config (asic_fault_injector a)" by (simp add: result_def)
  show ?thesis
  proof (cases "VirtualPort_operational p")
    case True
    show ?thesis
    proof (cases "fst result")
      case (Injected packet)
      have len: "corruption_of frame (injected_bytes packet)"
        using process_corruption [of i frame "asic_fault_injector a" packet] Injected
        by (cases result) (simp add: result_def)
      have free: "injected_bytes packet = frame" if "fault_free (fault_config (asic_fault_injector a))"
        using process_fault_free [OF that, of i frame] Injected by (auto simp: result_def)
      show ?thesis
        using assms(2) p q True Injected config len free wf
        by (auto simp: enqueue_one_def Let_def case_prod_beta result_def [symmetric] queue_of_def fun_eq_iff
            BoundedQueue_try_enqueue_def map_find_assign split: if_splits)
    qed (use assms(2) p q True config in
      \<open>auto simp: enqueue_one_def Let_def case_prod_beta result_def [symmetric] count_fault_drop_def\<close>)
  qed (use assms(2) p q in \<open>simp add: enqueue_one_def\<close>)
qed (use assms(2) in \<open>simp_all add: enqueue_one_def\<close>)

lemma enqueue_fold_delivery:
  assumes "SoftwareAsic_inv a" and "distinct ports"
    and "foldl (enqueue_one frame) (a, outs, latency) ports = (a', outs', latency')"
  shows "\<exists>new x. outs' = outs @ new \<and> set new \<subseteq> set ports \<and> delivery a a' new x \<and>
    (\<forall>p. corruption_of frame (x p) \<and> (fault_free (fault_config (asic_fault_injector a)) \<longrightarrow> x p = frame))"
  using assms
proof (induction ports arbitrary: a outs latency)
  case Nil
  then show ?case
    by (intro exI [of _ "[]"] exI [of _ "\<lambda>_. frame"]) (auto simp: delivery_def corruption_of_def)
next
  case (Cons i ports)
  obtain b outs1 latency1 where b: "enqueue_one frame (a, outs, latency) i = (b, outs1, latency1)"
    by (cases "enqueue_one frame (a, outs, latency) i") auto
  have inv: "SoftwareAsic_inv b" using enqueue_one_inv [OF Cons.prems(1), of frame outs latency i] b by simp
  obtain new x where new: "outs' = outs1 @ new" "set new \<subseteq> set ports" "delivery b a' new x"
    "\<forall>p. corruption_of frame (x p) \<and> (fault_free (fault_config (asic_fault_injector b)) \<longrightarrow> x p = frame)"
    using Cons.IH [OF inv, of outs1 latency1] Cons.prems(2,3) b by auto
  have i: "i \<notin> set new" using new(2) Cons.prems(2) by auto
  from enqueue_one_effect [OF Cons.prems(1) b]
  consider (skip) "outs1 = outs" "queue_of b = queue_of a"
      "asic_statistics b egress_packets = asic_statistics a egress_packets"
      "fault_config (asic_fault_injector b) = fault_config (asic_fault_injector a)"
    | (sent) y where "outs1 = outs @ [i]" "queue_of b = (queue_of a)(i := queue_of a i @ [y])"
      "asic_statistics b egress_packets = asic_statistics a egress_packets + 1" "corruption_of frame y"
      "fault_free (fault_config (asic_fault_injector a)) \<longrightarrow> y = frame"
      "fault_config (asic_fault_injector b) = fault_config (asic_fault_injector a)"
    by auto
  then show ?case
  proof cases
    case skip
    then show ?thesis
      using new by (intro exI [of _ new] exI [of _ x]) (auto intro: delivery_from)
  next
    case (sent y)
    define z where "z = x(i := y)"
    have "delivery a a' (i # new) z"
      using new(3) i sent(2,3) by (auto simp: delivery_def z_def)
    moreover have "\<forall>p. corruption_of frame (z p) \<and> (fault_free (fault_config (asic_fault_injector a)) \<longrightarrow> z p = frame)"
      using new(4) sent(4-6) by (auto simp: z_def)
    ultimately show ?thesis
      using new(1,2) sent(1) by (intro exI [of _ "i # new"] exI [of _ z]) auto
  qed
qed

lemma enqueue_outputs_delivery:
  assumes "SoftwareAsic_inv a" and "distinct ports"
    and "SoftwareAsic_enqueue_outputs disp ports frame latency a = (r, a')"
  shows "\<exists>x. delivery a a' (output_ports r) x \<and> set (output_ports r) \<subseteq> set ports \<and>
    (disposition r = disp \<and> output_ports r \<noteq> [] \<and> drop_reason r = drop_none \<or>
     r = dropped_result drop_queue_congestion (result_latency r)) \<and>
    (\<forall>p. corruption_of frame (x p) \<and> (fault_free (fault_config (asic_fault_injector a)) \<longrightarrow> x p = frame))"
proof -
  obtain b outs l where f: "foldl (enqueue_one frame) (a, [], latency) ports = (b, outs, l)"
    by (cases "foldl (enqueue_one frame) (a, [], latency) ports") auto
  from enqueue_fold_delivery [OF assms(1,2) f] assms(3) show ?thesis
    by (auto simp: SoftwareAsic_enqueue_outputs_def f dropped_result_def split: if_splits)
qed

section \<open>From the ingress port to the egress loop\<close>

text \<open>
  The state in which a packet reaches the egress loop differs from the one it arrived in by
  counters, the fault sequence and the learned source only.
\<close>

definition same_setup :: "SoftwareAsic \<Rightarrow> SoftwareAsic \<Rightarrow> bool" where
  "same_setup a b \<longleftrightarrow> asic_queues b = asic_queues a \<and> asic_vlans b = asic_vlans a \<and>
     asic_vlan_members b = asic_vlan_members a \<and> asic_route_table b = asic_route_table a \<and>
     asic_arp_cache b = asic_arp_cache a \<and> asic_router_interfaces b = asic_router_interfaces a \<and>
     asic_statistics b egress_packets = asic_statistics a egress_packets \<and>
     fault_config (asic_fault_injector b) = fault_config (asic_fault_injector a) \<and>
     (\<forall>i. map_option (\<lambda>p. (port_mac_address p, port_vlan_config p, VirtualPort_operational p, port_mtu p)) (map_find (asic_ports b) i) =
          map_option (\<lambda>p. (port_mac_address p, port_vlan_config p, VirtualPort_operational p, port_mtu p)) (map_find (asic_ports a) i))"

lemma same_setup_refl [simp]: "same_setup a a"
  by (simp add: same_setup_def)

lemma same_setup_queue_of: "same_setup a b \<Longrightarrow> queue_of b = queue_of a"
  by (simp add: same_setup_def queue_of_def fun_eq_iff)

lemma same_setup_trans: "same_setup a b \<Longrightarrow> same_setup b c \<Longrightarrow> same_setup a c"
  by (simp add: same_setup_def)

lemma same_setup_updates:
  "c \<noteq> egress_packets \<Longrightarrow> same_setup a (count c n a)"
  "same_setup a (a\<lparr>asic_mac_table := t\<rparr>)"
  "same_setup a (a\<lparr>asic_fault_injector := snd (FaultInjector_process i bs (asic_fault_injector a))\<rparr>)"
  by (simp_all add: same_setup_def count_def TrafficStatistics_increment_def)

lemma same_setup_receive:
  assumes "SoftwareAsic_inv a" and "map_find (asic_ports a) i = Some p"
  shows "same_setup a (a\<lparr>asic_ports := map_assign i (snd (VirtualPort_receive n p)) (asic_ports a)\<rparr>)"
proof -
  have "map_wf (asic_ports a)" using assms(1) by (simp add: SoftwareAsic_inv_def ports_inv_def)
  then show ?thesis using assms(2) by (simp add: same_setup_def map_find_assign)
qed

lemma same_setup_delivery: "same_setup a b \<Longrightarrow> delivery b a' outs x \<Longrightarrow> delivery a a' outs x"
  using same_setup_queue_of by (auto simp: same_setup_def intro: delivery_from)

lemma same_setup_port:
  assumes "same_setup a b" and "map_find (asic_ports b) i = Some p"
  shows "\<exists>p'. map_find (asic_ports a) i = Some p' \<and> port_mac_address p = port_mac_address p' \<and>
    port_vlan_config p = port_vlan_config p' \<and> VirtualPort_operational p = VirtualPort_operational p' \<and>
    port_mtu p = port_mtu p'"
proof -
  let ?f = "\<lambda>p. (port_mac_address p, port_vlan_config p, VirtualPort_operational p, port_mtu p)"
  have "map_option ?f (map_find (asic_ports b) i) = map_option ?f (map_find (asic_ports a) i)"
    using assms(1) by (simp only: same_setup_def)
  then show ?thesis using assms(2) by (cases "map_find (asic_ports a) i") auto
qed

text \<open>The three ways on: not forwarded, switched within the VLAN, routed.\<close>

definition not_forwarded :: "SoftwareAsic \<Rightarrow> PacketProcessingResult \<Rightarrow> SoftwareAsic \<Rightarrow> bool" where
  "not_forwarded a r a' \<longleftrightarrow> output_ports r = [] \<and> queue_of a' = queue_of a \<and>
     asic_statistics a' egress_packets = asic_statistics a egress_packets \<and>
     (disposition r = dropped \<and> drop_reason r \<noteq> drop_none \<or>
      disposition r = delivered_to_control_plane \<and> drop_reason r = drop_none)"

definition vlan_ports_of :: "SoftwareAsic \<Rightarrow> VlanId \<Rightarrow> PortId list" where
  "vlan_ports_of a vlan = (case map_find (asic_vlan_members a) vlan of None \<Rightarrow> [] | Some members \<Rightarrow> members)"

definition switched_within ::
  "SoftwareAsic \<Rightarrow> PortId \<Rightarrow> VlanPortConfig \<Rightarrow> EthernetFrame \<Rightarrow> PacketProcessingResult \<Rightarrow> SoftwareAsic \<Rightarrow> bool" where
  "switched_within a i config frame r a' \<longleftrightarrow>
     (\<exists>b disp vlan outs latency. disp \<in> {switched, flooded} \<and> SoftwareAsic_inv b \<and> same_setup a b \<and>
        classify_vlan_ingress frame config = AcceptedVlanIngress vlan \<and>
        distinct outs \<and> set outs \<subseteq> set (vlan_ports_of a vlan) - {i} \<and>
        SoftwareAsic_enqueue_outputs disp outs (EthernetFrame_serialize frame) latency b = (r, a'))"

definition routed_out ::
  "SoftwareAsic \<Rightarrow> EthernetFrame \<Rightarrow> TimePoint \<Rightarrow> PacketProcessingResult \<Rightarrow> SoftwareAsic \<Rightarrow> bool" where
  "routed_out a frame now r a' \<longleftrightarrow>
     (\<exists>b packet fw egress out latency. SoftwareAsic_inv b \<and> same_setup a b \<and>
        Ipv4Packet_parse (payload frame) = Some packet \<and>
        Ipv4ForwardingEngine_forward (asic_route_table a) packet = Forwarded fw \<and>
        map_find (asic_ports a) (fwd_output_port fw) = Some egress \<and> VirtualPort_operational egress \<and>
        encapsulate_ipv4_in_ethernet fw (port_mac_address egress) (asic_arp_cache a) now = Encapsulated out \<and>
        SoftwareAsic_enqueue_outputs routed [fwd_output_port fw] (EthernetFrame_serialize out) latency b = (r, a'))"

lemma not_forwarded_from: "same_setup a b \<Longrightarrow> not_forwarded b r a' \<Longrightarrow> not_forwarded a r a'"
  by (simp add: same_setup_queue_of not_forwarded_def) (simp add: same_setup_def)

lemma not_forwarded_dropped:
  "reason \<noteq> drop_none \<Longrightarrow> same_setup a a' \<Longrightarrow> not_forwarded a (dropped_result reason latency) a'"
  by (simp add: not_forwarded_def dropped_result_def same_setup_queue_of) (simp add: same_setup_def)

lemma member_vlan_classify:
  "classify_vlan_ingress frame config = AcceptedVlanIngress vlan \<Longrightarrow> member_vlan config frame = vlan"
  by (auto simp: classify_vlan_ingress_def member_vlan_def split: if_splits option.splits)

lemma process_control_plane_cases:
  "process_control_plane frame latency now a = (r, a') \<Longrightarrow> not_forwarded a r a'"
  by (auto simp: process_control_plane_def not_forwarded_def dropped_result_def split: option.splits)

lemma process_route_cases:
  assumes "SoftwareAsic_inv b" and "same_setup a b" and "process_route frame latency now b = (r, a')"
  shows "not_forwarded a r a' \<or> routed_out a frame now r a'"
proof -
  have eqs: "asic_route_table b = asic_route_table a" "asic_arp_cache b = asic_arp_cache a"
    using assms(2) by (simp_all add: same_setup_def)
  have drop: "not_forwarded a (dropped_result reason latency) b'"
    if "reason \<noteq> drop_none" "same_setup b b'" for reason b'
    using that assms(2) by (blast intro: not_forwarded_dropped same_setup_trans)
  show ?thesis
  proof (cases "Ipv4Packet_parse (payload frame)")
    case None
    then show ?thesis using assms(3) drop by (auto simp: process_route_def same_setup_updates)
  next
    case packet: (Some packet)
    show ?thesis
    proof (cases "Ipv4ForwardingEngine_forward (asic_route_table a) packet")
      case (Dropped reason)
      then show ?thesis
        using assms(3) drop packet by (auto simp: process_route_def eqs same_setup_updates split: if_splits)
    next
      case fw: (Forwarded fw)
      show ?thesis
      proof (cases "map_find (asic_ports b) (fwd_output_port fw)")
        case None
        then show ?thesis using assms(3) drop packet fw by (auto simp: process_route_def eqs)
      next
        case (Some egress)
        then obtain egress' where e: "map_find (asic_ports a) (fwd_output_port fw) = Some egress'"
          "port_mac_address egress = port_mac_address egress'"
          "VirtualPort_operational egress = VirtualPort_operational egress'"
          using same_setup_port [OF assms(2)] by blast
        show ?thesis
          using assms(3) drop packet fw Some e assms(1,2)
          by (cases "encapsulate_ipv4_in_ethernet fw (port_mac_address egress') (asic_arp_cache a) now")
            (auto simp: process_route_def eqs same_setup_updates routed_out_def split: if_splits)
      qed
    qed
  qed
qed

lemma switched_within_from: "same_setup a b \<Longrightarrow> switched_within b i c frame r a' \<Longrightarrow> switched_within a i c frame r a'"
  unfolding switched_within_def vlan_ports_of_def by (elim exE) (auto simp: same_setup_def)

lemma routed_out_from:
  assumes "same_setup a b" and "routed_out b frame now r a'"
  shows "routed_out a frame now r a'"
proof -
  have eqs: "asic_route_table b = asic_route_table a" "asic_arp_cache b = asic_arp_cache a"
    using assms(1) by (simp_all add: same_setup_def)
  from assms(2) show ?thesis
    unfolding routed_out_def eqs using same_setup_port [OF assms(1)] same_setup_trans [OF assms(1)] by (metis (no_types))
qed

lemma pipeline_accepted:
  "pipeline_action (fst (process_l2_l3_ingress frame i c ports t routers now)) \<noteq> pipeline_drop \<Longrightarrow>
   \<exists>vlan. classify_vlan_ingress frame c = AcceptedVlanIngress vlan"
  by (auto simp: process_l2_l3_ingress_def PipelineDecision_drop_def split: VlanIngressResult.splits)

lemma process_frame_cases:
  assumes "SoftwareAsic_inv a" and "map_find (asic_ports a) i = Some p"
    and "process_frame i p frame latency now a = (r, a')"
  shows "not_forwarded a r a' \<or> switched_within a i (port_vlan_config p) frame r a' \<or> routed_out a frame now r a'"
proof -
  define b where "b = a\<lparr>asic_ports := map_assign i (snd (VirtualPort_receive (length (payload frame)) p)) (asic_ports a)\<rparr>"
  define ports where "ports = vlan_ports_of a (member_vlan (port_vlan_config p) frame)"
  define decision where "decision = process_l2_l3_ingress frame i (port_vlan_config p) ports (asic_mac_table b)
    (asic_router_interfaces b) now"
  define c where "c = b\<lparr>asic_mac_table := snd decision\<rparr>"
  have b: "SoftwareAsic_inv b" "same_setup a b"
    unfolding b_def by (rule asic_inv_port [OF assms(1,2)], use port_lookup_ok [OF assms(1,2)] in
        \<open>simp_all add: port_ok_def same_setup_receive [OF assms(1,2)]\<close>)
  have ports_b: "(case map_find (asic_vlan_members b) (member_vlan (port_vlan_config p) frame) of
      None \<Rightarrow> [] | Some members \<Rightarrow> members) = ports"
    by (simp add: ports_def vlan_ports_of_def b_def)
  have "MacTable_inv (asic_mac_table b)" using b by (simp add: SoftwareAsic_inv_def tables_inv_def)
  then have c: "SoftwareAsic_inv c" "same_setup a c"
    using b same_setup_trans [OF b(2) same_setup_updates(2)]
    by (simp_all add: c_def decision_def asic_inv_mac_table process_inv)
  have drop: "not_forwarded a (dropped_result drop_vlan_rejected latency) (SoftwareAsic_count_pipeline_drop x c)" for x
    by (rule not_forwarded_dropped) (auto simp: SoftwareAsic_count_pipeline_drop_def
        intro: same_setup_trans [OF c(2)] same_setup_updates)
  have refused: "not_forwarded a (dropped_result drop_ingress_port_unavailable latency) b"
    using b(2) by (simp add: not_forwarded_dropped)
  have l2: "switched_within a i (port_vlan_config p) frame r a'"
    if "SoftwareAsic_enqueue_outputs disp (pipeline_output_ports (fst decision)) (EthernetFrame_serialize frame) latency c = (r, a')"
      "disp \<in> {switched, flooded}" "pipeline_action (fst decision) \<noteq> pipeline_drop" for disp
  proof -
    have "\<exists>vlan. classify_vlan_ingress frame (port_vlan_config p) = AcceptedVlanIngress vlan"
      using that(3) unfolding decision_def by (rule pipeline_accepted)
    then obtain vlan where vlan: "classify_vlan_ingress frame (port_vlan_config p) = AcceptedVlanIngress vlan" ..
    have "eligible i ports (pipeline_output_ports (fst decision))" unfolding decision_def by (rule process_eligible)
    moreover have "ports = vlan_ports_of a vlan" by (simp add: ports_def member_vlan_classify [OF vlan])
    ultimately show ?thesis unfolding switched_within_def using that(1,2) c vlan eligible_def by blast
  qed
  have result: "process_frame i p frame latency now a =
      (if \<not> fst (VirtualPort_receive (length (payload frame)) p) then (dropped_result drop_ingress_port_unavailable latency, b)
       else case pipeline_action (fst decision) of
          pipeline_drop \<Rightarrow> (dropped_result drop_vlan_rejected latency,
             SoftwareAsic_count_pipeline_drop (the (pipeline_drop_reason (fst decision))) c)
        | deliver_to_control_plane \<Rightarrow> process_control_plane frame latency now c
        | route_ipv4 \<Rightarrow> process_route frame latency now c
        | pipeline_flood \<Rightarrow> SoftwareAsic_enqueue_outputs flooded (pipeline_output_ports (fst decision))
            (EthernetFrame_serialize frame) latency c
        | switch_known_unicast \<Rightarrow> SoftwareAsic_enqueue_outputs switched (pipeline_output_ports (fst decision))
            (EthernetFrame_serialize frame) latency c)"
    unfolding process_frame_def Let_def case_prod_beta receive_keeps b_def [symmetric] ports_b
      decision_def [symmetric] c_def [symmetric] by (rule refl)
  show ?thesis
    using assms(3) refused drop l2 process_route_cases [OF c] process_control_plane_cases not_forwarded_from [OF c(2)]
    unfolding result by (cases "pipeline_action (fst decision)") (auto split: if_splits, blast)
qed

lemma process_packet_cases:
  assumes "SoftwareAsic_inv a" and "SoftwareAsic_process_packet i bs now a = (r, a')"
  shows "not_forwarded a r a' \<or>
    (\<exists>p bs' frame. map_find (asic_ports a) i = Some p \<and> VirtualPort_operational p \<and>
       EthernetFrame_parse bs' = Some frame \<and> corruption_of bs bs' \<and>
       (fault_free (fault_config (asic_fault_injector a)) \<longrightarrow> bs' = bs) \<and>
       (switched_within a i (port_vlan_config p) frame r a' \<or> routed_out a frame now r a'))"
proof (cases "map_find (asic_ports a) i")
  case None
  then show ?thesis using assms(2) by (auto simp: SoftwareAsic_process_packet_def not_forwarded_dropped)
next
  case (Some p)
  define b where "b = count ingress_bytes (of_nat (length bs)) (count ingress_packets 1 a)"
  define fault where "fault = FaultInjector_process i bs (asic_fault_injector b)"
  define c where "c = b\<lparr>asic_fault_injector := snd fault\<rparr>"
  define d where "d x = (if x then count corrupted_packets 1 c else c)" for x
  have b: "same_setup a b" unfolding b_def by (rule same_setup_trans; rule same_setup_updates) simp_all
  have c: "same_setup a c" unfolding c_def fault_def by (rule same_setup_trans [OF b same_setup_updates(3)])
  have d: "same_setup a (d x)" for x using c same_setup_trans [OF c same_setup_updates(1)] by (simp add: d_def)
  have "SoftwareAsic_inv b" "map_find (asic_ports b) i = Some p" using assms(1) Some by (simp_all add: b_def)
  then have d_inv: "SoftwareAsic_inv (d x)" "map_find (asic_ports (d x)) i = Some p" for x
    using asic_inv_injector [of b i bs] by (simp_all add: d_def c_def fault_def)
  have drops: "not_forwarded a (dropped_result reason latency) (count counter n b')"
    if "reason \<noteq> drop_none" "same_setup a b'" "counter \<noteq> egress_packets" for reason latency counter n b'
    using that same_setup_trans same_setup_updates(1) by (blast intro: not_forwarded_dropped)
  show ?thesis
  proof (cases "VirtualPort_operational p")
    case False
    then show ?thesis using assms(2) Some by (auto simp: SoftwareAsic_process_packet_def not_forwarded_dropped)
  next
    case up: True
    then have result: "SoftwareAsic_process_packet i bs now a =
        (case fst fault of
           FaultDropped reason \<Rightarrow>
             (dropped_result (if reason = resource_exhaustion then drop_resource_exhaustion else drop_injected_fault) 0,
              count_fault_drop reason c)
         | Injected packet \<Rightarrow>
             (case EthernetFrame_parse (injected_bytes packet) of
                None \<Rightarrow> (dropped_result drop_malformed_frame (injected_latency packet),
                  count parse_errors 1 (d (injected_corrupted packet)))
              | Some frame \<Rightarrow> process_frame i p frame (injected_latency packet) now (d (injected_corrupted packet))))"
      unfolding SoftwareAsic_process_packet_def Let_def case_prod_beta b_def [symmetric] fault_def [symmetric]
        c_def [symmetric] d_def [symmetric] Some by simp
    show ?thesis
    proof (cases "fst fault")
      case (FaultDropped reason)
      then show ?thesis using assms(2) c drops unfolding result by (auto simp: count_fault_drop_def)
    next
      case (Injected packet)
      have bytes: "corruption_of bs (injected_bytes packet)"
        "fault_free (fault_config (asic_fault_injector a)) \<longrightarrow> injected_bytes packet = bs"
        using process_corruption [of i bs "asic_fault_injector b" packet] process_fault_free [of "asic_fault_injector b" i bs] Injected
        by (cases fault; auto simp: fault_def b_def)+
      show ?thesis
      proof (cases "EthernetFrame_parse (injected_bytes packet)")
        case None
        then show ?thesis using assms(2) Injected d drops by (auto simp: result)
      next
        case frame: (Some frame)
        then show ?thesis
          using process_frame_cases [OF d_inv] assms(2) Injected Some up bytes not_forwarded_from [OF d]
            switched_within_from [OF d] routed_out_from [OF d] unfolding result by simp metis
      qed
    qed
  qed
qed

end
