(* ===== verification/Asic_Traffic.thy ===== *)
theory Asic_Traffic
  imports Asic_Forwarding
begin

text \<open>
  The end-to-end behaviour of the software switch on traffic: isolation of VLANs, transparent
  switching, the rewriting of routed packets, delivery when nothing stands in the way, and the
  accounting of every packet. The properties speak of any switch that \<open>create\<close> made and any
  sequence of valid operations brought into its present state.
\<close>

section \<open>A packet that meets no obstacle\<close>

lemma same_setup_port_back:
  assumes "same_setup a b" and "map_find (asic_ports a) i = Some p"
  shows "\<exists>p'. map_find (asic_ports b) i = Some p' \<and> port_mac_address p' = port_mac_address p \<and>
    VirtualPort_operational p' = VirtualPort_operational p \<and> port_mtu p' = port_mtu p"
proof -
  let ?f = "\<lambda>p. (port_mac_address p, port_vlan_config p, VirtualPort_operational p, port_mtu p)"
  have "map_option ?f (map_find (asic_ports b) i) = map_option ?f (map_find (asic_ports a) i)"
    using assms(1) by (simp only: same_setup_def)
  then show ?thesis using assms(2) by (cases "map_find (asic_ports b) i") auto
qed

text \<open>
  Without faults, a well-formed frame on an operational port reaches \<open>process_frame\<close>, and a frame
  for the router reaches \<open>process_route\<close>, in a state that differs by counters and learning.
\<close>

lemma process_packet_frame:
  assumes "SoftwareAsic_inv a" and "fault_free (fault_config (asic_fault_injector a))"
    and "map_find (asic_ports a) i = Some p" and "VirtualPort_operational p"
    and "EthernetFrame_parse bs = Some frame"
  shows "\<exists>b latency. SoftwareAsic_inv b \<and> same_setup a b \<and> map_find (asic_ports b) i = Some p \<and>
    asic_mac_table b = asic_mac_table a \<and>
    SoftwareAsic_process_packet i bs now a = process_frame i p frame latency now b"
proof -
  let ?b = "count ingress_bytes (of_nat (length bs)) (count ingress_packets 1 a)"
  let ?c = "?b\<lparr>asic_fault_injector := snd (FaultInjector_process i bs (asic_fault_injector ?b))\<rparr>"
  have b: "same_setup a ?b" by (rule same_setup_trans; rule same_setup_updates) simp_all
  have "SoftwareAsic_inv ?c" using assms(1) by (intro asic_inv_injector) simp
  moreover have "same_setup a ?c" by (rule same_setup_trans [OF b same_setup_updates(3)])
  moreover have "SoftwareAsic_process_packet i bs now a =
      process_frame i p frame (fault_latency (fault_config (asic_fault_injector a))) now ?c"
    using assms(2-5) process_fault_free [of "asic_fault_injector ?b" i bs]
    by (simp add: SoftwareAsic_process_packet_def Let_def case_prod_beta)
  ultimately show ?thesis
    using assms(3) by (intro exI [of _ ?c] exI) (simp add: count_def)
qed

lemma process_frame_routed:
  assumes "SoftwareAsic_inv a" and "map_find (asic_ports a) i = Some p" and "VirtualPort_operational p"
    and "length (payload frame) \<le> port_mtu p"
    and "classify_vlan_ingress frame (port_vlan_config p) = AcceptedVlanIngress vlan"
    and "is_valid_unicast (source frame)" and "\<not> MacTable_pinned (asic_mac_table a) vlan (source frame)"
    and "map_find (asic_router_interfaces a) vlan = Some (destination frame)" and "ether_type frame = EtherType_ipv4"
  shows "\<exists>b. SoftwareAsic_inv b \<and> same_setup a b \<and>
    process_frame i p frame latency now a = process_route frame latency now b"
proof -
  let ?p = "snd (VirtualPort_receive (length (payload frame)) p)"
  let ?b = "a\<lparr>asic_ports := map_assign i ?p (asic_ports a)\<rparr>"
  let ?learn = "MacTable_learn vlan (source frame) i now (asic_mac_table a)"
  have b: "SoftwareAsic_inv ?b" "same_setup a ?b"
    by (rule asic_inv_port [OF assms(1,2)], use port_lookup_ok [OF assms(1,2)] in
        \<open>simp_all add: port_ok_def same_setup_receive [OF assms(1,2)]\<close>)
  let ?c = "?b\<lparr>asic_mac_table := snd ?learn\<rparr>"
  have "MacTable_inv (asic_mac_table a)" using assms(1) by (simp add: SoftwareAsic_inv_def tables_inv_def)
  then have "SoftwareAsic_inv ?c" by (intro asic_inv_mac_table [OF b(1)] mac_learning.inv_learn)
  moreover have "same_setup a ?c" by (rule same_setup_trans [OF b(2) same_setup_updates(2)])
  moreover have "fst ?learn \<noteq> mac_rejected" "fst ?learn \<noteq> mac_static_conflict"
    using assms(6,7)
    by (auto simp: MacTable_learn_def MacTable_update_def MacTable_pinned_def MacTable_lookup_def MacTableEntry_is_static_def
        Let_def split: option.splits)
  then have "process_frame i p frame latency now a = process_route frame latency now ?c"
    using assms(3-5,8,9)
    by (simp add: process_frame_def Let_def case_prod_beta process_l2_l3_ingress_def pipeline_dispatch_def
        PipelineDecision_accept_def VirtualPort_receive_def)
  ultimately show ?thesis by blast
qed

text \<open>
  What one output port does with a frame when it is up and no fault is injected: it takes it if its MTU admits the
  whole frame and its queue has room; a frame that it does not take is dropped as congestion, whatever the obstacle.
\<close>

definition port_admits :: "VirtualPort \<Rightarrow> bytes BoundedQueue \<Rightarrow> bytes \<Rightarrow> bool" where
  "port_admits port q bs \<longleftrightarrow> length bs \<le> port_mtu port \<and> length (queue_items q) < queue_capacity q"

lemma enqueue_decided:
  assumes "SoftwareAsic_inv a" and "fault_free (fault_config (asic_fault_injector a))"
    and "map_find (asic_ports a) i = Some p" and "VirtualPort_operational p"
    and "map_find (asic_queues a) i = Some q"
    and "SoftwareAsic_enqueue_outputs disp [i] bs latency a = (r, a')"
  shows "if port_admits p q bs
    then disposition r = disp \<and> output_ports r = [i] \<and> drop_reason r = drop_none \<and>
      asic_queues a' = map_assign i (q\<lparr>queue_items := queue_items q @ [bs]\<rparr>) (asic_queues a)
    else disposition r = dropped \<and> output_ports r = [] \<and> drop_reason r = drop_queue_congestion \<and>
      asic_queues a' = asic_queues a"
proof -
  have "\<not> queue_closed q" using queue_lookup_ok [OF assms(1,5)] by (simp add: queue_ok_def)
  then show ?thesis
    using assms(2-6)
    by (auto simp: SoftwareAsic_enqueue_outputs_def enqueue_one_def process_fault_free Let_def BoundedQueue_try_enqueue_def
        port_admits_def dropped_result_def not_less split: if_splits)
qed

text \<open>The disposition of the result tells which way a packet went.\<close>

lemma dropped_disposition: "r = dropped_result reason latency \<Longrightarrow> disposition r = dropped"
  by (simp add: dropped_result_def)

lemma enqueue_outputs_disposition:
  "SoftwareAsic_enqueue_outputs disp ports bs latency a = (r, a') \<Longrightarrow> disposition r = disp \<or> disposition r = dropped"
  by (auto simp: SoftwareAsic_enqueue_outputs_def dropped_result_def case_prod_beta split: if_splits)

lemma switched_within_disposition: "switched_within a i c frame r a' \<Longrightarrow> disposition r \<noteq> routed"
  using enqueue_outputs_disposition by (force simp: switched_within_def)

lemma routed_out_disposition: "routed_out a frame now r a' \<Longrightarrow> disposition r \<notin> {switched, flooded}"
  using enqueue_outputs_disposition by (force simp: routed_out_def)

lemma process_packet_switched:
  assumes "SoftwareAsic_inv a" and "SoftwareAsic_process_packet i bs now a = (r, a')"
    and "disposition r \<in> {switched, flooded}"
  shows "\<exists>p bs' frame. map_find (asic_ports a) i = Some p \<and> EthernetFrame_parse bs' = Some frame \<and> corruption_of bs bs' \<and>
    (fault_free (fault_config (asic_fault_injector a)) \<longrightarrow> bs' = bs) \<and>
    switched_within a i (port_vlan_config p) frame r a'"
proof -
  have "\<not> not_forwarded a r a'" using assms(3) by (auto simp: not_forwarded_def)
  with process_packet_cases [OF assms(1,2)] routed_out_disposition assms(3) show ?thesis by blast
qed

lemma process_packet_routed:
  assumes "SoftwareAsic_inv a" and "SoftwareAsic_process_packet i bs now a = (r, a')" and "disposition r = routed"
  shows "\<exists>bs' frame. EthernetFrame_parse bs' = Some frame \<and>
    (fault_free (fault_config (asic_fault_injector a)) \<longrightarrow> bs' = bs) \<and> routed_out a frame now r a'"
proof -
  have "\<not> not_forwarded a r a'" using assms(3) by (auto simp: not_forwarded_def)
  with process_packet_cases [OF assms(1,2)] switched_within_disposition assms(3) show ?thesis by blast
qed

lemma routable_packet:
  assumes inv: "SoftwareAsic_inv a" and "fault_free (fault_config (asic_fault_injector a))"
    and "map_find (asic_ports a) i = Some p" and "VirtualPort_operational p"
    and "EthernetFrame_parse bs = Some frame" and "length (payload frame) \<le> port_mtu p"
    and "classify_vlan_ingress frame (port_vlan_config p) = AcceptedVlanIngress vlan"
    and "is_valid_unicast (source frame)" and "\<not> MacTable_pinned (asic_mac_table a) vlan (source frame)"
    and "map_find (asic_router_interfaces a) vlan = Some (destination frame)" and "ether_type frame = EtherType_ipv4"
    and "Ipv4Packet_parse (payload frame) = Some packet"
    and "Ipv4ForwardingEngine_forward (asic_route_table a) packet = Forwarded fw"
    and "map_find (asic_ports a) (fwd_output_port fw) = Some egress" and "VirtualPort_operational egress"
    and "encapsulate_ipv4_in_ethernet fw (port_mac_address egress) (asic_arp_cache a) now = Encapsulated out"
    and "map_find (asic_queues a) (fwd_output_port fw) = Some q"
    and "SoftwareAsic_process_packet i bs now a = (r, a')"
  shows "if port_admits egress q (EthernetFrame_serialize out)
    then disposition r = routed \<and> output_ports r = [fwd_output_port fw] \<and> drop_reason r = drop_none \<and>
      asic_queues a' = map_assign (fwd_output_port fw)
        (q\<lparr>queue_items := queue_items q @ [EthernetFrame_serialize out]\<rparr>) (asic_queues a)
    else disposition r = dropped \<and> output_ports r = [] \<and> drop_reason r = drop_queue_congestion \<and>
      asic_queues a' = asic_queues a"
proof -
  obtain b latency where b: "SoftwareAsic_inv b" "same_setup a b" "map_find (asic_ports b) i = Some p"
      "asic_mac_table b = asic_mac_table a"
      "SoftwareAsic_process_packet i bs now a = process_frame i p frame latency now b"
    using process_packet_frame [OF inv assms(2-5)] by blast
  have "map_find (asic_router_interfaces b) vlan = Some (destination frame)"
    using assms(10) b(2) by (simp add: same_setup_def)
  then obtain c where c: "SoftwareAsic_inv c" "same_setup b c"
      "process_frame i p frame latency now b = process_route frame latency now c"
    using process_frame_routed [OF b(1,3) assms(4,6,7,8)] assms(9,11) b(4) by metis
  have ac: "same_setup a c" by (rule same_setup_trans [OF b(2) c(2)])
  then have eqs: "asic_route_table c = asic_route_table a" "asic_arp_cache c = asic_arp_cache a"
      "asic_queues c = asic_queues a" "fault_config (asic_fault_injector c) = fault_config (asic_fault_injector a)"
    by (simp_all add: same_setup_def)
  obtain e where e: "map_find (asic_ports c) (fwd_output_port fw) = Some e" "port_mac_address e = port_mac_address egress"
      "VirtualPort_operational e" "port_mtu e = port_mtu egress"
    using same_setup_port_back [OF ac assms(14)] assms(15) by auto
  have "process_route frame latency now c =
      SoftwareAsic_enqueue_outputs routed [fwd_output_port fw] (EthernetFrame_serialize out) latency c"
    using assms(12,13,16) e by (simp add: process_route_def eqs)
  then have r: "SoftwareAsic_enqueue_outputs routed [fwd_output_port fw] (EthernetFrame_serialize out) latency c = (r, a')"
    using b(5) c(3) assms(18) by simp
  have free: "fault_free (fault_config (asic_fault_injector c))" and q: "map_find (asic_queues c) (fwd_output_port fw) = Some q"
    using assms(2,17) eqs by simp_all
  have "port_admits e = port_admits egress" by (intro ext) (simp add: port_admits_def e(4))
  then show ?thesis using enqueue_decided [OF c(1) free e(1,3) q r] by (simp only: eqs(3))
qed

section \<open>Properties\<close>

lemma created_run_inv:
  "SoftwareAsic_create capacity = Some a0 \<Longrightarrow> list_all valid_op ops \<Longrightarrow> SoftwareAsic_inv (run SoftwareAsic_step a0 ops)"
  by (rule asic_machine.inv_valid_run [OF SoftwareAsic_create_inv])

text \<open>A switch with two ports in VLAN 10, a router interface, a route and a neighbour.\<close>

definition sample_route :: RouteEntry where
  "sample_route = \<lparr>route_prefix = Ipv4Prefix (Ipv4Address 0x0A000200) 24,
     route_next_hop = Some (Ipv4Address 0x0A000102), route_output_port = PortId 2\<rparr>"

definition sample_ops :: "AsicOp list" where
  "sample_ops = [CreatePort (sample_port 1) 4, CreatePort (sample_port 2) 4,
     SetPortState (PortId 1) True True, SetPortState (PortId 2) True True,
     CreateVlan (VlanId 10), AddVlanMember (VlanId 10) (PortId 1), AddVlanMember (VlanId 10) (PortId 2),
     SetRouterInterface (VlanId 10) (MacAddress 2 0 0 0 0 0xFE),
     AddOrReplaceRoute sample_route, AddOrReplaceNeighbor (Ipv4Address 0x0A000102) sample_neighbour 5]"

definition sample_switch :: SoftwareAsic where
  "sample_switch = run SoftwareAsic_step sample_asic sample_ops"

definition sample_flood :: "PacketProcessingResult \<times> SoftwareAsic" where
  "sample_flood = SoftwareAsic_process_packet (PortId 1) (EthernetFrame_serialize sample_broadcast) 6 sample_switch"

definition sample_routed_frame :: EthernetFrame where
  "sample_routed_frame = \<lparr>destination = MacAddress 2 0 0 0 0 0xFE, source = sample_mac,
     ether_type = EtherType_ipv4, payload = Ipv4Packet_serialize sample_packet, vlan_tag = None\<rparr>"

lemma sample_ops_valid: "list_all valid_op sample_ops"
  using sample_port_valid by (simp add: sample_ops_def del: valid_op.simps(1))

lemma sample_flooded: "disposition (fst sample_flood) = flooded \<and> output_ports (fst sample_flood) = [PortId 2]"
  by code_simp

lemma sample_switch_fault_free: "fault_free (fault_config (asic_fault_injector sample_switch))"
  by code_simp

lemma sample_flood_eq:
  "SoftwareAsic_process_packet (PortId 1) (EthernetFrame_serialize sample_broadcast) 6 sample_switch =
     (fst sample_flood, snd sample_flood)"
  by (simp add: sample_flood_def)

lemmas sample_switch_run = sample_asic_created sample_ops_valid sample_switch_def

text \<open>
  Property C1: VLANs are isolated. Whatever configuration the switch was brought into, a frame that it switches or
  floods stays within the VLAN it belongs to: the one of its tag if a trunk port received it with a tag, the native
  VLAN of the trunk if without, and the VLAN of the port if an access port received it, untagged. The ingress port
  allows that VLAN; every output port is another port, is in the switch's member list of the VLAN and allows it; and
  each of them gets the frame once, at the end of its queue, while the queues of all other ports stay as they were.
  The frame is the one that came in; only injected faults alter its first byte, which holds no part of the tag.
\<close>

theorem vlan_isolation:
  assumes "SoftwareAsic_create capacity = Some a0" and "list_all valid_op ops"
    and "a = run SoftwareAsic_step a0 ops"
    and "SoftwareAsic_process_packet i bs now a = (r, a')" and "disposition r \<in> {switched, flooded}"
  shows "\<exists>port bs' frame vlan x. map_find (asic_ports a) i = Some port \<and>
    corruption_of bs bs' \<and> EthernetFrame_parse bs' = Some frame \<and>
    vlan_of_frame (port_vlan_config port) frame = Some vlan \<and> VlanPortConfig_allows (port_vlan_config port) vlan \<and>
    set (output_ports r) \<subseteq> set (vlan_ports_of a vlan) - {i} \<and> (\<forall>p \<in> set (output_ports r). member_ok a vlan p) \<and>
    (\<forall>p. queue_of a' p = queue_of a p @ (if p \<in> set (output_ports r) then [x p] else []) \<and> corruption_of bs' (x p)) \<and>
    (fault_free (fault_config (asic_fault_injector a)) \<longrightarrow> bs' = bs \<and> (\<forall>p. x p = bs))"
proof -
  have inv: "SoftwareAsic_inv a" using created_run_inv assms(1-3) by blast
  obtain port bs' frame where port: "map_find (asic_ports a) i = Some port"
    and frame: "EthernetFrame_parse bs' = Some frame" "corruption_of bs bs'"
      "fault_free (fault_config (asic_fault_injector a)) \<longrightarrow> bs' = bs"
    and sw: "switched_within a i (port_vlan_config port) frame r a'"
    using process_packet_switched [OF inv assms(4,5)] by blast
  then obtain b disp vlan outs latency where b: "SoftwareAsic_inv b" "distinct outs" "same_setup a b"
      "classify_vlan_ingress frame (port_vlan_config port) = AcceptedVlanIngress vlan"
      "set outs \<subseteq> set (vlan_ports_of a vlan) - {i}"
      "SoftwareAsic_enqueue_outputs disp outs (EthernetFrame_serialize frame) latency b = (r, a')"
    unfolding switched_within_def by blast
  have bs': "EthernetFrame_serialize frame = bs'" using frame(1) by (rule ethernet.serialize_parse)
  have config: "VlanPortConfig_wf (port_vlan_config port)" using port_lookup_ok [OF inv port] by (simp add: port_ok_def)
  obtain x where x: "delivery b a' (output_ports r) x" "set (output_ports r) \<subseteq> set outs"
      "\<forall>p. corruption_of bs' (x p) \<and> (fault_free (fault_config (asic_fault_injector b)) \<longrightarrow> x p = bs')"
    using enqueue_outputs_delivery [OF b(1,2,6)] bs' by blast
  have queues: "\<forall>p. queue_of a' p = queue_of a p @ (if p \<in> set (output_ports r) then [x p] else []) \<and> corruption_of bs' (x p)"
    using same_setup_delivery [OF b(3) x(1)] x(3) by (simp add: delivery_def)
  have members: "member_ok a vlan p" if "p \<in> set (vlan_ports_of a vlan)" for p
    using inv that
    by (cases "map_find (asic_vlan_members a) vlan") (auto simp: SoftwareAsic_inv_def vlans_inv_def vlan_ports_of_def)
  have unaltered: "fault_free (fault_config (asic_fault_injector a)) \<longrightarrow> bs' = bs \<and> (\<forall>p. x p = bs)"
    using frame(3) x(3) b(3) by (auto simp: same_setup_def)
  have outs: "set (output_ports r) \<subseteq> set (vlan_ports_of a vlan) - {i}" using b(5) x(2) by blast
  show ?thesis
    by (intro exI [of _ port] exI [of _ bs'] exI [of _ frame] exI [of _ vlan] exI [of _ x] conjI)
      (use port frame(1,2) classify_vlan_of_frame [OF config b(4)] classify_allowed [OF config b(4)] outs members queues unaltered
       in \<open>auto\<close>)
qed

theorem vlan_isolation_witness:
  "\<exists>port vlan. map_find (asic_ports sample_switch) (PortId 1) = Some port \<and>
    vlan_of_frame (port_vlan_config port) sample_broadcast = Some vlan \<and> PortId 2 \<in> set (vlan_ports_of sample_switch vlan)"
proof -
  have parsed: "EthernetFrame_parse (EthernetFrame_serialize sample_broadcast) = Some sample_broadcast" by code_simp
  show ?thesis
    using vlan_isolation [OF sample_switch_run sample_flood_eq] sample_flooded sample_switch_fault_free parsed by fastforce
qed

text \<open>
  Property C2: switching is transparent. Without injected faults, a frame that is switched or
  flooded is appended, bit for bit as it came in, to the queue of every output port of the
  result, once each, and no other queue changes.
\<close>

theorem switching_transparent:
  assumes "SoftwareAsic_create capacity = Some a0" and "list_all valid_op ops"
    and "a = run SoftwareAsic_step a0 ops" and "fault_free (fault_config (asic_fault_injector a))"
    and "SoftwareAsic_process_packet i bs now a = (r, a')" and "disposition r \<in> {switched, flooded}"
  shows "output_ports r \<noteq> [] \<and> distinct (output_ports r) \<and>
    (\<forall>p. queue_of a' p = (if p \<in> set (output_ports r) then queue_of a p @ [bs] else queue_of a p))"
proof -
  have inv: "SoftwareAsic_inv a" using created_run_inv assms(1-3) by blast
  obtain port :: VirtualPort and frame where "switched_within a i (port_vlan_config port) frame r a'" and frame: "EthernetFrame_parse bs = Some frame"
    using process_packet_switched [OF inv assms(5,6)] assms(4) by metis
  then obtain b disp outs latency where b: "SoftwareAsic_inv b" "distinct outs" "same_setup a b"
      "SoftwareAsic_enqueue_outputs disp outs (EthernetFrame_serialize frame) latency b = (r, a')"
    unfolding switched_within_def by blast
  have bs: "EthernetFrame_serialize frame = bs" using frame by (rule ethernet.serialize_parse)
  have "fault_free (fault_config (asic_fault_injector b))" using b(3) assms(4) by (simp add: same_setup_def)
  then obtain x where x: "delivery b a' (output_ports r) x" "\<forall>p. x p = bs"
      "output_ports r \<noteq> [] \<or> r = dropped_result drop_queue_congestion (result_latency r)"
    using enqueue_outputs_delivery [OF b(1,2,4)] bs by blast
  have "output_ports r \<noteq> []"
    using x(3) assms(6) dropped_disposition [of r drop_queue_congestion "result_latency r"] by force
  then show ?thesis using same_setup_delivery [OF b(3) x(1)] x(2) by (simp add: delivery_def)
qed

theorem switching_transparent_witness:
  "queue_of (snd sample_flood) (PortId 2) = queue_of sample_switch (PortId 2) @ [EthernetFrame_serialize sample_broadcast] \<and>
   queue_of (snd sample_flood) (PortId 1) = queue_of sample_switch (PortId 1)"
  using switching_transparent [OF sample_switch_run sample_switch_fault_free sample_flood_eq] sample_flooded by simp

text \<open>What \<open>routed_out\<close> says of the packet and the route.\<close>

lemma routed_out_rewritten:
  assumes "SoftwareAsic_inv a" and "fault_free (fault_config (asic_fault_injector a))"
    and "routed_out a frame now r a'" and "disposition r = routed"
  shows "\<exists>packet route egress out. Ipv4Packet_parse (payload frame) = Some packet \<and> unat (ip_time_to_live packet) > 1 \<and>
    best_of (ip_destination packet) (set (asic_route_table a)) (Some route) \<and>
    map_find (asic_ports a) (route_output_port route) = Some egress \<and>
    output_ports r = [route_output_port route] \<and>
    queue_of a' = (queue_of a)(route_output_port route :=
      queue_of a (route_output_port route) @ [EthernetFrame_serialize out]) \<and>
    EthernetFrame_parse (EthernetFrame_serialize out) = Some out \<and>
    source out = port_mac_address egress \<and>
    ArpCache_lookup (asic_arp_cache a) (case route_next_hop route of Some hop \<Rightarrow> hop | None \<Rightarrow> ip_destination packet) now =
      Some (destination out) \<and>
    Ipv4Packet_parse (payload out) = Some (packet\<lparr>ip_time_to_live := ip_time_to_live packet - 1\<rparr>)"
proof -
  obtain b packet fw egress out latency where b: "SoftwareAsic_inv b" "same_setup a b"
      and packet: "Ipv4Packet_parse (payload frame) = Some packet"
      and fw: "Ipv4ForwardingEngine_forward (asic_route_table a) packet = Forwarded fw"
      and egress: "map_find (asic_ports a) (fwd_output_port fw) = Some egress"
      and out: "encapsulate_ipv4_in_ethernet fw (port_mac_address egress) (asic_arp_cache a) now = Encapsulated out"
      and enq: "SoftwareAsic_enqueue_outputs routed [fwd_output_port fw] (EthernetFrame_serialize out) latency b = (r, a')"
    using assms(3) unfolding routed_out_def by blast
  have wf: "Ipv4Packet_wf packet" using packet by (rule ipv4.parse_wf)
  have "RouteTable_inv (asic_route_table a)" using assms(1) by (simp add: SoftwareAsic_inv_def tables_inv_def)
  then obtain route where route: "best_of (ip_destination packet) (set (asic_route_table a)) (Some route)"
      "unat (ip_time_to_live packet) > 1"
      "fw = \<lparr>fwd_packet = packet\<lparr>ip_time_to_live := ip_time_to_live packet - 1\<rparr>,
         fwd_output_port = route_output_port route,
         fwd_next_hop = (case route_next_hop route of Some hop \<Rightarrow> hop | None \<Rightarrow> ip_destination packet)\<rparr>"
    using fw by (auto simp: forward_Forwarded_iff [OF wf] lpm_Some_iff word_le_nat_alt)
  have frame_out: "EthernetFrame_parse (EthernetFrame_serialize out) = Some out"
      "Ipv4Packet_parse (Ipv4Packet_serialize (fwd_packet fw)) = Some (fwd_packet fw)"
    using encapsulate_wf [OF out] forward_wf [OF wf fw] by (simp_all add: ethernet.parse_serialize ipv4.parse_serialize)
  have "fault_free (fault_config (asic_fault_injector b))" using b(2) assms(2) by (simp add: same_setup_def)
  then obtain x where x: "delivery b a' (output_ports r) x" "\<forall>p. x p = EthernetFrame_serialize out"
      "set (output_ports r) \<subseteq> {fwd_output_port fw}"
      "output_ports r \<noteq> [] \<or> r = dropped_result drop_queue_congestion (result_latency r)"
    using enqueue_outputs_delivery [OF b(1) _ enq] by auto
  have "distinct (output_ports r)" using x(1) by (simp add: delivery_def)
  moreover have "output_ports r \<noteq> []"
    using x(4) assms(4) dropped_disposition [of r drop_queue_congestion "result_latency r"] by force
  ultimately have ports: "output_ports r = [fwd_output_port fw]" using x(3) by (cases "output_ports r"; cases "tl (output_ports r)") auto
  have "queue_of a' = (queue_of a)(fwd_output_port fw := queue_of a (fwd_output_port fw) @ [EthernetFrame_serialize out])"
    using same_setup_delivery [OF b(2) x(1)] x(2) ports by (auto simp: delivery_def)
  then show ?thesis
    using packet route egress ports frame_out out by (force simp: encapsulate_Encapsulated_iff)
qed

text \<open>
  Property C3: what a routed packet looks like. Without injected faults, a packet that the switch
  reports as routed was a valid IPv4 packet; the frame appended to the queue of the one output
  port leaves from that port's own address to the address that the neighbour cache holds for the
  next hop of the longest matching route, and carries the packet with its time to live one lower
  and everything else, its checksum included, valid and unchanged.
\<close>

theorem routed_packet_rewritten:
  assumes "SoftwareAsic_create capacity = Some a0" and "list_all valid_op ops"
    and "a = run SoftwareAsic_step a0 ops" and "fault_free (fault_config (asic_fault_injector a))"
    and "SoftwareAsic_process_packet i bs now a = (r, a')" and "disposition r = routed"
  shows "\<exists>frame packet route egress out. EthernetFrame_parse bs = Some frame \<and>
    Ipv4Packet_parse (payload frame) = Some packet \<and> unat (ip_time_to_live packet) > 1 \<and>
    best_of (ip_destination packet) (set (asic_route_table a)) (Some route) \<and>
    map_find (asic_ports a) (route_output_port route) = Some egress \<and>
    output_ports r = [route_output_port route] \<and>
    queue_of a' = (queue_of a)(route_output_port route :=
      queue_of a (route_output_port route) @ [EthernetFrame_serialize out]) \<and>
    EthernetFrame_parse (EthernetFrame_serialize out) = Some out \<and>
    source out = port_mac_address egress \<and>
    ArpCache_lookup (asic_arp_cache a) (case route_next_hop route of Some hop \<Rightarrow> hop | None \<Rightarrow> ip_destination packet) now =
      Some (destination out) \<and>
    Ipv4Packet_parse (payload out) = Some (packet\<lparr>ip_time_to_live := ip_time_to_live packet - 1\<rparr>)"
proof -
  have inv: "SoftwareAsic_inv a" using created_run_inv assms(1-3) by blast
  obtain frame where "EthernetFrame_parse bs = Some frame" and "routed_out a frame now r a'"
    using process_packet_routed [OF inv assms(5,6)] assms(4) by auto
  then show ?thesis using routed_out_rewritten [OF inv assms(4) _ assms(6)] by blast
qed

definition sample_up_port :: "u16 \<Rightarrow> VirtualPort" where
  "sample_up_port n = (sample_port n)\<lparr>port_admin_enabled := True, port_link_up := True\<rparr>"

definition sample_fw :: ForwardedIpv4Packet where
  "sample_fw = \<lparr>fwd_packet = sample_packet\<lparr>ip_time_to_live := 63\<rparr>, fwd_output_port = PortId 2,
     fwd_next_hop = Ipv4Address 0x0A000102\<rparr>"

definition sample_routed_out :: EthernetFrame where
  "sample_routed_out = \<lparr>destination = sample_neighbour, source = MacAddress 2 0 0 0 1 1,
     ether_type = EtherType_ipv4, payload = Ipv4Packet_serialize (sample_packet\<lparr>ip_time_to_live := 63\<rparr>), vlan_tag = None\<rparr>"

definition sample_routing :: "PacketProcessingResult \<times> SoftwareAsic" where
  "sample_routing = SoftwareAsic_process_packet (PortId 1) (EthernetFrame_serialize sample_routed_frame) 6 sample_switch"

lemma sample_switch_parts:
  "asic_ports sample_switch = [(PortId 1, sample_up_port 1), (PortId 2, sample_up_port 2)]"
  "map_find (asic_queues sample_switch) (PortId 2) =
     Some \<lparr>queue_capacity = 4, queue_items = [], queue_closed = False\<rparr>"
  "asic_route_table sample_switch = [sample_route]"
  "asic_router_interfaces sample_switch = [(VlanId 10, MacAddress 2 0 0 0 0 0xFE)]"
  "mac_entries (asic_mac_table sample_switch) = []"
  "ArpCache_lookup (asic_arp_cache sample_switch) (Ipv4Address 0x0A000102) 6 = Some sample_neighbour"
  by code_simp+

lemma sample_routed_frame_facts:
  "EthernetFrame_parse (EthernetFrame_serialize sample_routed_frame) = Some sample_routed_frame"
  "length (payload sample_routed_frame) \<le> port_mtu (sample_up_port 1)"
  "classify_vlan_ingress sample_routed_frame (port_vlan_config (sample_up_port 1)) = AcceptedVlanIngress (VlanId 10)"
  "Ipv4Packet_parse (payload sample_routed_frame) = Some sample_packet"
  "Ipv4ForwardingEngine_forward [sample_route] sample_packet = Forwarded sample_fw"
proof -
  have len: "length (Ipv4Packet_serialize sample_packet) = 23" by code_simp
  have wf: "Ipv4Packet_wf sample_packet" by (simp add: Ipv4Packet_wf_def sample_packet_def ipv4_constants)
  show "EthernetFrame_parse (EthernetFrame_serialize sample_routed_frame) = Some sample_routed_frame"
    by (rule ethernet.parse_serialize)
      (simp add: sample_routed_frame_def EthernetFrame_wf_def EthernetFrame_valid_def frame_constants len)
  show "length (payload sample_routed_frame) \<le> port_mtu (sample_up_port 1)"
    by (simp add: sample_routed_frame_def sample_up_port_def sample_port_def len)
  show "classify_vlan_ingress sample_routed_frame (port_vlan_config (sample_up_port 1)) = AcceptedVlanIngress (VlanId 10)"
    by code_simp
  show "Ipv4Packet_parse (payload sample_routed_frame) = Some sample_packet"
    by (simp add: sample_routed_frame_def ipv4.parse_serialize [OF wf])
  have "Ipv4RouteTable_longest_prefix_match [sample_route] (ip_destination sample_packet) = Some sample_route"
    by code_simp
  then show "Ipv4ForwardingEngine_forward [sample_route] sample_packet = Forwarded sample_fw"
    by (simp add: forward_Forwarded_iff [OF wf] sample_fw_def)
      (simp add: sample_packet_def sample_route_def word_le_nat_alt)
qed

lemma sample_encapsulated:
  "encapsulate_ipv4_in_ethernet sample_fw (port_mac_address (sample_up_port 2)) (asic_arp_cache sample_switch) 6 =
     Encapsulated sample_routed_out"
  "length (EthernetFrame_serialize sample_routed_out) \<le> port_mtu (sample_up_port 2)"
proof -
  have len: "length (Ipv4Packet_serialize (sample_packet\<lparr>ip_time_to_live := 63\<rparr>)) = 23" by code_simp
  show "encapsulate_ipv4_in_ethernet sample_fw (port_mac_address (sample_up_port 2)) (asic_arp_cache sample_switch) 6 =
     Encapsulated sample_routed_out"
    by (simp add: encapsulate_Encapsulated_iff sample_fw_def sample_switch_parts sample_routed_out_def len frame_constants)
      (simp add: sample_up_port_def sample_port_def is_valid_unicast_def unspecified_mac_def MacAddress_is_unicast_def
        MacAddress_is_multicast_def)
  show "length (EthernetFrame_serialize sample_routed_out) \<le> port_mtu (sample_up_port 2)"
    by (simp add: length_serialize_frame sample_routed_out_def len sample_up_port_def sample_port_def frame_constants)
qed

lemma sample_switch_conditions:
  "map_find (asic_ports sample_switch) (PortId 1) = Some (sample_up_port 1)"
  "VirtualPort_operational (sample_up_port n)"
  "is_valid_unicast (source sample_routed_frame)"
  "\<not> MacTable_pinned (asic_mac_table sample_switch) vlan mac"
  "map_find (asic_router_interfaces sample_switch) (VlanId 10) = Some (destination sample_routed_frame)"
  "ether_type sample_routed_frame = EtherType_ipv4"
  "Ipv4ForwardingEngine_forward (asic_route_table sample_switch) sample_packet = Forwarded sample_fw"
  "map_find (asic_ports sample_switch) (fwd_output_port sample_fw) = Some (sample_up_port 2)"
  "map_find (asic_queues sample_switch) (fwd_output_port sample_fw) =
     Some \<lparr>queue_capacity = 4, queue_items = [], queue_closed = False\<rparr>"
  using sample_mac_valid
  by (simp_all add: sample_switch_parts sample_routed_frame_facts sample_routed_frame_def sample_fw_def
      MacTable_pinned_def MacTable_lookup_def VirtualPort_operational_def sample_up_port_def)

lemma sample_routing_eq:
  "SoftwareAsic_process_packet (PortId 1) (EthernetFrame_serialize sample_routed_frame) 6 sample_switch =
     (fst sample_routing, snd sample_routing)"
  by (simp add: sample_routing_def)

lemmas sample_routable =
  sample_switch_conditions(1,2) sample_routed_frame_facts(1-3) sample_switch_conditions(3-6)
  sample_routed_frame_facts(4) sample_switch_conditions(7,8,2) sample_encapsulated(1) sample_switch_conditions(9) sample_routing_eq

lemma sample_routing_routed: "disposition (fst sample_routing) = routed"
  using routable_packet [OF created_run_inv [OF sample_asic_created sample_ops_valid, folded sample_switch_def]
    sample_switch_fault_free sample_routable] sample_encapsulated(2)
  by (simp add: port_admits_def)

theorem routed_packet_rewritten_witness:
  "\<exists>out packet. queue_of (snd sample_routing) (PortId 2) = queue_of sample_switch (PortId 2) @ [EthernetFrame_serialize out] \<and>
     Ipv4Packet_parse (payload out) = Some packet"
  using routed_packet_rewritten [OF sample_switch_run sample_switch_fault_free sample_routing_eq sample_routing_routed]
  by (auto simp: sample_switch_parts best_of_def sample_route_def)



text \<open>
  Property C6: no packet is lost silently or duplicated. Whatever the state and the faults, a
  packet is either dropped with a reason, or handed to the control plane, or queued exactly once
  at every port that the result names and nowhere else; the egress counter advances by that
  number of ports.
\<close>

theorem packet_accounted:
  assumes "SoftwareAsic_create capacity = Some a0" and "list_all valid_op ops"
    and "a = run SoftwareAsic_step a0 ops" and "SoftwareAsic_process_packet i bs now a = (r, a')"
  shows "(disposition r = dropped \<longleftrightarrow> drop_reason r \<noteq> drop_none) \<and>
    (disposition r \<in> {switched, flooded, routed} \<longleftrightarrow> output_ports r \<noteq> []) \<and>
    distinct (output_ports r) \<and>
    (\<exists>x. \<forall>p. queue_of a' p = queue_of a p @ (if p \<in> set (output_ports r) then [x p] else [])) \<and>
    asic_statistics a' egress_packets = asic_statistics a egress_packets + of_nat (length (output_ports r))"
proof -
  have inv: "SoftwareAsic_inv a" using created_run_inv assms(1-3) by blast
  have sent: ?thesis
    if b: "SoftwareAsic_inv b" "same_setup a b" "distinct ports" "disp \<in> {switched, flooded, routed}"
      "SoftwareAsic_enqueue_outputs disp ports frame latency b = (r, a')" for b ports disp frame latency
  proof -
    obtain x where x: "delivery b a' (output_ports r) x"
        "disposition r = disp \<and> output_ports r \<noteq> [] \<and> drop_reason r = drop_none \<or>
         r = dropped_result drop_queue_congestion (result_latency r)"
      using enqueue_outputs_delivery [OF b(1,3,5)] by blast
    have "disposition r = dropped \<and> drop_reason r = drop_queue_congestion \<and> output_ports r = []"
      if "r = dropped_result drop_queue_congestion (result_latency r)"
      by (subst (1 2 3) that) (simp add: dropped_result_def)
    then show ?thesis
      using same_setup_delivery [OF b(2) x(1)] x(2) b(4) by (auto simp: delivery_def)
  qed
  from process_packet_cases [OF inv assms(4)] show ?thesis
  proof (elim disjE exE conjE)
    assume "not_forwarded a r a'"
    then show ?thesis by (auto simp: not_forwarded_def)
  next
    fix p frame assume "switched_within a i (port_vlan_config p) frame r a'"
    then show ?thesis unfolding switched_within_def using sent by blast
  next
    fix frame assume "routed_out a frame now r a'"
    then show ?thesis unfolding routed_out_def by (elim exE conjE) (rule sent, auto)
  qed
qed

theorem packet_accounted_witness:
  "asic_statistics (snd sample_flood) egress_packets = asic_statistics sample_switch egress_packets + 1"
  using packet_accounted [OF sample_switch_run sample_flood_eq] sample_flooded by simp

end
