(* ===== verification/Asic_Switching.thy ===== *)
theory Asic_Switching
  imports Asic_Traffic
begin

text \<open>
  A frame for a learned address that meets no obstacle: it is switched to the port of the address, and the switch
  is then in the state that \<open>switched_to\<close> describes. What the switch holds besides counters, queues and
  what it has learned is its \<open>configuration\<close>.
\<close>

section \<open>The configuration\<close>

definition configuration ::
  "SoftwareAsic \<Rightarrow> (PortId \<Rightarrow> (MacAddress \<times> VlanPortConfig \<times> bool \<times> nat) option) \<times> VlanId std_set \<times>
     (VlanId, PortId list) std_map \<times> RouterInterfaces \<times> Ipv4RouteTable \<times> ArpCache \<times> FaultInjectionConfig" where
  "configuration a =
     (\<lambda>i. map_option (\<lambda>p. (port_mac_address p, port_vlan_config p, VirtualPort_operational p, port_mtu p)) (map_find (asic_ports a) i),
      asic_vlans a, asic_vlan_members a, asic_router_interfaces a, asic_route_table a, asic_arp_cache a,
      fault_config (asic_fault_injector a))"

lemma same_setup_configuration: "same_setup a b \<Longrightarrow> configuration b = configuration a"
  by (simp add: same_setup_def configuration_def)

lemma configuration_port:
  assumes "configuration b = configuration a" and "map_find (asic_ports a) i = Some p"
  shows "\<exists>p'. map_find (asic_ports b) i = Some p' \<and> port_vlan_config p' = port_vlan_config p \<and>
    VirtualPort_operational p' = VirtualPort_operational p \<and> port_mtu p' = port_mtu p"
proof -
  have "fst (configuration b) i = fst (configuration a) i" using assms(1) by simp
  then show ?thesis using assms(2) by (cases "map_find (asic_ports b) i") (auto simp: configuration_def)
qed

lemma configuration_fields:
  assumes "configuration b = configuration a"
  shows "asic_vlan_members b = asic_vlan_members a" "asic_router_interfaces b = asic_router_interfaces a"
    "fault_config (asic_fault_injector b) = fault_config (asic_fault_injector a)"
  using assms by (simp_all add: configuration_def)

section \<open>One frame into one queue\<close>

lemma enqueue_single_state:
  assumes "SoftwareAsic_inv a" and "fault_free (fault_config (asic_fault_injector a))"
    and "map_find (asic_ports a) i = Some p" and "VirtualPort_operational p"
    and "map_find (asic_queues a) i = Some q"
    and "SoftwareAsic_enqueue_outputs disp [i] bs latency a = (r, a')"
  shows "configuration a' = configuration a \<and> asic_mac_table a' = asic_mac_table a"
proof -
  have wf: "map_wf (asic_ports a)" using assms(1) by (simp add: SoftwareAsic_inv_def ports_inv_def)
  show ?thesis
    using assms(2-6) wf
    by (auto simp: SoftwareAsic_enqueue_outputs_def enqueue_one_def process_fault_free Let_def BoundedQueue_try_enqueue_def
        configuration_def map_find_assign fun_eq_iff split: if_splits)
qed

section \<open>The layer-2 path\<close>

lemma process_frame_switched:
  assumes "SoftwareAsic_inv a" and "map_find (asic_ports a) i = Some p" and "VirtualPort_operational p"
    and "length (payload frame) \<le> port_mtu p"
    and "classify_vlan_ingress frame (port_vlan_config p) = AcceptedVlanIngress vlan"
    and "is_valid_unicast (source frame)" and "\<not> MacTable_pinned (asic_mac_table a) vlan (source frame)"
    and "map_find (asic_router_interfaces a) vlan \<noteq> Some (destination frame)"
    and "\<not> MacAddress_is_multicast (destination frame)" and "destination frame \<noteq> source frame"
    and "MacTable_port_of (asic_mac_table a) vlan (destination frame) = Some out" and "out \<noteq> i"
    and "out \<in> set (vlan_ports_of a vlan)"
  shows "\<exists>b. SoftwareAsic_inv b \<and> same_setup a b \<and>
    asic_mac_table b = snd (MacTable_learn vlan (source frame) i now (asic_mac_table a)) \<and>
    process_frame i p frame latency now a =
      SoftwareAsic_enqueue_outputs switched [out] (EthernetFrame_serialize frame) latency b"
proof -
  let ?p = "snd (VirtualPort_receive (length (payload frame)) p)"
  let ?b = "a\<lparr>asic_ports := map_assign i ?p (asic_ports a)\<rparr>"
  let ?learn = "MacTable_learn vlan (source frame) i now (asic_mac_table a)"
  have b: "SoftwareAsic_inv ?b" "same_setup a ?b"
    by (rule asic_inv_port [OF assms(1,2)], use port_lookup_ok [OF assms(1,2)] in
        \<open>simp_all add: port_ok_def same_setup_receive [OF assms(1,2)]\<close>)
  let ?c = "?b\<lparr>asic_mac_table := snd ?learn\<rparr>"
  have table: "MacTable_inv (asic_mac_table a)" using assms(1) by (simp add: SoftwareAsic_inv_def tables_inv_def)
  then have "SoftwareAsic_inv ?c" by (intro asic_inv_mac_table [OF b(1)] mac_learning.inv_learn)
  moreover have "same_setup a ?c" by (rule same_setup_trans [OF b(2) same_setup_updates(2)])
  moreover have "fst ?learn \<noteq> mac_rejected" "fst ?learn \<noteq> mac_static_conflict"
    using assms(6,7)
    by (auto simp: MacTable_learn_def MacTable_update_def MacTable_pinned_def MacTable_lookup_def MacTableEntry_is_static_def
        Let_def split: option.splits)
  moreover have "MacTable_port_of (snd ?learn) vlan (destination frame) = Some out"
    using mac_learning.learn_other [OF table] assms(10,11) by metis
  then have "pipeline_dispatch frame vlan i (vlan_ports_of a vlan) (snd ?learn) (asic_router_interfaces a) =
      PipelineDecision_accept switch_known_unicast vlan [out]"
    using assms(8,9,12,13) broadcast_is_multicast [of "destination frame"]
    by (auto simp: pipeline_dispatch_def decide_l2_forwarding_def MacTable_port_of_def L2ForwardingDecision_forward_def Let_def)
  ultimately have "process_frame i p frame latency now a =
      SoftwareAsic_enqueue_outputs switched [out] (EthernetFrame_serialize frame) latency ?c"
    using assms(3-5) member_vlan_classify [OF assms(5)]
    by (simp add: process_frame_def Let_def case_prod_beta process_l2_l3_ingress_def PipelineDecision_accept_def
        VirtualPort_receive_def vlan_ports_of_def)
  then show ?thesis using \<open>SoftwareAsic_inv ?c\<close> \<open>same_setup a ?c\<close> by (intro exI [of _ ?c]) simp
qed

lemma learned_frame:
  assumes inv: "SoftwareAsic_inv a" and "fault_free (fault_config (asic_fault_injector a))"
    and "map_find (asic_ports a) i = Some p" and "VirtualPort_operational p"
    and "EthernetFrame_parse bs = Some frame" and "length (payload frame) \<le> port_mtu p"
    and "classify_vlan_ingress frame (port_vlan_config p) = AcceptedVlanIngress vlan"
    and "is_valid_unicast (source frame)" and "\<not> MacTable_pinned (asic_mac_table a) vlan (source frame)"
    and "map_find (asic_router_interfaces a) vlan \<noteq> Some (destination frame)"
    and "\<not> MacAddress_is_multicast (destination frame)" and "destination frame \<noteq> source frame"
    and "MacTable_port_of (asic_mac_table a) vlan (destination frame) = Some out" and "out \<noteq> i"
    and "out \<in> set (vlan_ports_of a vlan)"
    and "map_find (asic_ports a) out = Some egress" and "VirtualPort_operational egress"
    and "map_find (asic_queues a) out = Some q"
    and "SoftwareAsic_process_packet i bs now a = (r, a')"
  shows "SoftwareAsic_inv a' \<and> configuration a' = configuration a \<and>
    asic_mac_table a' = snd (MacTable_learn vlan (source frame) i now (asic_mac_table a)) \<and>
    (if port_admits egress q bs
     then disposition r = switched \<and> output_ports r = [out] \<and> drop_reason r = drop_none \<and>
       asic_queues a' = map_assign out (q\<lparr>queue_items := queue_items q @ [bs]\<rparr>) (asic_queues a)
     else disposition r = dropped \<and> output_ports r = [] \<and> drop_reason r = drop_queue_congestion \<and>
       asic_queues a' = asic_queues a)"
proof -
  obtain b latency where b: "SoftwareAsic_inv b" "same_setup a b" "map_find (asic_ports b) i = Some p"
      "asic_mac_table b = asic_mac_table a"
      "SoftwareAsic_process_packet i bs now a = process_frame i p frame latency now b"
    using process_packet_frame [OF inv assms(2-5)] by blast
  have eqs: "asic_router_interfaces b = asic_router_interfaces a" "vlan_ports_of b vlan = vlan_ports_of a vlan"
    using b(2) by (simp_all add: same_setup_def vlan_ports_of_def)
  obtain c where c: "SoftwareAsic_inv c" "same_setup b c"
      "asic_mac_table c = snd (MacTable_learn vlan (source frame) i now (asic_mac_table a))"
      "process_frame i p frame latency now b = SoftwareAsic_enqueue_outputs switched [out] bs latency c"
    using process_frame_switched [OF b(1,3) assms(4,6,7,8) _ _ assms(11,12) _ assms(14)] assms(9,10,13,15) b(4) eqs
      ethernet.serialize_parse [OF assms(5)] by metis
  have ac: "same_setup a c" by (rule same_setup_trans [OF b(2) c(2)])
  then have queues: "asic_queues c = asic_queues a" and free: "fault_free (fault_config (asic_fault_injector c))"
    using assms(2) by (simp_all add: same_setup_def)
  obtain e where e: "map_find (asic_ports c) out = Some e" "VirtualPort_operational e" "port_mtu e = port_mtu egress"
    using same_setup_port_back [OF ac assms(16)] assms(17) by auto
  have enqueue: "SoftwareAsic_enqueue_outputs switched [out] bs latency c = (r, a')" using assms(19) b(5) c(4) by simp
  have q: "map_find (asic_queues c) out = Some q" using assms(18) queues by simp
  have "SoftwareAsic_inv a'" using enqueue_outputs_inv [OF c(1), of switched "[out]" bs latency] enqueue by simp
  moreover have "port_admits e = port_admits egress" by (intro ext) (simp add: port_admits_def e(3))
  ultimately show ?thesis
    using enqueue_decided [OF c(1) free e(1,2) q enqueue] enqueue_single_state [OF c(1) free e(1,2) q enqueue]
      same_setup_configuration [OF ac] c(3) by (simp only: queues simp_thms)
qed

section \<open>Property\<close>

text \<open>
  Property C5: a frame for a known address gets to it. No faults are injected. A valid frame that comes in on an
  operational port whose MTU admits its payload, is accepted into a VLAN, comes from a valid unicast address that is
  not pinned as a static entry, and is addressed to another unicast address, not the router's, that the switch has
  on another operational port of that VLAN: if the MTU of that port admits the whole frame and its queue has room,
  the frame is switched to that port alone and appended to its queue; otherwise it is dropped as congestion. No
  other queue changes, and the configuration stays as it was in both cases.
\<close>

theorem learned_frame_switched:
  assumes "SoftwareAsic_create capacity = Some a0" and "list_all valid_op ops"
    and "a = run SoftwareAsic_step a0 ops" and "fault_free (fault_config (asic_fault_injector a))"
    and "map_find (asic_ports a) i = Some p" and "VirtualPort_operational p"
    and "EthernetFrame_parse bs = Some frame" and "length (payload frame) \<le> port_mtu p"
    and "classify_vlan_ingress frame (port_vlan_config p) = AcceptedVlanIngress vlan"
    and "is_valid_unicast (source frame)" and "\<not> MacTable_pinned (asic_mac_table a) vlan (source frame)"
    and "map_find (asic_router_interfaces a) vlan \<noteq> Some (destination frame)"
    and "\<not> MacAddress_is_multicast (destination frame)" and "destination frame \<noteq> source frame"
    and "MacTable_port_of (asic_mac_table a) vlan (destination frame) = Some out" and "out \<noteq> i"
    and "out \<in> set (vlan_ports_of a vlan)"
    and "map_find (asic_ports a) out = Some egress" and "VirtualPort_operational egress"
    and "map_find (asic_queues a) out = Some q"
    and "SoftwareAsic_process_packet i bs now a = (r, a')"
  shows "configuration a' = configuration a \<and>
    (if length bs \<le> port_mtu egress \<and> length (queue_items q) < queue_capacity q
     then disposition r = switched \<and> output_ports r = [out] \<and> queue_of a' = (queue_of a)(out := queue_of a out @ [bs])
     else disposition r = dropped \<and> drop_reason r = drop_queue_congestion \<and> output_ports r = [] \<and> queue_of a' = queue_of a)"
proof -
  have inv: "SoftwareAsic_inv a" using created_run_inv assms(1-3) by blast
  have "map_wf (asic_queues a)" using inv by (simp add: SoftwareAsic_inv_def ports_inv_def)
  then show ?thesis
    using learned_frame [OF inv assms(4-21)] assms(20)
    by (auto simp: port_admits_def queue_of_def map_find_assign fun_eq_iff)
qed

definition sample_learned_ops :: "AsicOp list" where
  "sample_learned_ops = sample_ops @ [ProcessPacket (PortId 1) (EthernetFrame_serialize sample_broadcast) 6]"

definition sample_learned :: SoftwareAsic where
  "sample_learned = run SoftwareAsic_step sample_asic sample_learned_ops"

definition sample_answer :: "PacketProcessingResult \<times> SoftwareAsic" where
  "sample_answer = SoftwareAsic_process_packet (PortId 2) (EthernetFrame_serialize sample_reply) 7 sample_learned"

definition sample_view ::
  "SoftwareAsic \<Rightarrow> bool option list \<times> nat option list \<times> VlanIngressResult option \<times> bool \<times> MacAddress option \<times> PortId option \<times>
     PortId list \<times> bytes BoundedQueue option \<times> FaultInjectionConfig" where
  "sample_view a =
     (map (\<lambda>i. map_option VirtualPort_operational (map_find (asic_ports a) i)) [PortId 1, PortId 2],
      map (\<lambda>i. map_option port_mtu (map_find (asic_ports a) i)) [PortId 1, PortId 2],
      map_option (classify_vlan_ingress sample_reply \<circ> port_vlan_config) (map_find (asic_ports a) (PortId 2)),
      MacTable_pinned (asic_mac_table a) (VlanId 10) (source sample_reply),
      map_find (asic_router_interfaces a) (VlanId 10),
      MacTable_port_of (asic_mac_table a) (VlanId 10) (destination sample_reply),
      vlan_ports_of a (VlanId 10),
      map_find (asic_queues a) (PortId 1),
      fault_config (asic_fault_injector a))"

text \<open>The sample switch after the broadcast, evaluated once.\<close>

lemma sample_learned_view:
  "sample_view sample_learned =
     ([Some True, Some True], [Some 1600, Some 1600], Some (AcceptedVlanIngress (VlanId 10)), False,
      Some (MacAddress 2 0 0 0 0 0xFE), Some (PortId 1), [PortId 1, PortId 2],
      Some \<lparr>queue_capacity = 4, queue_items = [], queue_closed = False\<rparr>, no_faults)"
  by code_simp

lemma sample_reply_facts:
  "EthernetFrame_parse (EthernetFrame_serialize sample_reply) = Some sample_reply"
  "length (EthernetFrame_serialize sample_reply) \<le> 1600" "length (payload sample_reply) \<le> 1600"
  "is_valid_unicast (source sample_reply)" "\<not> MacAddress_is_multicast (destination sample_reply)"
  "destination sample_reply \<noteq> source sample_reply" "destination sample_reply \<noteq> MacAddress 2 0 0 0 0 0xFE"
proof -
  show "EthernetFrame_parse (EthernetFrame_serialize sample_reply) = Some sample_reply"
    by (rule ethernet.parse_serialize) (simp add: sample_reply_def EthernetFrame_wf_def EthernetFrame_valid_def frame_constants)
  show "length (EthernetFrame_serialize sample_reply) \<le> 1600" "length (payload sample_reply) \<le> 1600"
    by (simp_all add: length_serialize_frame sample_reply_def frame_constants)
  show "is_valid_unicast (source sample_reply)" "\<not> MacAddress_is_multicast (destination sample_reply)"
    "destination sample_reply \<noteq> source sample_reply" "destination sample_reply \<noteq> MacAddress 2 0 0 0 0 0xFE"
    by (simp_all add: sample_reply_def sample_mac_def is_valid_unicast_def unspecified_mac_def MacAddress_is_unicast_def
        MacAddress_is_multicast_def)
qed

lemma no_faults_fault_free: "fault_free no_faults"
  by (simp add: fault_free_def no_faults_def set_contains_def)

lemmas sample_learned_parts = sample_learned_view [unfolded sample_view_def, simplified]

theorem learned_frame_switched_witness:
  "queue_of (snd sample_answer) (PortId 1) = queue_of sample_learned (PortId 1) @ [EthernetFrame_serialize sample_reply]"
proof -
  have ops: "list_all valid_op sample_learned_ops" using sample_ops_valid by (simp add: sample_learned_ops_def)
  have free: "fault_free (fault_config (asic_fault_injector sample_learned))"
    using sample_learned_parts no_faults_fault_free by simp
  obtain p e where ports: "map_find (asic_ports sample_learned) (PortId 2) = Some p"
      "map_find (asic_ports sample_learned) (PortId 1) = Some e"
    using sample_learned_parts by auto
  let ?q = "\<lparr>queue_capacity = 4, queue_items = [], queue_closed = False\<rparr> :: bytes BoundedQueue"
  have "length (EthernetFrame_serialize sample_reply) \<le> port_mtu e" "length (queue_items ?q) < queue_capacity ?q"
    using sample_learned_parts sample_reply_facts ports by auto
  moreover have "if length (EthernetFrame_serialize sample_reply) \<le> port_mtu e \<and> length (queue_items ?q) < queue_capacity ?q
     then disposition (fst sample_answer) = switched \<and> output_ports (fst sample_answer) = [PortId 1] \<and>
       queue_of (snd sample_answer) = (queue_of sample_learned)(PortId 1 := queue_of sample_learned (PortId 1) @ [EthernetFrame_serialize sample_reply])
     else disposition (fst sample_answer) = dropped \<and> drop_reason (fst sample_answer) = drop_queue_congestion \<and>
       output_ports (fst sample_answer) = [] \<and> queue_of (snd sample_answer) = queue_of sample_learned"
    by (rule learned_frame_switched [OF sample_asic_created ops sample_learned_def free ports(1) _ sample_reply_facts(1),
        where vlan = "VlanId 10" and out = "PortId 1" and egress = e and now = 7, THEN conjunct2])
      (use sample_learned_parts sample_reply_facts ports in \<open>auto simp: sample_answer_def\<close>)
  ultimately show ?thesis by simp
qed

end
