(* ===== verification/Asic_Queues.thy ===== *)
theory Asic_Queues
  imports Asic_Switching
begin

text \<open>
  What the egress queues hold: whatever the switch is configured for, whatever packets arrive and whatever faults
  are injected, every entry is an Ethernet frame. Injected corruption flips a bit of the destination address only.
\<close>

definition queues_typed :: "SoftwareAsic \<Rightarrow> bool" where
  "queues_typed a \<longleftrightarrow> (\<forall>p. \<forall>bs \<in> set (queue_of a p). \<exists>frame. EthernetFrame_parse bs = Some frame)"

lemma corruption_parses:
  assumes "EthernetFrame_wf frame" and "corruption_of (EthernetFrame_serialize frame) bs"
  shows "\<exists>frame'. EthernetFrame_parse bs = Some frame'"
proof -
  obtain o0 o1 o2 o3 o4 o5 where mac: "destination frame = MacAddress o0 o1 o2 o3 o4 o5" by (cases "destination frame")
  let ?flipped = "frame\<lparr>destination := MacAddress (o0 XOR 1) o1 o2 o3 o4 o5\<rparr>"
  have wf: "EthernetFrame_wf ?flipped" using assms(1) by (simp add: EthernetFrame_wf_def EthernetFrame_valid_def)
  have "(EthernetFrame_serialize frame)[0 := EthernetFrame_serialize frame ! 0 XOR 1] = EthernetFrame_serialize ?flipped"
    by (simp add: serialize_frame mac)
  then show ?thesis
    using assms(2) ethernet.parse_serialize [OF assms(1)] ethernet.parse_serialize [OF wf] by (auto simp: corruption_of_def)
qed

text \<open>Only a processed packet adds to a queue.\<close>

lemma other_ops_queue:
  assumes "SoftwareAsic_inv a" and "\<forall>i bs now. op \<noteq> ProcessPacket i bs now"
  shows "queue_of (SoftwareAsic_step a op) p =
    (if op = RemovePort p then [] else if op = DequeuePacket p then tl (queue_of a p) else queue_of a p)"
proof -
  have wf: "map_wf (asic_queues a)" "map_wf (asic_ports a)"
    and pair: "map_find (asic_ports a) i = None \<longleftrightarrow> map_find (asic_queues a) i = None" for i
    using assms(1) by (simp_all add: SoftwareAsic_inv_def ports_inv_def)
  show ?thesis
  proof (cases op)
    case (CreatePort port capacity)
    then show ?thesis
      using wf pair by (auto simp: SoftwareAsic_create_port_def queue_of_def map_find_emplace split: option.splits if_splits)
  next
    case (RemovePort port)
    then show ?thesis
      using wf pair by (auto simp: SoftwareAsic_remove_port_def queue_of_def map_find_erase split: option.splits if_splits)
  next
    case (DequeuePacket port)
    then show ?thesis
      using wf by (auto simp: SoftwareAsic_dequeue_packet_def queue_of_def map_find_assign BoundedQueue_try_dequeue_def
          BoundedQueue_pop_front_def split: option.splits list.splits if_splits)
  qed (use assms(2) in \<open>auto simp: SoftwareAsic_set_port_state_def SoftwareAsic_create_vlan_def SoftwareAsic_remove_vlan_def
      members_subscript_def SoftwareAsic_add_vlan_member_def SoftwareAsic_set_router_interface_def
      SoftwareAsic_add_or_replace_route_def SoftwareAsic_remove_route_def SoftwareAsic_add_or_replace_neighbor_def
      SoftwareAsic_remove_neighbor_def SoftwareAsic_configure_faults_def queue_of_def Let_def case_prod_beta split: option.splits\<close>)
qed

lemma other_ops_add_nothing:
  assumes "SoftwareAsic_inv a" and "\<forall>i bs now. op \<noteq> ProcessPacket i bs now"
  shows "set (queue_of (SoftwareAsic_step a op) p) \<subseteq> set (queue_of a p)"
  using other_ops_queue [OF assms, of p] by (cases "queue_of a p") auto

lemma enqueued_frames:
  assumes "SoftwareAsic_inv b" and "same_setup a b" and "distinct ports" and "EthernetFrame_wf frame"
    and "SoftwareAsic_enqueue_outputs disp ports (EthernetFrame_serialize frame) latency b = (r, a')"
  shows "\<exists>x. delivery a a' (output_ports r) x \<and> (disposition r = disp \<or> disposition r = dropped) \<and>
    (\<forall>p. (\<exists>frame'. EthernetFrame_parse (x p) = Some frame') \<and> corruption_of (EthernetFrame_serialize frame) (x p) \<and>
       (fault_free (fault_config (asic_fault_injector a)) \<longrightarrow> x p = EthernetFrame_serialize frame))"
proof -
  have config: "fault_config (asic_fault_injector b) = fault_config (asic_fault_injector a)" using assms(2) by (simp add: same_setup_def)
  obtain x where x: "delivery b a' (output_ports r) x" "\<forall>p. corruption_of (EthernetFrame_serialize frame) (x p) \<and>
      (fault_free (fault_config (asic_fault_injector a)) \<longrightarrow> x p = EthernetFrame_serialize frame)"
    using enqueue_outputs_delivery [OF assms(1,3,5)] unfolding config by blast
  then show ?thesis
    using corruption_parses [OF assms(4)] same_setup_delivery [OF assms(2)] enqueue_outputs_disposition [OF assms(5)] by blast
qed

text \<open>
  What arrives in a queue for a processed packet, given the result and the faults configured at the time: a frame,
  and for a packet that was switched or flooded its own bytes up to injected corruption.
\<close>

definition delivered_as :: "bytes \<times> PacketProcessingResult \<times> FaultInjectionConfig \<Rightarrow> bytes \<Rightarrow> bool" where
  "delivered_as entry x =
     (case entry of (bs, r, config) \<Rightarrow>
        (\<exists>frame. EthernetFrame_parse x = Some frame) \<and>
        (disposition r \<in> {switched, flooded} \<longrightarrow> corruption_of bs x \<and> (fault_free config \<longrightarrow> x = bs)))"

lemma process_packet_delivers:
  assumes "SoftwareAsic_inv a" and "SoftwareAsic_process_packet i bs now a = (r, a')"
  shows "\<exists>x. \<forall>p. queue_of a' p = queue_of a p @ (if p \<in> set (output_ports r) then [x p] else []) \<and>
    (p \<in> set (output_ports r) \<longrightarrow> delivered_as (bs, r, fault_config (asic_fault_injector a)) (x p))"
  using process_packet_cases [OF assms]
proof (elim disjE exE conjE)
  assume "not_forwarded a r a'"
  then show ?thesis by (simp add: not_forwarded_def)
next
  fix p bs' frame
  assume frame: "EthernetFrame_parse bs' = Some frame" and corrupt: "corruption_of bs bs'"
    and free: "fault_free (fault_config (asic_fault_injector a)) \<longrightarrow> bs' = bs"
    and "switched_within a i (port_vlan_config p) frame r a'"
  then obtain b disp outs latency where b: "SoftwareAsic_inv b" "same_setup a b" "distinct outs"
      "SoftwareAsic_enqueue_outputs disp outs (EthernetFrame_serialize frame) latency b = (r, a')"
    unfolding switched_within_def by blast
  note same = ethernet.serialize_parse [OF frame]
  from enqueued_frames [OF b(1-3) ethernet.parse_wf [OF frame] b(4)] show ?thesis
    unfolding same delivered_as_def delivery_def using corruption_of_trans [OF corrupt] free by auto
next
  fix frame assume routed: "routed_out a frame now r a'"
  then obtain b fw out latency and egress :: VirtualPort where out: "SoftwareAsic_inv b" "same_setup a b"
      "encapsulate_ipv4_in_ethernet fw (port_mac_address egress) (asic_arp_cache a) now = Encapsulated out"
      "SoftwareAsic_enqueue_outputs routed [fwd_output_port fw] (EthernetFrame_serialize out) latency b = (r, a')"
    unfolding routed_out_def by blast
  have "distinct [fwd_output_port fw]" by simp
  from enqueued_frames [OF out(1,2) this encapsulate_wf [OF out(3)] out(4)] show ?thesis
    using routed_out_disposition [OF routed] unfolding delivered_as_def delivery_def by auto
qed

lemma process_packet_typed:
  assumes "SoftwareAsic_inv a" and "queues_typed a"
  shows "queues_typed (snd (SoftwareAsic_process_packet i bs now a))"
proof -
  obtain r a' where step: "SoftwareAsic_process_packet i bs now a = (r, a')" by fastforce
  from process_packet_delivers [OF assms(1) step] assms(2) show ?thesis
    by (fastforce simp: step queues_typed_def delivered_as_def split: if_splits)
qed

lemma step_typed: "SoftwareAsic_inv a \<Longrightarrow> queues_typed a \<Longrightarrow> queues_typed (SoftwareAsic_step a op)"
proof (cases "\<exists>i bs now. op = ProcessPacket i bs now")
  case False
  assume "SoftwareAsic_inv a" "queues_typed a"
  then show ?thesis using other_ops_add_nothing [of a op] False unfolding queues_typed_def by blast
qed (auto simp: process_packet_typed)

interpretation typed_machine: guarded_system SoftwareAsic_step "\<lambda>a. SoftwareAsic_inv a \<and> queues_typed a" valid_op
  by unfold_locales (simp add: step_typed asic_machine.inv_valid_step)

text \<open>
  Property C13: the queues are typed. Whatever operations the switch goes through, configured faults included, every
  packet that a consumer can take from a queue is a well-formed Ethernet frame, and no queue holds more than its
  capacity.
\<close>

theorem queues_hold_frames:
  assumes "SoftwareAsic_create capacity = Some a0" and "list_all valid_op ops" and "a = run SoftwareAsic_step a0 ops"
    and "map_find (asic_queues a) p = Some q"
  shows "length (queue_items q) \<le> queue_capacity q \<and>
    (\<forall>bs \<in> set (queue_items q). \<exists>frame. EthernetFrame_parse bs = Some frame \<and> EthernetFrame_wf frame)"
proof -
  have "queues_typed a0"
    using assms(1) by (auto simp: SoftwareAsic_create_def queues_typed_def queue_of_def split: option.splits)
  then have "queues_typed a" using typed_machine.inv_valid_run [OF _ assms(2), of a0] SoftwareAsic_create_inv [OF assms(1)] assms(3) by blast
  moreover have "queue_of a p = queue_items q" using assms(4) by (simp add: queue_of_def)
  ultimately have "\<forall>bs \<in> set (queue_items q). \<exists>frame. EthernetFrame_parse bs = Some frame"
    unfolding queues_typed_def by metis
  moreover have "SoftwareAsic_inv a" using created_run_inv assms(1-3) by blast
  ultimately show ?thesis using ethernet.parse_wf queue_lookup_ok [OF _ assms(4)] by (fastforce simp: queue_ok_def BoundedQueue_inv_def)
qed

text \<open>The sample switch once more, with a frame waiting on port 1.\<close>

lemma sample_answer_waits: "map_option (length \<circ> queue_items) (map_find (asic_queues (snd sample_answer)) (PortId 1)) = Some 1"
  by code_simp

theorem queues_hold_frames_witness:
  "\<exists>q bs frame. map_find (asic_queues (snd sample_answer)) (PortId 1) = Some q \<and> queue_items q = [bs] \<and>
     length (queue_items q) \<le> queue_capacity q \<and> EthernetFrame_parse bs = Some frame \<and> EthernetFrame_wf frame"
proof -
  let ?ops = "sample_learned_ops @ [ProcessPacket (PortId 2) (EthernetFrame_serialize sample_reply) 7]"
  have ops: "list_all valid_op ?ops" using sample_ops_valid by (simp add: sample_learned_ops_def)
  have answer: "snd sample_answer = run SoftwareAsic_step sample_asic ?ops"
    by (simp add: sample_answer_def sample_learned_def run_append)
  from sample_answer_waits obtain q where q: "map_find (asic_queues (snd sample_answer)) (PortId 1) = Some q"
      "length (queue_items q) = 1" by auto
  then obtain bs where bs: "queue_items q = [bs]" by (cases "queue_items q") auto
  with queues_hold_frames [OF sample_asic_created ops answer q(1)] q(1) show ?thesis by auto
qed

end
