(* ===== verification/Asic_Delivery.thy ===== *)
theory Asic_Delivery
  imports Asic_Queues
begin

text \<open>
  The switch seen from one of its ports, over any run: the packets whose results name the port come out of it, in
  order, each once. The queue of the port is the bounded queue of \<^verbatim>\<open>Bounded_Queue\<close>, but it is filled by the
  forwarding of all ports and emptied by the consumer of this one.
\<close>

section \<open>What a run sends to a port and takes from it\<close>

text \<open>
  The packets whose result names port \<open>p\<close>, with the result and the faults configured at the time; and what the
  consumer of the port is given.
\<close>

fun sent_by :: "PortId \<Rightarrow> SoftwareAsic \<Rightarrow> AsicOp \<Rightarrow> (bytes \<times> PacketProcessingResult \<times> FaultInjectionConfig) list" where
  "sent_by p a (ProcessPacket i bs now) =
     (let r = fst (SoftwareAsic_process_packet i bs now a)
      in if p \<in> set (output_ports r) then [(bs, r, fault_config (asic_fault_injector a))] else [])"
| "sent_by p a op = []"

fun taken_by :: "PortId \<Rightarrow> SoftwareAsic \<Rightarrow> AsicOp \<Rightarrow> bytes list" where
  "taken_by p a (DequeuePacket q) =
     (if q = p then case fst (SoftwareAsic_dequeue_packet p a) of None \<Rightarrow> [] | Some bs \<Rightarrow> [bs] else [])"
| "taken_by p a op = []"

fun over_run :: "(SoftwareAsic \<Rightarrow> AsicOp \<Rightarrow> 'e list) \<Rightarrow> SoftwareAsic \<Rightarrow> AsicOp list \<Rightarrow> 'e list" where
  "over_run f a [] = []"
| "over_run f a (op # ops) = f a op @ over_run f (SoftwareAsic_step a op) ops"

section \<open>One operation\<close>

lemma taken_head: "taken_by p a op = (if op = DequeuePacket p then take 1 (queue_of a p) else [])"
  by (cases op) (auto simp: SoftwareAsic_dequeue_packet_def queue_of_def BoundedQueue_try_dequeue_def
      BoundedQueue_pop_front_def split: option.split list.split)

text \<open>The queue with what was taken from it is the queue before with what was sent to it.\<close>

lemma step_delivers:
  assumes "SoftwareAsic_inv a" and "op \<noteq> RemovePort p"
  shows "\<exists>xs. queue_of a p @ xs = taken_by p a op @ queue_of (SoftwareAsic_step a op) p \<and>
    list_all2 delivered_as (sent_by p a op) xs"
proof (cases "\<exists>i bs now. op = ProcessPacket i bs now")
  case True
  then obtain i bs now where op: "op = ProcessPacket i bs now" by blast
  obtain r a' where step: "SoftwareAsic_process_packet i bs now a = (r, a')" by fastforce
  obtain x where "queue_of a' p = queue_of a p @ (if p \<in> set (output_ports r) then [x p] else [])"
      "p \<in> set (output_ports r) \<longrightarrow> delivered_as (bs, r, fault_config (asic_fault_injector a)) (x p)"
    using process_packet_delivers [OF assms(1) step] by blast
  then show ?thesis
    by (intro exI [of _ "if p \<in> set (output_ports r) then [x p] else []"]) (simp add: op step)
next
  case False
  then have "sent_by p a op = []" by (cases op) auto
  moreover have "queue_of a p = taken_by p a op @ queue_of (SoftwareAsic_step a op) p"
    using other_ops_queue [OF assms(1), of op p] False assms(2) by (cases "queue_of a p") (auto simp: taken_head)
  ultimately show ?thesis by (intro exI [of _ "[]"]) simp
qed

lemma run_delivers:
  assumes "SoftwareAsic_inv a" and "list_all valid_op ops" and "RemovePort p \<notin> set ops"
  shows "\<exists>xs. queue_of a p @ xs = over_run (taken_by p) a ops @ queue_of (run SoftwareAsic_step a ops) p \<and>
    list_all2 delivered_as (over_run (sent_by p) a ops) xs"
  using assms
proof (induction ops arbitrary: a)
  case (Cons op ops)
  let ?b = "SoftwareAsic_step a op"
  obtain xs where xs: "queue_of a p @ xs = taken_by p a op @ queue_of ?b p" "list_all2 delivered_as (sent_by p a op) xs"
    using step_delivers [of a op p] Cons.prems by auto
  have "SoftwareAsic_inv ?b" using Cons.prems asic_machine.inv_valid_step by simp
  then obtain ys where ys: "queue_of ?b p @ ys = over_run (taken_by p) ?b ops @ queue_of (run SoftwareAsic_step ?b ops) p"
      "list_all2 delivered_as (over_run (sent_by p) ?b ops) ys"
    using Cons.IH [of ?b] Cons.prems by auto
  have "queue_of a p @ xs @ ys = taken_by p a op @ over_run (taken_by p) ?b ops @ queue_of (run SoftwareAsic_step ?b ops) p"
    using xs(1) ys(1) by (metis append.assoc)
  then show ?case
    using xs(2) ys(2) by (intro exI [of _ "xs @ ys"]) (simp add: list_all2_appendI)
qed auto

text \<open>
  Property C7: a port delivers what is sent to it. From any state of the switch, over any operations that do not
  remove port \<open>p\<close>, faults and reconfiguration included: what the consumer of \<open>p\<close> has taken, followed by what still
  waits, is what waited at first, followed by exactly one frame for each packet whose result named \<open>p\<close>, in the order in
  which these were processed; for a packet that was switched or flooded it is the packet itself, up to the bit that
  configured corruption flips, and without configured faults bit for bit.
\<close>

theorem port_delivers_in_order:
  assumes "SoftwareAsic_create capacity = Some a0" and "list_all valid_op ops0" and "a = run SoftwareAsic_step a0 ops0"
    and "list_all valid_op ops" and "RemovePort p \<notin> set ops"
  shows "\<exists>xs. over_run (taken_by p) a ops @ queue_of (run SoftwareAsic_step a ops) p = queue_of a p @ xs \<and>
    list_all2 delivered_as (over_run (sent_by p) a ops) xs"
  using run_delivers [OF created_run_inv [OF assms(1,2), folded assms(3)] assms(4,5)] by metis

definition sample_exchange :: "AsicOp list" where
  "sample_exchange = [ProcessPacket (PortId 2) (EthernetFrame_serialize sample_reply) 7, DequeuePacket (PortId 1)]"

lemma sample_answer_result: "disposition (fst sample_answer) = switched \<and> output_ports (fst sample_answer) = [PortId 1]"
  by code_simp

theorem port_delivers_in_order_witness:
  "over_run (taken_by (PortId 1)) sample_learned sample_exchange @
     queue_of (run SoftwareAsic_step sample_learned sample_exchange) (PortId 1) = [EthernetFrame_serialize sample_reply]"
proof -
  have ops: "list_all valid_op sample_learned_ops" using sample_ops_valid by (simp add: sample_learned_ops_def)
  have waiting: "queue_of sample_learned (PortId 1) = []" using sample_learned_parts by (simp add: queue_of_def)
  have sent: "over_run (sent_by (PortId 1)) sample_learned sample_exchange =
      [(EthernetFrame_serialize sample_reply, fst sample_answer, fault_config (asic_fault_injector sample_learned))]"
    using sample_answer_result by (simp add: sample_exchange_def sample_answer_def)
  have free: "fault_free (fault_config (asic_fault_injector sample_learned))"
    using sample_learned_parts no_faults_fault_free by simp
  have "list_all valid_op sample_exchange" "RemovePort (PortId 1) \<notin> set sample_exchange" by (simp_all add: sample_exchange_def)
  from port_delivers_in_order [OF sample_asic_created ops sample_learned_def this] obtain xs where
    xs: "over_run (taken_by (PortId 1)) sample_learned sample_exchange @
      queue_of (run SoftwareAsic_step sample_learned sample_exchange) (PortId 1) = queue_of sample_learned (PortId 1) @ xs"
      "list_all2 delivered_as (over_run (sent_by (PortId 1)) sample_learned sample_exchange) xs" by blast
  then show ?thesis using free sample_answer_result by (auto simp: sent waiting delivered_as_def list_all2_Cons1)
qed

end
