(* ===== verification/Byte_Span.thy ===== *)
theory Byte_Span
  imports Wire Mac_Address Internet_Checksum "HOL-Library.Monad_Syntax"
begin

unbundle bit_operations_syntax

text \<open>
  \<^verbatim>\<open>network/byte_span.hpp\<close> as it is: a pointer and a size, with no check of its own. The memory is a partial map
  from addresses to bytes; an access outside it is the undefined behaviour of the source and here the value
  \<open>None\<close>, which every computation passes on. The other theories take a span for the list of the bytes it
  covers; the lemmas here justify that for the reads and writes that everything else is made of.
\<close>

section \<open>Spans over a memory\<close>

type_synonym memory = "nat \<rightharpoonup> u8"

record ByteSpan =
  span_data :: nat
  span_size :: nat

definition ByteSpan_create :: "nat \<Rightarrow> nat \<Rightarrow> ByteSpan" where
  "ByteSpan_create data count = \<lparr>span_data = data, span_size = count\<rparr>"

text \<open>A vector or an array at \<open>address\<close>.\<close>

definition ByteSpan_of_container :: "nat \<Rightarrow> bytes \<Rightarrow> ByteSpan" where
  "ByteSpan_of_container address bs = \<lparr>span_data = address, span_size = length bs\<rparr>"

definition ByteSpan_begin :: "ByteSpan \<Rightarrow> nat" where
  "ByteSpan_begin s = span_data s"

definition ByteSpan_end :: "ByteSpan \<Rightarrow> nat" where
  "ByteSpan_end s = span_data s + span_size s"

definition ByteSpan_empty :: "ByteSpan \<Rightarrow> bool" where
  "ByteSpan_empty s \<longleftrightarrow> span_size s = 0"

definition ByteSpan_first :: "nat \<Rightarrow> ByteSpan \<Rightarrow> ByteSpan" where
  "ByteSpan_first count s = ByteSpan_create (span_data s) count"

text \<open>The subscript, as a load and as a store, and the load of a range of addresses.\<close>

definition ByteSpan_load :: "memory \<Rightarrow> ByteSpan \<Rightarrow> nat \<Rightarrow> u8 option" where
  "ByteSpan_load m s index = m (span_data s + index)"

definition ByteSpan_store :: "ByteSpan \<Rightarrow> nat \<Rightarrow> u8 \<Rightarrow> memory \<Rightarrow> memory option" where
  "ByteSpan_store s index value m =
     (if m (span_data s + index) = None then None else Some (m(span_data s + index \<mapsto> value)))"

definition load_range :: "memory \<Rightarrow> nat \<Rightarrow> nat \<Rightarrow> bytes option" where
  "load_range m first past = those (map m [first..<past])"

section \<open>The helpers of the parsers\<close>

definition span_read_big_endian :: "memory \<Rightarrow> ByteSpan \<Rightarrow> nat \<Rightarrow> 'a::len word option option" where
  "span_read_big_endian m s offset =
     (if offset > span_size s \<or> sizeof TYPE('a word) > span_size s - offset then Some None
      else map_option Some (foldl (\<lambda>state index. do {
          value \<leftarrow> state;
          byte \<leftarrow> ByteSpan_load m s (offset + index);
          Some (push_bit 8 value OR ucast byte)}) (Some 0) [0..<sizeof TYPE('a word)]))"

definition span_write_big_endian :: "'a::len word \<Rightarrow> ByteSpan \<Rightarrow> nat \<Rightarrow> memory \<Rightarrow> (bool \<times> memory) option" where
  "span_write_big_endian value s offset m =
     (if offset > span_size s \<or> sizeof TYPE('a word) > span_size s - offset then Some (False, m)
      else map_option (Pair True) (foldl (\<lambda>state index. do {
          m \<leftarrow> state;
          ByteSpan_store s (offset + index) (ucast (drop_bit ((sizeof TYPE('a word) - index - 1) * 8) value)) m})
        (Some m) [0..<sizeof TYPE('a word)]))"

definition span_read_mac :: "memory \<Rightarrow> ByteSpan \<Rightarrow> nat \<Rightarrow> MacAddress option" where
  "span_read_mac m s offset =
     map_option mac_of_bytes (load_range m (ByteSpan_begin s + offset) (ByteSpan_begin s + offset + 6))"

function span_checksum_loop :: "memory \<Rightarrow> ByteSpan \<Rightarrow> nat \<Rightarrow> u32 \<Rightarrow> u32 option" where
  "span_checksum_loop m s offset acc =
     (if offset + 1 < span_size s then do {
        high \<leftarrow> ByteSpan_load m s offset;
        low \<leftarrow> ByteSpan_load m s (offset + 1);
        span_checksum_loop m s (offset + 2) (fold_carry (acc + ucast (checksum_word high low)))}
      else if offset < span_size s then do {
        final \<leftarrow> ByteSpan_load m s offset;
        Some (fold_carry (acc + ucast (push_bit 8 (ucast final) :: u16)))}
      else Some acc)"
  by pat_completeness auto
termination
  by (relation "measure (\<lambda>(m, s, offset, acc). span_size s - offset)") auto

declare span_checksum_loop.simps [simp del]

definition span_compute_checksum :: "memory \<Rightarrow> ByteSpan \<Rightarrow> u16 option" where
  "span_compute_checksum m s = do {
     acc \<leftarrow> span_checksum_loop m s 0 0;
     Some (ucast (NOT (fold_carry acc) AND 0xFFFF))}"

definition span_has_valid_checksum :: "memory \<Rightarrow> ByteSpan \<Rightarrow> bool option" where
  "span_has_valid_checksum m s =
     (if ByteSpan_empty s then Some False else do {checksum \<leftarrow> span_compute_checksum m s; Some (checksum = 0)})"

section \<open>They stay inside the span\<close>

text \<open>The span covers the bytes; nothing is said of the memory around it.\<close>

definition covers :: "memory \<Rightarrow> ByteSpan \<Rightarrow> bytes \<Rightarrow> bool" where
  "covers m s bs \<longleftrightarrow> length bs = span_size s \<and> (\<forall>i < length bs. m (span_data s + i) = Some (bs ! i))"

lemma covers_load: "covers m s bs \<Longrightarrow> i < span_size s \<Longrightarrow> ByteSpan_load m s i = Some (bs ! i)"
  by (simp add: covers_def ByteSpan_load_def)

lemma covers_first: "covers m s bs \<Longrightarrow> n \<le> span_size s \<Longrightarrow> covers m (ByteSpan_first n s) (take n bs)"
  by (simp add: covers_def ByteSpan_first_def ByteSpan_create_def)

lemma those_all: "(\<And>x. x \<in> set xs \<Longrightarrow> f x = Some (g x)) \<Longrightarrow> those (map f xs) = Some (map g xs)"
  by (induction xs) simp_all

lemma covers_range:
  assumes "covers m s bs" and "i \<le> j" and "j \<le> span_size s"
  shows "load_range m (span_data s + i) (span_data s + j) = Some (take (j - i) (drop i bs))"
proof -
  have "m a = Some (bs ! (a - span_data s))" if "a \<in> set [span_data s + i..<span_data s + j]" for a
    using assms that by (auto simp: covers_def dest: spec [of _ "a - span_data s"])
  then have "load_range m (span_data s + i) (span_data s + j) =
      Some (map (\<lambda>a. bs ! (a - span_data s)) [span_data s + i..<span_data s + j])"
    unfolding load_range_def by (rule those_all)
  also have "map (\<lambda>a. bs ! (a - span_data s)) [span_data s + i..<span_data s + j] = take (j - i) (drop i bs)"
    using assms by (intro nth_equalityI) (auto simp: covers_def)
  finally show ?thesis .
qed

lemma covers_read:
  assumes "covers m s bs"
  shows "span_read_big_endian m s offset = Some (read_big_endian bs offset :: 'a::len word option)"
proof -
  let ?f = "\<lambda>state index. do {value \<leftarrow> state; byte \<leftarrow> ByteSpan_load m s (offset + index); Some (push_bit 8 value OR ucast byte)}"
  have "foldl ?f (Some (v :: 'a word)) [0..<n] = Some (fold (\<lambda>index value. push_bit 8 value OR ucast (bs ! (offset + index))) [0..<n] v)"
    if "offset + n \<le> span_size s" for n v
    using that by (induction n) (simp_all add: covers_load [OF assms])
  then show ?thesis using assms by (auto simp: span_read_big_endian_def read_big_endian_def covers_def)
qed

lemma covers_mac: "covers m s bs \<Longrightarrow> offset + 6 \<le> span_size s \<Longrightarrow> span_read_mac m s offset = Some (read_mac_address bs offset)"
  using covers_range [of m s bs offset "offset + 6"]
  by (simp add: span_read_mac_def read_mac_address_def ByteSpan_begin_def add.assoc)

lemma covers_checksum_loop:
  "covers m s bs \<Longrightarrow> span_checksum_loop m s offset acc = Some (checksum_loop acc (drop offset bs))"
proof (induction m s offset acc rule: span_checksum_loop.induct)
  case (1 m s offset acc)
  have len: "length bs = span_size s" using "1.prems" by (simp add: covers_def)
  consider "offset + 1 < span_size s" | "offset + 1 = span_size s" | "span_size s \<le> offset" by linarith
  then show ?case
  proof cases
    case 1
    then have "drop offset bs = bs ! offset # bs ! (offset + 1) # drop (offset + 2) bs"
      using len by (simp add: Cons_nth_drop_Suc)
    then show ?thesis
      using 1 "1.IH" "1.prems" by (simp add: span_checksum_loop.simps [of m s offset] covers_load)
  next
    case 2
    then have "drop offset bs = [bs ! offset]" using len by (simp add: Cons_nth_drop_Suc [symmetric])
    then show ?thesis using 2 "1.prems" by (simp add: span_checksum_loop.simps [of m s offset] covers_load)
  next
    case 3
    then show ?thesis using len by (simp add: span_checksum_loop.simps [of m s offset])
  qed
qed

lemma covers_checksum:
  assumes "covers m s bs"
  shows "span_has_valid_checksum m s = Some (has_valid_internet_checksum bs)"
  using assms covers_checksum_loop [OF assms, of 0 0]
  by (auto simp: span_has_valid_checksum_def span_compute_checksum_def has_valid_internet_checksum_def
      compute_internet_checksum_def ByteSpan_empty_def covers_def)

text \<open>A write changes the bytes of the span as the list model says, and no other address.\<close>

definition covers_frame :: "memory \<Rightarrow> memory \<Rightarrow> ByteSpan \<Rightarrow> bytes \<Rightarrow> bool" where
  "covers_frame m m' s bs \<longleftrightarrow> covers m' s bs \<and>
     (\<forall>a. a < span_data s \<or> span_data s + span_size s \<le> a \<longrightarrow> m' a = m a)"

lemma covers_store:
  assumes "covers_frame m m1 s bs" and "i < span_size s"
  shows "\<exists>m'. ByteSpan_store s i v m1 = Some m' \<and> covers_frame m m' s (bs[i := v])"
  using assms by (auto simp: covers_frame_def covers_def ByteSpan_store_def nth_list_update)

lemma covers_write:
  assumes "covers m s bs"
  shows "\<exists>m'. span_write_big_endian value s offset m = Some (fst (write_big_endian value bs offset), m') \<and>
    covers_frame m m' s (snd (write_big_endian value bs offset))"
proof -
  let ?byte = "\<lambda>index. ucast (drop_bit ((sizeof TYPE('a word) - index - 1) * 8) value) :: u8"
  let ?f = "\<lambda>state index. do {m \<leftarrow> state; ByteSpan_store s (offset + index) (?byte index) m}"
  have refl: "covers_frame m m s bs" using assms by (simp add: covers_frame_def)
  have loop: "\<exists>m'. foldl ?f (Some m) [0..<n] = Some m' \<and>
      covers_frame m m' s (fold (\<lambda>index out. out[offset + index := ?byte index]) [0..<n] bs)"
    if "offset + n \<le> span_size s" for n
    using that
  proof (induction n)
    case 0
    then show ?case using refl by simp
  next
    case (Suc n)
    then obtain m1 where "foldl ?f (Some m) [0..<n] = Some m1"
        "covers_frame m m1 s (fold (\<lambda>index out. out[offset + index := ?byte index]) [0..<n] bs)" by auto
    then show ?case using covers_store [of m m1 s _ "offset + n" "?byte n"] Suc.prems by fastforce
  qed
  show ?thesis
    using assms refl loop [of "sizeof TYPE('a word)"]
    by (auto simp: span_write_big_endian_def write_big_endian_def covers_def)
qed

end
