(* ===== verification/Span_Parsers.thy ===== *)
theory Span_Parsers
  imports Byte_Span Arp_Packet Ipv4_Packet
begin

unbundle bit_operations_syntax

text \<open>
  The three packet parsers (\<^verbatim>\<open>network/ethernet_frame.cpp\<close>, \<^verbatim>\<open>network/arp_packet.cpp\<close>,
  \<^verbatim>\<open>network/ipv4_packet.cpp\<close>) over a span in memory, with every access in the order of the source: \<open>None\<close> is
  an access outside the memory, \<open>Some None\<close> a refused packet. Whatever the bytes are, no access leaves the span, and
  the result is that of the list parsers.
\<close>

section \<open>The parsers over a memory\<close>

text \<open>A refused packet ends the parser, as \<^verbatim>\<open>return std::nullopt\<close> does.\<close>

definition refuse :: "'a option option" where
  "refuse = Some None"

definition span_parse_vlan_header :: "memory \<Rightarrow> ByteSpan \<Rightarrow> (EtherType \<times> nat \<times> VlanTag option) option option" where
  "span_parse_vlan_header m s = do {
     outer \<leftarrow> (span_read_big_endian m s ether_type_offset :: u16 option option);
     case outer of
       None \<Rightarrow> refuse
     | Some outer_ether_type_value \<Rightarrow>
         if outer_ether_type_value = EtherType_vlan_tagged then
           if span_size s < tagged_header_size then refuse
           else do {
             control \<leftarrow> (span_read_big_endian m s vlan_control_information_offset :: u16 option option);
             inner \<leftarrow> (span_read_big_endian m s inner_ether_type_offset :: u16 option option);
             case (control, inner) of
               (Some tag_control_information, Some inner_ether_type) \<Rightarrow>
                 (case VlanTag_from_tag_control_information tag_control_information of
                    None \<Rightarrow> refuse
                  | Some tag \<Rightarrow> Some (Some (inner_ether_type, tagged_header_size, Some tag)))
             | _ \<Rightarrow> refuse}
         else Some (Some (outer_ether_type_value, header_size, None))}"

definition span_EthernetFrame_parse :: "memory \<Rightarrow> ByteSpan \<Rightarrow> EthernetFrame option option" where
  "span_EthernetFrame_parse m s =
     (if span_size s < header_size then refuse
      else do {
        header \<leftarrow> span_parse_vlan_header m s;
        case header of
          None \<Rightarrow> refuse
        | Some (ether_type_value, payload_offset, tag) \<Rightarrow>
            if span_size s - payload_offset > maximum_payload_size then refuse
            else do {
              body \<leftarrow> load_range m (ByteSpan_begin s + payload_offset) (ByteSpan_end s);
              dst \<leftarrow> span_read_mac m s destination_offset;
              src \<leftarrow> span_read_mac m s source_offset;
              Some (EthernetFrame_create dst src ether_type_value body tag)}})"

definition span_ArpPacket_parse :: "memory \<Rightarrow> ByteSpan \<Rightarrow> ArpPacket option option" where
  "span_ArpPacket_parse m s =
     (if span_size s \<noteq> arp_serialized_size then refuse
      else do {
        hardware \<leftarrow> (span_read_big_endian m s hardware_type_offset :: u16 option option);
        protocol \<leftarrow> (span_read_big_endian m s protocol_type_offset :: u16 option option);
        op \<leftarrow> (span_read_big_endian m s operation_offset :: u16 option option);
        sender \<leftarrow> (span_read_big_endian m s sender_ip_offset :: u32 option option);
        target \<leftarrow> (span_read_big_endian m s target_ip_offset :: u32 option option);
        case (hardware, protocol, op, sender, target) of
          (Some hardware_type, Some protocol_type, Some op, Some sip, Some tip) \<Rightarrow>
            if hardware_type \<noteq> ethernet_hardware_type \<or> protocol_type \<noteq> EtherType_ipv4 then refuse
            else do {
              hardware_length \<leftarrow> ByteSpan_load m s hardware_length_offset;
              if hardware_length \<noteq> ethernet_address_length then refuse
              else do {
                protocol_length \<leftarrow> ByteSpan_load m s protocol_length_offset;
                if protocol_length \<noteq> ipv4_address_length \<or>
                   (op \<noteq> ArpOperation_value request \<and> op \<noteq> ArpOperation_value reply) then refuse
                else do {
                  smac \<leftarrow> span_read_mac m s sender_mac_offset;
                  tmac \<leftarrow> span_read_mac m s target_mac_offset;
                  Some (create_parsed_packet (if op = ArpOperation_value request then request else reply)
                    smac (Ipv4Address sip) tmac (Ipv4Address tip))}}}
        | _ \<Rightarrow> refuse})"

text \<open>Dereferencing an empty \<^verbatim>\<open>std::optional\<close> is undefined, too.\<close>

definition span_read_address :: "memory \<Rightarrow> ByteSpan \<Rightarrow> nat \<Rightarrow> Ipv4Address option" where
  "span_read_address m s offset = do {
     result \<leftarrow> (span_read_big_endian m s offset :: u32 option option);
     map_option Ipv4Address result}"

definition span_Ipv4Packet_parse :: "memory \<Rightarrow> ByteSpan \<Rightarrow> Ipv4Packet option option" where
  "span_Ipv4Packet_parse m s =
     (if span_size s < ip_header_size then refuse
      else do {
        version \<leftarrow> ByteSpan_load m s version_and_header_length_offset;
        if version \<noteq> version_and_header_length then refuse
        else do {
          services \<leftarrow> ByteSpan_load m s differentiated_services_offset;
          if services \<noteq> supported_differentiated_services then refuse
          else do {
            total \<leftarrow> (span_read_big_endian m s total_length_offset :: u16 option option);
            ident \<leftarrow> (span_read_big_endian m s identification_offset :: u16 option option);
            flags \<leftarrow> (span_read_big_endian m s flags_and_fragment_offset :: u16 option option);
            case (total, ident, flags) of
              (Some total_length, Some identification, Some flags_and_fragment) \<Rightarrow>
                if unat total_length \<noteq> span_size s \<or> unat total_length < ip_header_size \<or>
                   flags_and_fragment AND unsupported_fragmentation_mask \<noteq> 0 then refuse
                else do {
                  time_to_live \<leftarrow> ByteSpan_load m s time_to_live_offset;
                  if time_to_live = 0 then refuse
                  else do {
                    valid \<leftarrow> span_has_valid_checksum m (ByteSpan_first ip_header_size s);
                    if \<not> valid then refuse
                    else do {
                      body \<leftarrow> load_range m (ByteSpan_begin s + ip_header_size) (ByteSpan_end s);
                      src \<leftarrow> span_read_address m s ip_source_offset;
                      dst \<leftarrow> span_read_address m s ip_destination_offset;
                      proto \<leftarrow> ByteSpan_load m s protocol_offset;
                      ttl \<leftarrow> ByteSpan_load m s time_to_live_offset;
                      Some (Ipv4Packet_create src dst proto body ttl identification
                        (flags_and_fragment AND dont_fragment_mask \<noteq> 0))}}}
            | _ \<Rightarrow> refuse}}})"

section \<open>They agree with the list parsers\<close>

lemma covers_tail:
  assumes "covers m s bs" and "n \<le> span_size s"
  shows "load_range m (ByteSpan_begin s + n) (ByteSpan_end s) = Some (drop n bs)"
  using covers_range [OF assms(1,2) order_refl] assms by (simp add: ByteSpan_begin_def ByteSpan_end_def covers_def)

lemma span_vlan_header:
  assumes "covers m s bs"
  shows "span_parse_vlan_header m s = Some (parse_vlan_header bs)"
proof -
  have "length bs = span_size s" using assms by (simp add: covers_def)
  then show ?thesis
    by (auto simp: span_parse_vlan_header_def parse_vlan_header_def refuse_def covers_read [OF assms] split: option.split)
qed

lemma vlan_header_offset:
  "parse_vlan_header bs = Some (ethertype, payload_offset, tag) \<Longrightarrow> header_size \<le> length bs \<Longrightarrow> payload_offset \<le> length bs"
  by (auto simp: parse_vlan_header_def split: option.splits if_splits)

lemma span_ethernet:
  assumes "covers m s bs"
  shows "span_EthernetFrame_parse m s = Some (EthernetFrame_parse bs)"
proof (cases "span_size s < header_size")
  case False
  have len: "length bs = span_size s" using assms by (simp add: covers_def)
  have macs: "span_read_mac m s destination_offset = Some (read_mac_address bs destination_offset)"
    "span_read_mac m s source_offset = Some (read_mac_address bs source_offset)"
    using False by (simp_all add: covers_mac [OF assms] frame_constants)
  show ?thesis
    using False len macs covers_tail [OF assms] vlan_header_offset [of bs]
    by (auto simp: span_EthernetFrame_parse_def EthernetFrame_parse_def span_vlan_header [OF assms] refuse_def split: option.split)
qed (use assms in \<open>simp add: span_EthernetFrame_parse_def EthernetFrame_parse_def refuse_def covers_def\<close>)

lemma span_arp:
  assumes "covers m s bs"
  shows "span_ArpPacket_parse m s = Some (ArpPacket_parse bs)"
proof (cases "span_size s = arp_serialized_size")
  case True
  have len: "length bs = span_size s" using assms by (simp add: covers_def)
  have loads: "ByteSpan_load m s hardware_length_offset = Some (bs ! hardware_length_offset)"
    "ByteSpan_load m s protocol_length_offset = Some (bs ! protocol_length_offset)"
    "span_read_mac m s sender_mac_offset = Some (read_mac_address bs sender_mac_offset)"
    "span_read_mac m s target_mac_offset = Some (read_mac_address bs target_mac_offset)"
    using True by (simp_all add: covers_load [OF assms] covers_mac [OF assms] arp_constants)
  show ?thesis
    using True len loads
    by (auto simp: span_ArpPacket_parse_def ArpPacket_parse_def covers_read [OF assms] refuse_def split: option.split)
qed (use assms in \<open>simp add: span_ArpPacket_parse_def ArpPacket_parse_def refuse_def covers_def\<close>)

lemma span_ipv4:
  assumes "covers m s bs"
  shows "span_Ipv4Packet_parse m s = Some (Ipv4Packet_parse bs)"
proof (cases "span_size s < ip_header_size")
  case False
  have len: "length bs = span_size s" using assms by (simp add: covers_def)
  have loads: "ByteSpan_load m s version_and_header_length_offset = Some (bs ! version_and_header_length_offset)"
    "ByteSpan_load m s differentiated_services_offset = Some (bs ! differentiated_services_offset)"
    "ByteSpan_load m s time_to_live_offset = Some (bs ! time_to_live_offset)"
    "ByteSpan_load m s protocol_offset = Some (bs ! protocol_offset)"
    using False by (simp_all add: covers_load [OF assms] ipv4_constants)
  have valid: "span_has_valid_checksum m (ByteSpan_first ip_header_size s) = Some (has_valid_internet_checksum (take ip_header_size bs))"
    by (rule covers_checksum [OF covers_first [OF assms]]) (use False in simp)
  have "span_read_address m s offset = Some (read_address bs offset)" if "offset + 4 \<le> length bs" for offset
    using that by (simp add: span_read_address_def read_address_def covers_read [OF assms] read_big_endian_eq)
  then have addresses: "span_read_address m s ip_source_offset = Some (read_address bs ip_source_offset)"
    "span_read_address m s ip_destination_offset = Some (read_address bs ip_destination_offset)"
    using False len by (simp_all add: ipv4_constants)
  show ?thesis
    using False len loads valid addresses covers_tail [OF assms, of ip_header_size]
    by (auto simp: span_Ipv4Packet_parse_def Ipv4Packet_parse_def covers_read [OF assms] refuse_def split: option.split)
qed (use assms in \<open>simp add: span_Ipv4Packet_parse_def Ipv4Packet_parse_def refuse_def covers_def\<close>)

section \<open>Property\<close>

text \<open>
  Property C9: the parsers are memory-safe. For any bytes of any length, the Ethernet, ARP and IPv4 parsers and the
  checksum read nothing outside the span that they are given, whatever lies around it, and compute what the list
  models compute; a big-endian write changes the span as the list model says and no other address.
\<close>

theorem parsers_memory_safe:
  assumes "covers m s bs"
  shows "span_EthernetFrame_parse m s = Some (EthernetFrame_parse bs) \<and>
    span_ArpPacket_parse m s = Some (ArpPacket_parse bs) \<and>
    span_Ipv4Packet_parse m s = Some (Ipv4Packet_parse bs) \<and>
    span_has_valid_checksum m s = Some (has_valid_internet_checksum bs) \<and>
    (\<exists>m'. span_write_big_endian (value :: u32) s offset m = Some (fst (write_big_endian value bs offset), m') \<and>
      covers m' s (snd (write_big_endian value bs offset)) \<and>
      (\<forall>a. a < span_data s \<or> span_data s + span_size s \<le> a \<longrightarrow> m' a = m a))"
proof -
  have "\<exists>m'. span_write_big_endian value s offset m = Some (fst (write_big_endian value bs offset), m') \<and>
      covers_frame m m' s (snd (write_big_endian value bs offset))"
    by (rule covers_write [OF assms])
  then show ?thesis
    unfolding covers_frame_def
    by (intro conjI span_ethernet [OF assms] span_arp [OF assms] span_ipv4 [OF assms] covers_checksum [OF assms])
qed

text \<open>A memory that consists of the bytes of the span and nothing else.\<close>

definition memory_of :: "nat \<Rightarrow> bytes \<Rightarrow> memory" where
  "memory_of address bs = (\<lambda>a. if address \<le> a \<and> a < address + length bs then Some (bs ! (a - address)) else None)"

lemma memory_of_covers: "covers (memory_of address bs) (ByteSpan_of_container address bs) bs"
  by (simp add: covers_def memory_of_def ByteSpan_of_container_def)

definition span_sample :: EthernetFrame where
  "span_sample = \<lparr>destination = MacAddress 2 0 0 0 0 1, source = MacAddress 2 0 0 0 0 2, ether_type = EtherType_ipv4,
     payload = [1, 2, 3], vlan_tag = None\<rparr>"

theorem parsers_memory_safe_witness:
  "span_EthernetFrame_parse (memory_of 64 (EthernetFrame_serialize span_sample))
     (ByteSpan_of_container 64 (EthernetFrame_serialize span_sample)) = Some (Some span_sample)"
proof -
  have "EthernetFrame_parse (EthernetFrame_serialize span_sample) = Some span_sample"
    by (rule ethernet.parse_serialize) (simp add: span_sample_def EthernetFrame_wf_def EthernetFrame_valid_def frame_constants)
  then show ?thesis
    using parsers_memory_safe [OF memory_of_covers, of 64 "EthernetFrame_serialize span_sample"] by simp
qed

end
