(* ===== verification/Span_Serializers.thy ===== *)
theory Span_Serializers
  imports Span_Parsers
begin

unbundle bit_operations_syntax

text \<open>
  The three packet serializers over the memory of \<^verbatim>\<open>Byte_Span\<close>: each allocates its vector, a block of zeros at
  \<open>base\<close>, and writes into it through a span. \<open>None\<close> is a write outside the memory, \<open>Some (None, m)\<close> the empty
  vector that the code returns when a checked write fails.
\<close>

section \<open>Writes\<close>

definition vector_allocate :: "nat \<Rightarrow> nat \<Rightarrow> memory \<Rightarrow> memory" where
  "vector_allocate base n m = (\<lambda>a. if base \<le> a \<and> a < base + n then Some 0 else m a)"

text \<open>\<^verbatim>\<open>std::copy\<close> to the address at \<open>offset\<close>, which checks nothing.\<close>

definition span_copy :: "bytes \<Rightarrow> ByteSpan \<Rightarrow> nat \<Rightarrow> memory \<Rightarrow> memory option" where
  "span_copy src s offset m =
     foldl (\<lambda>state index. do {m \<leftarrow> state; ByteSpan_store s (offset + index) (src ! index) m}) (Some m) [0..<length src]"

definition span_write_mac :: "MacAddress \<Rightarrow> ByteSpan \<Rightarrow> nat \<Rightarrow> memory \<Rightarrow> memory option" where
  "span_write_mac address s offset m = span_copy (mac_bytes address) s offset m"

definition span_write_header_field :: "u16 \<Rightarrow> ByteSpan \<Rightarrow> nat \<Rightarrow> memory \<Rightarrow> (bool \<times> memory) option" where
  "span_write_header_field value s offset m = span_write_big_endian value s offset m"

text \<open>Writes joined by \<^verbatim>\<open>&&\<close>.\<close>

fun span_write_fields :: "(memory \<Rightarrow> (bool \<times> memory) option) list \<Rightarrow> memory \<Rightarrow> (bool \<times> memory) option" where
  "span_write_fields [] m = Some (True, m)"
| "span_write_fields (w # ws) m = do {
     (wrote, m') \<leftarrow> w m;
     if wrote then span_write_fields ws m' else Some (False, m')}"

section \<open>The serializers\<close>

definition span_EthernetFrame_serialize :: "nat \<Rightarrow> EthernetFrame \<Rightarrow> memory \<Rightarrow> (ByteSpan option \<times> memory) option" where
  "span_EthernetFrame_serialize base f m =
     (let serialized_header_size = (if vlan_tag f \<noteq> None then tagged_header_size else header_size);
          n = serialized_header_size + length (payload f);
          output = ByteSpan_create base n;
          outer_ether_type = (if vlan_tag f \<noteq> None then EtherType_vlan_tagged else ether_type f)
      in do {
        m \<leftarrow> span_write_mac (destination f) output destination_offset (vector_allocate base n m);
        m \<leftarrow> span_write_mac (source f) output source_offset m;
        (wrote_outer_ether_type, m) \<leftarrow> span_write_big_endian outer_ether_type output ether_type_offset m;
        if \<not> wrote_outer_ether_type then Some (None, m)
        else case vlan_tag f of
          None \<Rightarrow> do {m \<leftarrow> span_copy (payload f) output serialized_header_size m; Some (Some output, m)}
        | Some tag \<Rightarrow> do {
            (wrote_vlan_tag, m) \<leftarrow>
              span_write_big_endian (VlanTag_tag_control_information tag) output vlan_control_information_offset m;
            (wrote_inner_ether_type, m) \<leftarrow> span_write_big_endian (ether_type f) output inner_ether_type_offset m;
            if \<not> wrote_vlan_tag \<or> \<not> wrote_inner_ether_type then Some (None, m)
            else do {m \<leftarrow> span_copy (payload f) output serialized_header_size m; Some (Some output, m)}}})"

definition span_ArpPacket_serialize :: "nat \<Rightarrow> ArpPacket \<Rightarrow> memory \<Rightarrow> (ByteSpan option \<times> memory) option" where
  "span_ArpPacket_serialize base p m =
     (let output = ByteSpan_create base arp_serialized_size
      in do {
        (wrote_fields, m) \<leftarrow> span_write_fields
          [span_write_big_endian ethernet_hardware_type output hardware_type_offset,
           span_write_big_endian EtherType_ipv4 output protocol_type_offset,
           span_write_big_endian (ArpOperation_value (operation p)) output operation_offset,
           span_write_big_endian (Ipv4Address_value (sender_ip p)) output sender_ip_offset,
           span_write_big_endian (Ipv4Address_value (target_ip p)) output target_ip_offset]
          (vector_allocate base arp_serialized_size m);
        if \<not> wrote_fields then Some (None, m)
        else do {
          m \<leftarrow> ByteSpan_store output hardware_length_offset ethernet_address_length m;
          m \<leftarrow> ByteSpan_store output protocol_length_offset ipv4_address_length m;
          m \<leftarrow> span_write_mac (sender_mac p) output sender_mac_offset m;
          m \<leftarrow> span_write_mac (target_mac p) output target_mac_offset m;
          Some (Some output, m)}})"

definition span_Ipv4Packet_serialize :: "nat \<Rightarrow> Ipv4Packet \<Rightarrow> memory \<Rightarrow> (ByteSpan option \<times> memory) option" where
  "span_Ipv4Packet_serialize base p m =
     (let n = ip_header_size + length (ip_payload p);
          output = ByteSpan_create base n;
          total_length = (of_nat n :: u16);
          flags_and_fragment = (if ip_dont_fragment p then dont_fragment_mask else 0)
      in do {
        m \<leftarrow> ByteSpan_store output version_and_header_length_offset version_and_header_length (vector_allocate base n m);
        m \<leftarrow> ByteSpan_store output differentiated_services_offset supported_differentiated_services m;
        m \<leftarrow> ByteSpan_store output time_to_live_offset (ip_time_to_live p) m;
        m \<leftarrow> ByteSpan_store output protocol_offset (ip_protocol p) m;
        (wrote_header, m) \<leftarrow> span_write_fields
          [span_write_header_field total_length output total_length_offset,
           span_write_header_field (ip_identification p) output identification_offset,
           span_write_header_field flags_and_fragment output flags_and_fragment_offset,
           span_write_big_endian (Ipv4Address_value (ip_source p)) output ip_source_offset,
           span_write_big_endian (Ipv4Address_value (ip_destination p)) output ip_destination_offset] m;
        if \<not> wrote_header then Some (None, m)
        else do {
          checksum \<leftarrow> span_compute_checksum m (ByteSpan_first ip_header_size output);
          (wrote_checksum, m) \<leftarrow> span_write_header_field checksum output checksum_offset m;
          if \<not> wrote_checksum then Some (None, m)
          else do {m \<leftarrow> span_copy (ip_payload p) output ip_header_size m; Some (Some output, m)}}})"

section \<open>They write into their block only\<close>

lemma covers_frame_trans: "covers_frame m0 m s bs \<Longrightarrow> covers_frame m m' s bs' \<Longrightarrow> covers_frame m0 m' s bs'"
  by (simp add: covers_frame_def)

lemma covers_frame_length: "covers_frame m0 m s bs \<Longrightarrow> length bs = span_size s"
  by (simp add: covers_frame_def covers_def)

lemma covers_frame_write:
  assumes "covers_frame m0 m s bs"
  shows "\<exists>m'. span_write_big_endian v s offset m = Some (fst (write_big_endian v bs offset), m') \<and>
    covers_frame m0 m' s (snd (write_big_endian v bs offset))"
proof -
  have "covers m s bs" using assms by (simp add: covers_frame_def)
  from covers_write [OF this, of v offset] show ?thesis using covers_frame_trans [OF assms] by blast
qed

lemma covers_frame_copy:
  assumes "covers_frame m0 m s bs" and "offset + length src \<le> span_size s"
  shows "\<exists>m'. span_copy src s offset m = Some m' \<and> covers_frame m0 m' s (copy_at src bs offset)"
proof -
  let ?f = "\<lambda>state index. do {m \<leftarrow> state; ByteSpan_store s (offset + index) (src ! index) m}"
  have "\<exists>m'. foldl ?f (Some m) [0..<n] = Some m' \<and> covers_frame m0 m' s (copy_at (take n src) bs offset)"
    if "n \<le> length src" for n
    using that
  proof (induction n)
    case 0
    then show ?case using assms(1) by (simp add: copy_at_def)
  next
    case (Suc n)
    then obtain m1 where m1: "foldl ?f (Some m) [0..<n] = Some m1" "covers_frame m0 m1 s (copy_at (take n src) bs offset)" by auto
    have "(copy_at (take n src) bs offset)[offset + n := src ! n] = copy_at (take (Suc n) src) bs offset"
      using Suc.prems assms(2) covers_frame_length [OF assms(1)]
      by (intro nth_equalityI) (auto simp: copy_at_def nth_append nth_list_update min_def)
    then show ?case using m1 covers_store [OF m1(2), of "offset + n" "src ! n"] Suc.prems assms(2) by auto
  qed
  from this [of "length src"] show ?thesis by (simp add: span_copy_def)
qed

lemma covers_frame_mac:
  assumes "covers_frame m0 m s bs" and "offset + 6 \<le> span_size s"
  shows "\<exists>m'. span_write_mac address s offset m = Some m' \<and> covers_frame m0 m' s (write_mac_address address bs offset)"
proof -
  have "length (mac_bytes address) = 6" by (cases address) simp
  then show ?thesis using covers_frame_copy [OF assms(1)] assms(2) by (simp add: span_write_mac_def write_mac_address_def)
qed

text \<open>A chain of writes, each of which does what its list version does.\<close>

definition writes_as :: "memory \<Rightarrow> ByteSpan \<Rightarrow> (memory \<Rightarrow> (bool \<times> memory) option) \<Rightarrow> (bytes \<Rightarrow> bool \<times> bytes) \<Rightarrow> bool" where
  "writes_as m0 s w f \<longleftrightarrow> (\<forall>m bs. covers_frame m0 m s bs \<longrightarrow>
     (\<exists>m'. w m = Some (fst (f bs), m') \<and> covers_frame m0 m' s (snd (f bs))))"

lemma writes_as_field [simp]:
  "writes_as m0 s (span_write_big_endian v s offset) (\<lambda>bs. write_big_endian v bs offset)"
  "writes_as m0 s (span_write_header_field h s offset) (\<lambda>bs. write_big_endian h bs offset)"
  unfolding writes_as_def span_write_header_field_def by (blast intro: covers_frame_write)+

lemma covers_frame_fields:
  assumes "list_all2 (writes_as m0 s) ws fs" and "covers_frame m0 m s bs"
  shows "\<exists>m'. span_write_fields ws m = Some (fst (write_fields fs bs), m') \<and> covers_frame m0 m' s (snd (write_fields fs bs))"
  using assms
proof (induction arbitrary: m bs rule: list_all2_induct)
  case (Cons w ws f fs)
  then obtain m' where m': "w m = Some (fst (f bs), m')" "covers_frame m0 m' s (snd (f bs))" unfolding writes_as_def by blast
  then show ?case using Cons.IH [OF m'(2)] by (cases "f bs") auto
qed simp

lemma vector_covers:
  "covers_frame (vector_allocate base n m) (vector_allocate base n m) (ByteSpan_create base n) (replicate n 0)"
  by (simp add: covers_frame_def covers_def ByteSpan_create_def vector_allocate_def)

text \<open>The result: the block holds the bytes of the list serializer, and no other address has changed.\<close>

definition serialized_at :: "nat \<Rightarrow> nat \<Rightarrow> memory \<Rightarrow> (ByteSpan option \<times> memory) option \<Rightarrow> bytes \<Rightarrow> bool" where
  "serialized_at base n m result bs \<longleftrightarrow>
     (\<exists>vector m'. result = Some (vector, m') \<and> (\<forall>a. a < base \<or> base + n \<le> a \<longrightarrow> m' a = m a) \<and>
        (case vector of None \<Rightarrow> bs = [] | Some s \<Rightarrow> s = ByteSpan_create base n \<and> covers m' s bs))"

lemma serialized_atI:
  assumes "covers_frame (vector_allocate base n m) m' (ByteSpan_create base n) bs"
  shows "serialized_at base n m (Some (Some (ByteSpan_create base n), m')) bs"
    and "serialized_at base n m (Some (None, m')) []"
  using assms by (auto simp: serialized_at_def covers_frame_def ByteSpan_create_def vector_allocate_def)

text \<open>To step through a serializer: each write is followed by what comes after it, in the memory that it leaves.\<close>

lemma span_size_create [simp]: "span_size (ByteSpan_create base n) = n"
  by (simp add: ByteSpan_create_def)

lemma after_copy:
  assumes "covers_frame (vector_allocate base n m0) m (ByteSpan_create base n) bs" and "offset + length src \<le> n"
    and "\<And>m'. covers_frame (vector_allocate base n m0) m' (ByteSpan_create base n) (copy_at src bs offset) \<Longrightarrow>
      serialized_at base n m0 (k m') out"
  shows "serialized_at base n m0 (Option.bind (span_copy src (ByteSpan_create base n) offset m) k) out"
  using covers_frame_copy [OF assms(1)] assms(2,3) by fastforce

lemma after_mac:
  assumes "covers_frame (vector_allocate base n m0) m (ByteSpan_create base n) bs" and "offset + 6 \<le> n"
    and "\<And>m'. covers_frame (vector_allocate base n m0) m' (ByteSpan_create base n) (write_mac_address address bs offset) \<Longrightarrow>
      serialized_at base n m0 (k m') out"
  shows "serialized_at base n m0 (Option.bind (span_write_mac address (ByteSpan_create base n) offset m) k) out"
  using covers_frame_mac [OF assms(1)] assms(2,3) by fastforce

lemma after_store:
  assumes "covers_frame (vector_allocate base n m0) m (ByteSpan_create base n) bs" and "offset < n"
    and "\<And>m'. covers_frame (vector_allocate base n m0) m' (ByteSpan_create base n) (bs[offset := v]) \<Longrightarrow>
      serialized_at base n m0 (k m') out"
  shows "serialized_at base n m0 (Option.bind (ByteSpan_store (ByteSpan_create base n) offset v m) k) out"
  using covers_store [OF assms(1), of offset v] assms(2,3) by fastforce

lemma after_write:
  assumes "covers_frame (vector_allocate base n m0) m (ByteSpan_create base n) bs"
    and "\<And>m'. covers_frame (vector_allocate base n m0) m' (ByteSpan_create base n) (snd (write_big_endian v bs offset)) \<Longrightarrow>
      serialized_at base n m0 (k (fst (write_big_endian v bs offset), m')) out"
  shows "serialized_at base n m0 (Option.bind (span_write_big_endian v (ByteSpan_create base n) offset m) k) out"
  using covers_frame_write [OF assms(1), of v offset] assms(2) by fastforce

lemma after_fields:
  assumes "covers_frame (vector_allocate base n m0) m (ByteSpan_create base n) bs"
    and "list_all2 (writes_as (vector_allocate base n m0) (ByteSpan_create base n)) ws fs"
    and "\<And>m'. covers_frame (vector_allocate base n m0) m' (ByteSpan_create base n) (snd (write_fields fs bs)) \<Longrightarrow>
      serialized_at base n m0 (k (fst (write_fields fs bs), m')) out"
  shows "serialized_at base n m0 (Option.bind (span_write_fields ws m) k) out"
  using covers_frame_fields [OF assms(2,1)] assms(3) by fastforce

lemma after_test:
  assumes "covers_frame (vector_allocate base n m0) m (ByteSpan_create base n) bs"
    and "wrote \<Longrightarrow> serialized_at base n m0 result out"
  shows "serialized_at base n m0 (if \<not> wrote then Some (None, m) else result) (if \<not> wrote then [] else out)"
  using assms serialized_atI(2) by simp

lemma at_the_end:
  assumes "covers_frame (vector_allocate base n m0) m (ByteSpan_create base n) bs"
  shows "serialized_at base n m0 (Some (Some (ByteSpan_create base n), m)) bs"
  using assms by (rule serialized_atI(1))

lemmas serializer_steps = after_mac after_copy after_store after_write after_fields after_test at_the_end

lemma span_ethernet_serializes:
  "serialized_at base ((if vlan_tag f \<noteq> None then tagged_header_size else header_size) + length (payload f)) m
     (span_EthernetFrame_serialize base f m) (EthernetFrame_serialize f)"
proof (cases "vlan_tag f")
  case None
  show ?thesis
    unfolding span_EthernetFrame_serialize_def EthernetFrame_serialize_def Let_def None case_prod_beta option.case
      simp_thms if_False frame_constants
    by (rule serializer_steps, (assumption | rule vector_covers), linarith?, (simp only: fst_conv snd_conv)?)+
next
  case (Some tag)
  show ?thesis
    unfolding span_EthernetFrame_serialize_def EthernetFrame_serialize_def Let_def case_prod_beta Some
      if_P [OF option.distinct(2)] option.case frame_constants
    by (rule serializer_steps, (assumption | rule vector_covers), linarith?,
        (simp only: fst_conv snd_conv de_Morgan_conj [symmetric])?)+
qed

text \<open>The checksum is computed over the first 20 bytes of the block.\<close>

lemma after_checksum:
  assumes "covers_frame (vector_allocate base n m0) m (ByteSpan_create base n) bs" and "header \<le> n"
    and "serialized_at base n m0 (k (compute_internet_checksum (take header bs))) out"
  shows "serialized_at base n m0 (Option.bind (span_compute_checksum m (ByteSpan_first header (ByteSpan_create base n))) k) out"
proof -
  have "covers m (ByteSpan_first header (ByteSpan_create base n)) (take header bs)"
    using assms(1,2) by (simp add: covers_first covers_frame_def)
  from covers_checksum_loop [OF this, of 0 0] show ?thesis
    using assms(3) by (simp add: span_compute_checksum_def compute_internet_checksum_def)
qed

lemma span_arp_serializes: "serialized_at base arp_serialized_size m (span_ArpPacket_serialize base p m) (ArpPacket_serialize p)"
  unfolding span_ArpPacket_serialize_def ArpPacket_serialize_def Let_def case_prod_beta arp_constants
  apply (rule after_fields [OF vector_covers])
   apply (rule list.rel_intros writes_as_field)+
  by ((simp only: fst_conv snd_conv)?, rule serializer_steps, assumption, linarith?)+

lemma span_ipv4_serializes:
  "serialized_at base (ip_header_size + length (ip_payload p)) m (span_Ipv4Packet_serialize base p m) (Ipv4Packet_serialize p)"
  unfolding span_Ipv4Packet_serialize_def Ipv4Packet_serialize_def Let_def case_prod_beta ipv4_constants
    length_replicate length_list_update span_write_header_field_def
  apply (rule serializer_steps, (assumption | rule vector_covers), linarith)+
  apply (rule after_fields, assumption)
   apply (rule list.rel_intros writes_as_field)+
  by ((simp only: fst_conv snd_conv)?, rule serializer_steps after_checksum, assumption, linarith?)+

section \<open>Property\<close>

text \<open>
  What a serializer does at \<open>base\<close>: it returns the span of its vector, which holds the bytes \<open>bs\<close>; no address outside
  the vector has changed; and the parser, run on that span in that memory, gives the packet back.
\<close>

definition written_and_read_back ::
    "nat \<Rightarrow> bytes \<Rightarrow> memory \<Rightarrow> (memory \<Rightarrow> ByteSpan \<Rightarrow> 'p option option) \<Rightarrow> 'p \<Rightarrow> (ByteSpan option \<times> memory) option \<Rightarrow> bool" where
  "written_and_read_back base bs m parse p result \<longleftrightarrow>
     (\<exists>m'. result = Some (Some (ByteSpan_create base (length bs)), m') \<and>
        covers m' (ByteSpan_create base (length bs)) bs \<and>
        (\<forall>a. a < base \<or> base + length bs \<le> a \<longrightarrow> m' a = m a) \<and>
        parse m' (ByteSpan_create base (length bs)) = Some (Some p))"

lemma written_and_read_backI:
  assumes "serialized_at base (length bs) m result bs" and "bs \<noteq> []"
    and "\<And>m' s. covers m' s bs \<Longrightarrow> parse m' s = Some (Some p)"
  shows "written_and_read_back base bs m parse p result"
  using assms unfolding serialized_at_def written_and_read_back_def by (auto split: option.splits)

lemma serialized_lengths:
  "length (EthernetFrame_serialize f) = (if vlan_tag f \<noteq> None then tagged_header_size else header_size) + length (payload f)"
  "length (ArpPacket_serialize p) = arp_serialized_size"
  "length (Ipv4Packet_serialize q) = ip_header_size + length (ip_payload q)"
  by (auto simp: serialize_frame frame_constants serialize_arp arp_constants serialize_ipv4 ipv4_header_front_def
      ipv4_header_back_def ip_header_size_def split: option.split)

lemma serialized_nonempty: "EthernetFrame_serialize f \<noteq> []" "ArpPacket_serialize p \<noteq> []" "Ipv4Packet_serialize q \<noteq> []"
  using serialized_lengths(1) [of f] serialized_lengths(2) [of p] serialized_lengths(3) [of q] by (auto simp: frame_constants arp_constants ip_header_size_def split: if_splits)

text \<open>
  Property C10: the serializers are memory-safe and their output is read back. For every well-formed frame or packet,
  at every address and whatever the memory holds, the Ethernet, ARP and IPv4 serializers write only into the vector that
  they allocate, never take the branch that returns an empty vector, and leave in it exactly the bytes of the wire
  format; the memory-level parser reads the packet back from it.
\<close>

theorem serializers_memory_safe:
  assumes "EthernetFrame_wf f" and "ArpPacket_wf p" and "Ipv4Packet_wf q"
  shows "written_and_read_back base (EthernetFrame_serialize f) m span_EthernetFrame_parse f (span_EthernetFrame_serialize base f m) \<and>
    written_and_read_back base (ArpPacket_serialize p) m span_ArpPacket_parse p (span_ArpPacket_serialize base p m) \<and>
    written_and_read_back base (Ipv4Packet_serialize q) m span_Ipv4Packet_parse q (span_Ipv4Packet_serialize base q m)"
proof (intro conjI written_and_read_backI serialized_nonempty)
  show "serialized_at base (length (EthernetFrame_serialize f)) m (span_EthernetFrame_serialize base f m) (EthernetFrame_serialize f)"
    unfolding serialized_lengths by (rule span_ethernet_serializes)
  show "serialized_at base (length (ArpPacket_serialize p)) m (span_ArpPacket_serialize base p m) (ArpPacket_serialize p)"
    unfolding serialized_lengths by (rule span_arp_serializes)
  show "serialized_at base (length (Ipv4Packet_serialize q)) m (span_Ipv4Packet_serialize base q m) (Ipv4Packet_serialize q)"
    unfolding serialized_lengths by (rule span_ipv4_serializes)
qed (simp_all add: span_ethernet span_arp span_ipv4 parse_serialize_frame parse_serialize_arp parse_serialize_ipv4 assms)

definition span_sample_arp :: ArpPacket where
  "span_sample_arp = \<lparr>operation = reply, sender_mac = MacAddress 2 0 0 0 0 1, sender_ip = Ipv4Address 0x0A000101,
     target_mac = MacAddress 2 0 0 0 0 2, target_ip = Ipv4Address 0x0A000102\<rparr>"

theorem serializers_memory_safe_witness:
  "written_and_read_back 64 (EthernetFrame_serialize span_sample) (\<lambda>a. None) span_EthernetFrame_parse span_sample
     (span_EthernetFrame_serialize 64 span_sample (\<lambda>a. None)) \<and>
   written_and_read_back 64 (ArpPacket_serialize span_sample_arp) (\<lambda>a. None) span_ArpPacket_parse span_sample_arp
     (span_ArpPacket_serialize 64 span_sample_arp (\<lambda>a. None)) \<and>
   written_and_read_back 64 (Ipv4Packet_serialize sample_packet) (\<lambda>a. None) span_Ipv4Packet_parse sample_packet
     (span_Ipv4Packet_serialize 64 sample_packet (\<lambda>a. None))"
proof (rule serializers_memory_safe)
  show "EthernetFrame_wf span_sample" by (simp add: span_sample_def EthernetFrame_wf_def EthernetFrame_valid_def frame_constants)
  have "ArpPacket_parse (ArpPacket_serialize span_sample_arp) = Some span_sample_arp" by code_simp
  then show "ArpPacket_wf span_sample_arp" by (rule parse_arp_SomeD)
  show "Ipv4Packet_wf sample_packet" by (simp add: Ipv4Packet_wf_def sample_packet_def ipv4_constants)
qed

end
