(* ===== verification/Message_Format.thy ===== *)
theory Message_Format
  imports Wire
begin

text \<open>
  What the message formats of \<^verbatim>\<open>transport/\<close> and \<^verbatim>\<open>discovery/\<close> share. A header is a sequence of
  big-endian fields at fixed offsets. A parser that returns \<^verbatim>\<open>std::variant<Message, Error>\<close> is a
  function into \<open>error + message\<close>. Fields are read with \<^verbatim>\<open>.value()\<close> after the size check,
  where the optional is never empty (\<open>read_value_defined\<close>); a serializer ignores the results of
  its writes, which all lie within the vector.
\<close>

definition read_value :: "bytes \<Rightarrow> nat \<Rightarrow> 'a::len word" where
  "read_value bs offset = the (read_big_endian bs offset)"

definition put_value :: "'a::len word \<Rightarrow> nat \<Rightarrow> bytes \<Rightarrow> bytes" where
  "put_value value offset bs = snd (write_big_endian value bs offset)"

definition accepted :: "'e + 'a \<Rightarrow> 'a option" where
  "accepted result = (case result of Inl _ \<Rightarrow> None | Inr x \<Rightarrow> Some x)"

lemma accepted_simps [simp]: "accepted (Inl e) = None" "accepted (Inr x) = Some x"
  by (simp_all add: accepted_def)

lemma accepted_Some_iff: "accepted result = Some x \<longleftrightarrow> result = Inr x"
  by (simp add: accepted_def split: sum.split)

lemma read_value_defined:
  "offset + sizeof TYPE('a::len word) \<le> length bs \<Longrightarrow> read_big_endian bs offset = Some (read_value bs offset :: 'a word)"
  by (simp add: read_value_def read_big_endian_eq)

lemma read_value_eq:
  "offset + sizeof TYPE('a::len word) \<le> length bs \<Longrightarrow>
   read_value bs offset = (be_value (take (sizeof TYPE('a word)) (drop offset bs)) :: 'a word)"
  by (simp add: read_value_def read_big_endian_eq)

lemma read_value_at:
  assumes "whole_bytes TYPE('a::len word)"
    and "take (sizeof TYPE('a word)) (drop offset bs) = be_bytes (v :: 'a word)"
  shows "read_value bs offset = v"
  using read_be_bytes_at [OF assms] by (simp add: read_value_def)

lemma be_bytes_read_value:
  assumes "whole_bytes TYPE('a::len word)" and "offset + sizeof TYPE('a word) \<le> length bs"
  shows "be_bytes (read_value bs offset :: 'a word) = take (sizeof TYPE('a word)) (drop offset bs)"
  using assms by (simp add: read_value_eq be_bytes_be_value)

lemma put_value_eq:
  "offset + sizeof TYPE('a::len word) \<le> length bs \<Longrightarrow>
   put_value (v :: 'a word) offset bs = take offset bs @ be_bytes v @ drop (offset + sizeof TYPE('a word)) bs"
  by (simp add: put_value_def write_big_endian_eq copy_at_def)

lemma length_put_value [simp]: "length (put_value v offset bs) = length bs"
  by (simp add: put_value_def write_big_endian_eq copy_at_def)

text \<open>The length field of a message that fits in it reads back as the length.\<close>

lemma of_nat_u32_unat: "n < 2 ^ 32 \<Longrightarrow> unat (of_nat n :: u32) = n"
  by (simp add: unat_of_nat)

end
