(* ===== verification/State_Update.thy ===== *)
theory State_Update
  imports Message_Format
begin

text \<open>
  \<^verbatim>\<open>transport/state_update_protocol.cpp\<close>: the datagrams that carry the state of the authoritative
  server to its observers. The type is an unsigned 16-bit value, as the parser casts whatever it
  reads and then checks it.
\<close>

section \<open>Updates\<close>

type_synonym StateUpdateType = u16

definition update_snapshot :: StateUpdateType where "update_snapshot = 1"
definition update_delta :: StateUpdateType where "update_delta = 2"
definition update_heartbeat :: StateUpdateType where "update_heartbeat = 3"
definition update_resync_request :: StateUpdateType where "update_resync_request = 4"

datatype StateUpdateParseError =
  update_truncated | update_invalid_magic | update_unsupported_version | update_unknown_type
| update_payload_too_large | update_length_mismatch | update_invalid_revision

record StateUpdate =
  update_type :: StateUpdateType
  update_session_id :: u64
  update_sequence :: u64
  update_timestamp :: u64
  update_base_revision :: u64
  update_revision :: u64
  update_payload :: bytes

definition state_update_magic :: u32 where "state_update_magic = 0x53535550"
definition update_current_version :: u16 where "update_current_version = 1"
definition update_header_size :: nat where "update_header_size = 52"
definition update_maximum_payload_size :: nat where "update_maximum_payload_size = 60 * 1024"

lemmas update_types [codec_defs] =
  update_snapshot_def update_delta_def update_heartbeat_def update_resync_request_def

lemmas update_constants [codec_defs] =
  state_update_magic_def update_current_version_def update_header_size_def update_maximum_payload_size_def

definition is_known :: "StateUpdateType \<Rightarrow> bool" where
  "is_known t \<longleftrightarrow> t = update_snapshot \<or> t = update_delta \<or> t = update_heartbeat \<or> t = update_resync_request"

definition revisions_are_valid :: "StateUpdateType \<Rightarrow> u64 \<Rightarrow> u64 \<Rightarrow> bool" where
  "revisions_are_valid t base_revision revision =
     (if t = update_snapshot then base_revision = 0 \<and> revision > 0
      else if t = update_delta then revision > base_revision
      else base_revision \<le> revision)"

definition StateUpdate_create ::
  "StateUpdateType \<Rightarrow> u64 \<Rightarrow> u64 \<Rightarrow> u64 \<Rightarrow> u64 \<Rightarrow> u64 \<Rightarrow> bytes \<Rightarrow> StateUpdate option" where
  "StateUpdate_create t session_id sequence timestamp base_revision revision payload =
     (if \<not> is_known t \<or> session_id = 0 \<or> sequence = 0 \<or> length payload > update_maximum_payload_size \<or>
         \<not> revisions_are_valid t base_revision revision then None
      else Some \<lparr>update_type = t, update_session_id = session_id, update_sequence = sequence,
        update_timestamp = timestamp, update_base_revision = base_revision, update_revision = revision,
        update_payload = payload\<rparr>)"

definition StateUpdate_parse :: "bytes \<Rightarrow> StateUpdateParseError + StateUpdate" where
  "StateUpdate_parse bs =
     (if length bs < update_header_size then Inl update_truncated
      else
        let magic = read_value bs 0 :: u32;
            version = read_value bs 4 :: u16;
            t = read_value bs 6 :: u16;
            session = read_value bs 8 :: u64;
            sequence = read_value bs 16 :: u64;
            timestamp = read_value bs 24 :: u64;
            base = read_value bs 32 :: u64;
            revision = read_value bs 40 :: u64;
            len = read_value bs 48 :: u32
        in if magic \<noteq> state_update_magic then Inl update_invalid_magic
           else if version \<noteq> update_current_version then Inl update_unsupported_version
           else if \<not> is_known t then Inl update_unknown_type
           else if unat len > update_maximum_payload_size then Inl update_payload_too_large
           else if length bs \<noteq> update_header_size + unat len then Inl update_length_mismatch
           else if session = 0 \<or> sequence = 0 \<or> \<not> revisions_are_valid t base revision then Inl update_invalid_revision
           else Inr \<lparr>update_type = t, update_session_id = session, update_sequence = sequence,
             update_timestamp = timestamp, update_base_revision = base, update_revision = revision,
             update_payload = drop update_header_size bs\<rparr>)"

definition StateUpdate_serialize :: "StateUpdate \<Rightarrow> bytes" where
  "StateUpdate_serialize u =
     (let bs = replicate (update_header_size + length (update_payload u)) 0;
          bs = put_value state_update_magic 0 bs;
          bs = put_value update_current_version 4 bs;
          bs = put_value (update_type u) 6 bs;
          bs = put_value (update_session_id u) 8 bs;
          bs = put_value (update_sequence u) 16 bs;
          bs = put_value (update_timestamp u) 24 bs;
          bs = put_value (update_base_revision u) 32 bs;
          bs = put_value (update_revision u) 40 bs;
          bs = put_value (of_nat (length (update_payload u)) :: u32) 48 bs
      in copy_at (update_payload u) bs update_header_size)"

section \<open>The format is a canonical codec\<close>

definition StateUpdate_wf :: "StateUpdate \<Rightarrow> bool" where
  "StateUpdate_wf u \<longleftrightarrow> is_known (update_type u) \<and> update_session_id u \<noteq> 0 \<and> update_sequence u \<noteq> 0 \<and>
     length (update_payload u) \<le> update_maximum_payload_size \<and>
     revisions_are_valid (update_type u) (update_base_revision u) (update_revision u)"

lemma create_update_iff:
  "StateUpdate_create t session sequence timestamp base revision body = Some u \<longleftrightarrow>
     StateUpdate_wf u \<and> u = \<lparr>update_type = t, update_session_id = session, update_sequence = sequence,
        update_timestamp = timestamp, update_base_revision = base, update_revision = revision, update_payload = body\<rparr>"
  by (auto simp: StateUpdate_create_def StateUpdate_wf_def)

lemma serialize_update:
  "StateUpdate_serialize u =
     be_bytes state_update_magic @ be_bytes update_current_version @ be_bytes (update_type u) @
     be_bytes (update_session_id u) @ be_bytes (update_sequence u) @ be_bytes (update_timestamp u) @
     be_bytes (update_base_revision u) @ be_bytes (update_revision u) @
     be_bytes (of_nat (length (update_payload u)) :: u32) @ update_payload u"
  by (simp add: StateUpdate_serialize_def put_value_eq copy_at_def Let_def update_header_size_def)

lemma parse_serialize_update:
  assumes "StateUpdate_wf u"
  shows "StateUpdate_parse (StateUpdate_serialize u) = Inr u"
proof -
  let ?bs = "StateUpdate_serialize u"
  have "read_value ?bs 0 = state_update_magic" "read_value ?bs 4 = update_current_version"
    "read_value ?bs 6 = update_type u" "read_value ?bs 8 = update_session_id u"
    "read_value ?bs 16 = update_sequence u" "read_value ?bs 24 = update_timestamp u"
    "read_value ?bs 32 = update_base_revision u" "read_value ?bs 40 = update_revision u"
    "read_value ?bs 48 = (of_nat (length (update_payload u)) :: u32)"
    by (rule read_value_at; simp add: serialize_update)+
  moreover have "length ?bs = update_header_size + length (update_payload u)" "drop update_header_size ?bs = update_payload u"
    by (simp_all add: serialize_update update_header_size_def)
  moreover have "unat (of_nat (length (update_payload u)) :: u32) = length (update_payload u)"
    using assms by (intro of_nat_u32_unat) (simp add: StateUpdate_wf_def update_constants)
  ultimately show ?thesis
    using assms by (simp add: StateUpdate_parse_def StateUpdate_wf_def)
qed

lemma parse_update_InrD:
  assumes "StateUpdate_parse bs = Inr u"
  shows "StateUpdate_wf u" and "StateUpdate_serialize u = bs"
proof -
  have len: "length bs \<ge> 52"
    using assms by (auto simp: StateUpdate_parse_def update_header_size_def split: if_splits)
  then have lens: "length bs = 52 + unat (read_value bs 48 :: u32)"
    and u: "u = \<lparr>update_type = read_value bs 6, update_session_id = read_value bs 8, update_sequence = read_value bs 16,
      update_timestamp = read_value bs 24, update_base_revision = read_value bs 32, update_revision = read_value bs 40,
      update_payload = drop 52 bs\<rparr>"
    and head: "read_value bs 0 = state_update_magic" "read_value bs 4 = update_current_version"
    and wf: "StateUpdate_wf u"
    using assms by (auto simp: StateUpdate_parse_def update_header_size_def Let_def StateUpdate_wf_def split: if_splits)
  show "StateUpdate_wf u" by (fact wf)
  have "bs = take 4 bs @ take 2 (drop 4 bs) @ take 2 (drop 6 bs) @ take 8 (drop 8 bs) @ take 8 (drop 16 bs) @
      take 8 (drop 24 bs) @ take 8 (drop 32 bs) @ take 8 (drop 40 bs) @ take 4 (drop 48 bs) @ drop 52 bs"
    using cut [of 4 bs 2] cut [of 6 bs 2] cut [of 8 bs 8] cut [of 16 bs 8] cut [of 24 bs 8] cut [of 32 bs 8]
      cut [of 40 bs 8] cut [of 48 bs 4] by simp
  moreover have "of_nat (length (drop 52 bs)) = (read_value bs 48 :: u32)" using lens by simp
  ultimately show "StateUpdate_serialize u = bs"
    using len by (simp add: serialize_update u be_bytes_read_value head [symmetric])
qed

interpretation state_update: canonical_codec StateUpdate_serialize "\<lambda>bs. accepted (StateUpdate_parse bs)" StateUpdate_wf
  by unfold_locales (auto simp: accepted_Some_iff intro: parse_serialize_update parse_update_InrD)

section \<open>Properties\<close>

text \<open>
  The update parser accepts a datagram with an update exactly if the update is one
  that \<open>create\<close> makes and the datagram is its serialization: nothing that \<open>create\<close> refuses comes
  in over the network, and no two datagrams mean the same update.
\<close>

lemma state_update_parse_iff:
  "StateUpdate_parse bs = Inr u \<longleftrightarrow>
     StateUpdate_create (update_type u) (update_session_id u) (update_sequence u) (update_timestamp u)
       (update_base_revision u) (update_revision u) (update_payload u) = Some u \<and>
     StateUpdate_serialize u = bs"
  using state_update.parse_iff [of bs u] by (simp add: accepted_Some_iff create_update_iff)

end
