(* ===== verification/Control_Protocol.thy ===== *)
theory Control_Protocol
  imports Message_Format
begin

text \<open>
  \<^verbatim>\<open>transport/control_protocol.cpp\<close>: the request and response messages of the control channel.
  The message type is an unsigned 16-bit value that the parser checks against the known ones.
\<close>

section \<open>Messages\<close>

type_synonym ControlMessageType = u16

text \<open>The enumerators, in the order of the declaration.\<close>

definition control_message_types :: "ControlMessageType list" where
  "control_message_types = [1, 2, 3, 10, 11, 12, 20, 21, 22, 23, 24, 30, 40, 100]"

datatype ControlParseError =
  control_truncated | control_invalid_magic | control_unsupported_version | control_unknown_message_type
| control_payload_too_large | control_length_mismatch

record ControlMessage =
  control_version :: u16
  control_type :: ControlMessageType
  control_request_id :: u32
  control_payload :: bytes

definition control_magic :: u32 where "control_magic = 0x53534350"
definition control_current_version :: u16 where "control_current_version = 1"
definition control_header_size :: nat where "control_header_size = 16"
definition control_maximum_payload_size :: nat where "control_maximum_payload_size = 1048576"

lemmas control_constants [codec_defs] =
  control_magic_def control_current_version_def control_header_size_def control_maximum_payload_size_def

definition control_known :: "ControlMessageType \<Rightarrow> bool" where
  "control_known t \<longleftrightarrow> t \<in> set control_message_types"

definition ControlMessage_create :: "ControlMessageType \<Rightarrow> u32 \<Rightarrow> bytes \<Rightarrow> ControlMessage option" where
  "ControlMessage_create t request_id payload =
     (if \<not> control_known t \<or> length payload > control_maximum_payload_size then None
      else Some \<lparr>control_version = control_current_version, control_type = t, control_request_id = request_id,
        control_payload = payload\<rparr>)"

definition ControlMessage_parse :: "bytes \<Rightarrow> ControlParseError + ControlMessage" where
  "ControlMessage_parse bs =
     (if length bs < control_header_size then Inl control_truncated
      else
        let wire_magic = read_value bs 0 :: u32;
            version = read_value bs 4 :: u16;
            t = read_value bs 6 :: u16;
            request = read_value bs 8 :: u32;
            len = read_value bs 12 :: u32
        in if wire_magic \<noteq> control_magic then Inl control_invalid_magic
           else if version \<noteq> control_current_version then Inl control_unsupported_version
           else if \<not> control_known t then Inl control_unknown_message_type
           else if unat len > control_maximum_payload_size then Inl control_payload_too_large
           else if length bs \<noteq> control_header_size + unat len then Inl control_length_mismatch
           else Inr \<lparr>control_version = control_current_version, control_type = t, control_request_id = request,
             control_payload = drop control_header_size bs\<rparr>)"

definition ControlMessage_serialize :: "ControlMessage \<Rightarrow> bytes" where
  "ControlMessage_serialize m =
     (let bs = replicate (control_header_size + length (control_payload m)) 0;
          bs = put_value control_magic 0 bs;
          bs = put_value (control_version m) 4 bs;
          bs = put_value (control_type m) 6 bs;
          bs = put_value (control_request_id m) 8 bs;
          bs = put_value (of_nat (length (control_payload m)) :: u32) 12 bs
      in copy_at (control_payload m) bs control_header_size)"

section \<open>The format is a canonical codec\<close>

definition ControlMessage_wf :: "ControlMessage \<Rightarrow> bool" where
  "ControlMessage_wf m \<longleftrightarrow> control_version m = control_current_version \<and> control_known (control_type m) \<and>
     length (control_payload m) \<le> control_maximum_payload_size"

lemma create_control_iff:
  "ControlMessage_create t request body = Some m \<longleftrightarrow>
     ControlMessage_wf m \<and> control_type m = t \<and> control_request_id m = request \<and> control_payload m = body"
  by (auto simp: ControlMessage_create_def ControlMessage_wf_def)

lemma serialize_control:
  "ControlMessage_serialize m =
     be_bytes control_magic @ be_bytes (control_version m) @ be_bytes (control_type m) @
     be_bytes (control_request_id m) @ be_bytes (of_nat (length (control_payload m)) :: u32) @ control_payload m"
  by (simp add: ControlMessage_serialize_def put_value_eq copy_at_def Let_def control_header_size_def)

lemma parse_serialize_control:
  assumes "ControlMessage_wf m"
  shows "ControlMessage_parse (ControlMessage_serialize m) = Inr m"
proof -
  let ?bs = "ControlMessage_serialize m"
  have "read_value ?bs 0 = control_magic" "read_value ?bs 4 = control_version m"
    "read_value ?bs 6 = control_type m" "read_value ?bs 8 = control_request_id m"
    "read_value ?bs 12 = (of_nat (length (control_payload m)) :: u32)"
    by (rule read_value_at; simp add: serialize_control)+
  moreover have "length ?bs = control_header_size + length (control_payload m)"
    "drop control_header_size ?bs = control_payload m"
    by (simp_all add: serialize_control control_header_size_def)
  moreover have "unat (of_nat (length (control_payload m)) :: u32) = length (control_payload m)"
    using assms by (intro of_nat_u32_unat) (simp add: ControlMessage_wf_def control_constants)
  ultimately show ?thesis
    using assms by (simp add: ControlMessage_parse_def ControlMessage_wf_def)
qed

lemma parse_control_InrD:
  assumes "ControlMessage_parse bs = Inr m"
  shows "ControlMessage_wf m" and "ControlMessage_serialize m = bs"
proof -
  have len: "length bs \<ge> 16"
    using assms by (auto simp: ControlMessage_parse_def control_header_size_def split: if_splits)
  then have lens: "length bs = 16 + unat (read_value bs 12 :: u32)"
    and m: "m = \<lparr>control_version = read_value bs 4, control_type = read_value bs 6,
      control_request_id = read_value bs 8, control_payload = drop 16 bs\<rparr>"
    and head: "read_value bs 0 = control_magic"
    and wf: "ControlMessage_wf m"
    using assms
    by (auto simp: ControlMessage_parse_def control_header_size_def Let_def ControlMessage_wf_def split: if_splits)
  show "ControlMessage_wf m" by (fact wf)
  have "bs = take 4 bs @ take 2 (drop 4 bs) @ take 2 (drop 6 bs) @ take 4 (drop 8 bs) @ take 4 (drop 12 bs) @ drop 16 bs"
    using cut [of 4 bs 2] cut [of 6 bs 2] cut [of 8 bs 4] cut [of 12 bs 4] by simp
  moreover have "of_nat (length (drop 16 bs)) = (read_value bs 12 :: u32)" using lens by simp
  ultimately show "ControlMessage_serialize m = bs"
    using len by (simp add: serialize_control m be_bytes_read_value head [symmetric])
qed

interpretation control: canonical_codec ControlMessage_serialize "\<lambda>bs. accepted (ControlMessage_parse bs)" ControlMessage_wf
  by unfold_locales (auto simp: accepted_Some_iff intro: parse_serialize_control parse_control_InrD)

section \<open>Properties\<close>

text \<open>
  The control parser accepts a byte string with a message exactly if \<open>create\<close>
  makes the message and the string is its serialization.
\<close>

lemma control_message_parse_iff:
  "ControlMessage_parse bs = Inr m \<longleftrightarrow>
     ControlMessage_create (control_type m) (control_request_id m) (control_payload m) = Some m \<and>
     ControlMessage_serialize m = bs"
  using control.parse_iff [of bs m] by (simp add: accepted_Some_iff create_control_iff)

end
