(* ===== verification/Discovery_Protocol.thy ===== *)
theory Discovery_Protocol
  imports Message_Format
begin

unbundle bit_operations_syntax

text \<open>
  \<^verbatim>\<open>discovery/discovery_protocol.cpp\<close>: the queries and advertisements with which the machines of
  the lab find each other. Type, role and capabilities are cast from what the wire holds and then
  checked, so they are machine words; a name is its byte string.
\<close>

section \<open>Messages\<close>

type_synonym DiscoveryMessageType = u8
type_synonym MachineRole = u8
type_synonym Capability = u32

definition message_query :: DiscoveryMessageType where "message_query = 1"
definition message_advertisement :: DiscoveryMessageType where "message_advertisement = 2"

definition role_unspecified :: MachineRole where "role_unspecified = 0"
definition role_leader :: MachineRole where "role_leader = 1"
definition role_observer :: MachineRole where "role_observer = 2"

definition capability_none :: Capability where "capability_none = 0"
definition capability_cuda :: Capability where "capability_cuda = push_bit 0 1"
definition capability_opengl :: Capability where "capability_opengl = push_bit 1 1"
definition capability_control_client :: Capability where "capability_control_client = push_bit 2 1"

definition capability_or :: "Capability \<Rightarrow> Capability \<Rightarrow> Capability" where
  "capability_or left right = left OR right"

definition has_capability :: "Capability \<Rightarrow> Capability \<Rightarrow> bool" where
  "has_capability capabilities capability \<longleftrightarrow> capabilities AND capability \<noteq> 0"

datatype DiscoveryParseError =
  discovery_truncated | discovery_invalid_magic | discovery_unsupported_version | discovery_unknown_type
| discovery_invalid_role | discovery_invalid_fields | discovery_length_mismatch

record DiscoveryMessage =
  message_type :: DiscoveryMessageType
  message_role :: MachineRole
  message_capabilities :: Capability
  message_request_id :: u64
  message_node_id :: u64
  message_control_port :: u16
  message_state_port :: u16
  message_name :: bytes

definition discovery_magic :: u32 where "discovery_magic = 0x53534431"
definition known_capabilities :: u32 where "known_capabilities = 0x7"
definition discovery_current_version :: u16 where "discovery_current_version = 1"
definition discovery_header_size :: nat where "discovery_header_size = 33"
definition maximum_name_size :: nat where "maximum_name_size = 63"

lemmas discovery_values [codec_defs] =
  message_query_def message_advertisement_def role_unspecified_def role_leader_def role_observer_def

lemmas discovery_sizes [codec_defs] = discovery_header_size_def maximum_name_size_def

definition valid_role :: "MachineRole \<Rightarrow> bool" where
  "valid_role role \<longleftrightarrow> role = role_unspecified \<or> role = role_leader \<or> role = role_observer"

definition DiscoveryMessage_query :: "u64 \<Rightarrow> DiscoveryMessage" where
  "DiscoveryMessage_query request_id =
     \<lparr>message_type = message_query, message_role = role_unspecified, message_capabilities = capability_none,
      message_request_id = request_id, message_node_id = 0, message_control_port = 0, message_state_port = 0,
      message_name = []\<rparr>"

definition DiscoveryMessage_advertisement ::
  "u64 \<Rightarrow> u64 \<Rightarrow> MachineRole \<Rightarrow> Capability \<Rightarrow> u16 \<Rightarrow> u16 \<Rightarrow> bytes \<Rightarrow> DiscoveryMessage option" where
  "DiscoveryMessage_advertisement request_id node_id role capabilities control_port state_port name =
     (let valid_ports = (state_port \<noteq> 0 \<and> (role \<noteq> role_leader \<or> control_port \<noteq> 0)) in
      if request_id = 0 \<or> node_id = 0 \<or> role = role_unspecified \<or> \<not> valid_role role \<or> \<not> valid_ports \<or>
         name = [] \<or> length name > maximum_name_size \<or> capabilities AND NOT known_capabilities \<noteq> 0 then None
      else Some \<lparr>message_type = message_advertisement, message_role = role, message_capabilities = capabilities,
        message_request_id = request_id, message_node_id = node_id, message_control_port = control_port,
        message_state_port = state_port, message_name = name\<rparr>)"

definition DiscoveryMessage_parse :: "bytes \<Rightarrow> DiscoveryParseError + DiscoveryMessage" where
  "DiscoveryMessage_parse bs =
     (if length bs < discovery_header_size then Inl discovery_truncated
      else
        let magic = read_value bs 0 :: u32;
            version = read_value bs 4 :: u16;
            kind = bs ! 6;
            role = bs ! 7;
            capabilities = read_value bs 8 :: u32;
            request_id = read_value bs 12 :: u64;
            node_id = read_value bs 20 :: u64;
            control_port = read_value bs 28 :: u16;
            state_port = read_value bs 30 :: u16;
            name_size = unat (bs ! 32)
        in if magic \<noteq> discovery_magic then Inl discovery_invalid_magic
           else if version \<noteq> discovery_current_version then Inl discovery_unsupported_version
           else if kind \<noteq> message_query \<and> kind \<noteq> message_advertisement then Inl discovery_unknown_type
           else if \<not> valid_role role then Inl discovery_invalid_role
           else if name_size > maximum_name_size \<or> length bs \<noteq> discovery_header_size + name_size
             then Inl discovery_length_mismatch
           else
             let name = drop discovery_header_size bs in
             if kind = message_query then
               if request_id = 0 \<or> node_id \<noteq> 0 \<or> role \<noteq> role_unspecified \<or> control_port \<noteq> 0 \<or> state_port \<noteq> 0 \<or>
                  name \<noteq> [] then Inl discovery_invalid_fields
               else Inr (DiscoveryMessage_query request_id)
             else
               case DiscoveryMessage_advertisement request_id node_id role capabilities control_port state_port name of
                 None \<Rightarrow> Inl discovery_invalid_fields
               | Some message \<Rightarrow> Inr message)"

definition DiscoveryMessage_serialize :: "DiscoveryMessage \<Rightarrow> bytes" where
  "DiscoveryMessage_serialize m =
     (let bs = replicate (discovery_header_size + length (message_name m)) 0;
          bs = put_value discovery_magic 0 bs;
          bs = put_value discovery_current_version 4 bs;
          bs = bs[6 := message_type m];
          bs = bs[7 := message_role m];
          bs = put_value (message_capabilities m) 8 bs;
          bs = put_value (message_request_id m) 12 bs;
          bs = put_value (message_node_id m) 20 bs;
          bs = put_value (message_control_port m) 28 bs;
          bs = put_value (message_state_port m) 30 bs;
          bs = bs[32 := of_nat (length (message_name m))]
      in copy_at (message_name m) bs discovery_header_size)"

section \<open>The format\<close>

definition advertisement_wf :: "DiscoveryMessage \<Rightarrow> bool" where
  "advertisement_wf m \<longleftrightarrow> message_type m = message_advertisement \<and>
     DiscoveryMessage_advertisement (message_request_id m) (message_node_id m) (message_role m)
       (message_capabilities m) (message_control_port m) (message_state_port m) (message_name m) = Some m"

definition query_wf :: "DiscoveryMessage \<Rightarrow> bool" where
  "query_wf m \<longleftrightarrow> m = DiscoveryMessage_query (message_request_id m) \<and> message_request_id m \<noteq> 0"

definition DiscoveryMessage_wf :: "DiscoveryMessage \<Rightarrow> bool" where
  "DiscoveryMessage_wf m \<longleftrightarrow> query_wf m \<or> advertisement_wf m"

lemma advertisement_iff:
  "DiscoveryMessage_advertisement r n role caps cport sport name = Some m \<longleftrightarrow>
     advertisement_wf m \<and> message_request_id m = r \<and> message_node_id m = n \<and> message_role m = role \<and>
     message_capabilities m = caps \<and> message_control_port m = cport \<and> message_state_port m = sport \<and> message_name m = name"
  by (auto simp: advertisement_wf_def DiscoveryMessage_advertisement_def Let_def split: if_splits)

lemma advertisement_name:
  "advertisement_wf m \<Longrightarrow> length (message_name m) \<le> 63 \<and> valid_role (message_role m)"
  by (auto simp: advertisement_wf_def DiscoveryMessage_advertisement_def maximum_name_size_def Let_def split: if_splits)

lemma list_update_cut: "i < length bs \<Longrightarrow> bs[i := x] = take i bs @ [x] @ drop (i + 1) bs"
  by (simp add: upd_conv_take_nth_drop)

lemma serialize_discovery:
  "DiscoveryMessage_serialize m =
     be_bytes discovery_magic @ be_bytes discovery_current_version @ [message_type m, message_role m] @
     be_bytes (message_capabilities m) @ be_bytes (message_request_id m) @ be_bytes (message_node_id m) @
     be_bytes (message_control_port m) @ be_bytes (message_state_port m) @
     [of_nat (length (message_name m))] @ message_name m"
  by (simp add: DiscoveryMessage_serialize_def put_value_eq list_update_cut copy_at_def Let_def discovery_header_size_def)

lemma serialize_discovery_reads:
  shows "read_value (DiscoveryMessage_serialize m) 0 = discovery_magic"
    "read_value (DiscoveryMessage_serialize m) 4 = discovery_current_version"
    "read_value (DiscoveryMessage_serialize m) 8 = message_capabilities m"
    "read_value (DiscoveryMessage_serialize m) 12 = message_request_id m"
    "read_value (DiscoveryMessage_serialize m) 20 = message_node_id m"
    "read_value (DiscoveryMessage_serialize m) 28 = message_control_port m"
    "read_value (DiscoveryMessage_serialize m) 30 = message_state_port m"
    "DiscoveryMessage_serialize m ! 6 = message_type m" "DiscoveryMessage_serialize m ! 7 = message_role m"
    "DiscoveryMessage_serialize m ! 32 = of_nat (length (message_name m))"
    "length (DiscoveryMessage_serialize m) = 33 + length (message_name m)"
    "drop 33 (DiscoveryMessage_serialize m) = message_name m"
  by (rule read_value_at; simp add: serialize_discovery; fail | simp add: serialize_discovery nth_append; fail)+

lemma parse_serialize_discovery:
  assumes "DiscoveryMessage_wf m"
  shows "DiscoveryMessage_parse (DiscoveryMessage_serialize m) = Inr m"
proof (cases "query_wf m")
  case True
  then have "m = DiscoveryMessage_query (message_request_id m)" "message_request_id m \<noteq> 0" by (simp_all add: query_wf_def)
  then have "message_type m = message_query" "message_role m = role_unspecified" "message_node_id m = 0"
    "message_control_port m = 0" "message_state_port m = 0" "message_name m = []" "message_request_id m \<noteq> 0"
    "DiscoveryMessage_query (message_request_id m) = m"
    by (metis (no_types) DiscoveryMessage_query_def DiscoveryMessage.select_convs)+
  then show ?thesis
    by (simp add: DiscoveryMessage_parse_def serialize_discovery_reads discovery_sizes valid_role_def)
next
  case False
  then have wf: "advertisement_wf m" using assms by (simp add: DiscoveryMessage_wf_def)
  then have kind: "message_type m = message_advertisement" by (simp add: advertisement_wf_def)
  have "unat (of_nat (length (message_name m)) :: u8) = length (message_name m)"
    using advertisement_name [OF wf] by (simp add: unat_of_nat)
  moreover have "message_advertisement \<noteq> message_query" by (simp add: discovery_values)
  ultimately show ?thesis
    using wf advertisement_name [OF wf] kind
    by (simp add: DiscoveryMessage_parse_def serialize_discovery_reads discovery_sizes advertisement_wf_def)
qed

lemma parse_discovery_iff:
  "DiscoveryMessage_parse bs = Inr m \<longleftrightarrow>
     33 \<le> length bs \<and> read_value bs 0 = discovery_magic \<and> read_value bs 4 = discovery_current_version \<and>
     valid_role (bs ! 7) \<and> unat (bs ! 32) \<le> 63 \<and> length bs = 33 + unat (bs ! 32) \<and>
     (if bs ! 6 = message_query
      then (read_value bs 12 :: u64) \<noteq> 0 \<and> (read_value bs 20 :: u64) = 0 \<and> bs ! 7 = role_unspecified \<and>
        (read_value bs 28 :: u16) = 0 \<and> (read_value bs 30 :: u16) = 0 \<and> drop 33 bs = [] \<and>
        m = DiscoveryMessage_query (read_value bs 12)
      else bs ! 6 = message_advertisement \<and>
        DiscoveryMessage_advertisement (read_value bs 12) (read_value bs 20) (bs ! 7) (read_value bs 8)
          (read_value bs 28) (read_value bs 30) (drop 33 bs) = Some m)"
  by (simp add: DiscoveryMessage_parse_def Let_def discovery_sizes not_less not_le split: option.split) auto

lemma parse_discovery_fields:
  assumes "DiscoveryMessage_parse bs = Inr m"
  shows "DiscoveryMessage_wf m \<and> message_type m = bs ! 6 \<and> message_role m = bs ! 7 \<and>
    message_request_id m = read_value bs 12 \<and> message_node_id m = read_value bs 20 \<and>
    message_control_port m = read_value bs 28 \<and> message_state_port m = read_value bs 30 \<and>
    message_name m = drop 33 bs \<and> (advertisement_wf m \<longrightarrow> message_capabilities m = read_value bs 8)"
proof (cases "bs ! 6 = message_query")
  case True
  then have m: "m = DiscoveryMessage_query (read_value bs 12)" and
    zero: "(read_value bs 12 :: u64) \<noteq> 0" "(read_value bs 20 :: u64) = 0" "bs ! 7 = role_unspecified"
      "(read_value bs 28 :: u16) = 0" "(read_value bs 30 :: u16) = 0" "drop 33 bs = []"
    using assms by (simp_all only: parse_discovery_iff if_True simp_thms)
  show ?thesis
    unfolding m using True zero
    by (simp add: DiscoveryMessage_wf_def query_wf_def DiscoveryMessage_query_def advertisement_wf_def discovery_values)
next
  case False
  then have m: "bs ! 6 = message_advertisement" "DiscoveryMessage_advertisement (read_value bs 12) (read_value bs 20)
      (bs ! 7) (read_value bs 8) (read_value bs 28) (read_value bs 30) (drop 33 bs) = Some m"
    using assms by (simp_all only: parse_discovery_iff if_False simp_thms)
  note facts = m(2) [unfolded advertisement_iff]
  then have "message_type m = message_advertisement" by (simp add: advertisement_wf_def)
  then show ?thesis using facts m(1) by (simp add: DiscoveryMessage_wf_def)
qed

lemma parse_discovery_InrD:
  assumes "DiscoveryMessage_parse bs = Inr m"
  shows "DiscoveryMessage_wf m" and "\<exists>caps. (advertisement_wf m \<longrightarrow> caps = message_capabilities m) \<and>
    bs = DiscoveryMessage_serialize (m\<lparr>message_capabilities := caps\<rparr>)"
proof -
  note conds = assms [unfolded parse_discovery_iff]
  have len: "length bs \<ge> 33" and size: "length bs = 33 + unat (bs ! 32)"
    and head: "read_value bs 0 = discovery_magic" "read_value bs 4 = discovery_current_version"
    using conds by blast+
  note fields = parse_discovery_fields [OF assms]
  then show "DiscoveryMessage_wf m" by blast
  have "bs = take 4 bs @ take 2 (drop 4 bs) @ take 2 (drop 6 bs) @ take 4 (drop 8 bs) @ take 8 (drop 12 bs) @
      take 8 (drop 20 bs) @ take 2 (drop 28 bs) @ take 2 (drop 30 bs) @ take 1 (drop 32 bs) @ drop 33 bs"
    using cut [of 4 bs 2] cut [of 6 bs 2] cut [of 8 bs 4] cut [of 12 bs 8] cut [of 20 bs 8] cut [of 28 bs 2]
      cut [of 30 bs 2] cut [of 32 bs 1] by simp
  moreover have "take 2 (drop 6 bs) = [bs ! 6, bs ! 7]" using len take_2_drop [of 6 bs] by simp
  moreover have "take 1 (drop 32 bs) = [bs ! 32]" using len by (simp add: take_Suc_conv_app_nth)
  moreover have "of_nat (length (drop 33 bs)) = bs ! 32" using size by simp
  ultimately have "bs = DiscoveryMessage_serialize (m\<lparr>message_capabilities := read_value bs 8\<rparr>)"
    using len by (simp add: serialize_discovery fields be_bytes_read_value head [symmetric])
  then show "\<exists>caps. (advertisement_wf m \<longrightarrow> caps = message_capabilities m) \<and>
      bs = DiscoveryMessage_serialize (m\<lparr>message_capabilities := caps\<rparr>)" using fields by metis
qed

interpretation discovery: wire_codec DiscoveryMessage_serialize "\<lambda>bs. accepted (DiscoveryMessage_parse bs)" DiscoveryMessage_wf
  by unfold_locales (auto simp: accepted_Some_iff intro: parse_serialize_discovery parse_discovery_InrD)

lemma parse_query_any_capabilities:
  assumes "r \<noteq> 0"
  shows "DiscoveryMessage_parse (DiscoveryMessage_serialize ((DiscoveryMessage_query r)\<lparr>message_capabilities := caps\<rparr>)) =
    Inr (DiscoveryMessage_query r)"
  using assms
  by (simp add: DiscoveryMessage_parse_def serialize_discovery_reads discovery_sizes valid_role_def DiscoveryMessage_query_def)

text \<open>
  The parser accepts exactly two kinds of datagram. A query is accepted when it is the
  serialization of a query with a nonzero request id, whatever its capabilities field holds (the field
  is not looked at and the parsed message has none). Every other accepted datagram is the serialization
  of a message that the validating factory \<^verbatim>\<open>advertisement\<close> builds, and the parser returns that
  message. Nothing else parses, and the parsed message is never one the factories refuse.
\<close>

lemma discovery_parse_accepts:
  "DiscoveryMessage_parse bs = Inr m \<longleftrightarrow>
     (\<exists>r caps. r \<noteq> 0 \<and> m = DiscoveryMessage_query r \<and>
        bs = DiscoveryMessage_serialize (m\<lparr>message_capabilities := caps\<rparr>)) \<or>
     (\<exists>r n role caps cport sport name.
        DiscoveryMessage_advertisement r n role caps cport sport name = Some m \<and> bs = DiscoveryMessage_serialize m)"
  (is "?parsed \<longleftrightarrow> ?query \<or> ?advertised")
proof
  assume parsed: ?parsed
  obtain caps where caps: "advertisement_wf m \<Longrightarrow> caps = message_capabilities m"
    "bs = DiscoveryMessage_serialize (m\<lparr>message_capabilities := caps\<rparr>)"
    using parse_discovery_InrD(2) [OF parsed] by blast
  show "?query \<or> ?advertised"
  proof (cases "advertisement_wf m")
    case True
    then have "bs = DiscoveryMessage_serialize m" using caps by simp
    with True show ?thesis by (auto simp: advertisement_iff)
  next
    case False
    then have "query_wf m" using parse_discovery_InrD(1) [OF parsed] by (simp add: DiscoveryMessage_wf_def)
    with caps(2) show ?thesis unfolding query_wf_def by metis
  qed
next
  assume "?query \<or> ?advertised"
  then show ?parsed
    by (auto simp: parse_query_any_capabilities advertisement_iff DiscoveryMessage_wf_def intro: parse_serialize_discovery)
qed

end
