(* ===== verification/Topology.thy ===== *)
theory Topology
  imports Message_Format Std_Containers
begin

text \<open>
  \<^verbatim>\<open>visualization/topology.cpp\<close>: the scene that the server publishes and observers show, its
  snapshot format and the deltas. A float is the 32-bit pattern that \<^verbatim>\<open>memcpy\<close> moves between the
  wire and the variable; nothing here computes with it. Labels are byte strings.
\<close>

section \<open>Scenes\<close>

record TopologyNode =
  node_id :: u32
  node_x :: u32
  node_y :: u32
  node_vlan :: u16
  node_packets :: u64
  node_operational :: bool
  node_label :: bytes

record TopologyLink =
  link_source :: u32
  link_destination :: u32
  link_packets :: u64
  link_operational :: bool

record TopologyScene =
  scene_nodes :: "TopologyNode list"
  scene_links :: "TopologyLink list"

definition empty_scene :: TopologyScene where
  "empty_scene = \<lparr>scene_nodes = [], scene_links = []\<rparr>"

definition topology_magic :: u32 where "topology_magic = 0x544F5031"

definition TopologyScene_upsert_node :: "TopologyNode \<Rightarrow> TopologyScene \<Rightarrow> TopologyScene" where
  "TopologyScene_upsert_node node scene =
     scene\<lparr>scene_nodes :=
       (case find_if (\<lambda>current. node_id current = node_id node) (scene_nodes scene) of
          None \<Rightarrow> scene_nodes scene @ [node]
        | Some found \<Rightarrow> (scene_nodes scene)[found := node])\<rparr>"

definition TopologyScene_upsert_link :: "TopologyLink \<Rightarrow> TopologyScene \<Rightarrow> TopologyScene" where
  "TopologyScene_upsert_link link scene =
     scene\<lparr>scene_links :=
       (case find_if (\<lambda>current. link_source current = link_source link \<and>
                link_destination current = link_destination link) (scene_links scene) of
          None \<Rightarrow> scene_links scene @ [link]
        | Some found \<Rightarrow> (scene_links scene)[found := link])\<rparr>"

section \<open>The reader\<close>

text \<open>The offset of the reader moves only when a read succeeds.\<close>

definition Reader_integer :: "bytes \<Rightarrow> nat \<Rightarrow> 'a::len word option \<times> nat" where
  "Reader_integer bs offset =
     (case read_big_endian bs offset of
        None \<Rightarrow> (None, offset)
      | Some value \<Rightarrow> (Some value, offset + sizeof TYPE('a word)))"

definition Reader_floating :: "bytes \<Rightarrow> nat \<Rightarrow> u32 option \<times> nat" where
  "Reader_floating bs offset = Reader_integer bs offset"

definition Reader_string :: "nat \<Rightarrow> bytes \<Rightarrow> nat \<Rightarrow> bytes option \<times> nat" where
  "Reader_string n bs offset =
     (if offset > length bs \<or> n > length bs - offset then (None, offset)
      else (Some (take n (drop offset bs)), offset + n))"

definition Reader_finished :: "bytes \<Rightarrow> nat \<Rightarrow> bool" where
  "Reader_finished bs offset \<longleftrightarrow> offset = length bs"

section \<open>Parsing a snapshot\<close>

text \<open>One round of the node loop: all fields are read, then checked.\<close>

definition parse_node :: "bytes \<Rightarrow> nat \<Rightarrow> (TopologyNode \<times> nat) option" where
  "parse_node bs offset =
     (let (nid, offset) = Reader_integer bs offset;
          (x, offset) = Reader_floating bs offset;
          (y, offset) = Reader_floating bs offset;
          (vlan, offset) = Reader_integer bs offset;
          (flags, offset) = Reader_integer bs offset;
          (label_size, offset) = Reader_integer bs offset;
          (packets, offset) = Reader_integer bs offset
      in case (nid, x, y, vlan, flags :: u8 option, label_size :: u8 option, packets) of
           (Some nid, Some x, Some y, Some vlan, Some flags, Some label_size, Some packets) \<Rightarrow>
             let (label, offset) = Reader_string (unat label_size) bs offset in
             (case label of
                None \<Rightarrow> None
              | Some label \<Rightarrow>
                  Some (\<lparr>node_id = nid, node_x = x, node_y = y, node_vlan = vlan, node_packets = packets,
                    node_operational = (flags AND 1 \<noteq> 0), node_label = label\<rparr>, offset))
         | _ \<Rightarrow> None)"

fun parse_nodes :: "nat \<Rightarrow> bytes \<Rightarrow> nat \<Rightarrow> TopologyScene \<Rightarrow> (TopologyScene \<times> nat) option" where
  "parse_nodes 0 bs offset scene = Some (scene, offset)"
| "parse_nodes (Suc count) bs offset scene =
     (case parse_node bs offset of
        None \<Rightarrow> None
      | Some (node, offset) \<Rightarrow> parse_nodes count bs offset (TopologyScene_upsert_node node scene))"

definition parse_link :: "bytes \<Rightarrow> nat \<Rightarrow> (TopologyLink \<times> nat) option" where
  "parse_link bs offset =
     (let (src, offset) = Reader_integer bs offset;
          (dst, offset) = Reader_integer bs offset;
          (packets, offset) = Reader_integer bs offset;
          (flags, offset) = Reader_integer bs offset
      in case (src, dst, packets, flags :: u8 option) of
           (Some src, Some dst, Some packets, Some flags) \<Rightarrow>
             Some (\<lparr>link_source = src, link_destination = dst, link_packets = packets,
               link_operational = (flags AND 1 \<noteq> 0)\<rparr>, offset)
         | _ \<Rightarrow> None)"

fun parse_links :: "nat \<Rightarrow> bytes \<Rightarrow> nat \<Rightarrow> TopologyScene \<Rightarrow> (TopologyScene \<times> nat) option" where
  "parse_links 0 bs offset scene = Some (scene, offset)"
| "parse_links (Suc count) bs offset scene =
     (case parse_link bs offset of
        None \<Rightarrow> None
      | Some (link, offset) \<Rightarrow> parse_links count bs offset (TopologyScene_upsert_link link scene))"

definition TopologyScene_parse_snapshot :: "bytes \<Rightarrow> TopologyScene option" where
  "TopologyScene_parse_snapshot bs =
     (let (magic, offset) = Reader_integer bs 0;
          (node_count, offset) = Reader_integer bs offset;
          (link_count, offset) = Reader_integer bs offset
      in case (magic, node_count :: u16 option, link_count :: u16 option) of
           (Some magic, Some node_count, Some link_count) \<Rightarrow>
             if magic \<noteq> topology_magic then None
             else
               (case parse_nodes (unat node_count) bs offset empty_scene of
                  None \<Rightarrow> None
                | Some (scene, offset) \<Rightarrow>
                    (case parse_links (unat link_count) bs offset scene of
                       None \<Rightarrow> None
                     | Some (scene, offset) \<Rightarrow> if Reader_finished bs offset then Some scene else None))
         | _ \<Rightarrow> None)"

section \<open>Serializing and deltas\<close>

definition append_integer :: "'a::len word \<Rightarrow> bytes \<Rightarrow> bytes" where
  "append_integer value bs = put_value value (length bs) (bs @ replicate (sizeof TYPE('a word)) 0)"

definition append_float :: "u32 \<Rightarrow> bytes \<Rightarrow> bytes" where
  "append_float bits bs = append_integer bits bs"

text \<open>\<open>None\<close> is the early return of an empty vector for a label that is too long.\<close>

definition serialize_node :: "TopologyNode \<Rightarrow> bytes \<Rightarrow> bytes option" where
  "serialize_node node bs =
     (if length (node_label node) > 255 then None
      else
        let bs = append_integer (node_id node) bs;
            bs = append_float (node_x node) bs;
            bs = append_float (node_y node) bs;
            bs = append_integer (node_vlan node) bs;
            bs = append_integer (if node_operational node then 1 else 0 :: u8) bs;
            bs = append_integer (of_nat (length (node_label node)) :: u8) bs;
            bs = append_integer (node_packets node) bs
        in Some (bs @ node_label node))"

fun serialize_nodes :: "TopologyNode list \<Rightarrow> bytes \<Rightarrow> bytes option" where
  "serialize_nodes [] bs = Some bs"
| "serialize_nodes (node # nodes) bs =
     (case serialize_node node bs of None \<Rightarrow> None | Some bs \<Rightarrow> serialize_nodes nodes bs)"

definition serialize_link :: "bytes \<Rightarrow> TopologyLink \<Rightarrow> bytes" where
  "serialize_link bs link =
     (let bs = append_integer (link_source link) bs;
          bs = append_integer (link_destination link) bs;
          bs = append_integer (link_packets link) bs
      in append_integer (if link_operational link then 1 else 0 :: u8) bs)"

definition TopologyScene_serialize_snapshot :: "TopologyScene \<Rightarrow> bytes" where
  "TopologyScene_serialize_snapshot scene =
     (if length (scene_nodes scene) > 65535 \<or> length (scene_links scene) > 65535 then []
      else
        let bs = append_integer topology_magic [];
            bs = append_integer (of_nat (length (scene_nodes scene)) :: u16) bs;
            bs = append_integer (of_nat (length (scene_links scene)) :: u16) bs
        in case serialize_nodes (scene_nodes scene) bs of
             None \<Rightarrow> []
           | Some bs \<Rightarrow> foldl serialize_link bs (scene_links scene))"

definition TopologyScene_apply_delta :: "bytes \<Rightarrow> TopologyScene \<Rightarrow> bool \<times> TopologyScene" where
  "TopologyScene_apply_delta bs scene =
     (case TopologyScene_parse_snapshot bs of
        None \<Rightarrow> (False, scene)
      | Some delta \<Rightarrow>
          let scene = foldl (\<lambda>scene node. TopologyScene_upsert_node node scene) scene (scene_nodes delta);
              scene = foldl (\<lambda>scene link. TopologyScene_upsert_link link scene) scene (scene_links delta)
          in (True, scene))"

section \<open>Upserts keep the keys distinct\<close>

definition link_key :: "TopologyLink \<Rightarrow> u32 \<times> u32" where
  "link_key link = (link_source link, link_destination link)"

definition TopologyScene_inv :: "TopologyScene \<Rightarrow> bool" where
  "TopologyScene_inv scene \<longleftrightarrow> vec_wf node_id (scene_nodes scene) \<and> vec_wf link_key (scene_links scene)"

lemma upsert_node_eq:
  "TopologyScene_upsert_node node scene = scene\<lparr>scene_nodes := snd (vec_upsert node_id node (scene_nodes scene))\<rparr>"
  by (simp add: TopologyScene_upsert_node_def vec_upsert_def split: option.split)

lemma upsert_link_eq:
  "TopologyScene_upsert_link link scene = scene\<lparr>scene_links := snd (vec_upsert link_key link (scene_links scene))\<rparr>"
  by (simp add: TopologyScene_upsert_link_def vec_upsert_def link_key_def split: option.split)

abbreviation vec_upserts :: "('v \<Rightarrow> 'k) \<Rightarrow> 'v list \<Rightarrow> 'v list \<Rightarrow> 'v list" where
  "vec_upserts key \<equiv> foldl (\<lambda>xs x. snd (vec_upsert key x xs))"

lemma fold_upsert_node:
  "foldl (\<lambda>scene node. TopologyScene_upsert_node node scene) scene nodes =
     scene\<lparr>scene_nodes := vec_upserts node_id (scene_nodes scene) nodes\<rparr>"
  by (induction nodes arbitrary: scene) (simp_all add: upsert_node_eq)

lemma fold_upsert_link:
  "foldl (\<lambda>scene link. TopologyScene_upsert_link link scene) scene links =
     scene\<lparr>scene_links := vec_upserts link_key (scene_links scene) links\<rparr>"
  by (induction links arbitrary: scene) (simp_all add: upsert_link_eq)

lemma vec_upserts_wf: "vec_wf key xs \<Longrightarrow> vec_wf key (vec_upserts key xs ys)"
  by (induction ys arbitrary: xs) (simp_all add: vec_wf_upsert)

lemma vec_upserts_fresh: "vec_wf key (xs @ ys) \<Longrightarrow> vec_upserts key xs ys = xs @ ys"
proof (induction ys arbitrary: xs)
  case (Cons y ys)
  have "key y \<notin> key ` set xs" using Cons.prems by (simp add: vec_wf_def)
  then have "find_if (\<lambda>x. key x = key y) xs = None" unfolding find_if_None_iff by (metis imageI)
  then have "snd (vec_upsert key y xs) = xs @ [y]" by (simp add: vec_upsert_def)
  then show ?case using Cons by simp
qed simp

text \<open>Upserting a scene with the same keys replaces every element in place.\<close>

lemma vec_upsert_replace:
  assumes "vec_wf key (xs @ x # ys)" and "key y = key x"
  shows "snd (vec_upsert key y (xs @ x # ys)) = xs @ y # ys"
proof -
  have "find_if (\<lambda>z. key z = key y) (xs @ x # ys) = Some (length xs)"
    using assms by (induction xs) (auto simp: vec_wf_def)
  then show ?thesis by (simp add: vec_upsert_def)
qed

lemma vec_upserts_replace:
  "vec_wf key (xs @ zs) \<Longrightarrow> map key ys = map key zs \<Longrightarrow> vec_upserts key (xs @ zs) ys = xs @ ys"
proof (induction ys arbitrary: xs zs)
  case (Cons y ys)
  then obtain z zs' where z: "zs = z # zs'" "key y = key z" "map key ys = map key zs'" by (cases zs) auto
  have "snd (vec_upsert key y (xs @ zs)) = (xs @ [y]) @ zs'"
    using Cons.prems(1) z vec_upsert_replace [of key xs z zs' y] by simp
  moreover have "vec_wf key ((xs @ [y]) @ zs')" using Cons.prems(1) z by (simp add: vec_wf_def)
  ultimately show ?case using Cons.IH [of "xs @ [y]" zs'] z by simp
qed simp

section \<open>The snapshot format\<close>

lemma append_integer_eq: "append_integer v bs = bs @ be_bytes v"
  by (simp add: append_integer_def put_value_eq)

definition node_bytes :: "TopologyNode \<Rightarrow> bytes" where
  "node_bytes node = be_bytes (node_id node) @ be_bytes (node_x node) @ be_bytes (node_y node) @
     be_bytes (node_vlan node) @ be_bytes (if node_operational node then 1 else 0 :: u8) @
     be_bytes (of_nat (length (node_label node)) :: u8) @ be_bytes (node_packets node) @ node_label node"

definition link_bytes :: "TopologyLink \<Rightarrow> bytes" where
  "link_bytes link = be_bytes (link_source link) @ be_bytes (link_destination link) @
     be_bytes (link_packets link) @ be_bytes (if link_operational link then 1 else 0 :: u8)"

definition labels_fit :: "TopologyScene \<Rightarrow> bool" where
  "labels_fit scene \<longleftrightarrow> (\<forall>node \<in> set (scene_nodes scene). length (node_label node) \<le> 255)"

definition counts_fit :: "TopologyScene \<Rightarrow> bool" where
  "counts_fit scene \<longleftrightarrow> length (scene_nodes scene) \<le> 65535 \<and> length (scene_links scene) \<le> 65535"

lemma serialize_nodes_eq:
  "serialize_nodes nodes bs =
     (if \<forall>node \<in> set nodes. length (node_label node) \<le> 255 then Some (bs @ concat (map node_bytes nodes)) else None)"
  by (induction nodes arbitrary: bs)
    (simp_all add: serialize_node_def append_float_def append_integer_eq node_bytes_def Let_def not_less)

lemma serialize_links_eq: "foldl serialize_link bs links = bs @ concat (map link_bytes links)"
  by (induction links arbitrary: bs) (simp_all add: serialize_link_def append_integer_eq link_bytes_def Let_def)

lemma serialize_snapshot_eq:
  "TopologyScene_serialize_snapshot scene =
     (if counts_fit scene \<and> labels_fit scene
      then be_bytes topology_magic @ be_bytes (of_nat (length (scene_nodes scene)) :: u16) @
        be_bytes (of_nat (length (scene_links scene)) :: u16) @
        concat (map node_bytes (scene_nodes scene)) @ concat (map link_bytes (scene_links scene))
      else [])"
  by (auto simp: TopologyScene_serialize_snapshot_def counts_fit_def labels_fit_def serialize_nodes_eq
      serialize_links_eq append_integer_eq Let_def)

lemma serialize_snapshot_empty_iff:
  "TopologyScene_serialize_snapshot scene = [] \<longleftrightarrow> \<not> (counts_fit scene \<and> labels_fit scene)"
proof -
  have "be_bytes topology_magic \<noteq> []" using length_be_bytes [of topology_magic] by (metis length_0_conv numeral_eq_iff sizeof_widths(3) zero_neq_numeral)
  then show ?thesis by (simp add: serialize_snapshot_eq)
qed

text \<open>A read sees the bytes at its offset and leaves the rest.\<close>

definition rest_at :: "bytes \<Rightarrow> nat \<Rightarrow> bytes \<Rightarrow> bool" where
  "rest_at bs offset rest \<longleftrightarrow> offset \<le> length bs \<and> drop offset bs = rest"

lemma rest_at_append: "rest_at bs offset (xs @ rest) \<Longrightarrow> rest_at bs (offset + length xs) rest"
proof -
  assume a: "rest_at bs offset (xs @ rest)"
  then have "length (drop offset bs) = length xs + length rest" by (simp add: rest_at_def)
  then have "offset + length xs \<le> length bs" using a by (auto simp: rest_at_def)
  moreover have "drop (length xs) (drop offset bs) = rest" using a by (simp add: rest_at_def)
  ultimately show ?thesis by (simp add: rest_at_def add.commute)
qed

lemma Reader_integer_at:
  assumes "rest_at bs offset (be_bytes (v :: 'a::len word) @ rest)" and "whole_bytes TYPE('a word)"
  shows "Reader_integer bs offset = (Some v, offset + sizeof TYPE('a word)) \<and>
    rest_at bs (offset + sizeof TYPE('a word)) rest"
proof -
  have "read_big_endian bs offset = Some v"
    by (rule read_be_bytes_at [OF assms(2)]) (use assms(1) in \<open>simp add: rest_at_def\<close>)
  then show ?thesis using rest_at_append [OF assms(1)] by (simp add: Reader_integer_def)
qed

lemma Reader_string_at:
  assumes "rest_at bs offset (label @ rest)"
  shows "Reader_string (length label) bs offset = (Some label, offset + length label) \<and>
    rest_at bs (offset + length label) rest"
  using assms rest_at_append [OF assms] by (auto simp: Reader_string_def rest_at_def)

lemma parse_node_at:
  assumes "rest_at bs offset (node_bytes node @ rest)" and "length (node_label node) \<le> 255"
  shows "\<exists>offset'. parse_node bs offset = Some (node, offset') \<and> rest_at bs offset' rest"
proof -
  have "unat (of_nat (length (node_label node)) :: u8) = length (node_label node)"
    using assms(2) by (simp add: unat_of_nat)
  moreover have "(if b then 1 else 0 :: u8) AND 1 \<noteq> 0 \<longleftrightarrow> b" for b by simp
  ultimately show ?thesis
    using assms(1) unfolding node_bytes_def append_assoc
    by (auto simp: parse_node_def Reader_floating_def simp del: be_bytes_u8
        dest!: Reader_integer_at Reader_string_at [of bs _ "node_label node" rest])
qed

lemma parse_nodes_at:
  assumes "rest_at bs offset (concat (map node_bytes nodes) @ rest)"
    and "\<forall>node \<in> set nodes. length (node_label node) \<le> 255"
  shows "\<exists>offset'. parse_nodes (length nodes) bs offset scene =
      Some (foldl (\<lambda>scene node. TopologyScene_upsert_node node scene) scene nodes, offset') \<and> rest_at bs offset' rest"
  using assms
proof (induction nodes arbitrary: offset scene)
  case (Cons node nodes)
  then obtain offset1 where "parse_node bs offset = Some (node, offset1)"
      "rest_at bs offset1 (concat (map node_bytes nodes) @ rest)"
    using parse_node_at [of bs offset node "concat (map node_bytes nodes) @ rest"] by auto
  then show ?case using Cons.IH [of offset1] Cons.prems(2) by simp
qed simp

lemma parse_link_at:
  assumes "rest_at bs offset (link_bytes link @ rest)"
  shows "\<exists>offset'. parse_link bs offset = Some (link, offset') \<and> rest_at bs offset' rest"
  using assms unfolding link_bytes_def append_assoc
  by (auto simp: parse_link_def simp del: be_bytes_u8 dest!: Reader_integer_at)

lemma parse_links_at:
  assumes "rest_at bs offset (concat (map link_bytes links) @ rest)"
  shows "\<exists>offset'. parse_links (length links) bs offset scene =
      Some (foldl (\<lambda>scene link. TopologyScene_upsert_link link scene) scene links, offset') \<and> rest_at bs offset' rest"
  using assms
proof (induction links arbitrary: offset scene)
  case (Cons link links)
  then obtain offset1 where "parse_link bs offset = Some (link, offset1)"
      "rest_at bs offset1 (concat (map link_bytes links) @ rest)"
    using parse_link_at [of bs offset link "concat (map link_bytes links) @ rest"] by auto
  then show ?case using Cons.IH [of offset1] by simp
qed simp

text \<open>The scenes that can be published: distinct keys, and counts and labels that fit their fields.\<close>

definition TopologyScene_wf :: "TopologyScene \<Rightarrow> bool" where
  "TopologyScene_wf scene \<longleftrightarrow> TopologyScene_inv scene \<and> counts_fit scene \<and> labels_fit scene"

lemma rebuild_scene:
  assumes "TopologyScene_inv scene"
  shows "foldl (\<lambda>scene link. TopologyScene_upsert_link link scene)
    (foldl (\<lambda>scene node. TopologyScene_upsert_node node scene) empty_scene (scene_nodes scene)) (scene_links scene) = scene"
  using assms vec_upserts_fresh [of node_id "[]" "scene_nodes scene"] vec_upserts_fresh [of link_key "[]" "scene_links scene"]
  by (simp add: fold_upsert_node fold_upsert_link empty_scene_def TopologyScene_inv_def)

lemma parse_serialize_scene:
  assumes "TopologyScene_wf scene"
  shows "TopologyScene_parse_snapshot (TopologyScene_serialize_snapshot scene) = Some scene"
proof -
  let ?bs = "TopologyScene_serialize_snapshot scene"
  let ?nodes = "concat (map node_bytes (scene_nodes scene))" and ?links = "concat (map link_bytes (scene_links scene))"
  have fits: "counts_fit scene" "labels_fit scene" using assms by (simp_all add: TopologyScene_wf_def)
  have counts: "unat (of_nat (length (scene_nodes scene)) :: u16) = length (scene_nodes scene)"
    "unat (of_nat (length (scene_links scene)) :: u16) = length (scene_links scene)"
    using fits(1) by (simp_all add: counts_fit_def unat_of_nat)
  have "rest_at ?bs 0 (be_bytes topology_magic @ be_bytes (of_nat (length (scene_nodes scene)) :: u16) @
      be_bytes (of_nat (length (scene_links scene)) :: u16) @ ?nodes @ ?links)"
    using fits by (simp add: rest_at_def serialize_snapshot_eq)
  then have heads: "Reader_integer ?bs 0 = (Some topology_magic, 4)"
      "Reader_integer ?bs 4 = (Some (of_nat (length (scene_nodes scene)) :: u16), 6)"
      "Reader_integer ?bs 6 = (Some (of_nat (length (scene_links scene)) :: u16), 8)"
    and body: "rest_at ?bs 8 (?nodes @ ?links @ [])"
    by (auto dest!: Reader_integer_at)
  obtain offset where nodes: "parse_nodes (length (scene_nodes scene)) ?bs 8 empty_scene =
      Some (foldl (\<lambda>scene node. TopologyScene_upsert_node node scene) empty_scene (scene_nodes scene), offset)"
      "rest_at ?bs offset (?links @ [])"
    using parse_nodes_at [OF body] fits(2) by (auto simp: labels_fit_def)
  obtain offset' where "parse_links (length (scene_links scene)) ?bs offset
      (foldl (\<lambda>scene node. TopologyScene_upsert_node node scene) empty_scene (scene_nodes scene)) = Some (scene, offset')"
      "rest_at ?bs offset' []"
    using parse_links_at [OF nodes(2)] rebuild_scene [of scene] assms unfolding TopologyScene_wf_def by metis
  then show ?thesis
    using heads nodes(1) counts by (simp add: TopologyScene_parse_snapshot_def Reader_finished_def rest_at_def)
qed

lemma vec_upsert_length: "length (snd (vec_upsert key x xs)) \<le> Suc (length xs)"
  by (simp add: vec_upsert_def split: option.split)

lemma parse_node_label: "parse_node bs offset = Some (node, offset') \<Longrightarrow> length (node_label node) \<le> 255"
proof -
  have "unat (n :: u8) \<le> 255" for n using unat_bounds(1) [of n] by simp
  moreover assume "parse_node bs offset = Some (node, offset')"
  ultimately show ?thesis
    by (auto simp: parse_node_def Reader_string_def Let_def case_prod_beta split: option.splits if_splits)
qed

lemma parse_nodes_wf:
  "parse_nodes count bs offset scene = Some (scene', offset') \<Longrightarrow> TopologyScene_inv scene \<Longrightarrow> labels_fit scene \<Longrightarrow>
   TopologyScene_inv scene' \<and> labels_fit scene' \<and> scene_links scene' = scene_links scene \<and>
   length (scene_nodes scene') \<le> length (scene_nodes scene) + count"
proof (induction count bs offset scene rule: parse_nodes.induct)
  case (2 count bs offset scene)
  then obtain node offset1 where node: "parse_node bs offset = Some (node, offset1)"
      "parse_nodes count bs offset1 (TopologyScene_upsert_node node scene) = Some (scene', offset')"
    by (auto split: option.splits)
  let ?scene = "TopologyScene_upsert_node node scene"
  have "labels_fit ?scene"
    using "2.prems"(2,3) parse_node_label [OF node(1)]
    by (auto simp: labels_fit_def upsert_node_eq TopologyScene_inv_def set_upsert)
  moreover have "TopologyScene_inv ?scene" using "2.prems"(2) by (simp add: TopologyScene_inv_def upsert_node_eq vec_wf_upsert)
  moreover have "length (scene_nodes ?scene) \<le> Suc (length (scene_nodes scene))" "scene_links ?scene = scene_links scene"
    by (simp_all add: upsert_node_eq vec_upsert_length)
  ultimately show ?case using "2.IH" [OF node(1) refl node(2)] by simp
qed simp

lemma parse_links_wf:
  "parse_links count bs offset scene = Some (scene', offset') \<Longrightarrow> TopologyScene_inv scene \<Longrightarrow>
   TopologyScene_inv scene' \<and> scene_nodes scene' = scene_nodes scene \<and>
   length (scene_links scene') \<le> length (scene_links scene) + count"
proof (induction count bs offset scene rule: parse_links.induct)
  case (2 count bs offset scene)
  then obtain link offset1 where link: "parse_link bs offset = Some (link, offset1)"
      "parse_links count bs offset1 (TopologyScene_upsert_link link scene) = Some (scene', offset')"
    by (auto split: option.splits)
  let ?scene = "TopologyScene_upsert_link link scene"
  have "TopologyScene_inv ?scene" using "2.prems"(2) by (simp add: TopologyScene_inv_def upsert_link_eq vec_wf_upsert)
  moreover have "length (scene_links ?scene) \<le> Suc (length (scene_links scene))" "scene_nodes ?scene = scene_nodes scene"
    by (simp_all add: upsert_link_eq vec_upsert_length)
  ultimately show ?case using "2.IH" [OF link(1) refl link(2)] by simp
qed simp

lemma parse_snapshot_wf:
  assumes "TopologyScene_parse_snapshot bs = Some scene"
  shows "TopologyScene_wf scene"
proof -
  have empty: "TopologyScene_inv empty_scene" "labels_fit empty_scene"
    by (simp_all add: TopologyScene_inv_def labels_fit_def empty_scene_def vec_wf_def)
  obtain n l offset scene1 offset1 offset2 where
      nodes: "parse_nodes (unat (n :: u16)) bs offset empty_scene = Some (scene1, offset1)" and
      links: "parse_links (unat (l :: u16)) bs offset1 scene1 = Some (scene, offset2)"
    using assms by (auto simp: TopologyScene_parse_snapshot_def case_prod_beta split: option.splits if_splits)
  have "unat n \<le> 65535" "unat l \<le> 65535" using unat_bounds(2) [of n] unat_bounds(2) [of l] by simp_all
  then show ?thesis
    using parse_nodes_wf [OF nodes empty] parse_links_wf [OF links]
    by (auto simp: TopologyScene_wf_def counts_fit_def labels_fit_def empty_scene_def)
qed

interpretation topology: wire_codec TopologyScene_serialize_snapshot TopologyScene_parse_snapshot TopologyScene_wf
  by unfold_locales (auto intro: parse_serialize_scene parse_snapshot_wf)

section \<open>Deltas\<close>

text \<open>Two scenes with the same nodes and links, in the same order, up to what they say of them.\<close>

definition same_keys :: "TopologyScene \<Rightarrow> TopologyScene \<Rightarrow> bool" where
  "same_keys a b \<longleftrightarrow> map node_id (scene_nodes a) = map node_id (scene_nodes b) \<and>
     map link_key (scene_links a) = map link_key (scene_links b)"

lemma apply_delta_inv: "TopologyScene_inv scene \<Longrightarrow> TopologyScene_inv (snd (TopologyScene_apply_delta bs scene))"
  by (auto simp: TopologyScene_apply_delta_def TopologyScene_inv_def fold_upsert_node fold_upsert_link Let_def
      vec_upserts_wf split: option.split)

lemma apply_delta_same_keys:
  assumes "TopologyScene_inv scene" and "TopologyScene_wf delta" and "same_keys delta scene"
  shows "TopologyScene_apply_delta (TopologyScene_serialize_snapshot delta) scene = (True, delta)"
  using assms vec_upserts_replace [of node_id "[]" "scene_nodes scene" "scene_nodes delta"]
    vec_upserts_replace [of link_key "[]" "scene_links scene" "scene_links delta"]
  by (simp add: TopologyScene_apply_delta_def parse_serialize_scene fold_upsert_node fold_upsert_link
      TopologyScene_inv_def same_keys_def Let_def)

lemma vec_find_upserts:
  "vec_wf key xs \<Longrightarrow> vec_wf key ys \<Longrightarrow> vec_find key (vec_upserts key xs ys) = vec_find key xs ++ vec_find key ys"
proof (induction ys arbitrary: xs)
  case (Cons y ys)
  have "vec_find key (y # ys) = (vec_find key ys)(key y \<mapsto> y)"
    by (simp add: vec_find_def fun_eq_iff option.map_comp comp_def)
  moreover have "vec_find key ys (key y) = None"
    using Cons.prems(2) unfolding vec_find_None_iff vec_wf_def by (metis distinct.simps(2) image_eqI list.simps(9) set_map)
  moreover have "vec_find key (vec_upserts key xs (y # ys)) = (vec_find key xs)(key y \<mapsto> y) ++ vec_find key ys"
    using Cons by (simp add: vec_wf_upsert vec_find_upsert vec_wf_def [of _ "_ # _"] vec_wf_def [of _ ys, symmetric])
  ultimately show ?case by (auto simp: map_add_def fun_eq_iff split: option.split)
qed (simp add: vec_find_def [of _ "[]"] map_add_def)

section \<open>Properties\<close>

text \<open>
  Property C23: a published scene arrives as it was sent. A scene is what the snapshot parser
  makes of some byte string exactly if its nodes and links have distinct keys and the serializer
  does not refuse it, and then its serialization reads back as the same scene.
\<close>

theorem topology_snapshot_roundtrip:
  "(TopologyScene_parse_snapshot (TopologyScene_serialize_snapshot scene) = Some scene \<longleftrightarrow>
      TopologyScene_inv scene \<and> TopologyScene_serialize_snapshot scene \<noteq> []) \<and>
   ((\<exists>bs. TopologyScene_parse_snapshot bs = Some scene) \<longleftrightarrow>
      TopologyScene_inv scene \<and> TopologyScene_serialize_snapshot scene \<noteq> [])"
proof -
  have "TopologyScene_wf scene \<longleftrightarrow> TopologyScene_inv scene \<and> TopologyScene_serialize_snapshot scene \<noteq> []"
    by (auto simp: TopologyScene_wf_def serialize_snapshot_empty_iff)
  then show ?thesis using parse_serialize_scene parse_snapshot_wf by blast
qed

text \<open>
  Property C24: a delta changes what it names and nothing else. On a scene with distinct keys, a
  delta that is refused changes nothing, and one that is accepted replaces or adds exactly the
  nodes and links that it carries; the keys stay distinct.
\<close>

theorem topology_delta_overrides:
  assumes "TopologyScene_inv scene"
  shows "case TopologyScene_apply_delta bs scene of (ok, scene') \<Rightarrow>
    TopologyScene_inv scene' \<and>
    (case TopologyScene_parse_snapshot bs of
       None \<Rightarrow> \<not> ok \<and> scene' = scene
     | Some delta \<Rightarrow> ok \<and>
         vec_find node_id (scene_nodes scene') =
           vec_find node_id (scene_nodes scene) ++ vec_find node_id (scene_nodes delta) \<and>
         vec_find link_key (scene_links scene') =
           vec_find link_key (scene_links scene) ++ vec_find link_key (scene_links delta))"
proof (cases "TopologyScene_parse_snapshot bs")
  case (Some delta)
  then have "TopologyScene_inv delta" using parse_snapshot_wf by (simp add: TopologyScene_wf_def)
  with Some assms show ?thesis
    by (simp add: TopologyScene_apply_delta_def fold_upsert_node fold_upsert_link TopologyScene_inv_def
        vec_upserts_wf vec_find_upserts)
qed (use assms in \<open>simp add: TopologyScene_apply_delta_def\<close>)

definition sample_node :: "u64 \<Rightarrow> TopologyNode" where
  "sample_node n = \<lparr>node_id = 7, node_x = 0, node_y = 0, node_vlan = 10, node_packets = n,
     node_operational = True, node_label = [0x61]\<rparr>"

definition sample_scene :: "u64 \<Rightarrow> TopologyScene" where
  "sample_scene n = \<lparr>scene_nodes = [sample_node n], scene_links = []\<rparr>"

lemma sample_scene_wf: "TopologyScene_wf (sample_scene n)"
  by (simp add: TopologyScene_wf_def TopologyScene_inv_def vec_wf_def counts_fit_def labels_fit_def
      sample_scene_def sample_node_def)

theorem topology_delta_overrides_witness:
  "vec_find node_id (scene_nodes (snd (TopologyScene_apply_delta (TopologyScene_serialize_snapshot (sample_scene 9))
     (sample_scene 4)))) 7 = Some (sample_node 9)"
proof -
  have "TopologyScene_inv (sample_scene 4)" using sample_scene_wf by (simp add: TopologyScene_wf_def)
  from topology_delta_overrides [OF this, of "TopologyScene_serialize_snapshot (sample_scene 9)"]
  show ?thesis
    by (simp add: parse_serialize_scene [OF sample_scene_wf] case_prod_beta)
      (simp add: sample_scene_def vec_find_def sample_node_def)
qed

end
