(* ===== verification/Span_Messages.thy ===== *)
theory Span_Messages
  imports Span_Serializers State_Update Control_Protocol Discovery_Protocol Topology
begin

unbundle bit_operations_syntax

text \<open>
  The parsers of everything that arrives by UDP or on the control channel (\<^verbatim>\<open>transport/state_update_protocol.cpp\<close>,
  \<^verbatim>\<open>transport/control_protocol.cpp\<close>, \<^verbatim>\<open>discovery/discovery_protocol.cpp\<close>, \<^verbatim>\<open>visualization/topology.cpp\<close>) over a span
  in memory, every access in the order of the source. \<open>None\<close> is an access outside the memory, or the
  exception of \<^verbatim>\<open>std::optional::value\<close> on an empty optional: neither occurs, whatever the bytes are.
\<close>

section \<open>Headers\<close>

text \<open>A field that is read and dereferenced by \<^verbatim>\<open>value()\<close>, and the bytes behind a header.\<close>

definition span_value :: "memory \<Rightarrow> ByteSpan \<Rightarrow> nat \<Rightarrow> 'a::len word option" where
  "span_value m s offset = do {field \<leftarrow> span_read_big_endian m s offset; field}"

definition span_behind :: "nat \<Rightarrow> memory \<Rightarrow> ByteSpan \<Rightarrow> bytes option" where
  "span_behind header m s = load_range m (ByteSpan_begin s + header) (ByteSpan_end s)"

definition span_StateUpdate_parse :: "memory \<Rightarrow> ByteSpan \<Rightarrow> (StateUpdateParseError + StateUpdate) option" where
  "span_StateUpdate_parse m s =
     (if span_size s < update_header_size then Some (Inl update_truncated)
      else do {
        magic \<leftarrow> (span_value m s 0 :: u32 option);
        version \<leftarrow> (span_value m s 4 :: u16 option);
        t \<leftarrow> (span_value m s 6 :: u16 option);
        session \<leftarrow> (span_value m s 8 :: u64 option);
        sequence \<leftarrow> (span_value m s 16 :: u64 option);
        timestamp \<leftarrow> (span_value m s 24 :: u64 option);
        base \<leftarrow> (span_value m s 32 :: u64 option);
        revision \<leftarrow> (span_value m s 40 :: u64 option);
        len \<leftarrow> (span_value m s 48 :: u32 option);
        if magic \<noteq> state_update_magic then Some (Inl update_invalid_magic)
        else if version \<noteq> update_current_version then Some (Inl update_unsupported_version)
        else if \<not> is_known t then Some (Inl update_unknown_type)
        else if unat len > update_maximum_payload_size then Some (Inl update_payload_too_large)
        else if span_size s \<noteq> update_header_size + unat len then Some (Inl update_length_mismatch)
        else if session = 0 \<or> sequence = 0 \<or> \<not> revisions_are_valid t base revision then Some (Inl update_invalid_revision)
        else do {
          payload \<leftarrow> span_behind update_header_size m s;
          Some (Inr \<lparr>update_type = t, update_session_id = session, update_sequence = sequence,
            update_timestamp = timestamp, update_base_revision = base, update_revision = revision,
            update_payload = payload\<rparr>)}})"

definition span_ControlMessage_parse :: "memory \<Rightarrow> ByteSpan \<Rightarrow> (ControlParseError + ControlMessage) option" where
  "span_ControlMessage_parse m s =
     (if span_size s < control_header_size then Some (Inl control_truncated)
      else do {
        wire_magic \<leftarrow> (span_value m s 0 :: u32 option);
        version \<leftarrow> (span_value m s 4 :: u16 option);
        t \<leftarrow> (span_value m s 6 :: u16 option);
        request \<leftarrow> (span_value m s 8 :: u32 option);
        len \<leftarrow> (span_value m s 12 :: u32 option);
        if wire_magic \<noteq> control_magic then Some (Inl control_invalid_magic)
        else if version \<noteq> control_current_version then Some (Inl control_unsupported_version)
        else if \<not> control_known t then Some (Inl control_unknown_message_type)
        else if unat len > control_maximum_payload_size then Some (Inl control_payload_too_large)
        else if span_size s \<noteq> control_header_size + unat len then Some (Inl control_length_mismatch)
        else do {
          payload \<leftarrow> span_behind control_header_size m s;
          Some (Inr \<lparr>control_version = control_current_version, control_type = t, control_request_id = request,
            control_payload = payload\<rparr>)}})"

definition span_DiscoveryMessage_parse :: "memory \<Rightarrow> ByteSpan \<Rightarrow> (DiscoveryParseError + DiscoveryMessage) option" where
  "span_DiscoveryMessage_parse m s =
     (if span_size s < discovery_header_size then Some (Inl discovery_truncated)
      else do {
        magic \<leftarrow> (span_value m s 0 :: u32 option);
        version \<leftarrow> (span_value m s 4 :: u16 option);
        kind \<leftarrow> ByteSpan_load m s 6;
        role \<leftarrow> ByteSpan_load m s 7;
        capabilities \<leftarrow> (span_value m s 8 :: u32 option);
        request_id \<leftarrow> (span_value m s 12 :: u64 option);
        node_id \<leftarrow> (span_value m s 20 :: u64 option);
        control_port \<leftarrow> (span_value m s 28 :: u16 option);
        state_port \<leftarrow> (span_value m s 30 :: u16 option);
        size_byte \<leftarrow> ByteSpan_load m s 32;
        let name_size = unat size_byte in
        if magic \<noteq> discovery_magic then Some (Inl discovery_invalid_magic)
        else if version \<noteq> discovery_current_version then Some (Inl discovery_unsupported_version)
        else if kind \<noteq> message_query \<and> kind \<noteq> message_advertisement then Some (Inl discovery_unknown_type)
        else if \<not> valid_role role then Some (Inl discovery_invalid_role)
        else if name_size > maximum_name_size \<or> span_size s \<noteq> discovery_header_size + name_size
          then Some (Inl discovery_length_mismatch)
        else do {
          name \<leftarrow> span_behind discovery_header_size m s;
          if kind = message_query then
            if request_id = 0 \<or> node_id \<noteq> 0 \<or> role \<noteq> role_unspecified \<or> control_port \<noteq> 0 \<or> state_port \<noteq> 0 \<or>
               name \<noteq> [] then Some (Inl discovery_invalid_fields)
            else Some (Inr (DiscoveryMessage_query request_id))
          else
            case DiscoveryMessage_advertisement request_id node_id role capabilities control_port state_port name of
              None \<Rightarrow> Some (Inl discovery_invalid_fields)
            | Some message \<Rightarrow> Some (Inr message)}})"

section \<open>The reader of scenes\<close>

definition span_Reader_integer :: "memory \<Rightarrow> ByteSpan \<Rightarrow> nat \<Rightarrow> ('a::len word option \<times> nat) option" where
  "span_Reader_integer m s offset = do {
     value \<leftarrow> span_read_big_endian m s offset;
     Some (case value of None \<Rightarrow> (None, offset) | Some v \<Rightarrow> (Some v, offset + sizeof TYPE('a word)))}"

definition span_Reader_floating :: "memory \<Rightarrow> ByteSpan \<Rightarrow> nat \<Rightarrow> (u32 option \<times> nat) option" where
  "span_Reader_floating m s offset = span_Reader_integer m s offset"

definition span_Reader_string :: "nat \<Rightarrow> memory \<Rightarrow> ByteSpan \<Rightarrow> nat \<Rightarrow> (bytes option \<times> nat) option" where
  "span_Reader_string n m s offset =
     (if offset > span_size s \<or> n > span_size s - offset then Some (None, offset)
      else do {
        text \<leftarrow> load_range m (ByteSpan_begin s + offset) (ByteSpan_begin s + offset + n);
        Some (Some text, offset + n)})"

definition span_parse_node :: "memory \<Rightarrow> ByteSpan \<Rightarrow> nat \<Rightarrow> (TopologyNode \<times> nat) option option" where
  "span_parse_node m s offset = do {
     (nid, offset) \<leftarrow> span_Reader_integer m s offset;
     (x, offset) \<leftarrow> span_Reader_floating m s offset;
     (y, offset) \<leftarrow> span_Reader_floating m s offset;
     (vlan, offset) \<leftarrow> span_Reader_integer m s offset;
     (flags, offset) \<leftarrow> (span_Reader_integer m s offset :: (u8 option \<times> nat) option);
     (label_size, offset) \<leftarrow> (span_Reader_integer m s offset :: (u8 option \<times> nat) option);
     (packets, offset) \<leftarrow> span_Reader_integer m s offset;
     case (nid, x, y, vlan, flags, label_size, packets) of
       (Some nid, Some x, Some y, Some vlan, Some flags, Some label_size, Some packets) \<Rightarrow> do {
         (label, offset) \<leftarrow> span_Reader_string (unat label_size) m s offset;
         case label of
           None \<Rightarrow> refuse
         | Some label \<Rightarrow>
             Some (Some (\<lparr>node_id = nid, node_x = x, node_y = y, node_vlan = vlan, node_packets = packets,
               node_operational = (flags AND 1 \<noteq> 0), node_label = label\<rparr>, offset))}
     | _ \<Rightarrow> refuse}"

fun span_parse_nodes :: "nat \<Rightarrow> memory \<Rightarrow> ByteSpan \<Rightarrow> nat \<Rightarrow> TopologyScene \<Rightarrow> (TopologyScene \<times> nat) option option" where
  "span_parse_nodes 0 m s offset scene = Some (Some (scene, offset))"
| "span_parse_nodes (Suc count) m s offset scene = do {
     parsed \<leftarrow> span_parse_node m s offset;
     case parsed of
       None \<Rightarrow> refuse
     | Some (node, offset) \<Rightarrow> span_parse_nodes count m s offset (TopologyScene_upsert_node node scene)}"

definition span_parse_link :: "memory \<Rightarrow> ByteSpan \<Rightarrow> nat \<Rightarrow> (TopologyLink \<times> nat) option option" where
  "span_parse_link m s offset = do {
     (src, offset) \<leftarrow> span_Reader_integer m s offset;
     (dst, offset) \<leftarrow> span_Reader_integer m s offset;
     (packets, offset) \<leftarrow> span_Reader_integer m s offset;
     (flags, offset) \<leftarrow> (span_Reader_integer m s offset :: (u8 option \<times> nat) option);
     case (src, dst, packets, flags) of
       (Some src, Some dst, Some packets, Some flags) \<Rightarrow>
         Some (Some (\<lparr>link_source = src, link_destination = dst, link_packets = packets,
           link_operational = (flags AND 1 \<noteq> 0)\<rparr>, offset))
     | _ \<Rightarrow> refuse}"

fun span_parse_links :: "nat \<Rightarrow> memory \<Rightarrow> ByteSpan \<Rightarrow> nat \<Rightarrow> TopologyScene \<Rightarrow> (TopologyScene \<times> nat) option option" where
  "span_parse_links 0 m s offset scene = Some (Some (scene, offset))"
| "span_parse_links (Suc count) m s offset scene = do {
     parsed \<leftarrow> span_parse_link m s offset;
     case parsed of
       None \<Rightarrow> refuse
     | Some (link, offset) \<Rightarrow> span_parse_links count m s offset (TopologyScene_upsert_link link scene)}"

definition span_TopologyScene_parse_snapshot :: "memory \<Rightarrow> ByteSpan \<Rightarrow> TopologyScene option option" where
  "span_TopologyScene_parse_snapshot m s = do {
     (magic, offset) \<leftarrow> span_Reader_integer m s 0;
     (node_count, offset) \<leftarrow> (span_Reader_integer m s offset :: (u16 option \<times> nat) option);
     (link_count, offset) \<leftarrow> (span_Reader_integer m s offset :: (u16 option \<times> nat) option);
     case (magic, node_count, link_count) of
       (Some magic, Some node_count, Some link_count) \<Rightarrow>
         if magic \<noteq> topology_magic then refuse
         else do {
           nodes \<leftarrow> span_parse_nodes (unat node_count) m s offset empty_scene;
           case nodes of
             None \<Rightarrow> refuse
           | Some (scene, offset) \<Rightarrow> do {
               links \<leftarrow> span_parse_links (unat link_count) m s offset scene;
               case links of
                 None \<Rightarrow> refuse
               | Some (scene, offset) \<Rightarrow> if offset = span_size s then Some (Some scene) else refuse}}
     | _ \<Rightarrow> refuse}"

section \<open>The serializers\<close>

text \<open>The results of the writes are ignored, as in the source.\<close>

definition span_StateUpdate_serialize :: "nat \<Rightarrow> StateUpdate \<Rightarrow> memory \<Rightarrow> (ByteSpan option \<times> memory) option" where
  "span_StateUpdate_serialize base u m =
     (let n = update_header_size + length (update_payload u); output = ByteSpan_create base n
      in do {
        (_, m) \<leftarrow> span_write_big_endian state_update_magic output 0 (vector_allocate base n m);
        (_, m) \<leftarrow> span_write_big_endian update_current_version output 4 m;
        (_, m) \<leftarrow> span_write_big_endian (update_type u) output 6 m;
        (_, m) \<leftarrow> span_write_big_endian (update_session_id u) output 8 m;
        (_, m) \<leftarrow> span_write_big_endian (update_sequence u) output 16 m;
        (_, m) \<leftarrow> span_write_big_endian (update_timestamp u) output 24 m;
        (_, m) \<leftarrow> span_write_big_endian (update_base_revision u) output 32 m;
        (_, m) \<leftarrow> span_write_big_endian (update_revision u) output 40 m;
        (_, m) \<leftarrow> span_write_big_endian (of_nat (length (update_payload u)) :: u32) output 48 m;
        m \<leftarrow> span_copy (update_payload u) output update_header_size m;
        Some (Some output, m)})"

definition span_ControlMessage_serialize :: "nat \<Rightarrow> ControlMessage \<Rightarrow> memory \<Rightarrow> (ByteSpan option \<times> memory) option" where
  "span_ControlMessage_serialize base c m =
     (let n = control_header_size + length (control_payload c); output = ByteSpan_create base n
      in do {
        (_, m) \<leftarrow> span_write_big_endian control_magic output 0 (vector_allocate base n m);
        (_, m) \<leftarrow> span_write_big_endian (control_version c) output 4 m;
        (_, m) \<leftarrow> span_write_big_endian (control_type c) output 6 m;
        (_, m) \<leftarrow> span_write_big_endian (control_request_id c) output 8 m;
        (_, m) \<leftarrow> span_write_big_endian (of_nat (length (control_payload c)) :: u32) output 12 m;
        m \<leftarrow> span_copy (control_payload c) output control_header_size m;
        Some (Some output, m)})"

definition span_DiscoveryMessage_serialize :: "nat \<Rightarrow> DiscoveryMessage \<Rightarrow> memory \<Rightarrow> (ByteSpan option \<times> memory) option" where
  "span_DiscoveryMessage_serialize base d m =
     (let n = discovery_header_size + length (message_name d); output = ByteSpan_create base n
      in do {
        (_, m) \<leftarrow> span_write_big_endian discovery_magic output 0 (vector_allocate base n m);
        (_, m) \<leftarrow> span_write_big_endian discovery_current_version output 4 m;
        m \<leftarrow> ByteSpan_store output 6 (message_type d) m;
        m \<leftarrow> ByteSpan_store output 7 (message_role d) m;
        (_, m) \<leftarrow> span_write_big_endian (message_capabilities d) output 8 m;
        (_, m) \<leftarrow> span_write_big_endian (message_request_id d) output 12 m;
        (_, m) \<leftarrow> span_write_big_endian (message_node_id d) output 20 m;
        (_, m) \<leftarrow> span_write_big_endian (message_control_port d) output 28 m;
        (_, m) \<leftarrow> span_write_big_endian (message_state_port d) output 30 m;
        m \<leftarrow> ByteSpan_store output 32 (of_nat (length (message_name d))) m;
        m \<leftarrow> span_copy (message_name d) output discovery_header_size m;
        Some (Some output, m)})"

section \<open>They agree with the list parsers\<close>

lemma covers_value:
  assumes "covers m s bs" and "offset + sizeof TYPE('a::len word) \<le> span_size s"
  shows "span_value m s offset = Some (read_value bs offset :: 'a word)"
proof -
  have "read_big_endian bs offset = Some (read_value bs offset :: 'a word)"
    using assms by (intro read_value_defined) (simp add: covers_def)
  then show ?thesis by (simp add: span_value_def covers_read [OF assms(1)])
qed

lemma covers_behind: "covers m s bs \<Longrightarrow> n \<le> span_size s \<Longrightarrow> span_behind n m s = Some (drop n bs)"
  unfolding span_behind_def by (rule covers_tail)

lemma span_state_update:
  assumes "covers m s bs"
  shows "span_StateUpdate_parse m s = Some (StateUpdate_parse bs)"
proof (cases "span_size s < update_header_size")
  case False
  then have "length bs = span_size s" "52 \<le> span_size s"
    using assms by (simp_all add: covers_def update_header_size_def)
  then show ?thesis
    using False
    by (simp add: span_StateUpdate_parse_def StateUpdate_parse_def covers_value [OF assms] covers_behind [OF assms] Let_def)
qed (use assms in \<open>simp add: span_StateUpdate_parse_def StateUpdate_parse_def covers_def\<close>)

lemma span_control_message:
  assumes "covers m s bs"
  shows "span_ControlMessage_parse m s = Some (ControlMessage_parse bs)"
proof (cases "span_size s < control_header_size")
  case False
  then have "length bs = span_size s" "16 \<le> span_size s"
    using assms by (simp_all add: covers_def control_header_size_def)
  then show ?thesis
    using False
    by (simp add: span_ControlMessage_parse_def ControlMessage_parse_def covers_value [OF assms] covers_behind [OF assms] Let_def)
qed (use assms in \<open>simp add: span_ControlMessage_parse_def ControlMessage_parse_def covers_def\<close>)

lemma span_discovery_message:
  assumes "covers m s bs"
  shows "span_DiscoveryMessage_parse m s = Some (DiscoveryMessage_parse bs)"
proof (cases "span_size s < discovery_header_size")
  case False
  then have "length bs = span_size s" "33 \<le> span_size s"
    using assms by (simp_all add: covers_def discovery_header_size_def)
  then show ?thesis
    using False
    by (simp add: span_DiscoveryMessage_parse_def DiscoveryMessage_parse_def covers_value [OF assms] covers_load [OF assms]
        covers_behind [OF assms] Let_def split: option.split)
qed (use assms in \<open>simp add: span_DiscoveryMessage_parse_def DiscoveryMessage_parse_def covers_def\<close>)

lemma covers_integer:
  assumes "covers m s bs"
  shows "span_Reader_integer m s offset = Some (Reader_integer bs offset :: 'a::len word option \<times> nat)"
  by (simp add: span_Reader_integer_def Reader_integer_def covers_read [OF assms] split: option.split)

lemma covers_floating: "covers m s bs \<Longrightarrow> span_Reader_floating m s offset = Some (Reader_floating bs offset)"
  by (simp add: span_Reader_floating_def Reader_floating_def covers_integer)

lemma covers_string:
  assumes "covers m s bs"
  shows "span_Reader_string n m s offset = Some (Reader_string n bs offset)"
proof (cases "offset > span_size s \<or> n > span_size s - offset")
  case False
  then have "offset + n \<le> span_size s" by linarith
  then have "load_range m (span_data s + offset) (span_data s + (offset + n)) = Some (take n (drop offset bs))"
    using covers_range [OF assms, of offset "offset + n"] by simp
  then show ?thesis
    using False assms
    by (simp add: span_Reader_string_def Reader_string_def ByteSpan_begin_def covers_def add.assoc)
qed (use assms in \<open>auto simp: span_Reader_string_def Reader_string_def covers_def\<close>)

lemmas covers_reader = covers_integer covers_floating covers_string

lemma span_node:
  assumes "covers m s bs"
  shows "span_parse_node m s offset = Some (parse_node bs offset)"
  by (simp add: span_parse_node_def parse_node_def covers_reader [OF assms] refuse_def Let_def case_prod_beta
      split: option.split)

lemma span_link:
  assumes "covers m s bs"
  shows "span_parse_link m s offset = Some (parse_link bs offset)"
  by (simp add: span_parse_link_def parse_link_def covers_reader [OF assms] refuse_def Let_def case_prod_beta
      split: option.split)

lemma span_nodes:
  assumes "covers m s bs"
  shows "span_parse_nodes count m s offset scene = Some (parse_nodes count bs offset scene)"
  by (induction count arbitrary: offset scene)
    (simp_all add: span_node [OF assms] refuse_def case_prod_beta split: option.split)

lemma span_links:
  assumes "covers m s bs"
  shows "span_parse_links count m s offset scene = Some (parse_links count bs offset scene)"
  by (induction count arbitrary: offset scene)
    (simp_all add: span_link [OF assms] refuse_def case_prod_beta split: option.split)

lemma span_snapshot:
  assumes "covers m s bs"
  shows "span_TopologyScene_parse_snapshot m s = Some (TopologyScene_parse_snapshot bs)"
proof -
  have "length bs = span_size s" using assms by (simp add: covers_def)
  then show ?thesis
    by (simp add: span_TopologyScene_parse_snapshot_def TopologyScene_parse_snapshot_def covers_reader [OF assms]
        span_nodes [OF assms] span_links [OF assms] Reader_finished_def refuse_def Let_def case_prod_beta
        split: option.split)
qed

section \<open>The serializers write what the list serializers do\<close>

lemma span_update_serializes:
  "serialized_at base (update_header_size + length (update_payload u)) m (span_StateUpdate_serialize base u m) (StateUpdate_serialize u)"
  unfolding span_StateUpdate_serialize_def StateUpdate_serialize_def Let_def case_prod_beta put_value_def update_header_size_def
  by (rule serializer_steps, (assumption | rule vector_covers), linarith?, (simp only: fst_conv snd_conv)?)+

lemma span_control_serializes:
  "serialized_at base (control_header_size + length (control_payload c)) m (span_ControlMessage_serialize base c m) (ControlMessage_serialize c)"
  unfolding span_ControlMessage_serialize_def ControlMessage_serialize_def Let_def case_prod_beta put_value_def control_header_size_def
  by (rule serializer_steps, (assumption | rule vector_covers), linarith?, (simp only: fst_conv snd_conv)?)+

lemma span_discovery_serializes:
  "serialized_at base (discovery_header_size + length (message_name d)) m (span_DiscoveryMessage_serialize base d m)
     (DiscoveryMessage_serialize d)"
  unfolding span_DiscoveryMessage_serialize_def DiscoveryMessage_serialize_def Let_def case_prod_beta put_value_def
    discovery_header_size_def
  by (rule serializer_steps, (assumption | rule vector_covers), linarith?, (simp only: fst_conv snd_conv)?)+

lemma message_lengths:
  "length (StateUpdate_serialize u) = update_header_size + length (update_payload u)"
  "length (ControlMessage_serialize c) = control_header_size + length (control_payload c)"
  "length (DiscoveryMessage_serialize d) = discovery_header_size + length (message_name d)"
  by (simp_all add: serialize_update serialize_control serialize_discovery update_header_size_def control_header_size_def
      discovery_header_size_def)

lemma message_nonempty: "StateUpdate_serialize u \<noteq> []" "ControlMessage_serialize c \<noteq> []" "DiscoveryMessage_serialize d \<noteq> []"
  using message_lengths(1) [of u] message_lengths(2) [of c] message_lengths(3) [of d]
  by (auto simp: update_header_size_def control_header_size_def discovery_header_size_def)

section \<open>Property\<close>

text \<open>
  Property C11: what arrives from the network cannot make the message parsers leave their buffer. For any bytes of any
  length, in any memory, the parsers of state updates, control messages, discovery messages and scenes read nothing
  outside the span, never dereference an empty optional, and compute what the list models compute. And the message
  serializers write only into the vector that they allocate, where the memory-level parsers read every
  well-formed message back.
\<close>

theorem messages_memory_safe:
  assumes "covers m s bs" and "StateUpdate_wf u" and "ControlMessage_wf c" and "DiscoveryMessage_wf d"
  shows "span_StateUpdate_parse m s = Some (StateUpdate_parse bs) \<and>
    span_ControlMessage_parse m s = Some (ControlMessage_parse bs) \<and>
    span_DiscoveryMessage_parse m s = Some (DiscoveryMessage_parse bs) \<and>
    span_TopologyScene_parse_snapshot m s = Some (TopologyScene_parse_snapshot bs) \<and>
    written_and_read_back base (StateUpdate_serialize u) m (\<lambda>m s. map_option accepted (span_StateUpdate_parse m s)) u
      (span_StateUpdate_serialize base u m) \<and>
    written_and_read_back base (ControlMessage_serialize c) m (\<lambda>m s. map_option accepted (span_ControlMessage_parse m s)) c
      (span_ControlMessage_serialize base c m) \<and>
    written_and_read_back base (DiscoveryMessage_serialize d) m (\<lambda>m s. map_option accepted (span_DiscoveryMessage_parse m s)) d
      (span_DiscoveryMessage_serialize base d m)"
proof (intro conjI written_and_read_backI message_nonempty span_state_update span_control_message span_discovery_message
    span_snapshot assms(1))
  show "serialized_at base (length (StateUpdate_serialize u)) m (span_StateUpdate_serialize base u m) (StateUpdate_serialize u)"
    unfolding message_lengths by (rule span_update_serializes)
  show "serialized_at base (length (ControlMessage_serialize c)) m (span_ControlMessage_serialize base c m) (ControlMessage_serialize c)"
    unfolding message_lengths by (rule span_control_serializes)
  show "serialized_at base (length (DiscoveryMessage_serialize d)) m (span_DiscoveryMessage_serialize base d m)
      (DiscoveryMessage_serialize d)"
    unfolding message_lengths by (rule span_discovery_serializes)
qed (simp_all add: span_state_update span_control_message span_discovery_message parse_serialize_update
    parse_serialize_control parse_serialize_discovery assms)

theorem messages_memory_safe_witness:
  "\<exists>u c. span_StateUpdate_parse (memory_of 64 [1, 2, 3]) (ByteSpan_of_container 64 [1, 2, 3]) = Some (Inl update_truncated) \<and>
    written_and_read_back 80 (StateUpdate_serialize u) (memory_of 64 [1, 2, 3])
      (\<lambda>m s. map_option accepted (span_StateUpdate_parse m s)) u (span_StateUpdate_serialize 80 u (memory_of 64 [1, 2, 3])) \<and>
    written_and_read_back 80 (ControlMessage_serialize c) (memory_of 64 [1, 2, 3])
      (\<lambda>m s. map_option accepted (span_ControlMessage_parse m s)) c (span_ControlMessage_serialize 80 c (memory_of 64 [1, 2, 3]))"
proof -
  define u where "u = \<lparr>update_type = update_snapshot, update_session_id = 1, update_sequence = 1, update_timestamp = 5,
    update_base_revision = 0, update_revision = 1, update_payload = [7, 8]\<rparr>"
  define c where "c = \<lparr>control_version = control_current_version, control_type = 40, control_request_id = 9,
    control_payload = [1]\<rparr>"
  have "StateUpdate_wf u"
    by (simp add: u_def StateUpdate_wf_def is_known_def revisions_are_valid_def update_maximum_payload_size_def)
  moreover have "ControlMessage_wf c"
    by (simp add: c_def ControlMessage_wf_def control_known_def control_message_types_def control_maximum_payload_size_def)
  moreover have "DiscoveryMessage_wf (DiscoveryMessage_query 3)"
    by (simp add: DiscoveryMessage_wf_def query_wf_def DiscoveryMessage_query_def)
  ultimately show ?thesis
    using messages_memory_safe [OF memory_of_covers, of u c "DiscoveryMessage_query 3" 64 "[1, 2, 3]" 80]
    by (intro exI [of _ u] exI [of _ c]) (simp add: StateUpdate_parse_def update_header_size_def)
qed

end
