(* ===== verification/Lab_Configuration.thy ===== *)
theory Lab_Configuration
  imports Discovery_Protocol
begin

text \<open>
  \<^verbatim>\<open>discovery/lab_configuration.cpp\<close>: the machines of the lab as the discovery found them, in the
  order in which they were first seen. The name and the address of a machine are byte strings.
\<close>

section \<open>The configuration\<close>

record DiscoveredMachine =
  machine_node_id :: u64
  machine_name :: bytes
  machine_address :: bytes
  machine_role :: MachineRole
  machine_capabilities :: Capability
  machine_control_port :: u16
  machine_state_port :: u16

datatype ConfigurationResult =
  configuration_added | configuration_updated | rejected_conflict | rejected_invalid

type_synonym LabConfiguration = "DiscoveredMachine list"

definition machine_invalid :: "DiscoveredMachine \<Rightarrow> bool" where
  "machine_invalid machine \<longleftrightarrow>
     machine_node_id machine = 0 \<or> machine_name machine = [] \<or> machine_address machine = [] \<or>
     machine_role machine = role_unspecified \<or> machine_state_port machine = 0 \<or>
     (machine_role machine = role_leader \<and> machine_control_port machine = 0)"

definition machines_conflict :: "DiscoveredMachine \<Rightarrow> DiscoveredMachine \<Rightarrow> bool" where
  "machines_conflict machine current \<longleftrightarrow>
     machine_node_id current \<noteq> machine_node_id machine \<and>
     (machine_name current = machine_name machine \<or> machine_address current = machine_address machine)"

text \<open>\<^verbatim>\<open>std::find_if\<close> followed by an assignment through the iterator it returns.\<close>

fun replace_first :: "('a \<Rightarrow> bool) \<Rightarrow> 'a \<Rightarrow> 'a list \<Rightarrow> 'a list" where
  "replace_first p v [] = []"
| "replace_first p v (x # xs) = (if p x then v # xs else x # replace_first p v xs)"

definition LabConfiguration_add_or_update ::
  "DiscoveredMachine \<Rightarrow> LabConfiguration \<Rightarrow> ConfigurationResult \<times> LabConfiguration" where
  "LabConfiguration_add_or_update machine machines =
     (if machine_invalid machine then (rejected_invalid, machines)
      else
        let same_node = find (\<lambda>current. machine_node_id current = machine_node_id machine) machines;
            conflict = find (machines_conflict machine) machines
        in if conflict \<noteq> None then (rejected_conflict, machines)
           else if same_node = None then (configuration_added, machines @ [machine])
           else (configuration_updated,
             replace_first (\<lambda>current. machine_node_id current = machine_node_id machine) machine machines))"

definition LabConfiguration_complete :: "LabConfiguration \<Rightarrow> bool" where
  "LabConfiguration_complete machines \<longleftrightarrow>
     length machines = 4 \<and>
     length (filter (\<lambda>machine. machine_role machine = role_leader) machines) = 1 \<and>
     length (filter (\<lambda>machine. machine_role machine = role_observer) machines) = 3"

definition LabConfiguration_leader :: "LabConfiguration \<Rightarrow> DiscoveredMachine option" where
  "LabConfiguration_leader machines = find (\<lambda>machine. machine_role machine = role_leader) machines"

definition LabConfiguration_observers :: "LabConfiguration \<Rightarrow> DiscoveredMachine list" where
  "LabConfiguration_observers machines = filter (\<lambda>machine. machine_role machine = role_observer) machines"

section \<open>What the configuration keeps\<close>

text \<open>No two machines share a node id, a name or an address, and every machine can be reached.\<close>

definition lab_ok :: "LabConfiguration \<Rightarrow> bool" where
  "lab_ok machines \<longleftrightarrow>
     distinct (map machine_node_id machines) \<and> distinct (map machine_name machines) \<and>
     distinct (map machine_address machines) \<and> list_all (\<lambda>machine. \<not> machine_invalid machine) machines"

text \<open>The configuration a client sees: the machine known under a node id.\<close>

definition lab_lookup :: "LabConfiguration \<Rightarrow> u64 \<Rightarrow> DiscoveredMachine option" where
  "lab_lookup machines node = find (\<lambda>machine. machine_node_id machine = node) machines"

lemma map_replace_first:
  "map f (replace_first (\<lambda>x. f x = f v) v xs) = map f xs"
  by (induction xs) auto

lemma set_replace_first_subset: "set (replace_first p v xs) \<subseteq> insert v (set xs)"
  by (induction xs) auto

lemma replace_first_other_keys:
  assumes "distinct (map key xs)" and "distinct (map f xs)"
    and "\<forall>x \<in> set xs. key x \<noteq> key v \<longrightarrow> f x \<noteq> f v"
  shows "distinct (map f (replace_first (\<lambda>x. key x = key v) v xs))"
  using assms
proof (induction xs)
  case (Cons x xs)
  show ?case
  proof (cases "key x = key v")
    case True
    then have "key v \<notin> key ` set xs" using Cons.prems(1) by auto
    then have "\<forall>y \<in> set xs. f y \<noteq> f v" using Cons.prems(3) by (metis image_eqI list.set_intros(2))
    with True Cons.prems show ?thesis by auto
  next
    case False
    then have "f x \<notin> f ` set (replace_first (\<lambda>x. key x = key v) v xs)"
      using Cons.prems set_replace_first_subset [of "\<lambda>x. key x = key v" v xs] by fastforce
    with False Cons show ?thesis by simp
  qed
qed simp

lemma find_replace_first:
  "find (\<lambda>x. key x = k) (replace_first (\<lambda>x. key x = key v) v xs) =
     (if k = key v \<and> find (\<lambda>x. key x = key v) xs \<noteq> None then Some v else find (\<lambda>x. key x = k) xs)"
  by (induction xs) auto

lemma find_filter: "find p xs = (case filter p xs of [] \<Rightarrow> None | x # _ \<Rightarrow> Some x)"
  by (induction xs) auto

lemma filter_keeps_all: "length (filter p xs) = length xs \<Longrightarrow> \<forall>x \<in> set xs. p x"
  using length_filter_less [of _ xs p] by fastforce

lemma find_snoc: "find p (xs @ [v]) = (case find p xs of Some x \<Rightarrow> Some x | None \<Rightarrow> if p v then Some v else None)"
  by (induction xs) auto

text \<open>The three outcomes of \<^const>\<open>LabConfiguration_add_or_update\<close>, as rules.\<close>

lemma add_or_update_cases [consumes 1, case_names invalid conflict added updated]:
  assumes "LabConfiguration_add_or_update machine machines = (r, machines')"
  obtains "machine_invalid machine" "r = rejected_invalid" "machines' = machines"
  | "\<not> machine_invalid machine" "\<exists>current \<in> set machines. machines_conflict machine current"
      "r = rejected_conflict" "machines' = machines"
  | "\<not> machine_invalid machine" "\<forall>current \<in> set machines. \<not> machines_conflict machine current"
      "\<forall>current \<in> set machines. machine_node_id current \<noteq> machine_node_id machine"
      "r = configuration_added" "machines' = machines @ [machine]"
  | "\<not> machine_invalid machine" "\<forall>current \<in> set machines. \<not> machines_conflict machine current"
      "\<exists>current \<in> set machines. machine_node_id current = machine_node_id machine"
      "r = configuration_updated"
      "machines' = replace_first (\<lambda>current. machine_node_id current = machine_node_id machine) machine machines"
proof (cases "machine_invalid machine")
  case True
  then show thesis using assms that(1) by (simp add: LabConfiguration_add_or_update_def)
next
  case valid: False
  let ?conflict = "\<exists>current \<in> set machines. machines_conflict machine current"
  let ?known = "\<exists>current \<in> set machines. machine_node_id current = machine_node_id machine"
  have step: "(r, machines') =
      (if ?conflict then (rejected_conflict, machines)
       else if \<not> ?known then (configuration_added, machines @ [machine])
       else (configuration_updated,
         replace_first (\<lambda>current. machine_node_id current = machine_node_id machine) machine machines))"
    using assms valid unfolding LabConfiguration_add_or_update_def Let_def find_None_iff Bex_def by (simp add: eq_commute)
  show thesis
  proof (cases ?conflict)
    case True
    then show thesis using that(2) valid step by simp
  next
    case False
    then show thesis using that(3,4) valid step by (cases ?known) simp_all
  qed
qed

lemma add_or_update_ok:
  assumes ok: "lab_ok machines" and step: "LabConfiguration_add_or_update machine machines = (r, machines')"
  shows "lab_ok machines'"
  using step
proof (cases rule: add_or_update_cases)
  case added
  then show ?thesis using ok by (fastforce simp: lab_ok_def machines_conflict_def)
next
  case updated
  let ?new = "replace_first (\<lambda>current. machine_node_id current = machine_node_id machine) machine machines"
  have apart: "\<forall>current \<in> set machines. machine_node_id current \<noteq> machine_node_id machine \<longrightarrow>
      machine_name current \<noteq> machine_name machine \<and> machine_address current \<noteq> machine_address machine"
    using updated by (auto simp: machines_conflict_def)
  have "distinct (map machine_name ?new)" "distinct (map machine_address ?new)"
    using ok apart by (auto simp: lab_ok_def intro: replace_first_other_keys)
  moreover have "list_all (\<lambda>m. \<not> machine_invalid m) ?new"
    using ok updated set_replace_first_subset by (fastforce simp: lab_ok_def list_all_iff)
  ultimately show ?thesis using ok updated by (simp add: lab_ok_def map_replace_first)
qed (use ok in simp_all)

lemma add_or_update_lookup:
  assumes "LabConfiguration_add_or_update machine machines = (r, machines')"
  shows "lab_lookup machines' =
    (if r = configuration_added \<or> r = configuration_updated
     then (lab_lookup machines)(machine_node_id machine \<mapsto> machine) else lab_lookup machines)"
  using assms
proof (cases rule: add_or_update_cases)
  case added
  then have "lab_lookup machines (machine_node_id machine) = None" by (auto simp: lab_lookup_def find_None_iff)
  with added show ?thesis by (auto simp: lab_lookup_def find_snoc fun_eq_iff split: option.split)
next
  case updated
  then show ?thesis by (auto simp: lab_lookup_def find_replace_first fun_eq_iff find_None_iff)
qed simp_all

lemma add_or_update_members:
  "set (snd (LabConfiguration_add_or_update machine machines)) \<subseteq> insert machine (set machines)"
proof (cases "LabConfiguration_add_or_update machine machines")
  case (Pair r machines')
  then show ?thesis
    using set_replace_first_subset by (cases rule: add_or_update_cases) (simp_all add: Pair subset_insertI)
qed

lemma add_or_update_outcome:
  "\<forall>machine. case LabConfiguration_add_or_update machine machines of (r, machines') \<Rightarrow>
     lab_lookup machines' =
       (if machine_invalid machine \<or> (\<exists>current \<in> set machines. machines_conflict machine current)
        then lab_lookup machines else (lab_lookup machines)(machine_node_id machine \<mapsto> machine)) \<and>
     (r = configuration_updated \<longrightarrow> lab_lookup machines (machine_node_id machine) \<noteq> None)"
proof (intro allI)
  fix machine
  obtain r machines' where step: "LabConfiguration_add_or_update machine machines = (r, machines')" by fastforce
  then have "lab_lookup machines' =
       (if machine_invalid machine \<or> (\<exists>current \<in> set machines. machines_conflict machine current)
        then lab_lookup machines else (lab_lookup machines)(machine_node_id machine \<mapsto> machine)) \<and>
     (r = configuration_updated \<longrightarrow> lab_lookup machines (machine_node_id machine) \<noteq> None)"
    unfolding add_or_update_lookup [OF step]
    by (cases rule: add_or_update_cases) (auto simp: lab_lookup_def find_None_iff)
  then show "case LabConfiguration_add_or_update machine machines of (r, machines') \<Rightarrow>
     lab_lookup machines' =
       (if machine_invalid machine \<or> (\<exists>current \<in> set machines. machines_conflict machine current)
        then lab_lookup machines else (lab_lookup machines)(machine_node_id machine \<mapsto> machine)) \<and>
     (r = configuration_updated \<longrightarrow> lab_lookup machines (machine_node_id machine) \<noteq> None)"
    by (simp add: step)
qed

text \<open>The configuration after a series of announcements, in the order in which they arrive.\<close>

definition lab_after :: "DiscoveredMachine list \<Rightarrow> LabConfiguration" where
  "lab_after discovered = fold (\<lambda>machine machines. snd (LabConfiguration_add_or_update machine machines)) discovered []"

lemma lab_after_snoc:
  "lab_after (discovered @ [machine]) = snd (LabConfiguration_add_or_update machine (lab_after discovered))"
  by (simp add: lab_after_def)

lemma lab_after_ok: "lab_ok (lab_after discovered)"
proof (induction discovered rule: rev_induct)
  case Nil
  show ?case by (simp add: lab_after_def lab_ok_def)
next
  case (snoc machine discovered)
  then show ?case by (metis add_or_update_ok lab_after_snoc prod.collapse)
qed

lemma lab_after_members: "set (lab_after discovered) \<subseteq> set discovered"
proof (induction discovered rule: rev_induct)
  case (snoc machine discovered)
  then show ?case using add_or_update_members by (fastforce simp: lab_after_snoc)
qed (simp add: lab_after_def)

lemma complete_partition:
  assumes "LabConfiguration_complete machines"
  shows "\<exists>l. LabConfiguration_leader machines = Some l \<and> length (LabConfiguration_observers machines) = 3 \<and>
    set machines = insert l (set (LabConfiguration_observers machines)) \<and>
    machine_role l = role_leader \<and> (\<forall>m \<in> set (LabConfiguration_observers machines). machine_role m = role_observer)"
proof -
  let ?leaders = "filter (\<lambda>m. machine_role m = role_leader) machines"
  let ?observers = "filter (\<lambda>m. machine_role m = role_observer) machines"
  obtain l where l: "?leaders = [l]" using assms by (auto simp: LabConfiguration_complete_def length_Suc_conv)
  have find: "LabConfiguration_leader machines = Some l"
    by (simp add: LabConfiguration_leader_def find_filter l)
  have apart: "set ?leaders \<inter> set ?observers = {}" by (auto simp: discovery_values)
  have "length (filter (\<lambda>m. machine_role m = role_leader \<or> machine_role m = role_observer) machines) =
      length ?leaders + length ?observers"
    by (induction machines) (auto simp: discovery_values)
  also have "\<dots> = length machines" using assms by (simp add: LabConfiguration_complete_def)
  finally have "\<forall>m \<in> set machines. machine_role m = role_leader \<or> machine_role m = role_observer"
    by (rule filter_keeps_all)
  then have "set machines = set ?leaders \<union> set ?observers" by auto
  then have "set machines = insert l (set ?observers)" by (simp add: l)
  moreover have "machine_role l = role_leader" using arg_cong [OF l, of set] by auto
  ultimately show ?thesis using find assms by (auto simp: LabConfiguration_observers_def LabConfiguration_complete_def)
qed

text \<open>
  Property C27: whatever announcements arrive and in whatever order, the configuration holds only announced
  machines, all of them reachable, and no two with the same node id, name or address. The next
  announcement either changes nothing (it is invalid, or clashes with another machine) or sets the machine
  known under its node id and no other. Once the configuration is complete it consists of the leader that
  \<^verbatim>\<open>leader()\<close> returns and of the three observers that \<^verbatim>\<open>observers()\<close> returns.
\<close>

theorem lab_configuration_consistent:
  assumes "lab_after discovered = machines"
  shows "lab_ok machines \<and> set machines \<subseteq> set discovered \<and>
    (\<forall>machine. case LabConfiguration_add_or_update machine machines of (r, machines') \<Rightarrow>
       lab_lookup machines' =
         (if machine_invalid machine \<or> (\<exists>current \<in> set machines. machines_conflict machine current)
          then lab_lookup machines else (lab_lookup machines)(machine_node_id machine \<mapsto> machine)) \<and>
       (r = configuration_updated \<longrightarrow> lab_lookup machines (machine_node_id machine) \<noteq> None)) \<and>
    (LabConfiguration_complete machines \<longrightarrow>
       (\<exists>l. LabConfiguration_leader machines = Some l \<and> length (LabConfiguration_observers machines) = 3 \<and>
          set machines = insert l (set (LabConfiguration_observers machines)) \<and> machine_role l = role_leader \<and>
          (\<forall>m \<in> set (LabConfiguration_observers machines). machine_role m = role_observer)))"
  unfolding assms [symmetric]
  by (intro conjI impI lab_after_ok lab_after_members add_or_update_outcome complete_partition)

definition example_lab :: "DiscoveredMachine list" where
  "example_lab =
     [\<lparr>machine_node_id = 1, machine_name = [97], machine_address = [49], machine_role = role_leader,
       machine_capabilities = 1, machine_control_port = 9000, machine_state_port = 9001\<rparr>,
      \<lparr>machine_node_id = 2, machine_name = [98], machine_address = [50], machine_role = role_observer,
       machine_capabilities = 2, machine_control_port = 0, machine_state_port = 9001\<rparr>,
      \<lparr>machine_node_id = 9, machine_name = [98], machine_address = [57], machine_role = role_observer,
       machine_capabilities = 2, machine_control_port = 0, machine_state_port = 9001\<rparr>,
      \<lparr>machine_node_id = 3, machine_name = [99], machine_address = [51], machine_role = role_observer,
       machine_capabilities = 2, machine_control_port = 0, machine_state_port = 9001\<rparr>,
      \<lparr>machine_node_id = 4, machine_name = [100], machine_address = [52], machine_role = role_observer,
       machine_capabilities = 2, machine_control_port = 0, machine_state_port = 9001\<rparr>]"

theorem lab_configuration_consistent_witness:
  "LabConfiguration_complete (lab_after example_lab) \<and> lab_ok (lab_after example_lab) \<and>
   length (LabConfiguration_observers (lab_after example_lab)) = 3"
proof -
  have complete: "LabConfiguration_complete (lab_after example_lab)" by code_simp
  then show ?thesis using lab_configuration_consistent [OF refl, of example_lab] by blast
qed

end
