(* ===== verification/Socket_Handle.thy ===== *)
theory Socket_Handle
  imports Message_Format
begin

text \<open>
  \<^verbatim>\<open>transport/socket_handle.cpp\<close>: the owner of a native socket. Its operations move a descriptor from
  one object to another and close the one they replace, so the model keeps the objects in a store, by
  address: an assignment may name the same object twice. The process has a table of open descriptors,
  to which \<^verbatim>\<open>socket\<close> and \<^verbatim>\<open>accept\<close> add and from which \<^verbatim>\<open>close\<close> removes.
\<close>

section \<open>Handles\<close>

type_synonym NativeSocket = int

definition invalid_socket :: NativeSocket where "invalid_socket = - 1"

record SocketError =
  socket_error_code :: int
  socket_error_message :: string

record process =
  handles :: "nat \<rightharpoonup> NativeSocket"
  open_sockets :: "NativeSocket set"
  released_sockets :: "NativeSocket set"
  closed_unopened :: bool

definition process_start :: process where
  "process_start = \<lparr>handles = (\<lambda>_. None), open_sockets = {}, released_sockets = {}, closed_unopened = False\<rparr>"

definition native_handle :: "nat \<Rightarrow> process \<Rightarrow> NativeSocket" where
  "native_handle a p = (case handles p a of None \<Rightarrow> invalid_socket | Some native \<Rightarrow> native)"

definition SocketHandle_valid :: "nat \<Rightarrow> process \<Rightarrow> bool" where
  "SocketHandle_valid a p \<longleftrightarrow> native_handle a p \<noteq> invalid_socket"

text \<open>The system call \<^verbatim>\<open>close\<close>; closing a descriptor that is not open is recorded.\<close>

definition close_native :: "NativeSocket \<Rightarrow> process \<Rightarrow> process" where
  "close_native native p =
     p\<lparr>open_sockets := open_sockets p - {native}, closed_unopened := (closed_unopened p \<or> native \<notin> open_sockets p)\<rparr>"

definition set_handle :: "nat \<Rightarrow> NativeSocket \<Rightarrow> process \<Rightarrow> process" where
  "set_handle a native p = p\<lparr>handles := (handles p)(a \<mapsto> native)\<rparr>"

definition SocketHandle_construct :: "nat \<Rightarrow> NativeSocket \<Rightarrow> process \<Rightarrow> process" where
  "SocketHandle_construct a native p = set_handle a native p"

definition SocketHandle_release :: "nat \<Rightarrow> process \<Rightarrow> NativeSocket \<times> process" where
  "SocketHandle_release a p = (let result = native_handle a p in (result, set_handle a invalid_socket p))"

definition SocketHandle_reset :: "nat \<Rightarrow> NativeSocket \<Rightarrow> process \<Rightarrow> process" where
  "SocketHandle_reset a replacement p =
     set_handle a replacement (if SocketHandle_valid a p then close_native (native_handle a p) p else p)"

definition SocketHandle_destroy :: "nat \<Rightarrow> process \<Rightarrow> process" where
  "SocketHandle_destroy a p =
     (let p' = SocketHandle_reset a invalid_socket p in p'\<lparr>handles := (handles p')(a := None)\<rparr>)"

definition SocketHandle_move :: "nat \<Rightarrow> nat \<Rightarrow> process \<Rightarrow> process" where
  "SocketHandle_move a other p =
     (case SocketHandle_release other p of (native, p') \<Rightarrow> SocketHandle_construct a native p')"

definition SocketHandle_assign :: "nat \<Rightarrow> nat \<Rightarrow> process \<Rightarrow> process" where
  "SocketHandle_assign a other p =
     (if a \<noteq> other then case SocketHandle_release other p of (native, p') \<Rightarrow> SocketHandle_reset a native p' else p)"

text \<open>\<open>shutdown\<close> is whether the system call of that name succeeds on a descriptor.\<close>

definition SocketHandle_shutdown_both :: "(NativeSocket \<Rightarrow> bool) \<Rightarrow> nat \<Rightarrow> process \<Rightarrow> bool" where
  "SocketHandle_shutdown_both shutdown a p =
     (if \<not> SocketHandle_valid a p then False else shutdown (native_handle a p))"

section \<open>Programs over handles\<close>

text \<open>
  What a program can do with its handles. A descriptor that enters is one the system has just opened;
  one that was released belongs to the caller, who may close it or give it back to a handle.
\<close>

inductive handle_step :: "process \<Rightarrow> process \<Rightarrow> bool" where
  construct_default: "handles p a = None \<Longrightarrow> handle_step p (SocketHandle_construct a invalid_socket p)"
| construct_opened: "handles p a = None \<Longrightarrow> native \<notin> open_sockets p \<Longrightarrow> native \<noteq> invalid_socket \<Longrightarrow>
    handle_step p (SocketHandle_construct a native (p\<lparr>open_sockets := insert native (open_sockets p)\<rparr>))"
| move: "handles p a = None \<Longrightarrow> other \<in> dom (handles p) \<Longrightarrow> handle_step p (SocketHandle_move a other p)"
| assign: "a \<in> dom (handles p) \<Longrightarrow> other \<in> dom (handles p) \<Longrightarrow> handle_step p (SocketHandle_assign a other p)"
| reset: "a \<in> dom (handles p) \<Longrightarrow> handle_step p (SocketHandle_reset a invalid_socket p)"
| reset_released: "a \<in> dom (handles p) \<Longrightarrow> native \<in> released_sockets p \<Longrightarrow>
    handle_step p (SocketHandle_reset a native (p\<lparr>released_sockets := released_sockets p - {native}\<rparr>))"
| release: "a \<in> dom (handles p) \<Longrightarrow> SocketHandle_release a p = (native, p') \<Longrightarrow>
    handle_step p (p'\<lparr>released_sockets := (if native = invalid_socket then released_sockets p'
      else insert native (released_sockets p'))\<rparr>)"
| close_released: "native \<in> released_sockets p \<Longrightarrow>
    handle_step p (close_native native (p\<lparr>released_sockets := released_sockets p - {native}\<rparr>))"
| destroy: "a \<in> dom (handles p) \<Longrightarrow> handle_step p (SocketHandle_destroy a p)"

lemmas handle_defs =
  SocketHandle_construct_def SocketHandle_release_def SocketHandle_reset_def SocketHandle_destroy_def
  SocketHandle_move_def SocketHandle_assign_def SocketHandle_valid_def set_handle_def close_native_def native_handle_def

definition owned :: "process \<Rightarrow> NativeSocket set" where
  "owned p = ran (handles p) - {invalid_socket}"

definition handles_ok :: "process \<Rightarrow> bool" where
  "handles_ok p \<longleftrightarrow> \<not> closed_unopened p \<and> open_sockets p = owned p \<union> released_sockets p \<and>
     owned p \<inter> released_sockets p = {} \<and> invalid_socket \<notin> released_sockets p \<and>
     (\<forall>a b native. handles p a = Some native \<longrightarrow> handles p b = Some native \<longrightarrow> native \<noteq> invalid_socket \<longrightarrow> a = b)"

lemma owned_iff: "native \<in> owned p \<longleftrightarrow> native \<noteq> invalid_socket \<and> (\<exists>a. handles p a = Some native)"
  by (auto simp: owned_def ran_def)

lemma owner_update:
  "(\<exists>b. (m(a := x)) b = Some native) \<longleftrightarrow> x = Some native \<or> (\<exists>b. b \<noteq> a \<and> m b = Some native)"
  by (metis fun_upd_other fun_upd_same)

lemma other_owner: "m a \<noteq> Some native \<Longrightarrow> (\<exists>b. b \<noteq> a \<and> m b = Some native) \<longleftrightarrow> (\<exists>b. m b = Some native)"
  by metis

lemma native_handle_iff:
  "native \<noteq> invalid_socket \<Longrightarrow> native_handle a p = native \<longleftrightarrow> handles p a = Some native"
  by (auto simp: native_handle_def split: option.split)

lemma handles_okI:
  assumes "\<not> closed_unopened p"
    and "\<And>native. native \<in> open_sockets p \<longleftrightarrow> native \<in> owned p \<or> native \<in> released_sockets p"
    and "\<And>native. native \<in> owned p \<Longrightarrow> native \<notin> released_sockets p"
    and "invalid_socket \<notin> released_sockets p"
    and "\<And>a b native. handles p a = Some native \<Longrightarrow> handles p b = Some native \<Longrightarrow> native \<noteq> invalid_socket \<Longrightarrow> a = b"
  shows "handles_ok p"
  using assms unfolding handles_ok_def by blast

lemma handles_okD:
  assumes "handles_ok p"
  shows "\<not> closed_unopened p"
    and "\<And>native. native \<in> open_sockets p \<longleftrightarrow> native \<in> owned p \<or> native \<in> released_sockets p"
    and "\<And>native. native \<in> owned p \<Longrightarrow> native \<notin> released_sockets p"
    and "invalid_socket \<notin> released_sockets p"
    and "\<And>a b native. handles p a = Some native \<Longrightarrow> handles p b = Some native \<Longrightarrow> native \<noteq> invalid_socket \<Longrightarrow> a = b"
  using assms unfolding handles_ok_def by blast+

text \<open>
  Every operation is a sequence of four transfers of ownership: into a handle that owns nothing, out of a
  handle, from the system, and back to it.
\<close>

definition give :: "nat \<Rightarrow> NativeSocket \<Rightarrow> process \<Rightarrow> process" where
  "give a native p = set_handle a native (p\<lparr>released_sockets := released_sockets p - {native}\<rparr>)"

definition take_from :: "nat \<Rightarrow> process \<Rightarrow> process" where
  "take_from a p = set_handle a invalid_socket (p\<lparr>released_sockets := released_sockets p \<union> ({native_handle a p} - {invalid_socket})\<rparr>)"

definition give_back :: "NativeSocket \<Rightarrow> process \<Rightarrow> process" where
  "give_back native p = (if native = invalid_socket then p
     else close_native native (p\<lparr>released_sockets := released_sockets p - {native}\<rparr>))"

lemma give_ok:
  assumes ok: "handles_ok p" and "native_handle a p = invalid_socket" and "native \<in> insert invalid_socket (released_sockets p)"
  shows "handles_ok (give a native p)"
proof (rule handles_okI)
  have handles: "handles (give a native p) = (handles p)(a \<mapsto> native)" by (simp add: give_def set_handle_def)
  have a: "handles p a = None \<or> handles p a = Some invalid_socket"
    using assms(2) by (auto simp: native_handle_def split: option.splits)
  have fresh: "native = invalid_socket \<or> native \<notin> owned p" using handles_okD(3) [OF ok] assms(3) by blast
  have owned: "n \<in> owned (give a native p) \<longleftrightarrow> n \<in> owned p \<or> (n = native \<and> native \<noteq> invalid_socket)" for n
    using a unfolding owned_iff handles owner_update by (metis option.inject option.distinct(1))
  show "\<not> closed_unopened (give a native p)" "invalid_socket \<notin> released_sockets (give a native p)"
    using handles_okD(1,4) [OF ok] by (simp_all add: give_def set_handle_def)
  show "n \<in> open_sockets (give a native p) \<longleftrightarrow> n \<in> owned (give a native p) \<or> n \<in> released_sockets (give a native p)" for n
    using handles_okD(2,4) [OF ok] assms(3) unfolding owned by (auto simp: give_def set_handle_def owned_iff)
  show "n \<in> owned (give a native p) \<Longrightarrow> n \<notin> released_sockets (give a native p)" for n
    using handles_okD(3) [OF ok] unfolding owned by (auto simp: give_def set_handle_def)
  show "handles (give a native p) b = Some n \<Longrightarrow> handles (give a native p) c = Some n \<Longrightarrow> n \<noteq> invalid_socket \<Longrightarrow> b = c" for b c n
    using handles_okD(5) [OF ok, of b n c] fresh unfolding handles by (auto simp: owned_iff split: if_splits)
qed

lemma take_from_ok:
  assumes ok: "handles_ok p"
  shows "handles_ok (take_from a p)"
proof (rule handles_okI)
  have handles: "handles (take_from a p) = (handles p)(a \<mapsto> invalid_socket)" by (simp add: take_from_def set_handle_def)
  have owned: "n \<in> owned (take_from a p) \<longleftrightarrow> n \<in> owned p \<and> n \<noteq> native_handle a p" for n
  proof (cases "n = invalid_socket")
    case False
    then show ?thesis
      using handles_okD(5) [OF ok, of a n] native_handle_iff [OF False, of a p] other_owner [of "handles p" a n]
      unfolding owned_iff handles owner_update by auto
  qed (simp add: owned_iff)
  have own: "native_handle a p \<noteq> invalid_socket \<Longrightarrow> native_handle a p \<in> owned p"
    by (auto simp: native_handle_def owned_iff split: option.splits)
  show "\<not> closed_unopened (take_from a p)" "invalid_socket \<notin> released_sockets (take_from a p)"
    using handles_okD(1,4) [OF ok] by (simp_all add: take_from_def set_handle_def)
  show "n \<in> open_sockets (take_from a p) \<longleftrightarrow> n \<in> owned (take_from a p) \<or> n \<in> released_sockets (take_from a p)" for n
    using handles_okD(2) [OF ok] own unfolding owned by (auto simp: take_from_def set_handle_def owned_iff)
  show "n \<in> owned (take_from a p) \<Longrightarrow> n \<notin> released_sockets (take_from a p)" for n
    using handles_okD(3) [OF ok] unfolding owned by (auto simp: take_from_def set_handle_def)
  show "handles (take_from a p) b = Some n \<Longrightarrow> handles (take_from a p) c = Some n \<Longrightarrow> n \<noteq> invalid_socket \<Longrightarrow> b = c" for b c n
    using handles_okD(5) [OF ok, of b n c] unfolding handles by (auto split: if_splits)
qed

lemma give_back_ok:
  assumes ok: "handles_ok p" and "native \<in> insert invalid_socket (released_sockets p)"
  shows "handles_ok (give_back native p)"
proof (cases "native = invalid_socket")
  case False
  have same: "handles (give_back native p) = handles p" "owned (give_back native p) = owned p"
    using False by (simp_all add: give_back_def close_native_def owned_def)
  show ?thesis
  proof (rule handles_okI, unfold same)
    show "\<not> closed_unopened (give_back native p)" "invalid_socket \<notin> released_sockets (give_back native p)"
      using handles_okD(1,2,4) [OF ok] assms(2) False by (auto simp: give_back_def close_native_def)
    show "n \<in> open_sockets (give_back native p) \<longleftrightarrow> n \<in> owned p \<or> n \<in> released_sockets (give_back native p)" for n
      using handles_okD(2,3) [OF ok] assms(2) False by (auto simp: give_back_def close_native_def)
    show "n \<in> owned p \<Longrightarrow> n \<notin> released_sockets (give_back native p)" for n
      using handles_okD(3) [OF ok] False by (auto simp: give_back_def close_native_def)
  qed (use handles_okD(5) [OF ok] in blast)
qed (use ok in \<open>simp add: give_back_def\<close>)

lemma opened_ok:
  assumes ok: "handles_ok p" and "native \<notin> open_sockets p" and "native \<noteq> invalid_socket"
  shows "handles_ok (p\<lparr>open_sockets := insert native (open_sockets p), released_sockets := insert native (released_sockets p)\<rparr>)"
  using assms unfolding handles_ok_def owned_def by auto

lemma forget_ok:
  assumes ok: "handles_ok p" and "native_handle a p = invalid_socket"
  shows "handles_ok (p\<lparr>handles := (handles p)(a := None)\<rparr>)"
proof -
  have "n \<in> owned (p\<lparr>handles := (handles p)(a := None)\<rparr>) \<longleftrightarrow> n \<in> owned p" for n
  proof (cases "n = invalid_socket")
    case False
    then have "handles p a \<noteq> Some n" using native_handle_iff [OF False, of a p] assms(2) by simp
    from other_owner [of "handles p", OF this] show ?thesis
      using owner_update [of "handles p" a None n] by (simp add: owned_iff del: fun_upd_apply)
  qed (simp add: owned_iff)
  then have "owned (p\<lparr>handles := (handles p)(a := None)\<rparr>) = owned p" by blast
  then show ?thesis using ok unfolding handles_ok_def by (auto split: if_splits)
qed

text \<open>The operations as transfers.\<close>

lemma native_handle_set [simp]: "native_handle a (set_handle b native p) = (if a = b then native else native_handle a p)"
  by (simp add: native_handle_def set_handle_def)

lemma released_take_from:
  "released_sockets (take_from a p) = released_sockets p \<union> ({native_handle a p} - {invalid_socket})"
  by (simp add: take_from_def set_handle_def)

lemma reset_transfers:
  assumes "handles_ok p" and "native \<in> insert invalid_socket (released_sockets p)"
  shows "SocketHandle_reset a native (p\<lparr>released_sockets := released_sockets p - {native}\<rparr>) =
    give a native (give_back (native_handle a p) (take_from a p))"
proof -
  have "native_handle a p \<notin> released_sockets p"
    by (metis assms(1) handles_okD(3,4) native_handle_iff owned_iff)
  then show ?thesis
    by (intro process.equality)
      (auto simp: SocketHandle_reset_def give_def give_back_def take_from_def SocketHandle_valid_def set_handle_def
        close_native_def native_handle_def fun_eq_iff)
qed

lemma reset_ok:
  assumes ok: "handles_ok p" and native: "native \<in> insert invalid_socket (released_sockets p)"
  shows "handles_ok (SocketHandle_reset a native (p\<lparr>released_sockets := released_sockets p - {native}\<rparr>))"
proof -
  let ?p = "give_back (native_handle a p) (take_from a p)"
  have own: "native_handle a p \<notin> released_sockets p"
    by (metis ok handles_okD(3,4) native_handle_iff owned_iff)
  have "handles_ok ?p" using take_from_ok [OF ok] by (rule give_back_ok) (auto simp: released_take_from)
  moreover have "native_handle a ?p = invalid_socket"
    by (simp add: give_back_def take_from_def close_native_def native_handle_def set_handle_def)
  moreover have "native \<in> insert invalid_socket (released_sockets ?p)"
    using native own by (auto simp: give_back_def close_native_def released_take_from)
  ultimately show ?thesis unfolding reset_transfers [OF assms] by (rule give_ok)
qed

lemma release_take:
  "SocketHandle_release a p = (native, p') \<Longrightarrow>
   p'\<lparr>released_sockets := (if native = invalid_socket then released_sockets p' else insert native (released_sockets p'))\<rparr> =
     take_from a p \<and> native = native_handle a p"
  by (auto simp: SocketHandle_release_def take_from_def set_handle_def)

lemma released_drop [simp]: "p\<lparr>released_sockets := released_sockets p\<rparr> = (p :: process)"
  by simp

lemma release_then:
  assumes ok: "handles_ok p" and "SocketHandle_release a p = (native, p')"
  shows "handles_ok (take_from a p)" "native \<in> insert invalid_socket (released_sockets (take_from a p))"
    "(take_from a p)\<lparr>released_sockets := released_sockets (take_from a p) - {native}\<rparr> = p'"
proof -
  have native: "native = native_handle a p" "p' = set_handle a invalid_socket p"
    using assms(2) by (auto simp: SocketHandle_release_def)
  have "native_handle a p \<notin> released_sockets p"
    by (metis ok handles_okD(3,4) native_handle_iff owned_iff)
  then show "(take_from a p)\<lparr>released_sockets := released_sockets (take_from a p) - {native}\<rparr> = p'"
    using handles_okD(4) [OF ok] by (intro process.equality) (auto simp: native take_from_def set_handle_def)
  show "handles_ok (take_from a p)" by (rule take_from_ok [OF ok])
  show "native \<in> insert invalid_socket (released_sockets (take_from a p))" by (auto simp: native released_take_from)
qed

lemma handle_step_ok:
  assumes "handle_step p q" and ok: "handles_ok p"
  shows "handles_ok q"
  using assms
proof (cases rule: handle_step.cases)
  case (construct_default a)
  then show ?thesis
    using give_ok [OF ok, of a invalid_socket] handles_okD(4) [OF ok]
    by (simp add: give_def SocketHandle_construct_def native_handle_def)
next
  case (construct_opened a native)
  then have "native \<notin> released_sockets p" using handles_okD(2) [OF ok] by blast
  then show ?thesis
    using give_ok [OF opened_ok [OF ok], of native a native] construct_opened
    by (simp add: give_def SocketHandle_construct_def native_handle_def)
next
  case (move a other)
  obtain native p' where release: "SocketHandle_release other p = (native, p')" by fastforce
  have "native_handle a (take_from other p) = invalid_socket"
    using move by (simp add: take_from_def native_handle_def set_handle_def)
  from give_ok [OF release_then(1) [OF ok release] this release_then(2) [OF ok release]]
  show ?thesis using move release release_then(3) [OF ok release]
    by (simp add: SocketHandle_move_def SocketHandle_construct_def give_def)
next
  case (assign a other)
  obtain native p' where release: "SocketHandle_release other p = (native, p')" by fastforce
  from reset_ok [OF release_then(1,2) [OF ok release], of a]
  show ?thesis using assign ok release by (simp add: SocketHandle_assign_def release_then(3) [OF ok release])
next
  case (reset a)
  then show ?thesis using reset_ok [OF ok, of invalid_socket a] handles_okD(4) [OF ok] by simp
next
  case (reset_released a native)
  then show ?thesis using reset_ok [OF ok, of native a] by simp
next
  case (release a native p')
  then show ?thesis using release_take take_from_ok [OF ok] by metis
next
  case (close_released native)
  then have "native \<noteq> invalid_socket" using handles_okD(4) [OF ok] by blast
  then show ?thesis using close_released give_back_ok [OF ok, of native] by (simp add: give_back_def)
next
  case (destroy a)
  have "handles_ok (SocketHandle_reset a invalid_socket p)"
    using reset_ok [OF ok, of invalid_socket a] handles_okD(4) [OF ok] by simp
  then show ?thesis
    using forget_ok destroy by (simp add: SocketHandle_destroy_def Let_def SocketHandle_reset_def)
qed

lemma reachable_handles_ok: "handle_step\<^sup>*\<^sup>* process_start p \<Longrightarrow> handles_ok p"
proof (induction rule: rtranclp_induct)
  case base
  show ?case by (simp add: handles_ok_def process_start_def owned_def)
next
  case (step p q)
  then show ?case by (blast intro: handle_step_ok)
qed

text \<open>
  Property C30: sockets are neither leaked nor closed twice. Whatever a program does with its handles (constructing, moving
  and assigning them, an object to itself included, resetting, releasing and destroying them), no descriptor is
  closed that is not open, no two handles hold the same descriptor, and the open descriptors are exactly those
  that a handle holds and those that were released to the caller; when the handles are gone and the caller
  holds nothing, none is open.
\<close>

theorem socket_handles_own_descriptors:
  assumes "handle_step\<^sup>*\<^sup>* process_start p"
  shows "\<not> closed_unopened p \<and>
    (\<forall>native. native \<in> open_sockets p \<longleftrightarrow>
       (native \<noteq> invalid_socket \<and> (\<exists>a. handles p a = Some native)) \<noteq> (native \<in> released_sockets p)) \<and>
    (\<forall>a b native. handles p a = Some native \<longrightarrow> handles p b = Some native \<longrightarrow> native \<noteq> invalid_socket \<longrightarrow> a = b) \<and>
    (dom (handles p) = {} \<longrightarrow> released_sockets p = {} \<longrightarrow> open_sockets p = {})"
proof -
  note ok = reachable_handles_ok [OF assms]
  have "native \<in> open_sockets p \<longleftrightarrow>
      (native \<noteq> invalid_socket \<and> (\<exists>a. handles p a = Some native)) \<noteq> (native \<in> released_sockets p)" for native
    using handles_okD(2,3) [OF ok, of native] unfolding owned_iff by blast
  moreover have "dom (handles p) = {} \<Longrightarrow> released_sockets p = {} \<Longrightarrow> open_sockets p = {}"
    using ok by (simp add: handles_ok_def owned_def)
  ultimately show ?thesis using handles_okD(1,5) [OF ok] by blast
qed

theorem socket_handles_own_descriptors_witness:
  "\<exists>p :: process. handles p 1 = Some 7 \<and> handles p 0 = Some invalid_socket \<and> \<not> closed_unopened p \<and> open_sockets p = {7}"
proof -
  let ?p1 = "SocketHandle_construct 0 7 (process_start\<lparr>open_sockets := insert 7 (open_sockets process_start)\<rparr>)"
  let ?p2 = "SocketHandle_move 1 0 ?p1"
  have "handle_step process_start ?p1"
    by (rule construct_opened) (simp_all add: process_start_def invalid_socket_def)
  moreover have "handle_step ?p1 ?p2"
    by (rule move) (simp_all add: SocketHandle_construct_def set_handle_def process_start_def)
  ultimately have reach: "handle_step\<^sup>*\<^sup>* process_start ?p2" by simp
  have fields: "handles ?p2 1 = Some 7" "handles ?p2 0 = Some invalid_socket" "open_sockets ?p2 = {7}"
    by (simp_all add: handle_defs process_start_def)
  have opened: "\<not> closed_unopened ?p2" by (rule socket_handles_own_descriptors [OF reach, THEN conjunct1])
  show ?thesis by (intro exI [of _ ?p2] conjI fields opened)
qed

end
