(* ===== verification/Tcp_Connection.thy ===== *)
theory Tcp_Connection
  imports Socket_Handle
begin

text \<open>
  \<^verbatim>\<open>transport/tcp.cpp\<close>: length-prefixed frames over a stream socket. The system calls \<^verbatim>\<open>send\<close> and
  \<^verbatim>\<open>recv\<close> are parameters: functions of the state of the operating system that return what the call
  returned and the state after it. A call returns a count of bytes, is interrupted (\<^verbatim>\<open>EINTR\<close>), or
  fails. What the code relies on of them is stated as \<open>send_contract\<close> and \<open>recv_contract\<close>, for streams
  that do not fail, and as \<open>recv_may_fail\<close> for one that may.
  What the two platforms do between these calls and the library's is in \<^verbatim>\<open>Socket_Platforms\<close>. A loop that
  never returns is \<open>None\<close>.
\<close>

section \<open>Errors and calls\<close>

datatype TcpErrorCode = tcp_system_error | tcp_disconnected | tcp_message_too_large

record TcpError =
  tcp_code :: TcpErrorCode
  tcp_socket_error :: SocketError

datatype 'a call_result = call_returned 'a | call_interrupted | call_failed SocketError

type_synonym 'os send_call = "'os \<Rightarrow> bytes \<Rightarrow> nat call_result \<times> 'os"
type_synonym 'os recv_call = "'os \<Rightarrow> nat \<Rightarrow> bytes call_result \<times> 'os"

definition system_error :: "SocketError \<Rightarrow> TcpError" where
  "system_error last_error = \<lparr>tcp_code = tcp_system_error, tcp_socket_error = last_error\<rparr>"

definition disconnected :: TcpError where
  "disconnected = \<lparr>tcp_code = tcp_disconnected,
     tcp_socket_error = \<lparr>socket_error_code = 0, socket_error_message = ''peer disconnected''\<rparr>\<rparr>"

definition frame_exceeds_length :: TcpError where
  "frame_exceeds_length = \<lparr>tcp_code = tcp_message_too_large,
     tcp_socket_error = \<lparr>socket_error_code = 0, socket_error_message = ''frame exceeds 32-bit length''\<rparr>\<rparr>"

definition received_frame_too_large :: TcpError where
  "received_frame_too_large = \<lparr>tcp_code = tcp_message_too_large,
     tcp_socket_error = \<lparr>socket_error_code = 0, socket_error_message = ''received frame too large''\<rparr>\<rparr>"

section \<open>Sending and receiving\<close>

partial_function (option) send_all_loop ::
  "'os send_call \<Rightarrow> bytes \<Rightarrow> nat \<Rightarrow> 'os \<Rightarrow> (TcpError option \<times> 'os) option" where
  "send_all_loop send bs sent os =
     (if sent < length bs then
        case send os (drop sent bs) of (result, os') \<Rightarrow>
          (case result of
             call_returned chunk \<Rightarrow>
               if chunk = 0 then Some (Some disconnected, os') else send_all_loop send bs (sent + chunk) os'
           | call_interrupted \<Rightarrow> send_all_loop send bs sent os'
           | call_failed error \<Rightarrow> Some (Some (system_error error), os'))
      else Some (None, os))"

declare send_all_loop.simps [code]

definition TcpConnection_send_all :: "'os send_call \<Rightarrow> bytes \<Rightarrow> 'os \<Rightarrow> (TcpError option \<times> 'os) option" where
  "TcpConnection_send_all send bs os = send_all_loop send bs 0 os"

text \<open>
  \<open>bytes\<close> is the vector that \<^verbatim>\<open>recv\<close> fills from position \<open>received\<close> on.
\<close>

partial_function (option) receive_exact_loop ::
  "'os recv_call \<Rightarrow> nat \<Rightarrow> bytes \<Rightarrow> nat \<Rightarrow> 'os \<Rightarrow> ((TcpError + bytes) \<times> 'os) option" where
  "receive_exact_loop recv n bs received os =
     (if received < n then
        case recv os (n - received) of (result, os') \<Rightarrow>
          (case result of
             call_returned chunk \<Rightarrow>
               if chunk = [] then Some (Inl disconnected, os')
               else receive_exact_loop recv n (copy_at chunk bs received) (received + length chunk) os'
           | call_interrupted \<Rightarrow> receive_exact_loop recv n bs received os'
           | call_failed error \<Rightarrow> Some (Inl (system_error error), os'))
      else Some (Inr bs, os))"

declare receive_exact_loop.simps [code]

definition TcpConnection_receive_exact :: "'os recv_call \<Rightarrow> nat \<Rightarrow> 'os \<Rightarrow> ((TcpError + bytes) \<times> 'os) option" where
  "TcpConnection_receive_exact recv n os = receive_exact_loop recv n (replicate n 0) 0 os"

definition TcpConnection_send_frame :: "'os send_call \<Rightarrow> bytes \<Rightarrow> 'os \<Rightarrow> (TcpError option \<times> 'os) option" where
  "TcpConnection_send_frame send data os =
     (if length data > 2 ^ 32 - 1 then Some (Some frame_exceeds_length, os)
      else
        let header = put_value (of_nat (length data) :: u32) 0 (replicate 4 0) in
        case TcpConnection_send_all send header os of
          None \<Rightarrow> None
        | Some (error, os') \<Rightarrow>
            if error \<noteq> None then Some (error, os') else TcpConnection_send_all send data os')"

definition TcpConnection_receive_frame :: "'os recv_call \<Rightarrow> nat \<Rightarrow> 'os \<Rightarrow> ((TcpError + bytes) \<times> 'os) option" where
  "TcpConnection_receive_frame recv maximum_size os =
     (case TcpConnection_receive_exact recv 4 os of
        None \<Rightarrow> None
      | Some (Inl error, os') \<Rightarrow> Some (Inl error, os')
      | Some (Inr header, os') \<Rightarrow>
          let len = read_value header 0 :: u32 in
          if unat len > maximum_size then Some (Inl received_frame_too_large, os')
          else TcpConnection_receive_exact recv (unat len) os')"

section \<open>What the operating system promises\<close>

text \<open>
  \<^verbatim>\<open>send\<close> appends a prefix of what it is given to the stream, \<^verbatim>\<open>recv\<close> takes at most what it is asked
  for from the front of it, and returns nothing only when the stream has ended. The last two parts
  of each contract are the assumptions of progress: interruptions do not go on for ever
  (\<open>patience\<close> counts those that remain), and calls do not fail.
\<close>

definition send_contract :: "'os send_call \<Rightarrow> ('os \<Rightarrow> bytes) \<Rightarrow> ('os \<Rightarrow> nat) \<Rightarrow> bool" where
  "send_contract send sent patience \<longleftrightarrow>
     (\<forall>os bs r os'. send os bs = (r, os') \<longrightarrow> bs \<noteq> [] \<longrightarrow>
        (case r of
           call_returned n \<Rightarrow> 0 < n \<and> n \<le> length bs \<and> sent os' = sent os @ take n bs
         | call_interrupted \<Rightarrow> sent os' = sent os \<and> patience os' < patience os
         | call_failed e \<Rightarrow> False))"

definition recv_contract :: "'os recv_call \<Rightarrow> ('os \<Rightarrow> bytes) \<Rightarrow> ('os \<Rightarrow> nat) \<Rightarrow> bool" where
  "recv_contract recv incoming patience \<longleftrightarrow>
     (\<forall>os n r os'. recv os n = (r, os') \<longrightarrow> 0 < n \<longrightarrow>
        (case r of
           call_returned chunk \<Rightarrow> length chunk \<le> n \<and> incoming os = chunk @ incoming os' \<and> (chunk = [] \<longrightarrow> incoming os = [])
         | call_interrupted \<Rightarrow> incoming os' = incoming os \<and> patience os' < patience os
         | call_failed e \<Rightarrow> False))"

text \<open>
  A stream that may fail: \<open>failure\<close> is the error of the last call that failed, if one did, and what a failed call
  does to the stream is not said. Only interruptions are assumed to come to an end.
\<close>

definition recv_may_fail ::
  "'os recv_call \<Rightarrow> ('os \<Rightarrow> bytes) \<Rightarrow> ('os \<Rightarrow> nat) \<Rightarrow> ('os \<Rightarrow> SocketError option) \<Rightarrow> bool" where
  "recv_may_fail recv incoming patience failure \<longleftrightarrow>
     (\<forall>os n r os'. recv os n = (r, os') \<longrightarrow> 0 < n \<longrightarrow>
        (case r of
           call_returned chunk \<Rightarrow> length chunk \<le> n \<and> incoming os = chunk @ incoming os' \<and>
             (chunk = [] \<longrightarrow> incoming os = []) \<and> failure os' = failure os
         | call_interrupted \<Rightarrow> incoming os' = incoming os \<and> patience os' < patience os \<and> failure os' = failure os
         | call_failed e \<Rightarrow> failure os' = Some e))"

section \<open>The loops finish the transfer\<close>

lemma send_contractD:
  assumes "send_contract send sent patience" and "send os bs = (r, os')" and "bs \<noteq> []"
  shows "(\<exists>n. r = call_returned n \<and> 0 < n \<and> n \<le> length bs \<and> sent os' = sent os @ take n bs) \<or>
    (r = call_interrupted \<and> sent os' = sent os \<and> patience os' < patience os)"
  using assms(1) [unfolded send_contract_def, rule_format, OF assms(2,3)] by (cases r) simp_all

lemma recv_contract_may_fail: "recv_contract recv incoming patience \<Longrightarrow> recv_may_fail recv incoming patience (\<lambda>_. None)"
  unfolding recv_contract_def recv_may_fail_def by (fastforce split: call_result.splits)

lemma recv_may_failD:
  assumes "recv_may_fail recv incoming patience failure" and "recv os n = (r, os')" and "0 < n"
  shows "(\<exists>chunk. r = call_returned chunk \<and> length chunk \<le> n \<and> incoming os = chunk @ incoming os' \<and>
      (chunk = [] \<longrightarrow> incoming os = []) \<and> failure os' = failure os) \<or>
    (r = call_interrupted \<and> incoming os' = incoming os \<and> patience os' < patience os \<and> failure os' = failure os) \<or>
    (\<exists>e. r = call_failed e \<and> failure os' = Some e)"
  using assms(1) [unfolded recv_may_fail_def, rule_format, OF assms(2,3)] by (cases r) auto

text \<open>Progress of a transfer: either bytes were moved, or one of finitely many interruptions is gone.\<close>

lemma transfer_induct [case_names step]:
  fixes left :: "nat \<Rightarrow> nat" and patience :: "'os \<Rightarrow> nat" and P :: "nat \<Rightarrow> 'os \<Rightarrow> bool"
    and k :: nat and os :: 'os
  assumes "\<And>k os. (\<And>k' os'. left k' < left k \<or> (k' = k \<and> patience os' < patience os) \<Longrightarrow> P k' os') \<Longrightarrow> P k os"
  shows "P k os"
proof (induction "left k" arbitrary: k os rule: less_induct)
  case outer: (less k os)
  show ?case
  proof (induction "patience os" arbitrary: os rule: less_induct)
    case (less os)
    show ?case
    proof (rule assms)
      fix k' os'
      assume "left k' < left k \<or> (k' = k \<and> patience os' < patience os)"
      then show "P k' os'" using outer less by blast
    qed
  qed
qed

lemma send_all_loop_returns:
  assumes contract: "send_contract send sent patience" and "k \<le> length bs"
  shows "\<exists>os'. send_all_loop send bs k os = Some (None, os') \<and> sent os' = sent os @ drop k bs"
  using assms(2)
proof (induction k os rule: transfer_induct [where left = "\<lambda>k. length bs - k" and patience = patience])
  case (step k os)
  show ?case
  proof (cases "k < length bs")
    case True
    obtain r os' where call: "send os (drop k bs) = (r, os')" by fastforce
    from send_contractD [OF contract call] True consider
      n where "r = call_returned n" "0 < n" "k + n \<le> length bs" "sent os' = sent os @ take n (drop k bs)"
      | "r = call_interrupted" "sent os' = sent os" "patience os' < patience os"
      by fastforce
    then show ?thesis
    proof cases
      case 1
      then obtain os'' where "send_all_loop send bs (k + n) os' = Some (None, os'')"
          "sent os'' = sent os' @ drop (k + n) bs"
        using step.IH [of "k + n" os'] 1 True diff_less_mono2 [of k "k + n" "length bs"] by auto
      moreover have "take n (drop k bs) @ drop (k + n) bs = drop k bs"
        by (metis add.commute append_take_drop_id drop_drop)
      ultimately show ?thesis using 1 True call by (simp add: send_all_loop.simps [of send bs k os])
    next
      case 2
      then show ?thesis using step.IH [of k os'] step.prems True call by (simp add: send_all_loop.simps [of send bs k os])
    qed
  next
    case False
    then show ?thesis using step.prems by (simp add: send_all_loop.simps)
  qed
qed

text \<open>
  What \<^verbatim>\<open>receive_exact\<close> makes of a stream, behind the bytes it has already; and a result that is the expected one,
  with the expected rest of the stream, unless a call failed.
\<close>

definition exact_outcome :: "bytes \<Rightarrow> nat \<Rightarrow> bytes \<Rightarrow> (TcpError + bytes) \<times> bytes" where
  "exact_outcome received n stream =
     (if n \<le> length stream then Inr (received @ take n stream) else Inl disconnected, drop n stream)"

definition received_or_failed ::
  "('os \<Rightarrow> bytes) \<Rightarrow> ('os \<Rightarrow> SocketError option) \<Rightarrow> (TcpError + bytes) \<times> bytes \<Rightarrow> (TcpError + bytes) \<Rightarrow> 'os \<Rightarrow> bool" where
  "received_or_failed incoming failure expected r os' \<longleftrightarrow>
     (case failure os' of Some e \<Rightarrow> r = Inl (system_error e) | None \<Rightarrow> (r, incoming os') = expected)"

lemma exact_outcome_chunk:
  "length chunk \<le> n \<Longrightarrow> exact_outcome (received @ chunk) (n - length chunk) stream = exact_outcome received n (chunk @ stream)"
  by (auto simp: exact_outcome_def)

lemma receive_exact_loop_outcome:
  assumes contract: "recv_may_fail recv incoming patience failure"
    and "k \<le> n" and "length bs = n" and "failure os = None"
  shows "\<exists>r os'. receive_exact_loop recv n bs k os = Some (r, os') \<and>
    received_or_failed incoming failure (exact_outcome (take k bs) (n - k) (incoming os)) r os'"
  using assms(2-4)
proof (induction k os arbitrary: bs rule: transfer_induct [where left = "\<lambda>k. n - k" and patience = patience])
  case (step k os)
  show ?case
  proof (cases "k < n")
    case True
    obtain r os' where call: "recv os (n - k) = (r, os')" by fastforce
    from recv_may_failD [OF contract call] True consider
      "r = call_returned []" "incoming os = []" "incoming os' = []" "failure os' = failure os"
      | chunk where "r = call_returned chunk" "chunk \<noteq> []" "length chunk \<le> n - k" "incoming os = chunk @ incoming os'"
        "failure os' = failure os"
      | "r = call_interrupted" "incoming os' = incoming os" "patience os' < patience os" "failure os' = failure os"
      | e where "r = call_failed e" "failure os' = Some e"
      by fastforce
    then show ?thesis
    proof cases
      case 1
      then show ?thesis using True call step.prems
        by (simp add: receive_exact_loop.simps received_or_failed_def exact_outcome_def)
    next
      case 2
      let ?bs = "copy_at chunk bs k"
      have copied: "length ?bs = n" "take (k + length chunk) ?bs = take k bs @ chunk"
        using 2 step.prems by (simp_all add: copy_at_def)
      have progress: "n - (k + length chunk) < n - k" "k + length chunk \<le> n" using 2 True by (cases chunk; simp)+
      have "failure os' = None" using 2(5) step.prems(3) by simp
      from step.IH [OF disjI1 [OF progress(1)] progress(2) copied(1) this]
      obtain s os'' where rest: "receive_exact_loop recv n ?bs (k + length chunk) os' = Some (s, os'')"
          "received_or_failed incoming failure (exact_outcome (take k bs @ chunk) (n - k - length chunk) (incoming os')) s os''"
        unfolding copied(2) by auto
      moreover have "receive_exact_loop recv n bs k os = receive_exact_loop recv n ?bs (k + length chunk) os'"
        using 2(1,2) True call by (simp add: receive_exact_loop.simps [of recv n bs k os])
      ultimately show ?thesis unfolding 2(4) exact_outcome_chunk [OF 2(3)] by auto
    next
      case 3
      then have "failure os' = None" using step.prems(3) by simp
      from step.IH [OF disjI2 [OF conjI [OF refl 3(3)]] step.prems(1,2) this] show ?thesis
        using 3(1,2) True call by (simp add: receive_exact_loop.simps [of recv n bs k os])
    next
      case 4
      then show ?thesis using True call by (simp add: receive_exact_loop.simps received_or_failed_def)
    qed
  next
    case False
    then show ?thesis using step.prems by (simp add: receive_exact_loop.simps received_or_failed_def exact_outcome_def)
  qed
qed

section \<open>Frames\<close>

definition frame_bytes :: "bytes \<Rightarrow> bytes" where
  "frame_bytes data = be_bytes (of_nat (length data) :: u32) @ data"

definition frame_fits :: "nat \<Rightarrow> bytes \<Rightarrow> bool" where
  "frame_fits maximum_size data \<longleftrightarrow> length data < 2 ^ 32 \<and> length data \<le> maximum_size"

lemma send_frame_returns:
  assumes contract: "send_contract send sent patience" and "length data < 2 ^ 32"
  shows "\<exists>os'. TcpConnection_send_frame send data os = Some (None, os') \<and> sent os' = sent os @ frame_bytes data"
proof -
  let ?header = "be_bytes (of_nat (length data) :: u32)"
  obtain os1 where "send_all_loop send ?header 0 os = Some (None, os1)" "sent os1 = sent os @ ?header"
    using send_all_loop_returns [OF contract, of 0 ?header os] by auto
  moreover obtain os2 where "send_all_loop send data 0 os1 = Some (None, os2)" "sent os2 = sent os1 @ data"
    using send_all_loop_returns [OF contract, of 0 data os1] by auto
  moreover have "\<not> 2 ^ 32 - 1 < length data" using assms(2) by simp
  moreover have "put_value (of_nat (length data) :: u32) 0 (replicate 4 0) = ?header"
    by (simp add: put_value_eq)
  ultimately show ?thesis
    by (simp add: TcpConnection_send_frame_def TcpConnection_send_all_def frame_bytes_def)
qed

lemma receive_exact_outcome:
  assumes "recv_may_fail recv incoming patience failure" and "failure os = None"
  shows "\<exists>r os'. TcpConnection_receive_exact recv n os = Some (r, os') \<and>
    received_or_failed incoming failure (exact_outcome [] n (incoming os)) r os'"
  using receive_exact_loop_outcome [OF assms(1), of 0 n "replicate n 0" os] assms(2)
  unfolding TcpConnection_receive_exact_def by simp

lemma read_value_take:
  "sizeof TYPE('a::len word) \<le> n \<Longrightarrow> n \<le> length bs \<Longrightarrow> (read_value (take n bs) 0 :: 'a word) = read_value bs 0"
  by (simp add: read_value_eq min_def)

text \<open>The outcome of \<^verbatim>\<open>receive_frame\<close> as a function of the bytes the stream still carries.\<close>

definition frame_outcome :: "nat \<Rightarrow> bytes \<Rightarrow> (TcpError + bytes) \<times> bytes" where
  "frame_outcome maximum_size stream =
     (let len = unat (read_value stream 0 :: u32) in
      if length stream < 4 then (Inl disconnected, [])
      else if maximum_size < len then (Inl received_frame_too_large, drop 4 stream)
      else if length stream < 4 + len then (Inl disconnected, [])
      else (Inr (take len (drop 4 stream)), drop (4 + len) stream))"

lemma frame_outcome_header:
  "frame_outcome maximum_size stream =
     (case exact_outcome [] 4 stream of
        (Inl error, rest) \<Rightarrow> (Inl error, rest)
      | (Inr header, rest) \<Rightarrow>
          if maximum_size < unat (read_value header 0 :: u32) then (Inl received_frame_too_large, rest)
          else exact_outcome [] (unat (read_value header 0 :: u32)) rest)"
proof (cases "4 \<le> length stream")
  case True
  then have "read_value (take 4 stream) 0 = (read_value stream 0 :: u32)" by (simp add: read_value_take)
  then show ?thesis using True by (auto simp: frame_outcome_def exact_outcome_def Let_def add.commute)
qed (simp add: frame_outcome_def exact_outcome_def)

lemma receive_frame_outcome:
  assumes contract: "recv_may_fail recv incoming patience failure" and "failure os = None"
  shows "\<exists>r os'. TcpConnection_receive_frame recv maximum_size os = Some (r, os') \<and>
    received_or_failed incoming failure (frame_outcome maximum_size (incoming os)) r os'"
proof -
  obtain head os1 where head: "TcpConnection_receive_exact recv 4 os = Some (head, os1)"
    and head_case: "received_or_failed incoming failure (exact_outcome [] 4 (incoming os)) head os1"
    using receive_exact_outcome [OF assms] by blast
  show ?thesis
  proof (cases "failure os1")
    case (Some e)
    then show ?thesis using head head_case by (simp add: TcpConnection_receive_frame_def received_or_failed_def)
  next
    case none: None
    then have exact: "exact_outcome [] 4 (incoming os) = (head, incoming os1)" using head_case by (simp add: received_or_failed_def)
    show ?thesis
    proof (cases head)
      case (Inl error)
      then show ?thesis using head exact none
        by (simp add: TcpConnection_receive_frame_def received_or_failed_def frame_outcome_header)
    next
      case (Inr header)
      let ?len = "unat (read_value header 0 :: u32)"
      obtain r os2 where "TcpConnection_receive_exact recv ?len os1 = Some (r, os2)"
        "received_or_failed incoming failure (exact_outcome [] ?len (incoming os1)) r os2"
        using receive_exact_outcome [OF contract none] by blast
      then show ?thesis using head exact none Inr
        by (cases "maximum_size < ?len")
          (simp_all add: TcpConnection_receive_frame_def frame_outcome_header Let_def received_or_failed_def)
    qed
  qed
qed

lemma receive_frame_returns:
  assumes "recv_contract recv incoming patience"
  shows "\<exists>os'. TcpConnection_receive_frame recv maximum_size os = Some (fst (frame_outcome maximum_size (incoming os)), os') \<and>
    incoming os' = snd (frame_outcome maximum_size (incoming os))"
proof -
  obtain r os' where "TcpConnection_receive_frame recv maximum_size os = Some (r, os')"
      "(r, incoming os') = frame_outcome maximum_size (incoming os)"
    using receive_frame_outcome [OF recv_contract_may_fail [OF assms] refl, of maximum_size os]
    by (auto simp: received_or_failed_def)
  then show ?thesis by (metis fst_conv snd_conv)
qed

lemma frame_outcome_frame:
  "frame_fits maximum_size data \<Longrightarrow> frame_outcome maximum_size (frame_bytes data @ rest) = (Inr data, rest)"
proof -
  assume fits: "frame_fits maximum_size data"
  have "(read_value (frame_bytes data @ rest) 0 :: u32) = of_nat (length data)"
    by (rule read_value_at) (simp_all add: frame_bytes_def)
  then have "unat (read_value (frame_bytes data @ rest) 0 :: u32) = length data"
    using fits by (simp add: frame_fits_def of_nat_u32_unat)
  then show ?thesis using fits by (simp add: frame_outcome_def frame_fits_def frame_bytes_def Let_def)
qed

text \<open>A sequence of frames, sent one after the other, and received one after the other.\<close>

primrec send_frames :: "'os send_call \<Rightarrow> bytes list \<Rightarrow> 'os \<Rightarrow> (TcpError option \<times> 'os) option" where
  "send_frames send [] os = Some (None, os)"
| "send_frames send (data # rest) os =
     (case TcpConnection_send_frame send data os of
        None \<Rightarrow> None
      | Some (error, os') \<Rightarrow> if error \<noteq> None then Some (error, os') else send_frames send rest os')"

primrec receive_frames :: "'os recv_call \<Rightarrow> nat \<Rightarrow> nat \<Rightarrow> 'os \<Rightarrow> ((TcpError + bytes) list \<times> 'os) option" where
  "receive_frames recv maximum_size 0 os = Some ([], os)"
| "receive_frames recv maximum_size (Suc n) os =
     (case TcpConnection_receive_frame recv maximum_size os of
        None \<Rightarrow> None
      | Some (result, os') \<Rightarrow>
          (case receive_frames recv maximum_size n os' of
             None \<Rightarrow> None
           | Some (results, os'') \<Rightarrow> Some (result # results, os'')))"

lemma send_frames_returns:
  assumes "send_contract send sent patience" and "\<forall>data \<in> set frames. length data < 2 ^ 32"
  shows "\<exists>os'. send_frames send frames os = Some (None, os') \<and> sent os' = sent os @ concat (map frame_bytes frames)"
  using assms(2)
proof (induction frames arbitrary: os)
  case (Cons data frames)
  obtain os1 where "TcpConnection_send_frame send data os = Some (None, os1)" "sent os1 = sent os @ frame_bytes data"
    using send_frame_returns [OF assms(1)] Cons.prems by force
  with Cons show ?case by fastforce
qed simp

lemma receive_frames_returns:
  assumes "recv_contract recv incoming patience" and "\<forall>data \<in> set frames. frame_fits maximum_size data"
    and "incoming os = concat (map frame_bytes frames) @ rest"
  shows "\<exists>os'. receive_frames recv maximum_size (length frames) os = Some (map Inr frames, os') \<and> incoming os' = rest"
  using assms(2,3)
proof (induction frames arbitrary: os)
  case (Cons data frames)
  have "frame_outcome maximum_size (incoming os) = (Inr data, concat (map frame_bytes frames) @ rest)"
    using Cons.prems by (simp add: frame_outcome_frame)
  then obtain os1 where "TcpConnection_receive_frame recv maximum_size os = Some (Inr data, os1)"
      "incoming os1 = concat (map frame_bytes frames) @ rest"
    using receive_frame_returns [OF assms(1), of maximum_size os] by auto
  with Cons show ?case by fastforce
qed simp

text \<open>
  Frames survive the stream. Any sequence of payloads that fit both the 32-bit length field and
  the receiver's maximum is sent without error, however the system accepts the bytes piece by piece;
  the stream then carries nothing but the frames, and a receiver of that stream gets the same payloads
  in the same order, however the system delivers the bytes, and stops right behind the last frame.
\<close>

lemma tcp_frames_roundtrip:
  assumes "send_contract send sent patience" and "recv_contract recv incoming patience'"
    and "\<forall>data \<in> set frames. length data < 2 ^ 32 \<and> length data \<le> maximum_size"
  shows "\<exists>s' stream. send_frames send frames s = Some (None, s') \<and> sent s' = sent s @ stream \<and>
    (\<forall>r rest. incoming r = stream @ rest \<longrightarrow>
       (\<exists>r'. receive_frames recv maximum_size (length frames) r = Some (map Inr frames, r') \<and> incoming r' = rest))"
proof -
  obtain s' where "send_frames send frames s = Some (None, s')" "sent s' = sent s @ concat (map frame_bytes frames)"
    using send_frames_returns [OF assms(1)] assms(3) by blast
  moreover have "\<forall>data \<in> set frames. frame_fits maximum_size data" using assms(3) by (simp add: frame_fits_def)
  note receive_frames_returns [OF assms(2) this]
  ultimately show ?thesis by blast
qed

text \<open>
  An operating system for the witnesses: a schedule of chunk sizes, where zero is an interruption, and
  one byte per call when it is exhausted.
\<close>

definition scheduled_send :: "(nat list \<times> bytes) send_call" where
  "scheduled_send os bs =
     (case os of
        (0 # schedule, sent) \<Rightarrow> (call_interrupted, schedule, sent)
      | (k # schedule, sent) \<Rightarrow> (call_returned (min k (length bs)), schedule, sent @ take (min k (length bs)) bs)
      | ([], sent) \<Rightarrow> (call_returned (min 1 (length bs)), [], sent @ take (min 1 (length bs)) bs))"

definition scheduled_recv :: "(nat list \<times> bytes) recv_call" where
  "scheduled_recv os n =
     (case os of
        (0 # schedule, stream) \<Rightarrow> (call_interrupted, schedule, stream)
      | (k # schedule, stream) \<Rightarrow> (call_returned (take (min k n) stream), schedule, drop (min k n) stream)
      | ([], stream) \<Rightarrow> (call_returned (take (min 1 n) stream), [], drop (min 1 n) stream))"

lemma scheduled_send_contract: "send_contract scheduled_send snd (\<lambda>os. length (fst os))"
  by (auto simp: send_contract_def scheduled_send_def split: list.splits nat.splits call_result.splits prod.splits)

lemma scheduled_recv_contract: "recv_contract scheduled_recv snd (\<lambda>os. length (fst os))"
  by (auto simp: recv_contract_def scheduled_recv_def split: list.splits nat.splits call_result.splits prod.splits)

lemma tcp_frames_roundtrip_witness:
  "\<exists>s'. send_frames scheduled_send [[1, 2, 3], [], [4]] ([0, 2, 1], []) = Some (None, s') \<and>
    (\<exists>r'. receive_frames scheduled_recv 3 3 ([3, 0, 5], snd s') = Some ([Inr [1, 2, 3], Inr [], Inr [4]], r'))"
proof -
  let ?frames = "[[1, 2, 3], [], [4 :: u8]]"
  have "\<forall>data \<in> set ?frames. length data < 2 ^ 32 \<and> length data \<le> 3" by simp
  from tcp_frames_roundtrip [OF scheduled_send_contract scheduled_recv_contract this, of "([0, 2, 1], [])"]
  obtain s' where sent: "send_frames scheduled_send ?frames ([0, 2, 1], []) = Some (None, s')"
    and received: "\<forall>r rest. snd r = snd s' @ rest \<longrightarrow>
      (\<exists>r'. receive_frames scheduled_recv 3 (length ?frames) r = Some (map Inr ?frames, r') \<and> snd r' = rest)"
    by auto
  have "\<exists>r'. receive_frames scheduled_recv 3 (length ?frames) ([3, 0, 5], snd s') = Some (map Inr ?frames, r')"
    using received [rule_format, of "([3, 0, 5], snd s')" "[]"] by auto
  moreover have "length ?frames = 3" by simp
  ultimately have "\<exists>r'. receive_frames scheduled_recv 3 3 ([3, 0, 5], snd s') = Some ([Inr [1, 2, 3], Inr [], Inr [4]], r')"
    by (simp only: list.map)
  with sent show ?thesis by blast
qed

end
