(* ===== verification/Udp_Socket.thy ===== *)
theory Udp_Socket
  imports Tcp_Connection
begin

text \<open>
  \<^verbatim>\<open>transport/udp.cpp\<close>: datagrams. The library calls behind it are one parameter, the record
  \<open>udp_calls\<close>: \<^verbatim>\<open>inet_pton\<close>, \<^verbatim>\<open>inet_ntop\<close>, \<^verbatim>\<open>socket\<close>, \<^verbatim>\<open>bind\<close>, \<^verbatim>\<open>sendto\<close>,
  \<^verbatim>\<open>recvfrom\<close>, \<^verbatim>\<open>getsockname\<close>, \<^verbatim>\<open>setsockopt\<close> and \<^verbatim>\<open>close\<close>. A call that can fail returns
  the error that \<^verbatim>\<open>last_socket_error\<close> reports then. The text of an address is its byte string.
\<close>

section \<open>Calls\<close>

datatype socket_option = option_broadcast int | option_receive_timeout int int

record ('os, 'addr) udp_calls =
  call_inet_pton :: "bytes \<Rightarrow> 'addr option"
  call_inet_ntop :: "'addr \<Rightarrow> SocketError + bytes"
  call_socket :: "'os \<Rightarrow> (SocketError + NativeSocket) \<times> 'os"
  call_bind :: "'os \<Rightarrow> NativeSocket \<Rightarrow> 'addr \<times> u16 \<Rightarrow> SocketError option \<times> 'os"
  call_sendto :: "'os \<Rightarrow> NativeSocket \<Rightarrow> bytes \<Rightarrow> 'addr \<times> u16 \<Rightarrow> (SocketError + nat) \<times> 'os"
  call_recvfrom :: "'os \<Rightarrow> NativeSocket \<Rightarrow> nat \<Rightarrow> (SocketError + bytes \<times> 'addr \<times> u16) \<times> 'os"
  call_getsockname :: "'os \<Rightarrow> NativeSocket \<Rightarrow> ('addr \<times> u16) option"
  call_setsockopt :: "'os \<Rightarrow> NativeSocket \<Rightarrow> socket_option \<Rightarrow> SocketError option \<times> 'os"
  call_close :: "'os \<Rightarrow> NativeSocket \<Rightarrow> 'os"

section \<open>The socket\<close>

record UdpError =
  udp_socket_error :: SocketError

record UdpDatagram =
  source_address :: bytes
  source_port :: u16
  datagram_payload :: bytes

record UdpSocket =
  udp_handle :: NativeSocket

definition udp_error :: "string \<Rightarrow> UdpError" where
  "udp_error text = \<lparr>udp_socket_error = \<lparr>socket_error_code = 0, socket_error_message = text\<rparr>\<rparr>"

definition last_udp_error :: "SocketError \<Rightarrow> UdpError" where
  "last_udp_error error = \<lparr>udp_socket_error = error\<rparr>"

definition udp_endpoint :: "('os, 'addr) udp_calls \<Rightarrow> bytes \<Rightarrow> u16 \<Rightarrow> UdpError + 'addr \<times> u16" where
  "udp_endpoint sys address port =
     (case call_inet_pton sys address of
        None \<Rightarrow> Inl (udp_error ''invalid IPv4 address'')
      | Some value \<Rightarrow> Inr (value, port))"

text \<open>The socket of a failed \<^verbatim>\<open>bind\<close> is closed by the destructor of its handle.\<close>

definition UdpSocket_bind_ipv4 ::
  "('os, 'addr) udp_calls \<Rightarrow> bytes \<Rightarrow> u16 \<Rightarrow> 'os \<Rightarrow> (UdpError + UdpSocket) \<times> 'os" where
  "UdpSocket_bind_ipv4 sys address port os =
     (case udp_endpoint sys address port of
        Inl error \<Rightarrow> (Inl error, os)
      | Inr target \<Rightarrow>
          (case call_socket sys os of
             (Inl error, os') \<Rightarrow> (Inl (last_udp_error error), os')
           | (Inr native, os') \<Rightarrow>
               (case call_bind sys os' native target of
                  (Some error, os'') \<Rightarrow> (Inl (last_udp_error error), call_close sys os'' native)
                | (None, os'') \<Rightarrow> (Inr \<lparr>udp_handle = native\<rparr>, os''))))"

definition UdpSocket_send_to_ipv4 ::
  "('os, 'addr) udp_calls \<Rightarrow> UdpSocket \<Rightarrow> bytes \<Rightarrow> u16 \<Rightarrow> bytes \<Rightarrow> 'os \<Rightarrow> (UdpError + nat) \<times> 'os" where
  "UdpSocket_send_to_ipv4 sys socket address port data os =
     (case udp_endpoint sys address port of
        Inl error \<Rightarrow> (Inl error, os)
      | Inr target \<Rightarrow>
          if length data > 2 ^ 31 - 1 then (Inl (udp_error ''datagram is too large''), os)
          else
            case call_sendto sys os (udp_handle socket) data target of
              (Inl error, os') \<Rightarrow> (Inl (last_udp_error error), os')
            | (Inr sent, os') \<Rightarrow> (Inr sent, os'))"

definition UdpSocket_receive ::
  "('os, 'addr) udp_calls \<Rightarrow> UdpSocket \<Rightarrow> nat \<Rightarrow> 'os \<Rightarrow> (UdpError + UdpDatagram) \<times> 'os" where
  "UdpSocket_receive sys socket maximum_size os =
     (case call_recvfrom sys os (udp_handle socket) maximum_size of
        (Inl error, os') \<Rightarrow> (Inl (last_udp_error error), os')
      | (Inr (received, addr, port), os') \<Rightarrow>
          (case call_inet_ntop sys addr of
             Inl error \<Rightarrow> (Inl (last_udp_error error), os')
           | Inr address \<Rightarrow>
               (Inr \<lparr>source_address = address, source_port = port, datagram_payload = received\<rparr>, os')))"

definition UdpSocket_local_port :: "('os, 'addr) udp_calls \<Rightarrow> UdpSocket \<Rightarrow> 'os \<Rightarrow> u16" where
  "UdpSocket_local_port sys socket os =
     (case call_getsockname sys os (udp_handle socket) of None \<Rightarrow> 0 | Some (addr, port) \<Rightarrow> port)"

definition UdpSocket_enable_broadcast ::
  "('os, 'addr) udp_calls \<Rightarrow> UdpSocket \<Rightarrow> 'os \<Rightarrow> UdpError option \<times> 'os" where
  "UdpSocket_enable_broadcast sys socket os =
     (case call_setsockopt sys os (udp_handle socket) (option_broadcast 1) of
        (Some error, os') \<Rightarrow> (Some (last_udp_error error), os')
      | (None, os') \<Rightarrow> (None, os'))"

text \<open>
  \<^verbatim>\<open>duration_cast\<close> to seconds truncates towards zero, and the remainder of the milliseconds is given in
  microseconds.
\<close>

definition timeout_seconds :: "int \<Rightarrow> int" where
  "timeout_seconds milliseconds = sgn milliseconds * (\<bar>milliseconds\<bar> div 1000)"

definition UdpSocket_set_receive_timeout ::
  "('os, 'addr) udp_calls \<Rightarrow> UdpSocket \<Rightarrow> int \<Rightarrow> 'os \<Rightarrow> UdpError option \<times> 'os" where
  "UdpSocket_set_receive_timeout sys socket timeout os =
     (let seconds = timeout_seconds timeout;
          remainder = timeout - seconds * 1000
      in case call_setsockopt sys os (udp_handle socket) (option_receive_timeout seconds (remainder * 1000)) of
           (Some error, os') \<Rightarrow> (Some (last_udp_error error), os')
         | (None, os') \<Rightarrow> (None, os'))"

section \<open>What is sent and received\<close>

text \<open>
  The socket as a client sees it: the datagrams that have left it, with their destination, and those
  that \<^verbatim>\<open>recvfrom\<close> has yet to deliver.
\<close>

definition udp_sent_contract ::
  "('os, 'addr) udp_calls \<Rightarrow> ('os \<Rightarrow> (bytes \<times> 'addr \<times> u16) list) \<Rightarrow> bool" where
  "udp_sent_contract sys sent \<longleftrightarrow>
     (\<forall>os h data target r os'. call_sendto sys os h data target = (r, os') \<longrightarrow>
        (case r of Inl e \<Rightarrow> sent os' = sent os | Inr n \<Rightarrow> sent os' = sent os @ [(data, target)])) \<and>
     (\<forall>os h n. sent (snd (call_recvfrom sys os h n)) = sent os)"

text \<open>
  Two promises of \<^verbatim>\<open>recvfrom\<close>. The first is of what it delivers when a datagram that fits the buffer is there: that
  datagram, at once. The second is of what it may deliver at all: a datagram that has arrived, or the beginning of it
  that fits, while it may also fail at any time, lose datagrams and deliver them in any order or again. Neither says that a
  call returns when no datagram is there; a call that never returns has no place in the model, where it is a function.
\<close>

definition udp_receive_contract ::
  "('os, 'addr) udp_calls \<Rightarrow> ('os \<Rightarrow> (bytes \<times> 'addr \<times> u16) list) \<Rightarrow> bool" where
  "udp_receive_contract sys pending \<longleftrightarrow>
     (\<forall>os h n data src rest. pending os = (data, src) # rest \<longrightarrow> length data \<le> n \<longrightarrow>
        (\<exists>os'. call_recvfrom sys os h n = (Inr (data, src), os') \<and> pending os' = rest))"

definition udp_inbox_contract ::
  "('os, 'addr) udp_calls \<Rightarrow> ('os \<Rightarrow> (bytes \<times> 'addr \<times> u16) list) \<Rightarrow> bool" where
  "udp_inbox_contract sys inbox \<longleftrightarrow>
     (\<forall>os h n r os'. call_recvfrom sys os h n = (r, os') \<longrightarrow> set (inbox os') \<subseteq> set (inbox os) \<and>
        (case r of Inl e \<Rightarrow> True | Inr (received, src) \<Rightarrow> \<exists>(data, from) \<in> set (inbox os). received = take n data))"

lemma timeout_split:
  "timeout_seconds ms * 1000000 + (ms - timeout_seconds ms * 1000) * 1000 = ms * 1000"
  by simp

lemma timeout_microseconds_bounded: "\<bar>(ms - timeout_seconds ms * 1000) * 1000\<bar> < 1000000"
proof (cases "0 \<le> ms")
  case True
  then have eq: "ms - timeout_seconds ms * 1000 = ms mod 1000"
    by (cases "ms = 0") (simp_all add: timeout_seconds_def minus_div_mult_eq_mod)
  have "0 \<le> ms mod 1000" "ms mod 1000 < 1000" by simp_all
  then show ?thesis unfolding eq by (simp add: abs_mult)
next
  case False
  then have "ms - timeout_seconds ms * 1000 = - ((- ms) - (- ms) div 1000 * 1000)"
    by (simp add: timeout_seconds_def)
  also have "\<dots> = - ((- ms) mod 1000)" by (simp only: minus_div_mult_eq_mod)
  finally have eq: "ms - timeout_seconds ms * 1000 = - ((- ms) mod 1000)" .
  have "0 \<le> (- ms) mod 1000" "(- ms) mod 1000 < 1000" by (simp_all only: pos_mod_sign pos_mod_bound zero_less_numeral)
  then show ?thesis unfolding eq by (simp add: abs_mult)
qed

section \<open>Open sockets\<close>

text \<open>
  \<open>opened\<close> are the sockets that the operating system has open: \<^verbatim>\<open>socket\<close> makes a new one, \<^verbatim>\<open>close\<close>
  ends one, and nothing else changes them.
\<close>

definition socket_contract :: "('os, 'addr) udp_calls \<Rightarrow> ('os \<Rightarrow> NativeSocket set) \<Rightarrow> bool" where
  "socket_contract sys opened \<longleftrightarrow>
     (\<forall>os r os'. call_socket sys os = (r, os') \<longrightarrow>
        (case r of Inl e \<Rightarrow> opened os' = opened os | Inr h \<Rightarrow> h \<notin> opened os \<and> opened os' = insert h (opened os))) \<and>
     (\<forall>os h. opened (call_close sys os h) = opened os - {h}) \<and>
     (\<forall>os h target. opened (snd (call_bind sys os h target)) = opened os) \<and>
     (\<forall>os h data target. opened (snd (call_sendto sys os h data target)) = opened os) \<and>
     (\<forall>os h n. opened (snd (call_recvfrom sys os h n)) = opened os) \<and>
     (\<forall>os h opt. opened (snd (call_setsockopt sys os h opt)) = opened os)"

lemma socket_contractD:
  assumes "socket_contract sys opened"
  shows "call_socket sys os = (Inl e, os') \<Longrightarrow> opened os' = opened os"
    and "call_socket sys os = (Inr h, os') \<Longrightarrow> h \<notin> opened os \<and> opened os' = insert h (opened os)"
    and "opened (call_close sys os h) = opened os - {h}"
    and "call_bind sys os h target = (b, os') \<Longrightarrow> opened os' = opened os"
    and "call_sendto sys os h data target = (s, os') \<Longrightarrow> opened os' = opened os"
    and "call_recvfrom sys os h n = (d, os') \<Longrightarrow> opened os' = opened os"
    and "call_setsockopt sys os h opt = (b, os') \<Longrightarrow> opened os' = opened os"
proof -
  note c = assms [unfolded socket_contract_def]
  show "call_socket sys os = (Inl e, os') \<Longrightarrow> opened os' = opened os"
    and "call_socket sys os = (Inr h, os') \<Longrightarrow> h \<notin> opened os \<and> opened os' = insert h (opened os)"
    using c [THEN conjunct1, rule_format] by fastforce+
  note c1 = c [THEN conjunct2] note c2 = c1 [THEN conjunct2] note c3 = c2 [THEN conjunct2] note c4 = c3 [THEN conjunct2]
  show "opened (call_close sys os h) = opened os - {h}" by (rule c1 [THEN conjunct1, rule_format])
  show "call_bind sys os h target = (b, os') \<Longrightarrow> opened os' = opened os"
    using c2 [THEN conjunct1, rule_format, of os h target] by simp
  show "call_sendto sys os h data target = (s, os') \<Longrightarrow> opened os' = opened os"
    using c3 [THEN conjunct1, rule_format, of os h data target] by simp
  show "call_recvfrom sys os h n = (d, os') \<Longrightarrow> opened os' = opened os"
    using c4 [THEN conjunct1, rule_format, of os h n] by simp
  show "call_setsockopt sys os h opt = (b, os') \<Longrightarrow> opened os' = opened os"
    using c4 [THEN conjunct2, rule_format, of os h opt] by simp
qed

lemma udp_calls_keep:
  assumes "socket_contract sys opened"
  shows "UdpSocket_send_to_ipv4 sys socket address port data os = (s, os') \<Longrightarrow> opened os' = opened os"
    and "UdpSocket_receive sys socket n os = (d, os') \<Longrightarrow> opened os' = opened os"
    and "opened (snd (UdpSocket_enable_broadcast sys socket os)) = opened os"
    and "opened (snd (UdpSocket_set_receive_timeout sys socket timeout os)) = opened os"
  using socket_contractD [OF assms]
  by (auto simp: UdpSocket_send_to_ipv4_def UdpSocket_receive_def UdpSocket_enable_broadcast_def
      UdpSocket_set_receive_timeout_def Let_def split: sum.splits prod.splits option.splits if_splits)

lemma bind_opens:
  assumes "socket_contract sys opened" and "UdpSocket_bind_ipv4 sys address port os = (r, os')"
  shows "case r of Inl e \<Rightarrow> opened os' = opened os
    | Inr socket \<Rightarrow> udp_handle socket \<notin> opened os \<and> opened os' = insert (udp_handle socket) (opened os)"
  using assms(2) socket_contractD [OF assms(1)]
  by (fastforce simp: UdpSocket_bind_ipv4_def split: sum.splits prod.splits option.splits)

text \<open>\<open>pending\<close> is what \<^verbatim>\<open>recvfrom\<close> will deliver, so that the other calls do not change it.\<close>

definition pending_contract :: "('os, 'addr) udp_calls \<Rightarrow> ('os \<Rightarrow> (bytes \<times> 'addr \<times> u16) list) \<Rightarrow> bool" where
  "pending_contract sys pending \<longleftrightarrow>
     (\<forall>os. pending (snd (call_socket sys os)) = pending os) \<and>
     (\<forall>os h target. pending (snd (call_bind sys os h target)) = pending os) \<and>
     (\<forall>os h data target. pending (snd (call_sendto sys os h data target)) = pending os) \<and>
     (\<forall>os h opt. pending (snd (call_setsockopt sys os h opt)) = pending os)"

lemma pending_contractD:
  assumes "pending_contract sys pending"
  shows "call_socket sys os = (h, os') \<Longrightarrow> pending os' = pending os"
    and "call_bind sys os k target = (b, os') \<Longrightarrow> pending os' = pending os"
    and "call_sendto sys os k data target = (s, os') \<Longrightarrow> pending os' = pending os"
    and "call_setsockopt sys os k opt = (b, os') \<Longrightarrow> pending os' = pending os"
proof -
  note c = assms [unfolded pending_contract_def]
  note c1 = c [THEN conjunct2] note c2 = c1 [THEN conjunct2]
  show "call_socket sys os = (h, os') \<Longrightarrow> pending os' = pending os"
    using c [THEN conjunct1, rule_format, of os] by simp
  show "call_bind sys os k target = (b, os') \<Longrightarrow> pending os' = pending os"
    using c1 [THEN conjunct1, rule_format, of os k target] by simp
  show "call_sendto sys os k data target = (s, os') \<Longrightarrow> pending os' = pending os"
    using c2 [THEN conjunct1, rule_format, of os k data target] by simp
  show "call_setsockopt sys os k opt = (b, os') \<Longrightarrow> pending os' = pending os"
    using c2 [THEN conjunct2, rule_format, of os k opt] by simp
qed

lemma pending_kept:
  assumes "pending_contract sys pending"
  shows "UdpSocket_bind_ipv4 sys address port os = (Inr socket, os') \<Longrightarrow> pending os' = pending os"
    and "UdpSocket_send_to_ipv4 sys s address port data os = (sent, os') \<Longrightarrow> pending os' = pending os"
    and "pending (snd (UdpSocket_enable_broadcast sys s os)) = pending os"
    and "pending (snd (UdpSocket_set_receive_timeout sys s timeout os)) = pending os"
  using pending_contractD [OF assms]
  by (auto simp: UdpSocket_bind_ipv4_def UdpSocket_send_to_ipv4_def UdpSocket_enable_broadcast_def
      UdpSocket_set_receive_timeout_def Let_def split: sum.splits prod.splits option.splits if_splits)

end
