(* ===== verification/Discovery_Service.thy ===== *)
theory Discovery_Service
  imports Lab_Configuration Udp_Socket
begin

text \<open>
  \<^verbatim>\<open>discovery/discovery_service.cpp\<close>: a responder that answers queries, and a client that asks one
  machine or collects the answers of many. Both work over \<^verbatim>\<open>UdpSocket\<close>, so they take its calls as their
  parameter.
\<close>

section \<open>Responder and client\<close>

datatype DiscoveryServiceError =
  discovery_network_error | discovery_malformed_message | discovery_unexpected_message | discovery_request_mismatch

record DiscoveryResponder =
  responder_socket :: UdpSocket
  responder_advertisement :: DiscoveryMessage

definition DiscoveryResponder_respond_once ::
  "('os, 'addr) udp_calls \<Rightarrow> DiscoveryResponder \<Rightarrow> 'os \<Rightarrow> (DiscoveryServiceError + bytes) \<times> 'os" where
  "DiscoveryResponder_respond_once sys responder os =
     (case UdpSocket_receive sys (responder_socket responder) (discovery_header_size + maximum_name_size) os of
        (Inl error, os') \<Rightarrow> (Inl discovery_network_error, os')
      | (Inr datagram, os') \<Rightarrow>
          (case DiscoveryMessage_parse (datagram_payload datagram) of
             Inl error \<Rightarrow> (Inl discovery_malformed_message, os')
           | Inr query \<Rightarrow>
               if message_type query \<noteq> message_query then (Inl discovery_unexpected_message, os')
               else
                 let own = responder_advertisement responder in
                 case DiscoveryMessage_advertisement (message_request_id query) (message_node_id own) (message_role own)
                   (message_capabilities own) (message_control_port own) (message_state_port own) (message_name own) of
                   None \<Rightarrow> (Inl discovery_malformed_message, os')
                 | Some response \<Rightarrow>
                     (case UdpSocket_send_to_ipv4 sys (responder_socket responder) (source_address datagram)
                        (source_port datagram) (DiscoveryMessage_serialize response) os' of
                        (Inl error, os'') \<Rightarrow> (Inl discovery_network_error, os'')
                      | (Inr sent, os'') \<Rightarrow> (Inr (source_address datagram), os''))))"

definition discovered_machine :: "DiscoveryMessage \<Rightarrow> UdpDatagram \<Rightarrow> DiscoveredMachine" where
  "discovered_machine advertisement datagram =
     \<lparr>machine_node_id = message_node_id advertisement, machine_name = message_name advertisement,
      machine_address = source_address datagram, machine_role = message_role advertisement,
      machine_capabilities = message_capabilities advertisement,
      machine_control_port = message_control_port advertisement,
      machine_state_port = message_state_port advertisement\<rparr>"

definition DiscoveryClient_discover_one ::
  "('os, 'addr) udp_calls \<Rightarrow> UdpSocket \<Rightarrow> bytes \<Rightarrow> u16 \<Rightarrow> u64 \<Rightarrow> 'os \<Rightarrow> (DiscoveryServiceError + DiscoveredMachine) \<times> 'os" where
  "DiscoveryClient_discover_one sys socket destination port request_id os =
     (let query = DiscoveryMessage_serialize (DiscoveryMessage_query request_id) in
      case UdpSocket_send_to_ipv4 sys socket destination port query os of
        (Inl error, os') \<Rightarrow> (Inl discovery_network_error, os')
      | (Inr sent, os') \<Rightarrow>
          (case UdpSocket_receive sys socket (discovery_header_size + maximum_name_size) os' of
             (Inl error, os'') \<Rightarrow> (Inl discovery_network_error, os'')
           | (Inr datagram, os'') \<Rightarrow>
               (case DiscoveryMessage_parse (datagram_payload datagram) of
                  Inl error \<Rightarrow> (Inl discovery_malformed_message, os'')
                | Inr advertisement \<Rightarrow>
                    if message_type advertisement \<noteq> message_advertisement then (Inl discovery_unexpected_message, os'')
                    else if message_request_id advertisement \<noteq> request_id then (Inl discovery_request_mismatch, os'')
                    else (Inr (discovered_machine advertisement datagram), os''))))"

partial_function (option) discover_all_loop ::
  "('os, 'addr) udp_calls \<Rightarrow> UdpSocket \<Rightarrow> u64 \<Rightarrow> nat \<Rightarrow> DiscoveredMachine list \<Rightarrow> 'os \<Rightarrow>
   (DiscoveredMachine list \<times> 'os) option" where
  "discover_all_loop sys socket request_id maximum_results machines os =
     (if length machines < maximum_results then
        case UdpSocket_receive sys socket (discovery_header_size + maximum_name_size) os of (received, os') \<Rightarrow>
          (case received of
             Inl error \<Rightarrow> Some (machines, os')
           | Inr datagram \<Rightarrow>
               (case DiscoveryMessage_parse (datagram_payload datagram) of
                  Inl error \<Rightarrow> discover_all_loop sys socket request_id maximum_results machines os'
                | Inr advertisement \<Rightarrow>
                    if message_type advertisement \<noteq> message_advertisement \<or> message_request_id advertisement \<noteq> request_id
                    then discover_all_loop sys socket request_id maximum_results machines os'
                    else
                      discover_all_loop sys socket request_id maximum_results
                        (if find (\<lambda>machine. machine_node_id machine = message_node_id advertisement) machines = None
                         then machines @ [discovered_machine advertisement datagram] else machines) os'))
      else Some (machines, os))"

declare discover_all_loop.simps [code]

definition DiscoveryClient_discover_all ::
  "('os, 'addr) udp_calls \<Rightarrow> UdpSocket \<Rightarrow> bytes \<Rightarrow> u16 \<Rightarrow> u64 \<Rightarrow> nat \<Rightarrow> 'os \<Rightarrow>
   ((DiscoveryServiceError + DiscoveredMachine list) \<times> 'os) option" where
  "DiscoveryClient_discover_all sys socket destination port request_id maximum_results os =
     (let query = DiscoveryMessage_serialize (DiscoveryMessage_query request_id) in
      case UdpSocket_send_to_ipv4 sys socket destination port query os of
        (Inl error, os') \<Rightarrow> Some (Inl discovery_network_error, os')
      | (Inr sent, os') \<Rightarrow>
          (case discover_all_loop sys socket request_id maximum_results [] os' of
             None \<Rightarrow> None
           | Some (machines, os'') \<Rightarrow> Some (Inr machines, os'')))"

section \<open>Collecting answers\<close>

text \<open>The machine that a received datagram announces in answer to request \<open>request_id\<close>, if it does.\<close>

definition answer_of :: "u64 \<Rightarrow> UdpDatagram \<Rightarrow> DiscoveredMachine option" where
  "answer_of request_id datagram =
     (case DiscoveryMessage_parse (datagram_payload datagram) of
        Inl error \<Rightarrow> None
      | Inr m \<Rightarrow>
          if message_type m = message_advertisement \<and> message_request_id m = request_id
          then Some (discovered_machine m datagram) else None)"

text \<open>The first answer of every node.\<close>

fun first_per_node :: "DiscoveredMachine list \<Rightarrow> DiscoveredMachine list" where
  "first_per_node [] = []"
| "first_per_node (m # ms) = m # filter (\<lambda>m'. machine_node_id m' \<noteq> machine_node_id m) (first_per_node ms)"

definition collected :: "u64 \<Rightarrow> UdpDatagram list \<Rightarrow> DiscoveredMachine list" where
  "collected request_id datagrams = first_per_node (List.map_filter (answer_of request_id) datagrams)"

text \<open>The socket's next receives succeed one after the other, with these datagrams, and leave \<open>os'\<close>.\<close>

fun delivers :: "('os, 'addr) udp_calls \<Rightarrow> UdpSocket \<Rightarrow> 'os \<Rightarrow> UdpDatagram list \<Rightarrow> 'os \<Rightarrow> bool" where
  "delivers sys socket os [] os' \<longleftrightarrow> os' = os"
| "delivers sys socket os (d # ds) os' \<longleftrightarrow>
     (case UdpSocket_receive sys socket (discovery_header_size + maximum_name_size) os of
        (Inl error, os1) \<Rightarrow> False
      | (Inr datagram, os1) \<Rightarrow> datagram = d \<and> delivers sys socket os1 ds os')"

text \<open>What one datagram adds to the machines that were collected before it.\<close>

definition collect_step :: "u64 \<Rightarrow> DiscoveredMachine list \<Rightarrow> UdpDatagram \<Rightarrow> DiscoveredMachine list" where
  "collect_step request_id machines datagram =
     (case answer_of request_id datagram of
        None \<Rightarrow> machines
      | Some m \<Rightarrow> if machine_node_id m \<in> machine_node_id ` set machines then machines else machines @ [m])"

definition unseen :: "DiscoveredMachine list \<Rightarrow> DiscoveredMachine list \<Rightarrow> DiscoveredMachine list" where
  "unseen machines = filter (\<lambda>m. machine_node_id m \<notin> machine_node_id ` set machines)"

lemma unseen_first:
  "unseen machines (first_per_node (m # ms)) =
     (if machine_node_id m \<in> machine_node_id ` set machines then unseen machines (first_per_node ms)
      else m # unseen (machines @ [m]) (first_per_node ms))"
  by (auto simp: unseen_def intro: filter_cong)

lemma collect_steps: "foldl (collect_step r) machines ds = machines @ unseen machines (collected r ds)"
proof (induction ds arbitrary: machines)
  case Nil
  then show ?case by (simp add: collected_def unseen_def map_filter_simps)
next
  case (Cons d ds)
  then show ?case
    by (simp add: collect_step_def collected_def map_filter_simps unseen_first del: first_per_node.simps split: option.split)
qed

lemma collect_all: "foldl (collect_step r) [] ds = collected r ds"
  by (simp add: collect_steps unseen_def)

lemma collect_step_length: "length machines \<le> length (collect_step r machines d) \<and> length (collect_step r machines d) \<le> Suc (length machines)"
  by (simp add: collect_step_def split: option.split)

lemma collect_steps_length: "length machines \<le> length (foldl (collect_step r) machines ds)"
  by (induction ds arbitrary: machines) (auto intro: order_trans collect_step_length [THEN conjunct1])

lemma distinct_first_per_node: "distinct (map machine_node_id (first_per_node ms))"
  by (induction ms) (auto intro: distinct_map_filter)

text \<open>The body of the loop behind a receive that succeeded, for any continuation.\<close>

lemma collect_body:
  "(case DiscoveryMessage_parse (datagram_payload datagram) of
      Inl error \<Rightarrow> continue machines os
    | Inr advertisement \<Rightarrow>
        if message_type advertisement \<noteq> message_advertisement \<or> message_request_id advertisement \<noteq> r
        then continue machines os
        else continue (if find (\<lambda>machine. machine_node_id machine = message_node_id advertisement) machines = None
           then machines @ [discovered_machine advertisement datagram] else machines) os) =
   continue (collect_step r machines datagram) os"
proof -
  have "find (\<lambda>machine. machine_node_id machine = k) machines = None \<longleftrightarrow> k \<notin> machine_node_id ` set machines" for k
    unfolding find_None_iff by blast
  then show ?thesis
    by (cases "DiscoveryMessage_parse (datagram_payload datagram)")
      (simp_all add: collect_step_def answer_of_def discovered_machine_def)
qed

lemma discover_all_loop_receive:
  "discover_all_loop sys socket r n machines os =
     (if length machines < n then
        case UdpSocket_receive sys socket (discovery_header_size + maximum_name_size) os of
          (Inl error, os') \<Rightarrow> Some (machines, os')
        | (Inr datagram, os') \<Rightarrow> discover_all_loop sys socket r n (collect_step r machines datagram) os'
      else Some (machines, os))"
  unfolding discover_all_loop.simps [of sys socket r n machines os] collect_body [where continue = "discover_all_loop sys socket r n"]
  by (simp split: prod.split sum.split)

text \<open>
  How the loop ends: after datagrams that did not fill the result a receive fails, or the last of the datagrams fills it.
\<close>

definition loop_ends ::
  "('os, 'addr) udp_calls \<Rightarrow> UdpSocket \<Rightarrow> u64 \<Rightarrow> nat \<Rightarrow> DiscoveredMachine list \<Rightarrow> UdpDatagram list \<Rightarrow> 'os \<Rightarrow> 'os \<Rightarrow> bool" where
  "loop_ends sys socket r n machines ds os2 os' \<longleftrightarrow>
     (if length (foldl (collect_step r) machines ds) < n
      then \<exists>error. UdpSocket_receive sys socket (discovery_header_size + maximum_name_size) os2 = (Inl error, os')
      else os' = os2 \<and> (ds = [] \<or> length (foldl (collect_step r) machines (butlast ds)) < n))"

lemma discover_all_loop_forward:
  "delivers sys socket os ds os2 \<Longrightarrow> loop_ends sys socket r n machines ds os2 os' \<Longrightarrow>
   discover_all_loop sys socket r n machines os = Some (foldl (collect_step r) machines ds, os')"
proof (induction ds arbitrary: os machines)
  case Nil
  then show ?case by (auto simp: loop_ends_def discover_all_loop_receive [of _ _ _ _ machines] split: if_splits)
next
  case (Cons d ds)
  obtain os1 where receive: "UdpSocket_receive sys socket (discovery_header_size + maximum_name_size) os = (Inr d, os1)"
    and rest: "delivers sys socket os1 ds os2"
    using Cons.prems(1) by (auto split: prod.splits sum.splits)
  let ?machines = "collect_step r machines d"
  have "length machines \<le> length (foldl (collect_step r) machines (butlast (d # ds)))"
    "length machines \<le> length (foldl (collect_step r) machines (d # ds))"
    by (rule collect_steps_length)+
  then have room: "length machines < n" using Cons.prems(2) by (auto simp: loop_ends_def split: if_splits)
  have "loop_ends sys socket r n ?machines ds os2 os'"
    using Cons.prems(2) by (cases ds) (auto simp: loop_ends_def split: if_splits)
  from Cons.IH [OF rest this] show ?case using room receive by (simp add: discover_all_loop_receive [of _ _ _ _ machines])
qed

lemma discover_all_loop_backward:
  assumes "discover_all_loop sys socket r n machines os = Some result"
  shows "\<exists>ds os2. delivers sys socket os ds os2 \<and> fst result = foldl (collect_step r) machines ds \<and>
    loop_ends sys socket r n machines ds os2 (snd result)"
proof (rule discover_all_loop.raw_induct [OF _ assms])
  fix loop :: "('a, 'b) udp_calls \<Rightarrow> UdpSocket \<Rightarrow> u64 \<Rightarrow> nat \<Rightarrow> DiscoveredMachine list \<Rightarrow> 'a \<Rightarrow> (DiscoveredMachine list \<times> 'a) option"
    and sys :: "('a, 'b) udp_calls" and socket r n machines os result
  assume ih: "\<And>sys socket r n machines os result. loop sys socket r n machines os = Some result \<Longrightarrow>
      \<exists>ds os2. delivers sys socket os ds os2 \<and> fst result = foldl (collect_step r) machines ds \<and>
        loop_ends sys socket r n machines ds os2 (snd result)"
    and body: "(if length machines < n then
      case UdpSocket_receive sys socket (discovery_header_size + maximum_name_size) os of (received, os') \<Rightarrow>
        (case received of
           Inl error \<Rightarrow> Some (machines, os')
         | Inr datagram \<Rightarrow>
             (case DiscoveryMessage_parse (datagram_payload datagram) of
                Inl error \<Rightarrow> loop sys socket r n machines os'
              | Inr advertisement \<Rightarrow>
                  if message_type advertisement \<noteq> message_advertisement \<or> message_request_id advertisement \<noteq> r
                  then loop sys socket r n machines os'
                  else loop sys socket r n
                    (if find (\<lambda>machine. machine_node_id machine = message_node_id advertisement) machines = None
                     then machines @ [discovered_machine advertisement datagram] else machines) os'))
      else Some (machines, os)) = Some result"
  show "\<exists>ds os2. delivers sys socket os ds os2 \<and> fst result = foldl (collect_step r) machines ds \<and>
      loop_ends sys socket r n machines ds os2 (snd result)"
  proof (cases "length machines < n")
    case room: True
    obtain received os1 where receive: "UdpSocket_receive sys socket (discovery_header_size + maximum_name_size) os = (received, os1)"
      by fastforce
    show ?thesis
    proof (cases received)
      case (Inl error)
      then show ?thesis using body room receive by (intro exI [of _ "[]"] exI [of _ os]) (auto simp: loop_ends_def)
    next
      case (Inr d)
      let ?machines = "collect_step r machines d"
      have "loop sys socket r n ?machines os1 = Some result"
        using body room unfolding receive Inr collect_body [where continue = "loop sys socket r n"] by simp
      from ih [OF this] obtain ds os2 where "delivers sys socket os1 ds os2" "fst result = foldl (collect_step r) ?machines ds"
          "loop_ends sys socket r n ?machines ds os2 (snd result)"
        by blast
      then show ?thesis using receive Inr room
        by (intro exI [of _ "d # ds"] exI [of _ os2]) (cases ds, auto simp: loop_ends_def split: if_splits)
    qed
  next
    case False
    then show ?thesis using body by (intro exI [of _ "[]"] exI [of _ os]) (auto simp: loop_ends_def)
  qed
qed

lemma loop_ends_full:
  "loop_ends sys socket r n [] ds os2 os' \<longleftrightarrow>
     length (collected r ds) < n \<and>
       (\<exists>error. UdpSocket_receive sys socket (discovery_header_size + maximum_name_size) os2 = (Inl error, os')) \<or>
     length (collected r ds) = n \<and> os' = os2 \<and> (ds = [] \<or> length (collected r (butlast ds)) < n)"
proof -
  have "length (collected r ds) \<le> Suc (length (collected r (butlast ds)))" if "ds \<noteq> []"
  proof -
    from that obtain front d where "ds = front @ [d]" by (metis rev_exhaust)
    then show ?thesis using collect_step_length [of "collected r front" r d] by (simp add: collect_all [symmetric])
  qed
  moreover have "length (collected r []) = 0" by (simp add: collected_def map_filter_simps)
  ultimately show ?thesis by (cases "ds = []") (auto simp: loop_ends_def collect_all)
qed

lemma discover_all_iff:
  "DiscoveryClient_discover_all sys socket destination port r n os = Some (found, os') \<longleftrightarrow>
   (case UdpSocket_send_to_ipv4 sys socket destination port (DiscoveryMessage_serialize (DiscoveryMessage_query r)) os of
      (Inl error, os1) \<Rightarrow> found = Inl discovery_network_error \<and> os' = os1
    | (Inr sent, os1) \<Rightarrow> \<exists>ds os2. delivers sys socket os1 ds os2 \<and> found = Inr (collected r ds) \<and>
        loop_ends sys socket r n [] ds os2 os')"
proof -
  obtain sent os1 where send: "UdpSocket_send_to_ipv4 sys socket destination port
      (DiscoveryMessage_serialize (DiscoveryMessage_query r)) os = (sent, os1)" by fastforce
  have loop: "discover_all_loop sys socket r n [] os1 = Some (machines, os') \<longleftrightarrow>
      (\<exists>ds os2. delivers sys socket os1 ds os2 \<and> machines = collected r ds \<and> loop_ends sys socket r n [] ds os2 os')" for machines
    using discover_all_loop_forward [of sys socket os1] discover_all_loop_backward [of sys socket r n "[]" os1 "(machines, os')"]
    by (auto simp: collect_all)
  have "DiscoveryClient_discover_all sys socket destination port r n os = Some (found, os') \<longleftrightarrow>
      (case sent of
         Inl error \<Rightarrow> found = Inl discovery_network_error \<and> os' = os1
       | Inr k \<Rightarrow> \<exists>machines. found = Inr machines \<and> discover_all_loop sys socket r n [] os1 = Some (machines, os'))"
    using send by (cases sent) (auto simp: DiscoveryClient_discover_all_def split: option.split)
  then show ?thesis unfolding loop send by (auto split: sum.split)
qed

text \<open>
  Property C26: what \<^verbatim>\<open>discover_all\<close> returns, and when. If the query cannot be sent, it returns a network error. If
  it was sent, the client returns exactly when one of two things happens while it receives datagrams: a receive
  fails, as it does when the socket's timeout runs out, or the maximal number of machines is reached by the last
  datagram (or is zero). It then returns the first answer of every node to this request among the datagrams that the
  socket received, in their order, no node twice; datagrams that are malformed, no advertisements, answers to other
  requests or repeated count for nothing. As long as neither happens it goes on, for ever if need be.
\<close>

theorem discover_all_collects:
  "DiscoveryClient_discover_all sys socket destination port r maximum_results os = Some (found, os') \<longleftrightarrow>
   (case UdpSocket_send_to_ipv4 sys socket destination port (DiscoveryMessage_serialize (DiscoveryMessage_query r)) os of
      (Inl error, os1) \<Rightarrow> found = Inl discovery_network_error \<and> os' = os1
    | (Inr sent, os1) \<Rightarrow>
        \<exists>ds os2. delivers sys socket os1 ds os2 \<and> found = Inr (collected r ds) \<and> distinct (map machine_node_id (collected r ds)) \<and>
          (length (collected r ds) < maximum_results \<and>
             (\<exists>error. UdpSocket_receive sys socket (discovery_header_size + maximum_name_size) os2 = (Inl error, os')) \<or>
           length (collected r ds) = maximum_results \<and> os' = os2 \<and>
             (ds = [] \<or> length (collected r (butlast ds)) < maximum_results)))"
proof -
  have "distinct (map machine_node_id (collected r ds))" for ds by (simp add: collected_def distinct_first_per_node)
  then show ?thesis unfolding discover_all_iff loop_ends_full by (simp split: prod.split sum.split)
qed

section \<open>The datagrams that the system promises\<close>

definition address_text_contract :: "('os, 'addr) udp_calls \<Rightarrow> bool" where
  "address_text_contract sys \<longleftrightarrow> (\<forall>addr. \<exists>text. call_inet_ntop sys addr = Inr text)"

lemma receive_datagram:
  assumes "udp_receive_contract sys pending" and "address_text_contract sys" and "pending os = (data, addr, port) # rest"
    and "length data \<le> n"
  obtains os' where "UdpSocket_receive sys socket n os =
      (Inr \<lparr>source_address = projr (call_inet_ntop sys addr), source_port = port, datagram_payload = data\<rparr>, os')"
    and "pending os' = rest"
proof -
  obtain os' where call: "call_recvfrom sys os (udp_handle socket) n = (Inr (data, addr, port), os')" "pending os' = rest"
    using assms(1) [unfolded udp_receive_contract_def, rule_format, OF assms(3,4)] by blast
  moreover obtain name where "call_inet_ntop sys addr = Inr name"
    using assms(2) by (auto simp: address_text_contract_def)
  ultimately show thesis using that by (simp add: UdpSocket_receive_def)
qed

section \<open>Query and answer\<close>

lemma advertisement_request:
  assumes "advertisement_wf own" and "r \<noteq> 0"
  shows "DiscoveryMessage_advertisement r (message_node_id own) (message_role own) (message_capabilities own)
    (message_control_port own) (message_state_port own) (message_name own) = Some (own\<lparr>message_request_id := r\<rparr>)"
  using assms by (cases own) (auto simp: advertisement_wf_def DiscoveryMessage_advertisement_def Let_def split: if_splits)

lemma advertisement_wf_request: "advertisement_wf own \<Longrightarrow> r \<noteq> 0 \<Longrightarrow> advertisement_wf (own\<lparr>message_request_id := r\<rparr>)"
  using advertisement_request by (simp add: advertisement_iff)

lemma send_datagram:
  assumes "udp_sent_contract sys sent" and "UdpSocket_send_to_ipv4 sys socket address port data os = (Inr n, os')"
    and "call_inet_pton sys address = Some addr"
  shows "sent os' = sent os @ [(data, addr, port)]"
proof -
  obtain r where call: "call_sendto sys os (udp_handle socket) data (addr, port) = (r, os')" "r = Inr n"
    using assms(2,3) by (auto simp: UdpSocket_send_to_ipv4_def udp_endpoint_def split: if_splits sum.splits prod.splits)
  then show ?thesis using assms(1) [unfolded udp_sent_contract_def, THEN conjunct1, rule_format, OF call(1)] by simp
qed

lemma receive_keeps_sent:
  assumes "udp_sent_contract sys sent" and "UdpSocket_receive sys socket n os = (r, os')"
  shows "sent os' = sent os"
proof -
  have "os' = snd (call_recvfrom sys os (udp_handle socket) n)"
    using assms(2) by (auto simp: UdpSocket_receive_def split: sum.splits prod.splits)
  then show ?thesis using assms(1) by (simp add: udp_sent_contract_def)
qed

lemma discovery_name_bound: "DiscoveryMessage_wf m \<Longrightarrow> length (message_name m) \<le> 63"
  by (metis DiscoveryMessage.select_convs(8) DiscoveryMessage_query_def DiscoveryMessage_wf_def advertisement_name
      le0 list.size(3) query_wf_def)

lemma serialized_fits:
  "DiscoveryMessage_wf m \<Longrightarrow> length (DiscoveryMessage_serialize m) \<le> discovery_header_size + maximum_name_size"
  "DiscoveryMessage_wf m \<Longrightarrow> length (DiscoveryMessage_serialize m) \<le> 96"
  using discovery_name_bound [of m] by (simp_all add: serialize_discovery_reads discovery_sizes)

lemma query_wf_query: "r \<noteq> 0 \<Longrightarrow> DiscoveryMessage_wf (DiscoveryMessage_query r)"
  by (simp add: DiscoveryMessage_wf_def query_wf_def DiscoveryMessage_query_def)

lemma respond_once_answers:
  assumes contracts: "udp_receive_contract sys pending" "udp_sent_contract sys sent" "address_text_contract sys"
    and own: "advertisement_wf own" and "r \<noteq> 0"
    and query: "pending os = (DiscoveryMessage_serialize (DiscoveryMessage_query r), addr, port) # rest"
    and text_addr: "call_inet_pton sys (projr (call_inet_ntop sys addr)) = Some addr"
    and sends: "\<forall>os h data target. \<exists>n os'. call_sendto sys os h data target = (Inr n, os')"
  shows "\<exists>os'. DiscoveryResponder_respond_once sys \<lparr>responder_socket = socket, responder_advertisement = own\<rparr> os =
      (Inr (projr (call_inet_ntop sys addr)), os') \<and>
    sent os' = sent os @ [(DiscoveryMessage_serialize (own\<lparr>message_request_id := r\<rparr>), addr, port)]"
proof -
  let ?reply = "own\<lparr>message_request_id := r\<rparr>" and ?text = "projr (call_inet_ntop sys addr)"
  have reply_wf: "DiscoveryMessage_wf ?reply"
    using advertisement_wf_request [OF own \<open>r \<noteq> 0\<close>] by (simp add: DiscoveryMessage_wf_def)
  obtain os1 where receive: "UdpSocket_receive sys socket (discovery_header_size + maximum_name_size) os =
      (Inr \<lparr>source_address = ?text, source_port = port,
            datagram_payload = DiscoveryMessage_serialize (DiscoveryMessage_query r)\<rparr>, os1)"
    using receive_datagram [OF contracts(1,3) query serialized_fits(1) [OF query_wf_query [OF \<open>r \<noteq> 0\<close>]]] by metis
  obtain n os2 where send: "UdpSocket_send_to_ipv4 sys socket ?text port (DiscoveryMessage_serialize ?reply) os1 = (Inr n, os2)"
  proof -
    obtain n os2 where "call_sendto sys os1 (udp_handle socket) (DiscoveryMessage_serialize ?reply) (addr, port) = (Inr n, os2)"
      using sends by blast
    then show thesis
      using that serialized_fits(2) [OF reply_wf] text_addr
      by (simp add: UdpSocket_send_to_ipv4_def udp_endpoint_def)
  qed
  have parsed: "DiscoveryMessage_parse (DiscoveryMessage_serialize (DiscoveryMessage_query r)) = Inr (DiscoveryMessage_query r)"
    by (rule parse_serialize_discovery [OF query_wf_query [OF \<open>r \<noteq> 0\<close>]])
  have "message_type (DiscoveryMessage_query r) = message_query" "message_request_id (DiscoveryMessage_query r) = r"
    by (simp_all add: DiscoveryMessage_query_def)
  then have "DiscoveryResponder_respond_once sys \<lparr>responder_socket = socket, responder_advertisement = own\<rparr> os = (Inr ?text, os2)"
    using receive send parsed advertisement_request [OF own \<open>r \<noteq> 0\<close>]
    by (simp add: DiscoveryResponder_respond_once_def)
  then show ?thesis using send_datagram [OF contracts(2) send text_addr] receive_keeps_sent [OF contracts(2) receive] by simp
qed

lemma discover_one_answered:
  assumes contracts: "udp_receive_contract sys pending" "address_text_contract sys"
    and reply: "advertisement_wf reply" "message_request_id reply = r"
    and sent: "UdpSocket_send_to_ipv4 sys socket destination port
      (DiscoveryMessage_serialize (DiscoveryMessage_query r)) os = (Inr n, os1)"
    and answer: "pending os1 = (DiscoveryMessage_serialize reply, addr, from_port) # rest"
  shows "\<exists>os'. DiscoveryClient_discover_one sys socket destination port r os =
    (Inr \<lparr>machine_node_id = message_node_id reply, machine_name = message_name reply,
          machine_address = projr (call_inet_ntop sys addr), machine_role = message_role reply,
          machine_capabilities = message_capabilities reply, machine_control_port = message_control_port reply,
          machine_state_port = message_state_port reply\<rparr>, os')"
proof -
  have wf: "DiscoveryMessage_wf reply" using reply by (simp add: DiscoveryMessage_wf_def)
  obtain os2 where receive: "UdpSocket_receive sys socket (discovery_header_size + maximum_name_size) os1 =
      (Inr \<lparr>source_address = projr (call_inet_ntop sys addr), source_port = from_port,
            datagram_payload = DiscoveryMessage_serialize reply\<rparr>, os2)"
    using receive_datagram [OF contracts answer serialized_fits(1) [OF wf]] by metis
  have "message_type reply = message_advertisement" using reply(1) by (simp add: advertisement_wf_def)
  then show ?thesis
    using sent receive parse_serialize_discovery [OF wf] reply(2)
    by (simp add: DiscoveryClient_discover_one_def discovered_machine_def)
qed

text \<open>
  Property C25: a query finds the machine that answers it. A responder that holds a valid advertisement and receives
  the query of a client answers the sender of the query, and nobody else, with one datagram; when that datagram
  reaches the client, \<^verbatim>\<open>discover_one\<close> returns the machine with the node id, name, role, capabilities
  and ports that the responder was configured with and the address that the answer came from.
\<close>

theorem discovery_exchange:
  assumes "udp_receive_contract rsys pending" "udp_sent_contract rsys sent" "address_text_contract rsys"
    and "udp_receive_contract csys inbox" "address_text_contract csys"
    and own: "DiscoveryMessage_advertisement r0 n role caps cport sport name = Some own" and "r \<noteq> 0"
    and "pending s = (DiscoveryMessage_serialize (DiscoveryMessage_query r), addr, port) # rest"
    and "call_inet_pton rsys (projr (call_inet_ntop rsys addr)) = Some addr"
    and "\<forall>os h data target. \<exists>k os'. call_sendto rsys os h data target = (Inr k, os')"
  shows "\<exists>s' reply.
    DiscoveryResponder_respond_once rsys \<lparr>responder_socket = rsock, responder_advertisement = own\<rparr> s =
      (Inr (projr (call_inet_ntop rsys addr)), s') \<and>
    sent s' = sent s @ [(reply, addr, port)] \<and>
    (\<forall>c c1 k origin origin_port rest'.
       UdpSocket_send_to_ipv4 csys csock destination dport (DiscoveryMessage_serialize (DiscoveryMessage_query r)) c = (Inr k, c1) \<longrightarrow>
       inbox c1 = (reply, origin, origin_port) # rest' \<longrightarrow>
       (\<exists>c'. DiscoveryClient_discover_one csys csock destination dport r c =
          (Inr \<lparr>machine_node_id = n, machine_name = name, machine_address = projr (call_inet_ntop csys origin),
                machine_role = role, machine_capabilities = caps, machine_control_port = cport,
                machine_state_port = sport\<rparr>, c')))"
proof -
  have wf: "advertisement_wf own" and fields: "message_node_id own = n" "message_role own = role"
      "message_capabilities own = caps" "message_control_port own = cport" "message_state_port own = sport"
      "message_name own = name"
    using own by (simp_all add: advertisement_iff)
  let ?reply = "own\<lparr>message_request_id := r\<rparr>"
  obtain s' where "DiscoveryResponder_respond_once rsys \<lparr>responder_socket = rsock, responder_advertisement = own\<rparr> s =
      (Inr (projr (call_inet_ntop rsys addr)), s')" "sent s' = sent s @ [(DiscoveryMessage_serialize ?reply, addr, port)]"
    using respond_once_answers [OF assms(1-3) wf assms(7-10)] by blast
  moreover have "\<exists>c'. DiscoveryClient_discover_one csys csock destination dport r c =
      (Inr \<lparr>machine_node_id = n, machine_name = name, machine_address = projr (call_inet_ntop csys origin),
            machine_role = role, machine_capabilities = caps, machine_control_port = cport,
            machine_state_port = sport\<rparr>, c')"
    if "UdpSocket_send_to_ipv4 csys csock destination dport (DiscoveryMessage_serialize (DiscoveryMessage_query r)) c = (Inr k, c1)"
      and "inbox c1 = (DiscoveryMessage_serialize ?reply, origin, origin_port) # rest'" for c c1 k origin origin_port rest'
    using discover_one_answered [OF assms(4,5) advertisement_wf_request [OF wf \<open>r \<noteq> 0\<close>] _ that] by (simp add: fields)
  ultimately show ?thesis by (intro exI [of _ s'] exI [of _ "DiscoveryMessage_serialize ?reply"]) blast
qed

text \<open>
  A network for the witnesses: its state is what was sent and what is yet to be received; addresses are
  single bytes and their own text.
\<close>

type_synonym example_network = "(bytes \<times> u8 \<times> u16) list \<times> (bytes \<times> u8 \<times> u16) list"

definition example_error :: SocketError where
  "example_error = \<lparr>socket_error_code = 11, socket_error_message = ''timeout''\<rparr>"

definition example_calls :: "(example_network, u8) udp_calls" where
  "example_calls =
     \<lparr>call_inet_pton = (\<lambda>bs. case bs of [a] \<Rightarrow> Some a | _ \<Rightarrow> None),
      call_inet_ntop = (\<lambda>a. Inr [a]),
      call_socket = (\<lambda>os. (Inr 3, os)),
      call_bind = (\<lambda>os h target. (None, os)),
      call_sendto = (\<lambda>os h data target. (Inr (length data), fst os @ [(data, target)], snd os)),
      call_recvfrom = (\<lambda>os h n. case snd os of [] \<Rightarrow> (Inl example_error, os)
        | (data, src) # rest \<Rightarrow> (Inr (take n data, src), fst os, rest)),
      call_getsockname = (\<lambda>os h. Some (0, 9)),
      call_setsockopt = (\<lambda>os h opt. (None, os)),
      call_close = (\<lambda>os h. os)\<rparr>"

lemma example_contracts:
  "udp_receive_contract example_calls snd" "udp_sent_contract example_calls fst" "address_text_contract example_calls"
  by (auto simp: udp_receive_contract_def udp_sent_contract_def address_text_contract_def example_calls_def split: list.splits)

definition example_advertisement :: "u64 \<Rightarrow> DiscoveryMessage" where
  "example_advertisement r =
     \<lparr>message_type = message_advertisement, message_role = role_leader, message_capabilities = 1,
      message_request_id = r, message_node_id = 5, message_control_port = 80, message_state_port = 81, message_name = [65]\<rparr>"

definition example_inbox :: "(bytes \<times> u8 \<times> u16) list" where
  "example_inbox =
     [([1, 2], 3, 9), (DiscoveryMessage_serialize (example_advertisement 7), 4, 9),
      (DiscoveryMessage_serialize (example_advertisement 7), 4, 9)]"

definition example_machine :: "bytes \<Rightarrow> DiscoveredMachine" where
  "example_machine address =
     \<lparr>machine_node_id = 5, machine_name = [65], machine_address = address, machine_role = role_leader,
      machine_capabilities = 1, machine_control_port = 80, machine_state_port = 81\<rparr>"

text \<open>What the client makes of the three datagrams: the first is malformed, the third repeats the second.\<close>

definition example_datagrams :: "UdpDatagram list" where
  "example_datagrams = map (\<lambda>(data, addr, port). \<lparr>source_address = [addr], source_port = port, datagram_payload = data\<rparr>) example_inbox"

lemma example_collected: "collected 7 example_datagrams = [example_machine [4]]"
proof -
  let ?m = "example_advertisement 7"
  have "DiscoveryMessage_advertisement 7 5 role_leader 1 80 81 [65] = Some ?m" by code_simp
  then have "DiscoveryMessage_wf ?m" by (simp add: DiscoveryMessage_wf_def advertisement_iff)
  then have parse: "DiscoveryMessage_parse (DiscoveryMessage_serialize ?m) = Inr ?m" by (rule parse_serialize_discovery)
  have "DiscoveryMessage_parse [1, 2] \<noteq> Inr m" for m by (simp add: parse_discovery_iff)
  then show ?thesis
    using parse
    by (simp add: collected_def example_datagrams_def example_inbox_def map_filter_simps answer_of_def discovered_machine_def
        example_advertisement_def example_machine_def discovery_sizes split: sum.split)
qed

lemma example_length: "length (DiscoveryMessage_serialize (example_advertisement r)) \<le> discovery_header_size + maximum_name_size"
  by (simp add: serialize_discovery_reads example_advertisement_def discovery_sizes)

theorem discover_all_collects_witness:
  "DiscoveryClient_discover_all example_calls \<lparr>udp_handle = 3\<rparr> [4] 9 7 4 ([], example_inbox) =
     Some (Inr [example_machine [4]], [(DiscoveryMessage_serialize (DiscoveryMessage_query 7), 4, 9)], [])"
proof -
  let ?sent = "[(DiscoveryMessage_serialize (DiscoveryMessage_query 7), 4, 9)] :: (bytes \<times> u8 \<times> u16) list"
  have sent: "UdpSocket_send_to_ipv4 example_calls \<lparr>udp_handle = 3\<rparr> [4] 9
      (DiscoveryMessage_serialize (DiscoveryMessage_query 7)) ([], example_inbox) = (Inr 33, ?sent, example_inbox)"
    by (simp add: UdpSocket_send_to_ipv4_def udp_endpoint_def example_calls_def serialize_discovery_reads DiscoveryMessage_query_def)
  have "delivers example_calls \<lparr>udp_handle = 3\<rparr> (?sent, example_inbox) example_datagrams (?sent, [])"
    using example_length [of 7]
    by (simp add: example_inbox_def example_datagrams_def UdpSocket_receive_def example_calls_def discovery_sizes)
  moreover have "\<exists>error. UdpSocket_receive example_calls \<lparr>udp_handle = 3\<rparr> (discovery_header_size + maximum_name_size) (?sent, []) =
      (Inl error, ?sent, [])"
    by (simp add: UdpSocket_receive_def example_calls_def)
  moreover have "distinct (map machine_node_id (collected 7 example_datagrams))" "length (collected 7 example_datagrams) < 4"
    by (simp_all add: example_collected)
  ultimately show ?thesis
    unfolding discover_all_collects sent by (auto simp: example_collected [symmetric] intro!: exI [of _ example_datagrams])
qed

theorem discovery_exchange_witness:
  "\<exists>s' reply.
     DiscoveryResponder_respond_once example_calls
       \<lparr>responder_socket = \<lparr>udp_handle = 3\<rparr>, responder_advertisement = example_advertisement 1\<rparr>
       ([], [(DiscoveryMessage_serialize (DiscoveryMessage_query 7), 4, 9)]) = (Inr [4], s') \<and>
     fst s' = [(reply, 4, 9)]"
proof -
  have own: "DiscoveryMessage_advertisement 1 5 role_leader 1 80 81 [65] = Some (example_advertisement 1)" by code_simp
  let ?s = "([], [(DiscoveryMessage_serialize (DiscoveryMessage_query 7), 4, 9)]) :: example_network"
  have addr: "call_inet_ntop example_calls 4 = Inr [4]"
    "call_inet_pton example_calls (projr (call_inet_ntop example_calls 4)) = Some 4"
    by (simp_all add: example_calls_def)
  have sends: "\<forall>os h data target. \<exists>k os'. call_sendto example_calls os h data target = (Inr k, os')"
    by (simp add: example_calls_def)
  have query: "snd ?s = (DiscoveryMessage_serialize (DiscoveryMessage_query 7), 4, 9) # []" and nonzero: "(7 :: u64) \<noteq> 0"
    by simp_all
  from discovery_exchange [OF example_contracts example_contracts(1,3) own nonzero query addr(2) sends,
      of "\<lparr>udp_handle = 3\<rparr>" "\<lparr>udp_handle = 4\<rparr>" "[4]" 9]
  show ?thesis unfolding addr(1) fst_conv append_Nil sum.sel by blast
qed

end
