(* ===== verification/Authoritative_Server.thy ===== *)
theory Authoritative_Server
  imports State_Update Topology
begin

text \<open>
  \<^verbatim>\<open>simulation/authoritative_server.cpp\<close>: the server that steps a simulation and publishes its
  scenes as snapshots and deltas. The backend is the parameter \<open>backend\<close>, its \<open>step\<close> function from
  the tick to a scene; \<^verbatim>\<open>simulation/cpu_backend.cpp\<close> is one. The UDP socket is the parameter
  \<open>send\<close>, which says of the n-th send of a call whether the operating system took the datagram.
\<close>

section \<open>The CPU backend\<close>

record SimulationConfig =
  config_observer_count :: u64
  config_seed :: u64

text \<open>
  The coordinates are single-precision trigonometry of the C library: the parameter \<open>position\<close>
  gives the bit patterns for an index and a tick. \<open>decimal_bytes\<close> is \<^verbatim>\<open>std::to_string\<close>.
\<close>

fun decimal_digits :: "nat \<Rightarrow> nat \<Rightarrow> bytes" where
  "decimal_digits 0 n = []"
| "decimal_digits (Suc fuel) n =
     (if n < 10 then [of_nat (48 + n)] else decimal_digits fuel (n div 10) @ [of_nat (48 + n mod 10)])"

definition decimal_bytes :: "nat \<Rightarrow> bytes" where
  "decimal_bytes n = decimal_digits 20 n"

definition ascii :: "string \<Rightarrow> bytes" where
  "ascii s = map of_char s"

definition cpu_switch_node :: "u64 \<Rightarrow> TopologyNode" where
  "cpu_switch_node tick = \<lparr>node_id = 1, node_x = 0, node_y = 0, node_vlan = 1, node_packets = tick * 100,
     node_operational = True, node_label = ascii ''switch''\<rparr>"

definition cpu_packets :: "SimulationConfig \<Rightarrow> u64 \<Rightarrow> u64 \<Rightarrow> u64" where
  "cpu_packets config tick index = tick * (index + 1) * 17 + config_seed config"

definition cpu_observer_node :: "(u64 \<Rightarrow> u64 \<Rightarrow> u32 \<times> u32) \<Rightarrow> SimulationConfig \<Rightarrow> u64 \<Rightarrow> u64 \<Rightarrow> TopologyNode" where
  "cpu_observer_node position config tick index =
     \<lparr>node_id = ucast (index + 2), node_x = fst (position index tick), node_y = snd (position index tick),
      node_vlan = ucast (10 + index mod 4), node_packets = cpu_packets config tick index,
      node_operational = True, node_label = ascii ''observer-'' @ decimal_bytes (unat (index + 1))\<rparr>"

definition cpu_link :: "SimulationConfig \<Rightarrow> u64 \<Rightarrow> u64 \<Rightarrow> TopologyLink" where
  "cpu_link config tick index =
     \<lparr>link_source = 1, link_destination = ucast (index + 2), link_packets = cpu_packets config tick index,
      link_operational = True\<rparr>"

definition cpu_count :: "SimulationConfig \<Rightarrow> u64" where
  "cpu_count config = (if config_observer_count config = 0 then 1 else config_observer_count config)"

definition CpuBackend_step :: "(u64 \<Rightarrow> u64 \<Rightarrow> u32 \<times> u32) \<Rightarrow> SimulationConfig \<Rightarrow> u64 \<Rightarrow> TopologyScene" where
  "CpuBackend_step position config tick =
     foldl (\<lambda>scene index.
         TopologyScene_upsert_link (cpu_link config tick (of_nat index))
           (TopologyScene_upsert_node (cpu_observer_node position config tick (of_nat index)) scene))
       (TopologyScene_upsert_node (cpu_switch_node tick) empty_scene)
       [0..<unat (cpu_count config)]"

text \<open>Every scene of the backend has distinct keys, and the same keys at every tick.\<close>

lemma upsert_same_keys:
  assumes "same_keys a b"
  shows "node_id n = node_id n' \<Longrightarrow> same_keys (TopologyScene_upsert_node n a) (TopologyScene_upsert_node n' b)"
    and "link_key l = link_key l' \<Longrightarrow> same_keys (TopologyScene_upsert_link l a) (TopologyScene_upsert_link l' b)"
proof -
  have keys: "set (map key xs) = key ` set xs" for key :: "'v \<Rightarrow> 'k" and xs by simp
  have "node_id ` set (scene_nodes a) = node_id ` set (scene_nodes b)" "link_key ` set (scene_links a) = link_key ` set (scene_links b)"
    using assms unfolding same_keys_def keys [symmetric] by simp_all
  then show "node_id n = node_id n' \<Longrightarrow> same_keys (TopologyScene_upsert_node n a) (TopologyScene_upsert_node n' b)"
    and "link_key l = link_key l' \<Longrightarrow> same_keys (TopologyScene_upsert_link l a) (TopologyScene_upsert_link l' b)"
    using assms by (simp_all add: same_keys_def upsert_node_eq upsert_link_eq vec_upsert_keys)
qed

lemma upsert_inv:
  "TopologyScene_inv scene \<Longrightarrow> TopologyScene_inv (TopologyScene_upsert_node n scene)"
  "TopologyScene_inv scene \<Longrightarrow> TopologyScene_inv (TopologyScene_upsert_link l scene)"
  by (simp_all add: TopologyScene_inv_def upsert_node_eq upsert_link_eq vec_wf_upsert)

lemma cpu_backend_stable:
  "TopologyScene_inv (CpuBackend_step position config tick) \<and>
   same_keys (CpuBackend_step position config tick) (CpuBackend_step position config tick')"
proof -
  let ?f = "\<lambda>tick scene index. TopologyScene_upsert_link (cpu_link config tick (of_nat index))
           (TopologyScene_upsert_node (cpu_observer_node position config tick (of_nat index)) scene)"
  have "TopologyScene_inv (foldl (?f tick) a is) \<and> same_keys (foldl (?f tick) a is) (foldl (?f tick') b is)"
    if "TopologyScene_inv a" "same_keys a b" for a b "is"
    using that
  proof (induction "is" arbitrary: a b)
    case (Cons i "is")
    have "node_id (cpu_observer_node position config tick (of_nat i)) = node_id (cpu_observer_node position config tick' (of_nat i))"
      "link_key (cpu_link config tick (of_nat i)) = link_key (cpu_link config tick' (of_nat i))"
      by (simp_all add: cpu_observer_node_def cpu_link_def link_key_def)
    then show ?case
      using Cons.IH [OF upsert_inv(2) [OF upsert_inv(1) [OF Cons.prems(1)]] upsert_same_keys(2) [OF upsert_same_keys(1) [OF Cons.prems(2)]]]
      by simp
  qed simp
  moreover have "TopologyScene_inv (TopologyScene_upsert_node (cpu_switch_node tick) empty_scene)"
    by (rule upsert_inv) (simp add: TopologyScene_inv_def empty_scene_def vec_wf_def)
  moreover have "same_keys (TopologyScene_upsert_node (cpu_switch_node tick) empty_scene)
      (TopologyScene_upsert_node (cpu_switch_node tick') empty_scene)"
    by (rule upsert_same_keys) (simp_all add: same_keys_def cpu_switch_node_def)
  ultimately show ?thesis unfolding CpuBackend_step_def by blast
qed

text \<open>The size of a scene with a bounded number of observers.\<close>

lemma length_decimal_bytes: "length (decimal_bytes n) \<le> 20"
proof -
  have "length (decimal_digits fuel m) \<le> fuel" for fuel m by (induction fuel m rule: decimal_digits.induct) auto
  then show ?thesis by (simp add: decimal_bytes_def)
qed

definition scene_within :: "nat \<Rightarrow> TopologyScene \<Rightarrow> bool" where
  "scene_within n scene \<longleftrightarrow> TopologyScene_inv scene \<and> length (scene_nodes scene) \<le> Suc n \<and> length (scene_links scene) \<le> n \<and>
     (\<forall>node \<in> set (scene_nodes scene). length (node_label node) \<le> 29)"

lemma scene_within_upsert:
  assumes "scene_within n scene" and "length (node_label node) \<le> 29"
  shows "scene_within (Suc n) (TopologyScene_upsert_link link (TopologyScene_upsert_node node scene))"
proof -
  have "length (snd (vec_upsert node_id node (scene_nodes scene))) \<le> Suc (length (scene_nodes scene))"
    "length (snd (vec_upsert link_key link (scene_links scene))) \<le> Suc (length (scene_links scene))"
    by (rule vec_upsert_length)+
  moreover have "TopologyScene_inv (TopologyScene_upsert_link link (TopologyScene_upsert_node node scene))"
    using assms(1) upsert_inv by (simp add: scene_within_def)
  ultimately show ?thesis
    using assms by (auto simp: scene_within_def upsert_node_eq upsert_link_eq TopologyScene_inv_def set_upsert)
qed

lemma cpu_scene_within: "scene_within (unat (cpu_count config)) (CpuBackend_step position config tick)"
proof -
  let ?start = "TopologyScene_upsert_node (cpu_switch_node tick) empty_scene"
  let ?f = "\<lambda>scene index. TopologyScene_upsert_link (cpu_link config tick (of_nat index))
           (TopologyScene_upsert_node (cpu_observer_node position config tick (of_nat index)) scene)"
  have "scene_within 0 ?start"
    by (simp add: scene_within_def upsert_node_eq empty_scene_def vec_upsert_def TopologyScene_inv_def vec_wf_def
        cpu_switch_node_def ascii_def)
  moreover have "length (node_label (cpu_observer_node position config tick i)) \<le> 29" for i
    using length_decimal_bytes [of "unat (i + 1)"] by (simp add: cpu_observer_node_def ascii_def)
  ultimately have "scene_within n (foldl ?f ?start [0..<n])" for n
    by (induction n) (simp_all add: scene_within_upsert)
  then show ?thesis by (simp add: CpuBackend_step_def)
qed

lemma scene_within_payload:
  assumes "scene_within n scene" and "n \<le> 800"
  shows "TopologyScene_serialize_snapshot scene \<noteq> [] \<and>
    length (TopologyScene_serialize_snapshot scene) \<le> update_maximum_payload_size"
proof -
  have fits: "counts_fit scene" "labels_fit scene"
    using assms by (auto simp: scene_within_def counts_fit_def labels_fit_def)
  have bound: "length (concat (map f xs)) \<le> m * length xs" if "\<forall>x \<in> set xs. length (f x) \<le> m" for f :: "'v \<Rightarrow> bytes" and xs m
    using that by (induction xs) (auto simp: algebra_simps)
  have "length (concat (map node_bytes (scene_nodes scene))) \<le> 53 * length (scene_nodes scene)"
    using assms(1) by (intro bound) (auto simp: node_bytes_def scene_within_def)
  moreover have "length (concat (map link_bytes (scene_links scene))) \<le> 17 * length (scene_links scene)"
    by (intro bound) (simp add: link_bytes_def)
  ultimately show ?thesis
    using assms fits serialize_snapshot_empty_iff [of scene]
    by (simp add: serialize_snapshot_eq scene_within_def update_maximum_payload_size_def)
qed

section \<open>The server\<close>

datatype PublishError = serialization_failed | socket_error

record ObserverEndpoint =
  endpoint_address :: string
  endpoint_port :: u16

record AuthoritativeServer =
  server_observers :: "ObserverEndpoint list"
  server_session_id :: u64
  server_snapshot_interval :: u64
  server_sequence :: u64
  server_revision :: u64

definition AuthoritativeServer_create :: "u64 \<Rightarrow> u64 \<Rightarrow> AuthoritativeServer option" where
  "AuthoritativeServer_create session_id snapshot_interval =
     (if session_id = 0 then None
      else Some \<lparr>server_observers = [], server_session_id = session_id,
        server_snapshot_interval = (if snapshot_interval = 0 then 1 else snapshot_interval),
        server_sequence = 0, server_revision = 0\<rparr>)"

definition AuthoritativeServer_add_observer :: "ObserverEndpoint \<Rightarrow> AuthoritativeServer \<Rightarrow> AuthoritativeServer" where
  "AuthoritativeServer_add_observer endpoint s = s\<lparr>server_observers := server_observers s @ [endpoint]\<rparr>"

definition AuthoritativeServer_next_update ::
  "(u64 \<Rightarrow> TopologyScene) \<Rightarrow> u64 \<Rightarrow> AuthoritativeServer \<Rightarrow> (PublishError + StateUpdate) \<times> AuthoritativeServer" where
  "AuthoritativeServer_next_update backend timestamp s =
     (let previous_revision = server_revision s;
          s = s\<lparr>server_sequence := server_sequence s + 1, server_revision := server_revision s + 1\<rparr>;
          payload = TopologyScene_serialize_snapshot (backend (server_revision s))
      in if payload = [] then (Inl serialization_failed, s)
         else
           let snapshot = (server_sequence s = 1 \<or> server_sequence s mod server_snapshot_interval s = 0) in
           case StateUpdate_create (if snapshot then update_snapshot else update_delta)
                  (server_session_id s) (server_sequence s) timestamp
                  (if snapshot then 0 else previous_revision) (server_revision s) payload of
             None \<Rightarrow> (Inl serialization_failed, s)
           | Some update \<Rightarrow> (Inr update, s))"

text \<open>The send loop; the second result are the datagrams that left.\<close>

fun publish_loop ::
  "(nat \<Rightarrow> bool) \<Rightarrow> bytes \<Rightarrow> ObserverEndpoint list \<Rightarrow> nat \<Rightarrow> (PublishError + nat) \<times> (ObserverEndpoint \<times> bytes) list" where
  "publish_loop send bs [] published = (Inr published, [])"
| "publish_loop send bs (observer # observers) published =
     (if \<not> send published then (Inl socket_error, [])
      else let (result, sent) = publish_loop send bs observers (Suc published) in (result, (observer, bs) # sent))"

definition AuthoritativeServer_publish_next ::
  "(u64 \<Rightarrow> TopologyScene) \<Rightarrow> (nat \<Rightarrow> bool) \<Rightarrow> u64 \<Rightarrow> AuthoritativeServer \<Rightarrow>
   (PublishError + nat) \<times> (ObserverEndpoint \<times> bytes) list \<times> AuthoritativeServer" where
  "AuthoritativeServer_publish_next backend send timestamp s =
     (case AuthoritativeServer_next_update backend timestamp s of
        (Inl failure, s) \<Rightarrow> (Inl failure, [], s)
      | (Inr update, s) \<Rightarrow>
          let (result, sent) = publish_loop send (StateUpdate_serialize update) (server_observers s) 0
          in (result, sent, s))"

section \<open>What a server publishes\<close>

text \<open>A server that has made \<open>n\<close> attempts.\<close>

definition server_after :: "u64 \<Rightarrow> u64 \<Rightarrow> nat \<Rightarrow> AuthoritativeServer \<Rightarrow> bool" where
  "server_after session interval n s \<longleftrightarrow> server_session_id s = session \<and> server_snapshot_interval s = interval \<and>
     server_sequence s = of_nat n \<and> server_revision s = of_nat n"

text \<open>The \<open>k\<close>-th update of a session.\<close>

definition is_snapshot_number :: "u64 \<Rightarrow> nat \<Rightarrow> bool" where
  "is_snapshot_number interval k \<longleftrightarrow> k = 1 \<or> unat interval dvd k"

definition numbered_update :: "(u64 \<Rightarrow> TopologyScene) \<Rightarrow> u64 \<Rightarrow> u64 \<Rightarrow> nat \<Rightarrow> StateUpdate \<Rightarrow> bool" where
  "numbered_update backend session interval k u \<longleftrightarrow> 0 < k \<and> k < 2 ^ 64 \<and> StateUpdate_wf u \<and>
     update_session_id u = session \<and> update_sequence u = of_nat k \<and> update_revision u = of_nat k \<and>
     update_payload u = TopologyScene_serialize_snapshot (backend (of_nat k)) \<and> update_payload u \<noteq> [] \<and>
     (if is_snapshot_number interval k then update_type u = update_snapshot
      else update_type u = update_delta \<and> update_base_revision u = of_nat (k - 1))"

lemma next_update_state:
  "server_after session interval n s \<Longrightarrow>
   server_after session interval (Suc n) (snd (AuthoritativeServer_next_update backend timestamp s))"
  by (auto simp: server_after_def AuthoritativeServer_next_update_def Let_def algebra_simps split: option.split)

lemma word_mod_eq_0_iff: "k < 2 ^ 64 \<Longrightarrow> (of_nat k :: u64) mod m = 0 \<longleftrightarrow> unat m dvd k"
proof -
  assume "k < 2 ^ 64"
  then have "unat (of_nat k :: u64) = k" by (simp add: unat_of_nat)
  then show ?thesis by (simp add: unat_eq_0 [symmetric] unat_mod_distrib dvd_eq_mod_eq_0)
qed

lemma word_of_nat_eq_1_iff: "k < 2 ^ 64 \<Longrightarrow> (of_nat k :: u64) = 1 \<longleftrightarrow> k = 1"
proof -
  assume "k < 2 ^ 64"
  then have "unat (of_nat k :: u64) = k" by (simp add: unat_of_nat)
  then show ?thesis by (metis unat_1 of_nat_1)
qed

lemma next_update_numbered:
  assumes "server_after session interval n s" and "Suc n < 2 ^ 64"
    and "AuthoritativeServer_next_update backend timestamp s = (Inr u, s')"
  shows "numbered_update backend session interval (Suc n) u \<and> update_timestamp u = timestamp"
proof -
  define w :: u64 where "w = of_nat (Suc n)"
  define payload where "payload = TopologyScene_serialize_snapshot (backend w)"
  define snapshot where "snapshot = is_snapshot_number interval (Suc n)"
  have nxt: "server_sequence s + 1 = w" "server_revision s + 1 = w" "server_revision s = of_nat n"
      "server_session_id s = session" "server_snapshot_interval s = interval"
    using assms(1) by (simp_all add: server_after_def w_def)
  have snap: "(w = 1 \<or> w mod interval = 0) = snapshot"
    unfolding w_def snapshot_def is_snapshot_number_def
    by (simp only: word_mod_eq_0_iff [OF assms(2)] word_of_nat_eq_1_iff [OF assms(2)])
  have "payload \<noteq> []" and "StateUpdate_create (if snapshot then update_snapshot else update_delta) session w timestamp
      (if snapshot then 0 else server_revision s) w payload = Some u"
    using assms(3) by (auto simp: AuthoritativeServer_next_update_def Let_def nxt(1,2,4,5) snap payload_def
        split: if_splits option.splits)
  then show ?thesis
    using assms(2) nxt(3)
    by (auto simp: create_update_iff numbered_update_def snapshot_def [symmetric] w_def [symmetric] payload_def
        simp del: of_nat_Suc)
qed

text \<open>A run of the server over the timestamps of its calls.\<close>

fun publications ::
  "(u64 \<Rightarrow> TopologyScene) \<Rightarrow> u64 list \<Rightarrow> AuthoritativeServer \<Rightarrow> (PublishError + StateUpdate) list" where
  "publications backend [] s = []"
| "publications backend (timestamp # timestamps) s =
     (let (result, s') = AuthoritativeServer_next_update backend timestamp s
      in result # publications backend timestamps s')"

lemma publications_numbered:
  assumes "server_after session interval n s" and "n + length timestamps < 2 ^ 64"
    and "i < length timestamps" and "publications backend timestamps s ! i = Inr u"
  shows "numbered_update backend session interval (Suc (n + i)) u \<and> update_timestamp u = timestamps ! i"
  using assms
proof (induction timestamps arbitrary: n s i)
  case (Cons timestamp timestamps)
  obtain result s' where r: "AuthoritativeServer_next_update backend timestamp s = (result, s')" by fastforce
  have s': "server_after session interval (Suc n) s'"
    using next_update_state [OF Cons.prems(1), of backend timestamp] r by simp
  show ?case
  proof (cases i)
    case 0
    then show ?thesis using next_update_numbered [OF Cons.prems(1)] Cons.prems(2,4) r by auto
  next
    case (Suc j)
    then show ?thesis using Cons.IH [OF s'] Cons.prems(2-4) r by simp
  qed
qed simp

text \<open>A server whose scenes all fit never fails, as long as its counters do not wrap.\<close>

lemma next_update_succeeds:
  assumes "server_after session interval n s" and "Suc n < 2 ^ 64" and "session \<noteq> 0"
    and "TopologyScene_serialize_snapshot (backend (of_nat (Suc n))) \<noteq> [] \<and>
      length (TopologyScene_serialize_snapshot (backend (of_nat (Suc n)))) \<le> update_maximum_payload_size"
  shows "\<exists>u s'. AuthoritativeServer_next_update backend timestamp s = (Inr u, s')"
proof -
  have w: "unat (of_nat (Suc n) :: u64) = Suc n" "unat (of_nat n :: u64) = n"
    using assms(2) by (simp_all add: unat_of_nat del: of_nat_Suc)
  then have pos: "(of_nat (Suc n) :: u64) \<noteq> 0" "(of_nat n :: u64) < of_nat (Suc n)" "(0 :: u64) < of_nat (Suc n)"
    by (metis nat.distinct(1) unat_0, simp_all add: word_less_nat_alt del: of_nat_Suc)
  have nxt: "server_sequence s + 1 = of_nat (Suc n)" "server_revision s + 1 = of_nat (Suc n)"
      "server_revision s = of_nat n" "server_session_id s = session"
    using assms(1) by (simp_all add: server_after_def)
  have "revisions_are_valid (if b then update_snapshot else update_delta) (if b then 0 else server_revision s) (of_nat (Suc n))"
    "is_known (if b then update_snapshot else update_delta)" for b
    using pos nxt(3) by (simp_all add: revisions_are_valid_def is_known_def update_types del: of_nat_Suc)
  then have "StateUpdate_create (if b then update_snapshot else update_delta) session (of_nat (Suc n)) timestamp
      (if b then 0 else server_revision s) (of_nat (Suc n)) (TopologyScene_serialize_snapshot (backend (of_nat (Suc n)))) \<noteq> None" for b
    using assms(3,4) pos(1) unfolding StateUpdate_create_def by (simp del: of_nat_Suc split del: if_split)
  then obtain u where "StateUpdate_create
      (if of_nat (Suc n) = (1 :: u64) \<or> of_nat (Suc n) mod server_snapshot_interval s = 0 then update_snapshot else update_delta)
      session (of_nat (Suc n)) timestamp
      (if of_nat (Suc n) = (1 :: u64) \<or> of_nat (Suc n) mod server_snapshot_interval s = 0 then 0 else server_revision s)
      (of_nat (Suc n)) (TopologyScene_serialize_snapshot (backend (of_nat (Suc n)))) = Some u" by blast
  then show ?thesis
    using assms(4)
    by (simp add: AuthoritativeServer_next_update_def Let_def nxt(1,2,4) del: of_nat_Suc split del: if_split)
qed

lemma publications_succeed:
  assumes "server_after session interval n s" and "n + length timestamps < 2 ^ 64" and "session \<noteq> 0"
    and "\<And>tick. TopologyScene_serialize_snapshot (backend tick) \<noteq> [] \<and>
      length (TopologyScene_serialize_snapshot (backend tick)) \<le> update_maximum_payload_size"
    and "result \<in> set (publications backend timestamps s)"
  shows "\<exists>u. result = Inr u"
  using assms(1,2,5)
proof (induction timestamps arbitrary: n s)
  case (Cons timestamp timestamps)
  obtain u s' where u: "AuthoritativeServer_next_update backend timestamp s = (Inr u, s')"
    using next_update_succeeds [OF Cons.prems(1) _ assms(3,4)] Cons.prems(2) by fastforce
  then have "server_after session interval (Suc n) s'" using next_update_state [OF Cons.prems(1)] by (metis snd_conv)
  then show ?case using Cons.IH [of "Suc n" s'] Cons.prems(2,3) u by auto
qed simp

lemma length_publications [simp]: "length (publications backend timestamps s) = length timestamps"
  by (induction timestamps arbitrary: s) (simp_all add: case_prod_beta)

lemma create_server_after:
  "AuthoritativeServer_create session interval = Some s \<Longrightarrow>
   server_after session (if interval = 0 then 1 else interval) 0 s"
  by (auto simp: AuthoritativeServer_create_def server_after_def split: if_splits)

lemma created_numbered:
  assumes "AuthoritativeServer_create session interval = Some s" and "length timestamps < 2 ^ 64"
    and "Inr u \<in> set (publications backend timestamps s)"
  shows "\<exists>k \<le> length timestamps. numbered_update backend session (if interval = 0 then 1 else interval) k u"
proof -
  obtain i where i: "i < length timestamps" "publications backend timestamps s ! i = Inr u"
    using assms(3) by (metis in_set_conv_nth length_publications)
  then show ?thesis
    using publications_numbered [OF create_server_after [OF assms(1)], of timestamps i backend u] assms(2)
    by (intro exI [of _ "Suc i"]) simp
qed

end
