(* ===== verification/Single_Float.thy ===== *)
theory Single_Float
  imports Prelude "HOL-Library.Log_Nat"
begin

text \<open>
  Single-precision arithmetic, as the C++ type \<^verbatim>\<open>float\<close> has it on the platforms of the program: the 32 bits of
  IEEE 754, every operation the exact result rounded to the nearest number, ties to the even one, and nothing
  contracted. A number is its bit pattern, its value a rational. The operations are for finite operands, the only
  ones that the code that uses them computes with.
\<close>

section \<open>Values\<close>

definition single_scale :: nat where
  "single_scale = 2 ^ 23"

text \<open>
  The magnitude of a pattern without its sign, in units of the least positive number \<open>2^-149\<close>: a
  significand of at most 24 bits and a shift.
\<close>

definition pattern_shift :: "nat \<Rightarrow> nat" where
  "pattern_shift n = n div single_scale - 1"

definition pattern_units :: "nat \<Rightarrow> nat" where
  "pattern_units n = (n - pattern_shift n * single_scale) * 2 ^ pattern_shift n"

definition single_negative :: "u32 \<Rightarrow> bool" where
  "single_negative p \<longleftrightarrow> 2 ^ 31 \<le> unat p"

definition single_finite :: "u32 \<Rightarrow> bool" where
  "single_finite p \<longleftrightarrow> unat p mod 2 ^ 31 < 255 * single_scale"

definition single_value :: "u32 \<Rightarrow> rat" where
  "single_value p =
     (if single_negative p then - 1 else 1) * (of_nat (pattern_units (unat p mod 2 ^ 31)) / 2 ^ 149)"

section \<open>Rounding\<close>

definition round_half_even :: "rat \<Rightarrow> nat" where
  "round_half_even x =
     (let n = nat \<lfloor>x\<rfloor>; rest = x - of_nat n
      in if rest < 1 / 2 then n else if rest > 1 / 2 then n + 1 else if even n then n else n + 1)"

definition units_shift :: "rat \<Rightarrow> nat" where
  "units_shift y = floorlog 2 (nat \<lfloor>y\<rfloor>) - 24"

definition round_units :: "rat \<Rightarrow> nat" where
  "round_units y = (let k = units_shift y in k * single_scale + round_half_even (y / 2 ^ k))"

text \<open>The pattern without sign of the number nearest to \<open>x \<ge> 0\<close>; beyond the largest one it is the infinity.\<close>

definition single_pattern :: "rat \<Rightarrow> nat" where
  "single_pattern x = min (round_units (x * 2 ^ 149)) (255 * single_scale)"

definition single_signed :: "bool \<Rightarrow> rat \<Rightarrow> u32" where
  "single_signed negative x = of_nat ((if negative then 2 ^ 31 else 0) + single_pattern x)"

section \<open>Operations\<close>

definition single_of_u64 :: "u64 \<Rightarrow> u32" where
  "single_of_u64 n = single_signed False (of_nat (unat n))"

definition single_add :: "u32 \<Rightarrow> u32 \<Rightarrow> u32" where
  "single_add p q =
     (let sum = single_value p + single_value q
      in single_signed (if sum = 0 then single_negative p \<and> single_negative q else sum < 0) \<bar>sum\<bar>)"

definition single_subtract :: "u32 \<Rightarrow> u32 \<Rightarrow> u32" where
  "single_subtract p q =
     (let difference = single_value p - single_value q
      in single_signed (if difference = 0 then single_negative p \<and> \<not> single_negative q else difference < 0) \<bar>difference\<bar>)"

definition single_multiply :: "u32 \<Rightarrow> u32 \<Rightarrow> u32" where
  "single_multiply p q =
     single_signed (single_negative p \<noteq> single_negative q) \<bar>single_value p * single_value q\<bar>"

text \<open>The divisor is not zero.\<close>

definition single_divide :: "u32 \<Rightarrow> u32 \<Rightarrow> u32" where
  "single_divide p q =
     single_signed (single_negative p \<noteq> single_negative q) \<bar>single_value p / single_value q\<bar>"

definition single_min :: "u32 \<Rightarrow> u32 \<Rightarrow> u32" where
  "single_min p q = (if single_value q < single_value p then q else p)"

section \<open>Rounding is monotone and exact on the numbers\<close>

lemma round_half_even_bounds: "0 \<le> x \<Longrightarrow> nat \<lfloor>x\<rfloor> \<le> round_half_even x \<and> round_half_even x \<le> nat \<lfloor>x\<rfloor> + 1"
  by (simp add: round_half_even_def Let_def)

lemma round_half_even_mono:
  assumes "0 \<le> x" and "x \<le> y"
  shows "round_half_even x \<le> round_half_even y"
proof (cases "nat \<lfloor>x\<rfloor> = nat \<lfloor>y\<rfloor>")
  case True
  then show ?thesis using assms(2) by (auto simp: round_half_even_def Let_def)
next
  case False
  then have "nat \<lfloor>x\<rfloor> < nat \<lfloor>y\<rfloor>" using nat_mono [OF floor_mono [OF assms(2)]] by linarith
  then show ?thesis using round_half_even_bounds [of x] round_half_even_bounds [of y] assms by linarith
qed

lemma round_half_even_of_nat [simp]: "round_half_even (of_nat n) = n"
  by (simp add: round_half_even_def)

lemma round_half_even_le: "0 \<le> x \<Longrightarrow> x \<le> of_nat n \<Longrightarrow> round_half_even x \<le> n"
  using round_half_even_mono [of x "of_nat n"] by simp

lemma round_half_even_ge: "of_nat n \<le> x \<Longrightarrow> n \<le> round_half_even x"
  using round_half_even_mono [of "of_nat n" x] by simp

lemma units_shift_mono: "y \<le> y' \<Longrightarrow> units_shift y \<le> units_shift y'"
  unfolding units_shift_def by (intro diff_le_mono floorlog_mono nat_mono floor_mono)

lemma units_below: "0 \<le> y \<Longrightarrow> y < 2 ^ (24 + units_shift y)"
proof -
  assume "0 \<le> y"
  have "floorlog 2 (nat \<lfloor>y\<rfloor>) \<le> 24 + units_shift y" by (simp add: units_shift_def)
  then have "nat \<lfloor>y\<rfloor> < 2 ^ (24 + units_shift y)" using floorlog_leD [of 2 "nat \<lfloor>y\<rfloor>"] by simp
  then have "\<lfloor>y\<rfloor> < 2 ^ (24 + units_shift y)" using \<open>0 \<le> y\<close> by (simp add: nat_less_iff)
  then show ?thesis by (simp add: floor_less_iff)
qed

lemma units_above: "units_shift y > 0 \<Longrightarrow> 2 ^ (23 + units_shift y) \<le> y"
proof -
  assume "units_shift y > 0"
  then have bits: "24 + units_shift y \<le> floorlog 2 (nat \<lfloor>y\<rfloor>)" by (simp add: units_shift_def)
  have "2 ^ (23 + units_shift y) \<le> nat \<lfloor>y\<rfloor>" using floorlog_geD [OF bits] by simp
  then have "int (2 ^ (23 + units_shift y)) \<le> int (nat \<lfloor>y\<rfloor>)" by (rule of_nat_mono)
  moreover have "int (nat \<lfloor>y\<rfloor>) = \<lfloor>y\<rfloor>" using \<open>2 ^ (23 + units_shift y) \<le> nat \<lfloor>y\<rfloor>\<close>
    by (metis le_zero_eq linear nat_0_iff nat_eq_iff2 power_not_zero zero_neq_numeral int_nat_eq)
  ultimately show ?thesis by (simp add: le_floor_iff)
qed

lemma round_units_bounds:
  assumes "0 \<le> y"
  shows "round_units y \<le> (units_shift y + 2) * single_scale"
    and "units_shift y > 0 \<Longrightarrow> (units_shift y + 1) * single_scale \<le> round_units y"
proof -
  let ?k = "units_shift y"
  have "y / 2 ^ ?k \<le> of_nat (2 ^ 24)" using units_below [OF assms] by (simp add: divide_le_eq power_add less_imp_le mult.commute)
  then have "round_half_even (y / 2 ^ ?k) \<le> 2 ^ 24" using assms by (intro round_half_even_le) simp_all
  then show "round_units y \<le> (?k + 2) * single_scale" by (simp add: round_units_def Let_def single_scale_def)
  assume "?k > 0"
  then have "of_nat (2 ^ 23) \<le> y / 2 ^ ?k" using units_above [of y] by (simp add: le_divide_eq power_add mult.commute)
  then have "2 ^ 23 \<le> round_half_even (y / 2 ^ ?k)" by (rule round_half_even_ge)
  then show "(?k + 1) * single_scale \<le> round_units y" by (simp add: round_units_def Let_def single_scale_def)
qed

lemma round_units_mono:
  assumes "0 \<le> x" and "x \<le> y"
  shows "round_units x \<le> round_units y"
proof (cases "units_shift x = units_shift y")
  case True
  have "x / 2 ^ units_shift y \<le> y / 2 ^ units_shift y" using assms by (simp add: divide_right_mono)
  then show ?thesis using assms True by (simp add: round_units_def Let_def round_half_even_mono)
next
  case False
  then have less: "units_shift x < units_shift y" using units_shift_mono [OF assms(2)] by simp
  have "round_units x \<le> (units_shift x + 2) * single_scale" by (rule round_units_bounds [OF assms(1)])
  also have "\<dots> \<le> (units_shift y + 1) * single_scale" using less by (intro mult_right_mono) simp_all
  also have "\<dots> \<le> round_units y" using round_units_bounds(2) [of y] less assms by simp
  finally show ?thesis .
qed

lemma significand_bounds:
  "n - pattern_shift n * single_scale < 2 ^ 24"
  "pattern_shift n > 0 \<Longrightarrow> 2 ^ 23 \<le> n - pattern_shift n * single_scale"
  "pattern_shift n * single_scale \<le> n"
proof -
  have n: "n = n div single_scale * single_scale + n mod single_scale" and "n mod single_scale < single_scale"
    by (simp_all add: single_scale_def)
  then show "n - pattern_shift n * single_scale < 2 ^ 24" "pattern_shift n * single_scale \<le> n"
    "pattern_shift n > 0 \<Longrightarrow> 2 ^ 23 \<le> n - pattern_shift n * single_scale"
    by (auto simp: pattern_shift_def single_scale_def)
qed

lemma units_shift_pattern: "units_shift (of_nat (pattern_units n)) = pattern_shift n"
proof -
  let ?k = "pattern_shift n" and ?m = "n - pattern_shift n * single_scale"
  have "pattern_units n < 2 ^ (24 + ?k)"
    using significand_bounds(1) [of n] by (simp add: pattern_units_def power_add)
  then have "floorlog 2 (pattern_units n) \<le> 24 + ?k" by (intro floorlog_leI) simp_all
  moreover have "24 + ?k \<le> floorlog 2 (pattern_units n)" if "?k > 0"
  proof (rule floorlog_geI)
    show "2 ^ (24 + ?k - 1) \<le> pattern_units n"
      using significand_bounds(2) [OF that] by (simp add: pattern_units_def power_add)
  qed simp
  ultimately show ?thesis by (cases "?k = 0") (simp_all add: units_shift_def)
qed

lemma round_units_exact [simp]: "round_units (of_nat (pattern_units n)) = n"
proof -
  have significand: "of_nat (pattern_units n) / 2 ^ pattern_shift n = (of_nat (n - pattern_shift n * single_scale) :: rat)"
    unfolding pattern_units_def of_nat_mult by simp
  show ?thesis
    using significand_bounds(3) [of n]
    unfolding round_units_def Let_def units_shift_pattern significand round_half_even_of_nat by simp
qed

text \<open>So the order of the patterns is the order of their values.\<close>

lemma pattern_units_less: "n < n' \<Longrightarrow> pattern_units n < pattern_units n'"
  by (metis leD le_less_linear of_nat_0_le_iff of_nat_le_iff round_units_exact round_units_mono)

lemma pattern_units_le_iff: "pattern_units n \<le> pattern_units n' \<longleftrightarrow> n \<le> n'"
  using pattern_units_less by (metis linorder_not_less order.order_iff_strict)

section \<open>Nonnegative numbers\<close>

text \<open>The patterns from zero to the infinity, whose value is above all finite ones.\<close>

definition single_ok :: "u32 \<Rightarrow> bool" where
  "single_ok p \<longleftrightarrow> unat p \<le> 255 * single_scale"

lemma single_ok_value: "single_ok p \<Longrightarrow> single_value p = of_nat (pattern_units (unat p)) / 2 ^ 149"
  by (simp add: single_ok_def single_value_def single_negative_def single_scale_def)

lemma single_ok_positive: "single_ok p \<Longrightarrow> \<not> single_negative p \<and> 0 \<le> single_value p"
  by (simp add: single_ok_value) (simp add: single_ok_def single_negative_def single_scale_def)

lemma single_value_le_iff: "single_ok p \<Longrightarrow> single_ok q \<Longrightarrow> single_value p \<le> single_value q \<longleftrightarrow> p \<le> q"
  by (simp add: single_ok_value divide_le_cancel pattern_units_le_iff word_le_nat_alt)

lemma single_pattern_mono: "0 \<le> x \<Longrightarrow> x \<le> y \<Longrightarrow> single_pattern x \<le> single_pattern y"
  unfolding single_pattern_def by (intro min.mono round_units_mono mult_right_mono mult_nonneg_nonneg) simp_all

lemma single_pattern_value: "single_ok p \<Longrightarrow> single_pattern (single_value p) = unat p"
  by (simp add: single_ok_value single_pattern_def) (simp add: single_ok_def)

lemma unat_single_signed: "unat (single_signed False x) = single_pattern x"
proof -
  have "single_pattern x < 2 ^ LENGTH(32)" by (simp add: single_pattern_def single_scale_def)
  then show ?thesis by (simp add: single_signed_def unsigned_of_nat take_bit_nat_eq_self)
qed

lemma single_signed_ok [simp]: "single_ok (single_signed False x)"
  by (simp add: single_ok_def unat_single_signed single_pattern_def)

lemma single_signed_mono: "0 \<le> x \<Longrightarrow> x \<le> y \<Longrightarrow> single_signed False x \<le> single_signed False y"
  by (simp add: word_le_nat_alt unat_single_signed single_pattern_mono)

lemma single_signed_value [simp]: "single_ok p \<Longrightarrow> single_signed False (single_value p) = p"
  by (simp add: word_unat_eq_iff unat_single_signed single_pattern_value)

lemma single_rounded_le:
  assumes "0 \<le> x" and "single_ok q" and "x \<le> single_value q"
  shows "single_value (single_signed False x) \<le> single_value q"
  using single_signed_mono [OF assms(1,3)] assms(2) by (simp add: single_value_le_iff)

lemma single_rounded_ge:
  assumes "single_ok q" and "single_value q \<le> x"
  shows "single_value q \<le> single_value (single_signed False x)"
  using single_signed_mono [OF _ assms(2)] assms(1) by (simp add: single_value_le_iff single_ok_positive)

text \<open>The sign of a rounded number changes its value only in sign.\<close>

lemma abs_single_signed: "\<bar>single_value (single_signed negative x)\<bar> = single_value (single_signed False x)"
proof -
  have "single_pattern x < 2 ^ 31" by (simp add: single_pattern_def single_scale_def)
  moreover from this have "unat (single_signed True x) = 2 ^ 31 + single_pattern x"
    by (simp add: single_signed_def unsigned_of_nat take_bit_nat_eq_self del: of_nat_add)
  ultimately show ?thesis
    by (cases negative) (simp_all add: single_value_def single_negative_def unat_single_signed)
qed

text \<open>On them every operation is the exact one, rounded, and keeps the order.\<close>

lemma single_operations:
  assumes "single_ok p" and "single_ok q"
  shows "single_add p q = single_signed False (single_value p + single_value q)"
    and "single_multiply p q = single_signed False (single_value p * single_value q)"
    and "single_divide p q = single_signed False (single_value p / single_value q)"
    and "q \<le> p \<Longrightarrow> single_subtract p q = single_signed False (single_value p - single_value q)"
proof -
  note positive = single_ok_positive [OF assms(1)] single_ok_positive [OF assms(2)]
  show "single_add p q = single_signed False (single_value p + single_value q)"
    using positive by (simp add: single_add_def Let_def not_less)
  show "single_multiply p q = single_signed False (single_value p * single_value q)"
    "single_divide p q = single_signed False (single_value p / single_value q)"
    using positive by (simp_all add: single_multiply_def single_divide_def)
  assume "q \<le> p"
  then have "single_value q \<le> single_value p" by (simp add: single_value_le_iff assms)
  then show "single_subtract p q = single_signed False (single_value p - single_value q)"
    using positive by (simp add: single_subtract_def Let_def)
qed

lemma single_operations_ok [simp]:
  assumes "single_ok p" and "single_ok q"
  shows "single_ok (single_add p q)" and "single_ok (single_multiply p q)" and "single_ok (single_divide p q)"
  using assms by (simp_all add: single_operations)

lemma single_add_mono:
  assumes "single_ok p" and "single_ok q" and "single_ok q'" and "q \<le> q'"
  shows "single_add p q \<le> single_add p q'"
  using assms by (auto simp: single_operations single_ok_positive single_value_le_iff intro!: single_signed_mono)

lemma single_multiply_mono:
  assumes "single_ok p" and "single_ok p'" and "single_ok q" and "p \<le> p'"
  shows "single_multiply p q \<le> single_multiply p' q"
  using assms
  by (auto simp: single_operations single_ok_positive single_value_le_iff intro!: single_signed_mono mult_right_mono)

lemma single_divide_mono:
  assumes "single_ok p" and "single_ok p'" and "single_ok q" and "p \<le> p'"
  shows "single_divide p q \<le> single_divide p' q"
  using assms
  by (auto simp: single_operations single_ok_positive single_value_le_iff intro!: single_signed_mono divide_right_mono)

lemma single_subtract_mono:
  assumes "single_ok p" and "single_ok q" and "single_ok q'" and "q \<le> q'" and "q' \<le> p"
  shows "single_subtract p q' \<le> single_subtract p q"
proof -
  have "q \<le> p" using assms by simp
  then show ?thesis
    using assms by (simp add: single_operations single_signed_mono single_value_le_iff)
qed

lemma single_of_u64_mono: "n \<le> m \<Longrightarrow> single_of_u64 n \<le> single_of_u64 m"
  unfolding single_of_u64_def by (intro single_signed_mono of_nat_0_le_iff of_nat_mono) (simp add: word_le_nat_alt)

lemma single_of_u64_ok [simp]: "single_ok (single_of_u64 n)"
  by (simp add: single_of_u64_def)

lemma single_min_ok: "single_ok p \<Longrightarrow> single_ok q \<Longrightarrow> single_min p q = min p q"
  using single_value_le_iff [of p q] by (auto simp: single_min_def min_def not_less)

lemma single_ok_min [simp]: "single_ok p \<Longrightarrow> single_ok q \<Longrightarrow> single_ok (min p q)"
  by (simp add: min_def)

section \<open>Rounding errors\<close>

lemma round_half_even_error: "0 \<le> x \<Longrightarrow> \<bar>of_nat (round_half_even x) - x\<bar> \<le> 1 / 2"
proof -
  assume "0 \<le> x"
  then have floor: "of_int \<lfloor>x\<rfloor> \<le> x" "x < of_int \<lfloor>x\<rfloor> + 1" "0 \<le> \<lfloor>x\<rfloor>" by simp_all linarith
  then have n: "of_nat (nat \<lfloor>x\<rfloor>) = (of_int \<lfloor>x\<rfloor> :: rat)" by simp
  show ?thesis
    unfolding round_half_even_def Let_def using floor(1,2)
    by (auto simp: n abs_le_iff not_less of_nat_add)
qed

lemma pattern_units_split:
  assumes "m \<le> 2 ^ 24" and "k > 0 \<Longrightarrow> 2 ^ 23 \<le> m"
  shows "pattern_units (k * single_scale + m) = m * 2 ^ k"
proof (cases "m = 2 ^ 24")
  case True
  have "(k * single_scale + 2 ^ 24) div single_scale = k + 2" by (simp add: single_scale_def)
  then show ?thesis unfolding True pattern_units_def pattern_shift_def by (simp add: single_scale_def)
next
  case False
  then have m: "m div single_scale \<le> 1" using assms(1) by (simp add: single_scale_def less_mult_imp_div_less)
  have split: "(k * single_scale + m) div single_scale = k + m div single_scale" by (simp add: single_scale_def)
  have shift: "pattern_shift (k * single_scale + m) = k"
  proof (cases "k > 0")
    case True
    then have "1 \<le> m div single_scale" using assms(2) by (simp add: single_scale_def)
    then show ?thesis using m by (simp add: pattern_shift_def split)
  qed (use m in \<open>simp add: pattern_shift_def split\<close>)
  show ?thesis unfolding pattern_units_def shift by simp
qed

lemma scaled_difference:
  fixes c :: rat
  assumes "0 < c" and "0 < k"
  shows "\<bar>m * k / c - y / c\<bar> = \<bar>m - y / k\<bar> * k / c"
proof -
  have "m * k / c - y / c = (m - y / k) * k / c"
    using assms by (simp add: left_diff_distrib diff_divide_distrib)
  also have "\<bar>\<dots>\<bar> = \<bar>m - y / k\<bar> * k / c" using assms by (simp add: abs_mult)
  finally show ?thesis .
qed

text \<open>The rounding error of a number below one.\<close>

lemma single_error:
  assumes "0 \<le> x" and "x < 1"
  shows "\<bar>single_value (single_signed False x) - x\<bar> \<le> 1 / 2 ^ 25"
proof -
  define y where "y = x * 2 ^ 149"
  let ?k = "units_shift y" and ?m = "round_half_even (y / 2 ^ units_shift y)"
  have y: "0 \<le> y" "y < 2 ^ 149" using assms by (simp_all add: y_def)
  have "?k \<le> 125"
  proof (rule ccontr)
    assume "\<not> ?k \<le> 125"
    then have "(2 :: rat) ^ 149 \<le> 2 ^ (23 + ?k)" and "2 ^ (23 + ?k) \<le> y"
      by (intro power_increasing, simp_all) (intro units_above, simp)
    then show False using y(2) by linarith
  qed
  have m: "?m \<le> 2 ^ 24" "?k > 0 \<Longrightarrow> 2 ^ 23 \<le> ?m"
  proof -
    have "y / 2 ^ ?k \<le> of_nat (2 ^ 24)" using units_below [OF y(1)] by (simp add: divide_le_eq power_add less_imp_le mult.commute)
    then show "?m \<le> 2 ^ 24" using y(1) by (intro round_half_even_le) simp_all
    assume "?k > 0"
    then have "of_nat (2 ^ 23) \<le> y / 2 ^ ?k" using units_above [of y] by (simp add: le_divide_eq power_add mult.commute)
    then show "2 ^ 23 \<le> ?m" by (rule round_half_even_ge)
  qed
  have "?k * single_scale + ?m \<le> 255 * single_scale"
  proof -
    have "?k * single_scale \<le> 125 * single_scale" using \<open>?k \<le> 125\<close> by (intro mult_right_mono) simp_all
    then show ?thesis using m(1) by (simp add: single_scale_def)
  qed
  then have pattern: "single_pattern x = ?k * single_scale + ?m"
    by (simp only: single_pattern_def round_units_def Let_def y_def [symmetric] min_absorb1)
  have "single_value (single_signed False x) = of_nat (pattern_units (?k * single_scale + ?m)) / 2 ^ 149"
    by (simp only: single_ok_value [OF single_signed_ok] unat_single_signed pattern)
  then have "single_value (single_signed False x) = of_nat ?m * 2 ^ ?k / 2 ^ 149"
    by (simp only: pattern_units_split [OF m] of_nat_mult of_nat_power of_nat_numeral)
  moreover have "x = y / 2 ^ 149" by (simp add: y_def)
  ultimately have "\<bar>single_value (single_signed False x) - x\<bar> = \<bar>of_nat ?m - y / 2 ^ ?k\<bar> * 2 ^ ?k / 2 ^ 149"
    using scaled_difference [of "2 ^ 149" "2 ^ ?k" "of_nat ?m" y] by (simp only: zero_less_power zero_less_numeral)
  also have "\<dots> \<le> 1 / 2 * 2 ^ ?k / 2 ^ 149"
    using round_half_even_error [of "y / 2 ^ ?k"] y(1) by (intro divide_right_mono mult_right_mono) simp_all
  also have "\<dots> \<le> 1 / 2 * 2 ^ 125 / 2 ^ 149"
    using \<open>?k \<le> 125\<close> by (intro divide_right_mono mult_left_mono power_increasing) simp_all
  finally show ?thesis by simp
qed

lemma single_value_signed:
  "single_value (single_signed negative x) = (if negative then - 1 else 1) * single_value (single_signed False x)"
proof -
  have "single_pattern x < 2 ^ 31" by (simp add: single_pattern_def single_scale_def)
  moreover from this have "unat (single_signed True x) = 2 ^ 31 + single_pattern x"
    by (simp add: single_signed_def unsigned_of_nat take_bit_nat_eq_self del: of_nat_add)
  ultimately show ?thesis
    by (cases negative) (simp_all add: single_value_def single_negative_def unat_single_signed)
qed

lemma signed_product:
  fixes x z :: rat
  assumes "p = (if a then - 1 else 1) * x" and "q = (if b then - 1 else 1) * z" and "0 \<le> x" and "0 \<le> z"
  shows "p * q = (if a \<noteq> b then - 1 else 1) * \<bar>p * q\<bar>"
  using assms by (cases a; cases b) (simp_all add: abs_mult)

lemma signed_difference:
  fixes s :: rat
  assumes "m = s * y" and "v = s * x" and "\<bar>s\<bar> = 1"
  shows "\<bar>m - v\<bar> = \<bar>y - x\<bar>"
proof -
  have "m - v = s * (y - x)" using assms(1,2) by (simp add: right_diff_distrib)
  then show ?thesis using assms(3) by (simp add: abs_mult)
qed

lemma single_product_sign:
  "single_value p * single_value q =
     (if single_negative p \<noteq> single_negative q then - 1 else 1) * \<bar>single_value p * single_value q\<bar>"
proof (rule signed_product [OF single_value_def single_value_def])
  show "0 \<le> rat_of_nat n / 2 ^ 149" for n by (rule divide_nonneg_nonneg) simp_all
  show "0 \<le> rat_of_nat n / 2 ^ 149" for n by (rule divide_nonneg_nonneg) simp_all
qed

lemma single_multiply_value:
  "single_value (single_multiply p q) =
     (if single_negative p \<noteq> single_negative q then - 1 else 1) *
       single_value (single_signed False \<bar>single_value p * single_value q\<bar>)"
  unfolding single_multiply_def by (rule single_value_signed)

lemma single_multiply_error:
  assumes "\<bar>single_value p * single_value q\<bar> < 1"
  shows "\<bar>single_value (single_multiply p q) - single_value p * single_value q\<bar> \<le> 1 / 2 ^ 25"
proof -
  have "\<bar>if single_negative p \<noteq> single_negative q then - 1 else 1 :: rat\<bar> = 1" by simp
  note signed_difference [OF single_multiply_value single_product_sign this]
  also note single_error [OF abs_ge_zero assms]
  finally show ?thesis .
qed
section \<open>Evaluation\<close>

text \<open>To evaluate a rounding, its shift is guessed and checked.\<close>

lemma units_shiftI:
  assumes "2 ^ (23 + k) \<le> y" and "y < 2 ^ (24 + k)"
  shows "units_shift y = k"
proof -
  have y: "0 \<le> y" using assms(1) by (rule order_trans [rotated]) simp
  have "\<not> units_shift y < k"
  proof
    assume "units_shift y < k"
    then have "(2 :: rat) ^ (24 + units_shift y) \<le> 2 ^ (23 + k)" by (intro power_increasing) simp_all
    then show False using units_below [OF y] assms(1) by linarith
  qed
  moreover have "\<not> k < units_shift y"
  proof
    assume "k < units_shift y"
    then have "(2 :: rat) ^ (24 + k) \<le> 2 ^ (23 + units_shift y)" by (intro power_increasing) simp_all
    moreover have "2 ^ (23 + units_shift y) \<le> y" using \<open>k < units_shift y\<close> by (intro units_above) simp
    ultimately show False using assms(2) by linarith
  qed
  ultimately show ?thesis by simp
qed

lemma round_half_even_nearest:
  assumes "0 \<le> x" and "of_nat m - 1 / 2 \<le> x" and "x \<le> of_nat m + 1 / 2"
    and "x = of_nat m - 1 / 2 \<or> x = of_nat m + 1 / 2 \<Longrightarrow> even m"
  shows "round_half_even x = m"
proof -
  have floor: "0 \<le> \<lfloor>x\<rfloor>" "of_int \<lfloor>x\<rfloor> \<le> x" "x < of_int \<lfloor>x\<rfloor> + 1" using assms(1) by simp_all linarith
  then have n: "of_nat (nat \<lfloor>x\<rfloor>) = (of_int \<lfloor>x\<rfloor> :: rat)" by simp
  have "rat_of_int (int m - 1) < of_int (\<lfloor>x\<rfloor> + 1)" "rat_of_int \<lfloor>x\<rfloor> < of_int (int m + 1)"
    unfolding of_int_add of_int_diff of_int_of_nat_eq of_int_1 using floor assms by linarith+
  then have "int m - 1 \<le> \<lfloor>x\<rfloor>" "\<lfloor>x\<rfloor> \<le> int m" by linarith+
  then consider "\<lfloor>x\<rfloor> = int m" | "\<lfloor>x\<rfloor> = int m - 1" by linarith
  then show ?thesis
  proof cases
    case 1
    then show ?thesis using assms by (auto simp: round_half_even_def Let_def)
  next
    case 2
    then have "m > 0" using floor(1) by simp
    then show ?thesis using 2 assms by (auto simp: round_half_even_def Let_def nat_diff_distrib of_nat_diff)
  qed
qed

lemma single_signedI:
  assumes "2 ^ (23 + k) \<le> x * 2 ^ 149" and "x * 2 ^ 149 < 2 ^ (24 + k)"
    and "of_nat m - 1 / 2 \<le> x * 2 ^ 149 / 2 ^ k" and "x * 2 ^ 149 / 2 ^ k \<le> of_nat m + 1 / 2"
    and "x * 2 ^ 149 / 2 ^ k = of_nat m - 1 / 2 \<or> x * 2 ^ 149 / 2 ^ k = of_nat m + 1 / 2 \<Longrightarrow> even m"
    and "k * single_scale + m \<le> 255 * single_scale"
  shows "single_signed False x = of_nat (k * single_scale + m)"
proof -
  have "0 \<le> x * 2 ^ 149" using assms(1) by (rule order_trans [rotated]) simp
  then have m: "round_half_even (x * 2 ^ 149 / 2 ^ k) = m" using assms(3-5) by (intro round_half_even_nearest) simp_all
  show ?thesis
    unfolding single_signed_def single_pattern_def round_units_def Let_def units_shiftI [OF assms(1,2)] m
    using assms(6) by (simp only: min_absorb1 if_False add_0)
qed

end
