(* ===== verification/Node_Position.thy ===== *)
theory Node_Position
  imports Single_Float Authoritative_Server
begin

text \<open>
  Where \<^verbatim>\<open>simulation/cpu_backend.cpp\<close> places the observers: on a circle, at a phase that is computed in single
  precision. \<open>cosf\<close> and \<open>sinf\<close> are the functions of the C library. This is what the parameter \<open>position\<close> of the
  CPU backend stands for.
\<close>

section \<open>Positions\<close>

definition cpu_pi :: u32 where
  "cpu_pi = 0x40490FDB"

definition cpu_phase :: "u64 \<Rightarrow> u64 \<Rightarrow> u64 \<Rightarrow> u32" where
  "cpu_phase count index tick =
     single_add
       (single_divide (single_multiply (single_multiply 0x40000000 cpu_pi) (single_of_u64 index)) (single_of_u64 count))
       (single_divide (single_multiply (single_of_u64 (tick mod 360)) cpu_pi) 0x44E10000)"

definition cpu_position :: "(u32 \<Rightarrow> u32) \<Rightarrow> (u32 \<Rightarrow> u32) \<Rightarrow> u64 \<Rightarrow> u64 \<Rightarrow> u64 \<Rightarrow> u32 \<times> u32" where
  "cpu_position cosf sinf count index tick =
     (let phase = cpu_phase count index tick
      in (single_multiply 0x3F3851EC (cosf phase), single_multiply 0x3F3851EC (sinf phase)))"

section \<open>The phase is a number\<close>

lemma position_literals [simp]:
  "single_ok 0x3F3851EC" "single_value 0x3F3851EC = 3019899 / 4194304"
  "single_ok 0x40490FDB" "single_value 0x40490FDB = 13176795 / 4194304"
  "single_ok 0x40C90FDB" "single_value 0x40C90FDB = 13176795 / 2097152"
  "single_ok 0x44E10000" "single_value 0x44E10000 = 1800"
  "single_ok 0x5F800000" "single_value 0x5F800000 = 2 ^ 64"
  "single_ok 0x61490FDB" "single_value 0x61490FDB = 4 * (13176795 / 4194304) * 2 ^ 64"
  "single_ok 0x40000000" "single_value 0x40000000 = 2"
  "single_ok 0" "single_value 0 = 0"
  by (simp_all add: single_ok_def single_value_def single_negative_def pattern_units_def pattern_shift_def single_scale_def)

lemma two_pi: "single_multiply 0x40000000 cpu_pi = 0x40C90FDB"
  using single_signed_value [of "0x40C90FDB"] by (simp add: cpu_pi_def single_operations)

lemma single_of_u64_bounds:
  "single_value (single_of_u64 n) \<le> 2 ^ 64" "n \<noteq> 0 \<Longrightarrow> 1 \<le> single_value (single_of_u64 n)"
proof -
  have "unat n < 2 ^ LENGTH(64)" by (rule unsigned_less)
  then have "rat_of_nat (unat n) \<le> of_nat (2 ^ 64)" by (intro of_nat_mono) simp
  then have "rat_of_nat (unat n) \<le> single_value 0x5F800000" by simp
  then have "single_value (single_of_u64 n) \<le> single_value 0x5F800000"
    unfolding single_of_u64_def by (intro single_rounded_le of_nat_0_le_iff) (simp_all only: position_literals)
  then show "single_value (single_of_u64 n) \<le> 2 ^ 64" by simp
next
  have one: "single_ok 0x3F800000" "single_value 0x3F800000 = 1"
    by (simp_all add: single_ok_def single_value_def single_negative_def pattern_units_def pattern_shift_def single_scale_def)
  assume "n \<noteq> 0"
  then have "1 \<le> unat n" by (simp add: unat_gt_0 Suc_le_eq)
  then have "rat_of_nat 1 \<le> of_nat (unat n)" by (rule of_nat_mono)
  then have "single_value 0x3F800000 \<le> single_value (single_of_u64 n)"
    unfolding single_of_u64_def by (intro single_rounded_ge one) (simp only: one of_nat_1)
  then show "1 \<le> single_value (single_of_u64 n)" by (simp only: one)
qed

lemma quotient_bound:
  assumes "single_ok p" and "single_ok d" and "1 \<le> single_value d" and "single_ok q" and "single_value p \<le> single_value q"
  shows "single_value (single_divide p d) \<le> single_value q"
proof -
  have "single_value p / single_value d \<le> single_value p / 1"
    using assms(3) single_ok_positive [OF assms(1)] by (intro divide_left_mono) simp_all
  then have "single_value p / single_value d \<le> single_value q" using assms(5) by simp
  then show ?thesis
    using assms single_ok_positive [OF assms(1)] by (simp add: single_operations single_rounded_le)
qed

lemma product_bound:
  assumes "single_ok p" and "single_value p * 2 ^ 64 \<le> single_value q" and "single_ok q"
  shows "single_value (single_multiply p (single_of_u64 n)) \<le> single_value q"
    and "single_multiply (single_of_u64 n) p = single_multiply p (single_of_u64 n)"
proof -
  have "single_value p * single_value (single_of_u64 n) \<le> single_value p * 2 ^ 64"
    using single_of_u64_bounds(1) single_ok_positive [OF assms(1)] by (intro mult_left_mono) simp_all
  then have "single_value p * single_value (single_of_u64 n) \<le> single_value q" using assms(2) by (rule order_trans)
  then show "single_value (single_multiply p (single_of_u64 n)) \<le> single_value q"
    using assms single_ok_positive [OF assms(1)] single_ok_positive [OF single_of_u64_ok [of n]]
    by (simp add: single_operations single_rounded_le)
  show "single_multiply (single_of_u64 n) p = single_multiply p (single_of_u64 n)"
    using assms(1) by (simp add: single_operations mult.commute)
qed

lemma turns [simp]:
  "single_ok 0x60C90FDB" "single_value 0x60C90FDB = 2 * (13176795 / 4194304) * 2 ^ 64"
  by (simp_all add: single_ok_def single_value_def single_negative_def pattern_units_def pattern_shift_def single_scale_def)

lemma cpu_phase_finite:
  assumes "count \<noteq> 0"
  shows "single_ok (cpu_phase count index tick) \<and> single_finite (cpu_phase count index tick)"
proof -
  let ?turn = "single_divide (single_multiply 0x40C90FDB (single_of_u64 index)) (single_of_u64 count)"
  let ?drift = "single_divide (single_multiply 0x40490FDB (single_of_u64 (tick mod 360))) 0x44E10000"
  have phase: "cpu_phase count index tick = single_add ?turn ?drift"
    unfolding cpu_phase_def two_pi using product_bound(2) [of "0x40490FDB" "0x60C90FDB"] by (simp add: cpu_pi_def)
  have "single_value ?turn \<le> single_value 0x60C90FDB"
    by (intro quotient_bound product_bound(1)) (simp_all add: single_of_u64_bounds(2) [OF assms])
  moreover have "single_value ?drift \<le> single_value 0x60C90FDB"
    by (intro quotient_bound product_bound(1)) simp_all
  ultimately have "single_value ?turn + single_value ?drift \<le> single_value 0x61490FDB" by simp
  moreover have ok: "single_ok ?turn" "single_ok ?drift" by simp_all
  ultimately have "cpu_phase count index tick \<le> 0x61490FDB"
    unfolding phase single_operations(1) [OF ok] using single_ok_positive [OF ok(1)] single_ok_positive [OF ok(2)]
    by (subst single_value_le_iff [symmetric]) (simp_all only: single_signed_ok position_literals(11) single_rounded_le add_nonneg_nonneg)
  moreover from this have "single_finite (cpu_phase count index tick)"
    by (simp add: single_finite_def single_scale_def word_le_nat_alt)
  ultimately show ?thesis unfolding phase using ok by simp
qed

section \<open>The observers are in view\<close>

text \<open>The two functions give finite numbers from -1 to 1 for finite arguments.\<close>

definition unit_contract :: "(u32 \<Rightarrow> u32) \<Rightarrow> bool" where
  "unit_contract f \<longleftrightarrow> (\<forall>p. single_finite p \<longrightarrow> single_finite (f p) \<and> \<bar>single_value (f p)\<bar> \<le> 1)"

lemma radius_bound:
  assumes "\<bar>single_value c\<bar> \<le> 1"
  shows "\<bar>single_value (single_multiply 0x3F3851EC c)\<bar> \<le> single_value 0x3F3851EC"
  unfolding single_multiply_def abs_single_signed
proof (rule single_rounded_le)
  show "\<bar>single_value 0x3F3851EC * single_value c\<bar> \<le> single_value 0x3F3851EC"
    using assms by (simp add: abs_mult)
qed simp_all

definition in_view :: "TopologyNode \<Rightarrow> bool" where
  "in_view node \<longleftrightarrow> \<bar>single_value (node_x node)\<bar> \<le> single_value 0x3F3851EC \<and> \<bar>single_value (node_y node)\<bar> \<le> single_value 0x3F3851EC"

lemma cpu_nodes:
  assumes "node \<in> set (scene_nodes (CpuBackend_step position config tick))"
  shows "node = cpu_switch_node tick \<or> (\<exists>index. node = cpu_observer_node position config tick index)"
proof -
  let ?f = "\<lambda>scene index. TopologyScene_upsert_link (cpu_link config tick (of_nat index))
           (TopologyScene_upsert_node (cpu_observer_node position config tick (of_nat index)) scene)"
  let ?start = "TopologyScene_upsert_node (cpu_switch_node tick) empty_scene"
  let ?ok = "\<lambda>scene. TopologyScene_inv scene \<and> (\<forall>node \<in> set (scene_nodes scene).
      node = cpu_switch_node tick \<or> (\<exists>index. node = cpu_observer_node position config tick index))"
  have "?ok ?start"
    by (simp add: upsert_node_eq empty_scene_def vec_upsert_def TopologyScene_inv_def vec_wf_def)
  moreover have "?ok (?f scene i)" if "?ok scene" for scene i
    using that upsert_inv by (auto simp: upsert_node_eq upsert_link_eq TopologyScene_inv_def set_upsert)
  ultimately have "?ok (foldl ?f ?start [0..<n])" for n by (induction n) auto
  then show ?thesis using assms by (simp add: CpuBackend_step_def)
qed

lemma cpu_observers_in_view:
  assumes "unit_contract cosf" and "unit_contract sinf"
    and "node \<in> set (scene_nodes (CpuBackend_step (cpu_position cosf sinf (cpu_count config)) config tick))"
  shows "in_view node"
proof -
  have "cpu_count config \<noteq> 0" by (simp add: cpu_count_def)
  from cpu_phase_finite [OF this] assms(1,2) have "\<bar>single_value (cosf (cpu_phase (cpu_count config) index t))\<bar> \<le> 1"
    "\<bar>single_value (sinf (cpu_phase (cpu_count config) index t))\<bar> \<le> 1" for index t
    unfolding unit_contract_def by blast+
  then show ?thesis
    using cpu_nodes [OF assms(3)] radius_bound
    by (auto simp: in_view_def cpu_switch_node_def cpu_observer_node_def cpu_position_def Let_def)
qed

section \<open>The drift\<close>

text \<open>
  The observers drift with the tick, by about 36 degrees in 360 ticks, and then jump back: the first
  observer's phase is 0.6266 at tick 359 and 0 at tick 360.
\<close>

lemma drift_literals:
  "single_signed False 359 = 0x43B38000"
  "single_signed False (4730469405 / 4194304) = 0x448CFA9E"
  "single_signed False (4619599 / 7372800) = 0x3F20671A"
  subgoal using single_signedI [of 134 "359" 11763712] by (simp add: single_scale_def)
  subgoal using single_signedI [of 136 "4730469405 / 4194304" 9239198] by (simp add: single_scale_def)
  subgoal using single_signedI [of 125 "4619599 / 7372800" 10512154] by (simp add: single_scale_def)
  done

lemma drift_values [simp]:
  "single_ok 0x43B38000" "single_value 0x43B38000 = 359"
  "single_ok 0x448CFA9E" "single_value 0x448CFA9E = 4619599 / 4096"
  "single_ok 0x3F20671A"
  by (simp_all add: single_ok_def single_value_def single_negative_def pattern_units_def pattern_shift_def single_scale_def)

lemma cpu_phase_jumps: "cpu_phase count 0 359 = 0x3F20671A \<and> cpu_phase count 0 360 = 0"
proof -
  have zero: "single_signed False 0 = 0" using single_signed_value [of 0] by simp
  then have none: "single_of_u64 0 = 0" by (simp add: single_of_u64_def)
  have rest: "(359 :: u64) mod 360 = 359" "(360 :: u64) mod 360 = 0" by simp_all
  have last: "single_of_u64 359 = 0x43B38000" using drift_literals(1) by (simp add: single_of_u64_def)
  show ?thesis
    unfolding cpu_phase_def two_pi rest none last cpu_pi_def using zero drift_literals(2,3)
      single_signed_value [of "0x3F20671A"]
    by (simp add: single_operations)
qed

end
