(* ===== verification/Cuda_Backend.thy ===== *)
theory Cuda_Backend
  imports Node_Position
begin

text \<open>
  \<^verbatim>\<open>simulation/cuda_backend.cu\<close>: the backend whose observers are computed on the device, one thread for each.
  A launch runs every thread of the grid once, in an order that the device chooses: the \<open>schedule\<close>.
  The two device arrays hold whatever earlier runs left in them. The kernel computes in the single precision of
  the device, which rounds additions, products, quotients and conversions correctly; no product of the kernel is
  added to anything, so that none is contracted with an addition. \<open>device_cos\<close> and \<open>device_sin\<close> are the
  device's \<^verbatim>\<open>cosf\<close> and \<^verbatim>\<open>sinf\<close>, which need not be those of the processor. The CUDA runtime calls enter as whether
  they succeeded.
\<close>

section \<open>The kernel\<close>

record cuda_device =
  device_positions :: "u32 list"
  device_packets :: "u64 list"

datatype cuda_call = cuda_malloc_positions | cuda_malloc_counters | cuda_launch | cuda_copy_positions | cuda_copy_counters

definition kernel_pi :: u32 where
  "kernel_pi = 0x40490FDB"

definition kernel_phase :: "u64 \<Rightarrow> u64 \<Rightarrow> u64 \<Rightarrow> u32" where
  "kernel_phase index count tick =
     single_add
       (single_divide (single_multiply (single_multiply 0x40000000 kernel_pi) (single_of_u64 index)) (single_of_u64 count))
       (single_divide (single_multiply (single_of_u64 (tick mod 360)) kernel_pi) 0x44E10000)"

definition update_observers ::
  "(u32 \<Rightarrow> u32) \<Rightarrow> (u32 \<Rightarrow> u32) \<Rightarrow> u64 \<Rightarrow> u64 \<Rightarrow> u64 \<Rightarrow> nat \<times> nat \<Rightarrow> cuda_device \<Rightarrow> cuda_device" where
  "update_observers device_cos device_sin count tick seed = (\<lambda>(block, thread) d.
     let index = block * 256 + thread in
     if index \<ge> unat count then d
     else
       let phase = kernel_phase (of_nat index) count tick in
       d\<lparr>device_positions := (device_positions d)
           [index * 2 := single_multiply 0x3F3851EC (device_cos phase),
            index * 2 + 1 := single_multiply 0x3F3851EC (device_sin phase)],
         device_packets := (device_packets d)[index := tick * (of_nat index + 1) * 17 + seed]\<rparr>)"

definition cuda_launch_grid ::
  "(u32 \<Rightarrow> u32) \<Rightarrow> (u32 \<Rightarrow> u32) \<Rightarrow> u64 \<Rightarrow> u64 \<Rightarrow> u64 \<Rightarrow> (nat \<times> nat) list \<Rightarrow> cuda_device \<Rightarrow> cuda_device" where
  "cuda_launch_grid device_cos device_sin count tick seed schedule d =
     fold (update_observers device_cos device_sin count tick seed) schedule d"

section \<open>The backend\<close>

record CudaBackend =
  cuda_config :: SimulationConfig
  cuda_observers :: u64
  cuda_memory :: cuda_device

text \<open>
  The constructor allocates both arrays; \<open>positions\<close> and \<open>packets\<close> are what the fresh memory
  holds. A failed allocation throws (\<open>Inl\<close>).
\<close>

definition CudaBackend_create ::
  "(cuda_call \<Rightarrow> bool) \<Rightarrow> cuda_device \<Rightarrow> SimulationConfig \<Rightarrow> cuda_call + CudaBackend" where
  "CudaBackend_create succeeds memory config =
     (let count = (if config_observer_count config = 0 then 1 else config_observer_count config) in
      if \<not> succeeds cuda_malloc_positions then Inl cuda_malloc_positions
      else if \<not> succeeds cuda_malloc_counters then Inl cuda_malloc_counters
      else Inr \<lparr>cuda_config = config, cuda_observers = count, cuda_memory = memory\<rparr>)"

definition cuda_block_count :: "u64 \<Rightarrow> u32" where
  "cuda_block_count count = ucast ((count + 256 - 1) div 256)"

text \<open>The threads of a grid.\<close>

definition cuda_grid :: "u64 \<Rightarrow> (nat \<times> nat) set" where
  "cuda_grid count = {..<unat (cuda_block_count count)} \<times> {..<256}"

definition cuda_scene_node :: "u64 \<Rightarrow> u32 list \<Rightarrow> u64 list \<Rightarrow> nat \<Rightarrow> TopologyNode" where
  "cuda_scene_node tick positions packets index =
     \<lparr>node_id = ucast (of_nat index + 2 :: u64), node_x = positions ! (index * 2), node_y = positions ! (index * 2 + 1),
      node_vlan = ucast (10 + of_nat index mod 4 :: u64), node_packets = packets ! index, node_operational = True,
      node_label = ascii ''observer-'' @ decimal_bytes (unat (of_nat index + 1 :: u64))\<rparr>"

definition CudaBackend_step ::
  "(cuda_call \<Rightarrow> bool) \<Rightarrow> (u32 \<Rightarrow> u32) \<Rightarrow> (u32 \<Rightarrow> u32) \<Rightarrow> (nat \<times> nat) list \<Rightarrow> u64 \<Rightarrow> CudaBackend \<Rightarrow>
   (cuda_call + TopologyScene) \<times> CudaBackend" where
  "CudaBackend_step succeeds device_cos device_sin schedule tick b =
     (if \<not> succeeds cuda_launch then (Inl cuda_launch, b)
      else
        let count = cuda_observers b;
            memory = cuda_launch_grid device_cos device_sin count tick (config_seed (cuda_config b)) schedule (cuda_memory b);
            b = b\<lparr>cuda_memory := memory\<rparr>
        in if \<not> succeeds cuda_copy_positions then (Inl cuda_copy_positions, b)
           else if \<not> succeeds cuda_copy_counters then (Inl cuda_copy_counters, b)
           else
             let positions = device_positions memory;
                 packets = device_packets memory;
                 scene = foldl (\<lambda>scene index.
                     TopologyScene_upsert_link \<lparr>link_source = 1, link_destination = ucast (of_nat index + 2 :: u64),
                         link_packets = packets ! index, link_operational = True\<rparr>
                       (TopologyScene_upsert_node (cuda_scene_node tick positions packets index) scene))
                   (TopologyScene_upsert_node (cpu_switch_node tick) empty_scene)
                   [0..<unat count]
             in (Inr scene, b))"

section \<open>What the device computes\<close>

definition observer_computed ::
  "(u64 \<Rightarrow> u64 \<Rightarrow> u32 \<times> u32) \<Rightarrow> u64 \<Rightarrow> u64 \<Rightarrow> nat \<Rightarrow> cuda_device \<Rightarrow> bool" where
  "observer_computed position tick seed index d \<longleftrightarrow>
     device_positions d ! (index * 2) = fst (position (of_nat index) tick) \<and>
     device_positions d ! (index * 2 + 1) = snd (position (of_nat index) tick) \<and>
     device_packets d ! index = tick * (of_nat index + 1) * 17 + seed"

definition device_fits :: "u64 \<Rightarrow> cuda_device \<Rightarrow> bool" where
  "device_fits count d \<longleftrightarrow> length (device_positions d) = unat count * 2 \<and> length (device_packets d) = unat count"

lemma update_fits:
  "device_fits count d \<Longrightarrow> device_fits count (update_observers device_cos device_sin count tick seed bt d)"
  by (cases bt) (simp add: device_fits_def update_observers_def Let_def)

text \<open>The kernel's phase is the one of the CPU backend.\<close>

lemma kernel_phase_cpu: "kernel_phase index count tick = cpu_phase count index tick"
  by (simp add: kernel_phase_def cpu_phase_def kernel_pi_def cpu_pi_def)

lemma update_computes:
  assumes fits: "device_fits count d" and "index < unat count"
    and "bt = (index div 256, index mod 256) \<or> observer_computed (cpu_position device_cos device_sin count) tick seed index d"
  shows "observer_computed (cpu_position device_cos device_sin count) tick seed index
    (update_observers device_cos device_sin count tick seed bt d)"
proof -
  obtain block thread where bt: "bt = (block, thread)" by fastforce
  let ?i = "block * 256 + thread"
  have own: "bt = (index div 256, index mod 256) \<Longrightarrow> ?i = index" by (simp add: bt)
  have apart: "?i \<noteq> index \<Longrightarrow> index * 2 \<noteq> ?i * 2 \<and> index * 2 \<noteq> ?i * 2 + 1 \<and> index * 2 + 1 \<noteq> ?i * 2 \<and> index * 2 + 1 \<noteq> ?i * 2 + 1"
    by presburger
  show ?thesis
  proof (cases "?i = index")
    case True
    then show ?thesis
      using fits assms(2)
      by (simp add: bt update_observers_def observer_computed_def device_fits_def nth_list_update kernel_phase_cpu
          cpu_position_def Let_def)
  next
    case False
    then have "observer_computed (cpu_position device_cos device_sin count) tick seed index d" using assms(3) own by blast
    then show ?thesis
      using apart [OF False] False fits assms(2)
      by (simp add: bt update_observers_def observer_computed_def device_fits_def nth_list_update Let_def)
  qed
qed

lemma launch_computes:
  assumes "device_fits count d" and "index < unat count"
    and "(index div 256, index mod 256) \<in> set schedule \<or>
      observer_computed (cpu_position device_cos device_sin count) tick seed index d"
  shows "observer_computed (cpu_position device_cos device_sin count) tick seed index
    (cuda_launch_grid device_cos device_sin count tick seed schedule d)"
  using assms unfolding cuda_launch_grid_def
proof (induction schedule arbitrary: d)
  case (Cons bt schedule)
  let ?d = "update_observers device_cos device_sin count tick seed bt d"
  have "(index div 256, index mod 256) \<in> set schedule \<or>
      observer_computed (cpu_position device_cos device_sin count) tick seed index ?d"
    using update_computes [OF Cons.prems(1,2), of bt device_cos device_sin tick seed] Cons.prems(3) by auto
  with Cons.IH [of ?d] Cons.prems(2) update_fits [OF Cons.prems(1)] show ?case by simp
qed simp

text \<open>As long as the number of blocks fits 32 bits, the grid has a thread for every observer.\<close>

lemma grid_covers:
  assumes "unat count < 2 ^ 40 - 256" and "index < unat count"
  shows "(index div 256, index mod 256) \<in> cuda_grid count"
proof -
  have sum: "unat (count + 256 - 1) = unat count + 255"
    using assms(1) by (subst add_diff_eq [symmetric]) (simp add: unat_word_ariths)
  have "unat ((count + 256 - 1) div 256) = (unat count + 255) div 256"
    by (simp only: unat_div_distrib sum) simp
  moreover have "(unat count + 255) div 256 < 2 ^ 32" using assms(1) by simp
  ultimately have "unat (cuda_block_count count) = (unat count + 255) div 256"
    by (simp add: cuda_block_count_def unsigned_ucast_eq take_bit_nat_eq_self)
  then show ?thesis using assms(2) by (simp add: cuda_grid_def)
qed

lemma computed_node:
  "observer_computed position tick (config_seed config) index d \<Longrightarrow>
   cuda_scene_node tick (device_positions d) (device_packets d) index = cpu_observer_node position config tick (of_nat index)"
  "observer_computed position tick (config_seed config) index d \<Longrightarrow>
   \<lparr>link_source = 1, link_destination = ucast (of_nat index + 2 :: u64), link_packets = device_packets d ! index,
    link_operational = True\<rparr> = cpu_link config tick (of_nat index)"
  by (simp_all add: observer_computed_def cuda_scene_node_def cpu_observer_node_def cpu_packets_def cpu_link_def)

lemma create_fits:
  "CudaBackend_create succeeds memory config = Inr b \<Longrightarrow>
   cuda_config b = config \<and> cuda_observers b = cpu_count config \<and> cuda_memory b = memory"
  by (auto simp: CudaBackend_create_def cpu_count_def Let_def split: if_splits)

text \<open>With the trigonometry of the device in the place of the processor's, the CPU backend shows the same scene.\<close>

lemma cuda_step_cpu:
  assumes created: "CudaBackend_create succeeds memory config = Inr b"
    and fits: "device_fits (cpu_count config) memory" and small: "unat (cpu_count config) < 2 ^ 40 - 256"
    and schedule: "set schedule = cuda_grid (cpu_count config)"
    and succeeds: "succeeds cuda_launch" "succeeds cuda_copy_positions" "succeeds cuda_copy_counters"
  shows "fst (CudaBackend_step succeeds device_cos device_sin schedule tick b) =
    Inr (CpuBackend_step (cpu_position device_cos device_sin (cpu_count config)) config tick)"
proof -
  let ?n = "unat (cpu_count config)" and ?position = "cpu_position device_cos device_sin (cpu_count config)"
  let ?d = "cuda_launch_grid device_cos device_sin (cpu_count config) tick (config_seed config) schedule memory"
  have computed: "observer_computed ?position tick (config_seed config) index ?d" if "index < ?n" for index
    using launch_computes [OF fits that] grid_covers [OF small that] schedule by blast
  have b: "cuda_config b = config" "cuda_observers b = cpu_count config" "cuda_memory b = memory"
    using create_fits [OF created] by simp_all
  have "foldl (\<lambda>scene index.
        TopologyScene_upsert_link \<lparr>link_source = 1, link_destination = ucast (of_nat index + 2 :: u64),
            link_packets = device_packets ?d ! index, link_operational = True\<rparr>
          (TopologyScene_upsert_node (cuda_scene_node tick (device_positions ?d) (device_packets ?d) index) scene))
      (TopologyScene_upsert_node (cpu_switch_node tick) empty_scene) [0..<?n] = CpuBackend_step ?position config tick"
    unfolding CpuBackend_step_def
    by (rule foldl_cong) (simp_all add: computed_node [OF computed])
  then show ?thesis using succeeds by (simp add: CudaBackend_step_def Let_def b)
qed

section \<open>Tolerances\<close>

text \<open>
  How far apart the coordinates may be. Two functions are \<open>trig_within\<close> a bound if their results for finite numbers
  differ by no more; two nodes agree within a tolerance if nothing but their coordinates differs, and these by no more.
\<close>

definition trig_within :: "rat \<Rightarrow> (u32 \<Rightarrow> u32) \<Rightarrow> (u32 \<Rightarrow> u32) \<Rightarrow> bool" where
  "trig_within bound f g \<longleftrightarrow> (\<forall>p. single_finite p \<longrightarrow> \<bar>single_value (f p) - single_value (g p)\<bar> \<le> bound)"

definition node_agrees :: "rat \<Rightarrow> TopologyNode \<Rightarrow> TopologyNode \<Rightarrow> bool" where
  "node_agrees tolerance n m \<longleftrightarrow> n\<lparr>node_x := node_x m, node_y := node_y m\<rparr> = m \<and>
     \<bar>single_value (node_x n) - single_value (node_x m)\<bar> \<le> tolerance \<and>
     \<bar>single_value (node_y n) - single_value (node_y m)\<bar> \<le> tolerance"

definition scene_agrees :: "rat \<Rightarrow> TopologyScene \<Rightarrow> TopologyScene \<Rightarrow> bool" where
  "scene_agrees tolerance s t \<longleftrightarrow>
     list_all2 (node_agrees tolerance) (scene_nodes s) (scene_nodes t) \<and> scene_links s = scene_links t"

text \<open>The difference of two rounded products by the radius: that of the factors, scaled, and twice half a unit.\<close>

lemma scaled_bound:
  fixes r :: rat
  assumes "0 \<le> r" and "\<bar>x - y\<bar> \<le> bound"
  shows "\<bar>r * x - r * y\<bar> \<le> r * bound"
proof -
  have "r * \<bar>x - y\<bar> \<le> r * bound" using assms by (rule mult_left_mono [rotated])
  then show ?thesis using assms(1) by (simp add: right_diff_distrib [symmetric] abs_mult)
qed

lemma rounded_difference:
  fixes a b x y :: rat
  assumes "\<bar>a - x\<bar> \<le> half" and "\<bar>b - y\<bar> \<le> half" and "\<bar>x - y\<bar> \<le> t" and "half + half = unit"
  shows "\<bar>a - b\<bar> \<le> t + unit"
  using assms by linarith

lemma radius_difference:
  assumes "\<bar>single_value c\<bar> \<le> 1" and "\<bar>single_value d\<bar> \<le> 1" and "\<bar>single_value c - single_value d\<bar> \<le> bound"
  shows "\<bar>single_value (single_multiply 0x3F3851EC c) - single_value (single_multiply 0x3F3851EC d)\<bar> \<le>
    single_value 0x3F3851EC * bound + 1 / 2 ^ 24"
proof -
  let ?r = "single_value 0x3F3851EC"
  have "\<bar>?r * single_value c\<bar> < 1" "\<bar>?r * single_value d\<bar> < 1"
    using assms(1,2) by (simp_all add: abs_mult)
  from this [THEN single_multiply_error]
  have "\<bar>single_value (single_multiply 0x3F3851EC c) - ?r * single_value c\<bar> \<le> 1 / 2 ^ 25"
    "\<bar>single_value (single_multiply 0x3F3851EC d) - ?r * single_value d\<bar> \<le> 1 / 2 ^ 25" .
  moreover have "\<bar>?r * single_value c - ?r * single_value d\<bar> \<le> ?r * bound"
    by (rule scaled_bound [OF _ assms(3)]) simp
  ultimately show ?thesis by (rule rounded_difference) simp
qed

lemma vec_upsert_all2:
  assumes "list_all2 P xs ys" and "P x y" and keys: "\<And>a b. P a b \<Longrightarrow> key a = key b"
  shows "list_all2 P (snd (vec_upsert key x xs)) (snd (vec_upsert key y ys))"
proof -
  have "find_if (\<lambda>z. key z = key x) xs = find_if (\<lambda>z. key z = key y) ys"
    using assms(1) keys [OF assms(2)] by (induction rule: list_all2_induct) (auto dest: keys)
  then show ?thesis
    using assms(1,2) by (auto simp: vec_upsert_def list_all2_update_cong list_all2_appendI split: option.split)
qed

lemma upsert_agrees:
  assumes "scene_agrees tolerance s t" and "node_agrees tolerance n m"
  shows "scene_agrees tolerance (TopologyScene_upsert_link link (TopologyScene_upsert_node n s))
    (TopologyScene_upsert_link link (TopologyScene_upsert_node m t))"
proof -
  have "node_id a = node_id b" if "node_agrees tolerance a b" for a b
    using that by (cases a; cases b) (simp add: node_agrees_def)
  from vec_upsert_all2 [where P = "node_agrees tolerance" and key = node_id, OF _ assms(2) this] assms(1) show ?thesis
    by (simp add: scene_agrees_def upsert_node_eq upsert_link_eq)
qed

lemma cpu_steps_agree:
  assumes close: "\<And>index. node_agrees tolerance (cpu_observer_node position config tick index) (cpu_observer_node position' config tick index)"
    and "0 \<le> tolerance"
  shows "scene_agrees tolerance (CpuBackend_step position config tick) (CpuBackend_step position' config tick)"
proof -
  let ?f = "\<lambda>position scene index. TopologyScene_upsert_link (cpu_link config tick (of_nat index))
           (TopologyScene_upsert_node (cpu_observer_node position config tick (of_nat index)) scene)"
  let ?start = "TopologyScene_upsert_node (cpu_switch_node tick) empty_scene"
  have "scene_agrees tolerance ?start ?start"
    using assms(2) by (simp add: scene_agrees_def node_agrees_def upsert_node_eq empty_scene_def vec_upsert_def)
  then have "scene_agrees tolerance (foldl (?f position) ?start [0..<n]) (foldl (?f position') ?start [0..<n])" for n
    by (induction n) (simp_all add: upsert_agrees [OF _ close])
  then show ?thesis by (simp add: CpuBackend_step_def)
qed

text \<open>
  Property C20: both backends show the same scene, but for what their trigonometry makes different. Assume that the
  allocations and the calls of the step succeed, that the device arrays have the size that was allocated, that the
  grid's threads all run, in any order and over any contents of the memory, and that there are few enough observers
  (fewer than \<open>2 ^ 40 - 256\<close>) for the block count to fit its 32 bits; and that all four functions map finite
  numbers to finite ones from -1 to 1. If the cosines of device and processor and their sines differ by at most \<open>bound\<close>
  anywhere, then the step returns a scene with the links of the CPU backend's scene for the same configuration and
  tick, and with its nodes, in order, with equal identifiers, VLANs, counters, states and labels, whose coordinates
  differ by at most 0.72 times \<open>bound\<close> and \<open>2 ^ -24\<close>. If the functions are the same, so are the scenes.
\<close>

theorem cuda_backend_agrees_with_cpu:
  assumes created: "CudaBackend_create succeeds memory config = Inr b"
    and fits: "device_fits (cpu_count config) memory" and small: "unat (cpu_count config) < 2 ^ 40 - 256"
    and schedule: "set schedule = cuda_grid (cpu_count config)"
    and succeeds: "succeeds cuda_launch" "succeeds cuda_copy_positions" "succeeds cuda_copy_counters"
    and unit: "unit_contract device_cos" "unit_contract device_sin" "unit_contract host_cos" "unit_contract host_sin"
    and close: "trig_within bound device_cos host_cos" "trig_within bound device_sin host_sin"
  shows "\<exists>scene. fst (CudaBackend_step succeeds device_cos device_sin schedule tick b) = Inr scene \<and>
    scene_agrees (single_value 0x3F3851EC * bound + 1 / 2 ^ 24) scene
      (CpuBackend_step (cpu_position host_cos host_sin (cpu_count config)) config tick) \<and>
    (device_cos = host_cos \<and> device_sin = host_sin \<longrightarrow>
       scene = CpuBackend_step (cpu_position host_cos host_sin (cpu_count config)) config tick)"
proof -
  let ?count = "cpu_count config" and ?tolerance = "single_value 0x3F3851EC * bound + 1 / 2 ^ 24"
  have "?count \<noteq> 0" by (simp add: cpu_count_def)
  then have finite: "single_finite (cpu_phase ?count index tick)" for index using cpu_phase_finite by blast
  have "\<bar>single_value (single_multiply 0x3F3851EC (f (cpu_phase ?count index tick))) -
      single_value (single_multiply 0x3F3851EC (g (cpu_phase ?count index tick)))\<bar> \<le> ?tolerance"
    if "unit_contract f" "unit_contract g" "trig_within bound f g" for f g index
    using that finite [of index] unfolding unit_contract_def trig_within_def by (intro radius_difference) blast+
  with unit close have "node_agrees ?tolerance (cpu_observer_node (cpu_position device_cos device_sin ?count) config tick index)
      (cpu_observer_node (cpu_position host_cos host_sin ?count) config tick index)" for index
    unfolding node_agrees_def cpu_observer_node_def cpu_position_def Let_def by simp
  moreover have "0 \<le> bound" using close(1) finite [of 0] unfolding trig_within_def by (meson abs_ge_zero order_trans)
  then have "0 \<le> ?tolerance" by simp
  ultimately show ?thesis
    using cuda_step_cpu [OF created fits small schedule succeeds] cpu_steps_agree by blast
qed

text \<open>A device whose cosine is one and whose sine is zero everywhere, next to a processor with the sine one.\<close>

theorem cuda_backend_agrees_with_cpu_witness:
  "\<exists>scene. fst (CudaBackend_step (\<lambda>_. True) (\<lambda>_. 0x3F800000) (\<lambda>_. 0) (List.product [0] (rev [0..<256])) 5
      \<lparr>cuda_config = \<lparr>config_observer_count = 2, config_seed = 1\<rparr>, cuda_observers = 2,
        cuda_memory = \<lparr>device_positions = [9, 9, 9, 9], device_packets = [8, 8]\<rparr>\<rparr>) = Inr scene \<and>
    scene_agrees (single_value 0x3F3851EC * 1 + 1 / 2 ^ 24) scene
      (CpuBackend_step (cpu_position (\<lambda>_. 0x3F800000) (\<lambda>_. 0x3F800000) 2) \<lparr>config_observer_count = 2, config_seed = 1\<rparr> 5)"
proof -
  let ?config = "\<lparr>config_observer_count = 2, config_seed = 1\<rparr>"
  let ?memory = "\<lparr>device_positions = [9, 9, 9, 9], device_packets = [8, 8]\<rparr>"
  have count: "cpu_count ?config = 2" by (simp add: cpu_count_def)
  have one: "single_value 0x3F800000 = 1" "single_finite 0x3F800000" "single_finite 0"
    by (simp_all add: single_value_def single_negative_def pattern_units_def pattern_shift_def single_scale_def single_finite_def)
  have created: "CudaBackend_create (\<lambda>_. True) ?memory ?config =
      Inr \<lparr>cuda_config = ?config, cuda_observers = 2, cuda_memory = ?memory\<rparr>"
    by (simp add: CudaBackend_create_def)
  have fits: "device_fits (cpu_count ?config) ?memory" "unat (cpu_count ?config) < 2 ^ 40 - 256"
    by (simp_all add: count device_fits_def)
  have "unat (cuda_block_count 2) = 1" by code_simp
  then have schedule: "set (List.product [0] (rev [0..<256])) = cuda_grid (cpu_count ?config)"
    unfolding count by (auto simp: cuda_grid_def)
  have unit: "unit_contract (\<lambda>_. 0x3F800000)" "unit_contract (\<lambda>_. 0)" by (simp_all add: unit_contract_def one)
  have close: "trig_within 1 (\<lambda>_. 0x3F800000) (\<lambda>_. 0x3F800000)" "trig_within 1 (\<lambda>_. 0) (\<lambda>_. 0x3F800000)"
    by (simp_all add: trig_within_def one)
  show ?thesis
    using cuda_backend_agrees_with_cpu [OF created fits schedule TrueI TrueI TrueI unit unit(1,1) close, of 5]
    unfolding count by blast
qed

end
