(* ===== verification/Runtime_Selection.thy ===== *)
theory Runtime_Selection
  imports Cuda_Backend
begin

text \<open>
  \<^verbatim>\<open>simulation/runtime_selection.cpp\<close>: which backend a process runs. The CUDA backend comes in two builds, the
  real one (\<^verbatim>\<open>cuda_backend.cu\<close>) and the stub (\<^verbatim>\<open>cuda_backend_stub.cpp\<close>); both are a
  \<open>cuda_build\<close>. Making a backend can throw when the device refuses the memory.
\<close>

datatype RuntimeMode = mode_automatic | mode_cpu | mode_cuda | mode_observer
datatype RuntimeSelectionError = cuda_not_compiled | cuda_device_unavailable

datatype SimulationBackend = Cpu SimulationConfig | Cuda CudaBackend

record SelectedRuntime =
  selected_mode :: RuntimeMode
  selected_backend :: "SimulationBackend option"

record cuda_build =
  cuda_backend_compiled :: bool
  cuda_device_available :: bool
  make_cuda_backend :: "SimulationConfig \<Rightarrow> cuda_call + SimulationBackend option"

definition make_cpu_backend :: "SimulationConfig \<Rightarrow> SimulationBackend" where
  "make_cpu_backend config = Cpu config"

definition cuda_stub :: cuda_build where
  "cuda_stub = \<lparr>cuda_backend_compiled = False, cuda_device_available = False, make_cuda_backend = (\<lambda>_. Inr None)\<rparr>"

text \<open>\<open>device_count\<close> is what \<^verbatim>\<open>cudaGetDeviceCount\<close> stored, if it succeeded.\<close>

definition cuda_real :: "int option \<Rightarrow> (cuda_call \<Rightarrow> bool) \<Rightarrow> cuda_device \<Rightarrow> cuda_build" where
  "cuda_real device_count succeeds memory =
     \<lparr>cuda_backend_compiled = True,
      cuda_device_available = (case device_count of None \<Rightarrow> False | Some n \<Rightarrow> n > 0),
      make_cuda_backend = (\<lambda>config.
        case CudaBackend_create succeeds memory config of Inl call \<Rightarrow> Inl call | Inr b \<Rightarrow> Inr (Some (Cuda b)))\<rparr>"

definition backend_name :: "SimulationBackend \<Rightarrow> string" where
  "backend_name b = (case b of Cpu _ \<Rightarrow> ''cpu'' | Cuda _ \<Rightarrow> ''cuda'')"

definition backend_accelerated :: "SimulationBackend \<Rightarrow> bool" where
  "backend_accelerated b = (case b of Cpu _ \<Rightarrow> False | Cuda _ \<Rightarrow> True)"

definition parse_runtime_mode :: "string \<Rightarrow> RuntimeMode option" where
  "parse_runtime_mode value =
     (if value = ''auto'' then Some mode_automatic
      else if value = ''cpu'' then Some mode_cpu
      else if value = ''cuda'' then Some mode_cuda
      else if value = ''observer'' then Some mode_observer
      else None)"

definition select_cuda :: "cuda_build \<Rightarrow> SimulationConfig \<Rightarrow> cuda_call + (RuntimeSelectionError + SelectedRuntime)" where
  "select_cuda build config =
     (case make_cuda_backend build config of
        Inl call \<Rightarrow> Inl call
      | Inr backend \<Rightarrow> Inr (Inr \<lparr>selected_mode = mode_cuda, selected_backend = backend\<rparr>))"

definition select_runtime ::
  "cuda_build \<Rightarrow> RuntimeMode \<Rightarrow> SimulationConfig \<Rightarrow> cuda_call + (RuntimeSelectionError + SelectedRuntime)" where
  "select_runtime build requested config =
     (if requested = mode_observer then Inr (Inr \<lparr>selected_mode = mode_observer, selected_backend = None\<rparr>)
      else if requested = mode_cpu then
        Inr (Inr \<lparr>selected_mode = mode_cpu, selected_backend = Some (make_cpu_backend config)\<rparr>)
      else if requested = mode_cuda then
        if \<not> cuda_backend_compiled build then Inr (Inl cuda_not_compiled)
        else if \<not> cuda_device_available build then Inr (Inl cuda_device_unavailable)
        else select_cuda build config
      else if cuda_backend_compiled build \<and> cuda_device_available build then select_cuda build config
      else Inr (Inr \<lparr>selected_mode = mode_cpu, selected_backend = Some (make_cpu_backend config)\<rparr>))"

section \<open>What is selected\<close>

text \<open>Both builds: a build that offers a device makes CUDA backends.\<close>

definition build_ok :: "cuda_build \<Rightarrow> bool" where
  "build_ok build \<longleftrightarrow> (\<forall>config backend. cuda_backend_compiled build \<longrightarrow> cuda_device_available build \<longrightarrow>
     make_cuda_backend build config = Inr backend \<longrightarrow> (\<exists>b. backend = Some (Cuda b) \<and> cuda_config b = config))"

lemma builds_ok: "build_ok cuda_stub" "build_ok (cuda_real device_count succeeds memory)"
  by (auto simp: build_ok_def cuda_stub_def cuda_real_def dest: create_fits split: sum.splits)

text \<open>
  Automatic selection never reports a selection error; a runtime other than the observer's has a backend, of
  the kind its mode names; and a requested mode is the selected one unless it was automatic.
\<close>

lemma select_runtime_consistent:
  assumes "build_ok build" and "select_runtime build requested config = Inr (Inr runtime)"
  shows "(requested = mode_automatic \<or> selected_mode runtime = requested) \<and> selected_mode runtime \<noteq> mode_automatic \<and>
    (selected_backend runtime = None \<longleftrightarrow> requested = mode_observer) \<and>
    (\<forall>b. selected_backend runtime = Some b \<longrightarrow>
       selected_mode runtime = (if backend_accelerated b then mode_cuda else mode_cpu) \<and>
       parse_runtime_mode (backend_name b) = Some (selected_mode runtime))"
proof -
  have cuda: "\<exists>b. runtime = \<lparr>selected_mode = mode_cuda, selected_backend = Some (Cuda b)\<rparr>"
    if "cuda_backend_compiled build" "cuda_device_available build" "select_cuda build config = Inr (Inr runtime)"
    using that assms(1) unfolding build_ok_def select_cuda_def by (fastforce split: sum.splits)
  have "(requested = mode_observer \<and> runtime = \<lparr>selected_mode = mode_observer, selected_backend = None\<rparr>) \<or>
      (requested \<in> {mode_cpu, mode_automatic} \<and> runtime = \<lparr>selected_mode = mode_cpu, selected_backend = Some (Cpu config)\<rparr>) \<or>
      (requested \<in> {mode_cuda, mode_automatic} \<and> (\<exists>b. runtime = \<lparr>selected_mode = mode_cuda, selected_backend = Some (Cuda b)\<rparr>))"
    using assms(2) cuda by (cases requested) (auto simp: select_runtime_def make_cpu_backend_def split: if_splits)
  then show ?thesis by (auto simp: backend_accelerated_def backend_name_def parse_runtime_mode_def)
qed

lemma automatic_selection_succeeds:
  "select_runtime build mode_automatic config \<noteq> Inr (Inl e)"
  by (simp add: select_runtime_def select_cuda_def split: sum.split)

end
