(* ===== verification/Command_Line.thy ===== *)
theory Command_Line
  imports Text_Format Discovery_Protocol Authoritative_Server Runtime_Selection
begin

text \<open>
  The command lines of the programs under \<^verbatim>\<open>apps/\<close>: numbers, ports, endpoints, capabilities and options. The
  arguments are \<^verbatim>\<open>argv\<close> from index 1 on. A usage error is \<open>None\<close>.
\<close>

section \<open>Numbers\<close>

text \<open>
  \<^verbatim>\<open>std::stoull\<close> and, where \<^verbatim>\<open>unsigned long\<close> has 64 bits, \<^verbatim>\<open>std::stoul\<close>: blanks, an optional sign, digits.
  The result is the value, negated modulo 64 bits after a minus sign, and the number of characters read;
  \<open>None\<close> is \<^verbatim>\<open>std::invalid_argument\<close> (no digit) or \<^verbatim>\<open>std::out_of_range\<close>.
\<close>

definition is_blank :: "char \<Rightarrow> bool" where
  "is_blank c \<longleftrightarrow> c = CHR '' '' \<or> ((9 :: nat) \<le> of_char c \<and> of_char c \<le> (13 :: nat))"

definition std_stoull :: "string \<Rightarrow> (u64 \<times> nat) option" where
  "std_stoull s =
     (let blanks = takeWhile is_blank s;
          rest = drop (length blanks) s;
          signed = (rest \<noteq> [] \<and> (hd rest = CHR ''-'' \<or> hd rest = CHR ''+''));
          digits = takeWhile is_digit (if signed then tl rest else rest);
          magnitude = digits_value digits
      in if digits = [] \<or> magnitude \<ge> 2 ^ 64 then None
         else Some (if signed \<and> hd rest = CHR ''-'' then - of_nat magnitude else of_nat magnitude,
                    length blanks + (if signed then 1 else 0) + length digits))"

definition app_number :: "string \<Rightarrow> u64 option" where
  "app_number value =
     (case std_stoull value of
        None \<Rightarrow> None
      | Some (result, parsed) \<Rightarrow> if parsed = length value then Some result else None)"

definition parse_port :: "string \<Rightarrow> u16 option" where
  "parse_port value =
     (case std_stoull value of
        None \<Rightarrow> None
      | Some (port, parsed) \<Rightarrow>
          if parsed \<noteq> length value \<or> port = 0 \<or> port > 65535 then None else Some (ucast port))"

text \<open>\<^verbatim>\<open>value.rfind(':')\<close>, and the text before and after it.\<close>

definition rfind :: "char \<Rightarrow> string \<Rightarrow> nat option" where
  "rfind c s = (if c \<in> set s then Some (length s - 1 - length (takeWhile (\<lambda>x. x \<noteq> c) (rev s))) else None)"

definition parse_endpoint :: "string \<Rightarrow> ObserverEndpoint option" where
  "parse_endpoint value =
     (case rfind (CHR '':'') value of
        None \<Rightarrow> None
      | Some separator \<Rightarrow>
          if separator = 0 then None
          else
            case std_stoull (drop (separator + 1) value) of
              None \<Rightarrow> None
            | Some (port, parsed) \<Rightarrow>
                if port = 0 \<or> port > 65535 then None
                else Some \<lparr>endpoint_address = take separator value, endpoint_port = ucast port\<rparr>)"

section \<open>Text\<close>

text \<open>\<^verbatim>\<open>value.find(pattern) != npos\<close>.\<close>

fun contains_text :: "string \<Rightarrow> string \<Rightarrow> bool" where
  "contains_text [] pattern = (pattern = [])"
| "contains_text (c # s) pattern = (take (length pattern) (c # s) = pattern \<or> contains_text s pattern)"

definition parse_capabilities :: "string \<Rightarrow> Capability" where
  "parse_capabilities value =
     (let result = capability_none;
          result = (if contains_text value ''cuda'' then capability_or result capability_cuda else result);
          result = (if contains_text value ''opengl'' then capability_or result capability_opengl else result);
          result = (if contains_text value ''control'' then capability_or result capability_control_client else result)
      in result)"

fun escaped :: "string \<Rightarrow> string" where
  "escaped [] = []"
| "escaped (c # s) =
     (if c = CHR 34 \<or> c = CHR 92 then CHR 92 # c # escaped s else c # escaped s)"

text \<open>Reading an escaped text back: a backslash stands before the character it protects.\<close>

fun unescape :: "string \<Rightarrow> string" where
  "unescape [] = []"
| "unescape [c] = [c]"
| "unescape (c # d # s) = (if c = CHR 92 then d # unescape s else c # unescape (d # s))"

section \<open>Options of the observer node\<close>

record observer_options =
  options_address :: string
  options_name :: string
  options_port :: u16
  options_updates :: u64
  options_timeout_ms :: u64

definition default_options :: observer_options where
  "default_options = \<lparr>options_address = ''0.0.0.0'', options_name = ''observer'', options_port = 0,
     options_updates = 60, options_timeout_ms = 10000\<rparr>"

fun parse_options_loop :: "string list \<Rightarrow> observer_options \<Rightarrow> observer_options option" where
  "parse_options_loop [] options = Some options"
| "parse_options_loop [argument] options = None"
| "parse_options_loop (argument # value # rest) options =
     (if argument = ''--listen'' then parse_options_loop rest (options\<lparr>options_address := value\<rparr>)
      else if argument = ''--name'' then parse_options_loop rest (options\<lparr>options_name := value\<rparr>)
      else if argument = ''--port'' then
        case app_number value of
          None \<Rightarrow> None
        | Some n \<Rightarrow> if n = 0 \<or> n > 65535 then None else parse_options_loop rest (options\<lparr>options_port := ucast n\<rparr>)
      else if argument = ''--updates'' then
        case app_number value of
          None \<Rightarrow> None
        | Some n \<Rightarrow> if n = 0 then None else parse_options_loop rest (options\<lparr>options_updates := n\<rparr>)
      else if argument = ''--timeout-ms'' then
        case app_number value of
          None \<Rightarrow> None
        | Some n \<Rightarrow> if n = 0 then None else parse_options_loop rest (options\<lparr>options_timeout_ms := n\<rparr>)
      else None)"

definition parse_options :: "string list \<Rightarrow> observer_options option" where
  "parse_options arguments =
     (case parse_options_loop arguments default_options of
        None \<Rightarrow> None
      | Some options \<Rightarrow> if options_port options = 0 then None else Some options)"

section \<open>Options of the simulation server\<close>

record server_options =
  server_mode :: RuntimeMode
  server_endpoints :: "ObserverEndpoint list"
  server_maximum_ticks :: u64
  server_rate :: u64

definition default_server_options :: server_options where
  "default_server_options = \<lparr>server_mode = mode_automatic, server_endpoints = [], server_maximum_ticks = 0, server_rate = 30\<rparr>"

text \<open>
  \<^verbatim>\<open>--ticks\<close> and \<^verbatim>\<open>--hz\<close> take what \<^verbatim>\<open>std::stoull\<close> returns, and its exceptions leave \<^verbatim>\<open>main\<close>: both
  that and a usage error end the process without a server.
\<close>

fun parse_server_options :: "string list \<Rightarrow> server_options \<Rightarrow> server_options option" where
  "parse_server_options [] options = Some options"
| "parse_server_options [argument] options = None"
| "parse_server_options (argument # value # rest) options =
     (if argument = ''--backend'' then
        case parse_runtime_mode value of
          None \<Rightarrow> None
        | Some mode \<Rightarrow> if mode = mode_observer then None else parse_server_options rest (options\<lparr>server_mode := mode\<rparr>)
      else if argument = ''--observer'' then
        case parse_endpoint value of
          None \<Rightarrow> None
        | Some endpoint \<Rightarrow> parse_server_options rest (options\<lparr>server_endpoints := server_endpoints options @ [endpoint]\<rparr>)
      else if argument = ''--ticks'' then
        case std_stoull value of
          None \<Rightarrow> None
        | Some (n, _) \<Rightarrow> parse_server_options rest (options\<lparr>server_maximum_ticks := n\<rparr>)
      else if argument = ''--hz'' then
        case std_stoull value of
          None \<Rightarrow> None
        | Some (n, _) \<Rightarrow> if n = 0 \<or> n > 1000 then None else parse_server_options rest (options\<lparr>server_rate := n\<rparr>)
      else None)"

section \<open>Options of the observer window\<close>

record window_options =
  window_address :: string
  window_name :: string
  window_port :: "u16 option"

definition default_window_options :: window_options where
  "default_window_options = \<lparr>window_address = ''0.0.0.0'', window_name = ''observer'', window_port = None\<rparr>"

text \<open>An error forgets the port and ends the loop; a bad port can still be followed by a good one.\<close>

fun parse_window_options :: "string list \<Rightarrow> window_options \<Rightarrow> window_options" where
  "parse_window_options [] options = options"
| "parse_window_options [argument] options = options\<lparr>window_port := None\<rparr>"
| "parse_window_options (argument # value # rest) options =
     (if argument = ''--listen'' then parse_window_options rest (options\<lparr>window_address := value\<rparr>)
      else if argument = ''--port'' then parse_window_options rest (options\<lparr>window_port := parse_port value\<rparr>)
      else if argument = ''--name'' then parse_window_options rest (options\<lparr>window_name := value\<rparr>)
      else options\<lparr>window_port := None\<rparr>)"

section \<open>What is read back\<close>

lemma unescape_escaped: "unescape (escaped s) = s"
proof (induction s)
  case (Cons c s)
  show ?case
  proof (cases "c = CHR 34 \<or> c = CHR 92")
    case True
    then show ?thesis using Cons by auto
  next
    case False
    then show ?thesis using Cons by (cases "escaped s") auto
  qed
qed simp

lemma takeWhile_digits: "list_all is_digit ds \<Longrightarrow> takeWhile is_digit ds = ds"
  by (simp add: list_all_iff)

lemma digit_not_blank: "is_digit c \<Longrightarrow> \<not> is_blank c \<and> c \<noteq> CHR ''-'' \<and> c \<noteq> CHR ''+''"
  by (auto simp: is_digit_def is_blank_def)

lemma stoull_decimal: "n < 2 ^ 64 \<Longrightarrow> std_stoull (decimal n) = Some (of_nat n, length (decimal n))"
proof -
  assume n: "n < 2 ^ 64"
  obtain c ds where d: "decimal n = c # ds" by (cases "decimal n") simp_all
  have "is_digit c" using decimal_digits [of n] by (simp add: d)
  then have "\<not> is_blank c" "c \<noteq> CHR ''-''" "c \<noteq> CHR ''+''" using digit_not_blank by simp_all
  then show ?thesis
    using n takeWhile_digits [OF decimal_digits, of n] digits_value_decimal [of n]
    by (simp add: std_stoull_def Let_def d)
qed

lemma number_decimal: "n < 2 ^ 64 \<Longrightarrow> app_number (decimal n) = Some (of_nat n)"
  by (simp add: app_number_def stoull_decimal)

lemma port_word:
  assumes "0 < n" and "n < 65536"
  shows "(of_nat n :: u64) \<noteq> 0" "\<not> (65535 :: u64) < of_nat n" "(ucast (of_nat n :: u64) :: u16) = of_nat n"
proof -
  have u: "unat (of_nat n :: u64) = n" using assms by (simp add: unat_of_nat)
  show "(of_nat n :: u64) \<noteq> 0" using u assms(1) by (metis gr_implies_not0 unat_0)
  show "\<not> (65535 :: u64) < of_nat n" using u assms(2) by (simp add: word_less_nat_alt)
  show "(ucast (of_nat n :: u64) :: u16) = of_nat n"
    using u assms(2) by (simp add: word_unat_eq_iff unsigned_ucast_eq unat_of_nat take_bit_nat_eq_self)
qed

lemma parse_port_decimal: "0 < n \<Longrightarrow> n < 65536 \<Longrightarrow> parse_port (decimal n) = Some (of_nat n)"
  using port_word [of n] by (simp add: parse_port_def stoull_decimal)

lemma digit_not_colon: "is_digit c \<Longrightarrow> c \<noteq> CHR '':''"
  by (auto simp: is_digit_def)

lemma rfind_last:
  assumes "c \<notin> set b"
  shows "rfind c (a @ c # b) = Some (length a)"
proof -
  have "takeWhile (\<lambda>x. x \<noteq> c) (rev b @ c # rev a) = rev b"
    by (subst takeWhile_append2) (use assms in auto)
  then show ?thesis by (simp add: rfind_def)
qed

lemma parse_endpoint_text:
  assumes "address \<noteq> []" and "0 < n" and "n < 65536"
  shows "parse_endpoint (address @ CHR '':'' # decimal n) = Some \<lparr>endpoint_address = address, endpoint_port = of_nat n\<rparr>"
proof -
  have "CHR '':'' \<notin> set (decimal n)" using digit_not_colon decimal_digits [of n] by (auto simp: list_all_iff)
  then show ?thesis
    using assms port_word [of n] rfind_last [of "CHR '':''" "decimal n" address]
    by (simp add: parse_endpoint_def stoull_decimal)
qed

section \<open>What a command line can ask for\<close>

definition server_options_ok :: "server_options \<Rightarrow> bool" where
  "server_options_ok options \<longleftrightarrow> server_mode options \<noteq> mode_observer \<and> 1 \<le> server_rate options \<and> server_rate options \<le> 1000 \<and>
     (\<forall>endpoint \<in> set (server_endpoints options). endpoint_address endpoint \<noteq> [] \<and> endpoint_port endpoint \<noteq> 0)"

lemma parse_endpoint_ok:
  "parse_endpoint value = Some endpoint \<Longrightarrow> endpoint_address endpoint \<noteq> [] \<and> endpoint_port endpoint \<noteq> 0"
proof -
  assume "parse_endpoint value = Some endpoint"
  then obtain separator port where e: "rfind (CHR '':'') value = Some separator" "separator \<noteq> 0"
      "port \<noteq> 0" "\<not> port > (65535 :: u64)" "endpoint = \<lparr>endpoint_address = take separator value, endpoint_port = ucast port\<rparr>"
    by (auto simp: parse_endpoint_def split: option.splits if_splits)
  have "value \<noteq> []" using e(1) by (auto simp: rfind_def)
  moreover have "unat (ucast port :: u16) = unat port"
    using e(4) by (simp add: unsigned_ucast_eq take_bit_nat_eq_self word_less_nat_alt)
  then have "(ucast port :: u16) \<noteq> 0" using e(3) by (metis unat_eq_zero)
  ultimately show ?thesis using e(2,5) by simp
qed

lemma parse_server_options_ok:
  "parse_server_options arguments options = Some parsed \<Longrightarrow> server_options_ok options \<Longrightarrow> server_options_ok parsed"
proof (induction arguments options rule: parse_server_options.induct)
  case (3 argument val rest options)
  have rate: "n \<noteq> 0 \<Longrightarrow> (1 :: u64) \<le> n" for n by (simp add: word_le_nat_alt unat_gt_0 Suc_le_eq)
  have add: "server_options_ok (options\<lparr>server_endpoints := server_endpoints options @ [endpoint]\<rparr>)"
    if "parse_endpoint val = Some endpoint" for endpoint
    using parse_endpoint_ok [OF that] "3.prems"(2) by (auto simp: server_options_ok_def)
  show ?case
    using "3.prems" "3.IH" add rate
    by (auto simp: server_options_ok_def not_less split: if_splits option.splits) blast
qed simp_all

end
