(* ===== verification/Discovery_Tool.thy ===== *)
theory Discovery_Tool
  imports Discovery_Service Command_Line "HOL-Library.Code_Target_Nat"
begin

text \<open>
  \<^verbatim>\<open>apps/discovery/main.cpp\<close>: the two commands around the responder and the client. Arguments that the standard
  library cannot convert throw, and \<^verbatim>\<open>main\<close> reports the exception; the socket of the command is closed on
  every way out. \<open>arguments\<close> are those after the program's name. The value of a command is what it does if the
  system's calls return: \<^verbatim>\<open>recvfrom\<close> may also wait for ever (\<open>advertise\<close> sets no receive timeout, and a timeout of zero
  is none), and \<open>discover\<close> has no value (\<open>None\<close>) if datagrams never stop coming.
\<close>

section \<open>The commands\<close>

datatype tool_exit =
  tool_usage | tool_exception | tool_failure | tool_responded bytes | tool_found string bool

definition std_stoll :: "string \<Rightarrow> int option" where
  "std_stoll s =
     (let rest = dropWhile is_blank s;
          signed = (rest \<noteq> [] \<and> (hd rest = CHR ''-'' \<or> hd rest = CHR ''+''));
          digits = takeWhile is_digit (if signed then tl rest else rest);
          value = (if signed \<and> hd rest = CHR ''-'' then - int (digits_value digits) else int (digits_value digits))
      in if digits = [] \<or> value < - (2 ^ 63) \<or> value \<ge> 2 ^ 63 then None else Some value)"

definition text_of :: "bytes \<Rightarrow> string" where
  "text_of bs = map char_of_byte bs"

definition print_machine :: "DiscoveredMachine \<Rightarrow> string" where
  "print_machine machine =
     ''{\"node_id\":'' @ decimal (unat (machine_node_id machine)) @
     '',\"name\":\"'' @ escaped (text_of (machine_name machine)) @
     ''\",\"address\":\"'' @ escaped (text_of (machine_address machine)) @
     ''\",\"role\":\"'' @ (if machine_role machine = role_leader then ''leader'' else ''observer'') @
     ''\",\"control_port\":'' @ decimal (unat (machine_control_port machine)) @
     '',\"state_port\":'' @ decimal (unat (machine_state_port machine)) @ ''}''"

fun print_machines :: "DiscoveredMachine list \<Rightarrow> string" where
  "print_machines [] = ''''"
| "print_machines [machine] = print_machine machine"
| "print_machines (machine # machines) = print_machine machine @ '','' @ print_machines machines"

text \<open>\<open>close\<close> is the destructor of the socket that the command owns.\<close>

definition tool_advertise ::
  "('os, 'addr) udp_calls \<Rightarrow> string list \<Rightarrow> 'os \<Rightarrow> tool_exit \<times> 'os" where
  "tool_advertise sys arguments os =
     (if length arguments \<noteq> 9 then (tool_failure, os)
      else
        let role = (if arguments ! 4 = ''leader'' then role_leader else role_observer) in
        case (std_stoull (arguments ! 3), std_stoull (arguments ! 6), std_stoull (arguments ! 7), std_stoull (arguments ! 2)) of
          (Some (node, _), Some (control_port, _), Some (state_port, _), Some (port, _)) \<Rightarrow>
            let message = DiscoveryMessage_advertisement 1 node role (parse_capabilities (arguments ! 8))
                  (ucast control_port) (ucast state_port) (ascii (arguments ! 5)) in
            (case UdpSocket_bind_ipv4 sys (ascii (arguments ! 1)) (ucast port) os of
               (Inl error, os1) \<Rightarrow> (tool_failure, os1)
             | (Inr socket, os1) \<Rightarrow>
                 (case message of
                    None \<Rightarrow> (tool_failure, call_close sys os1 (udp_handle socket))
                  | Some advertisement \<Rightarrow>
                      (case DiscoveryResponder_respond_once sys
                         \<lparr>responder_socket = socket, responder_advertisement = advertisement\<rparr> os1 of
                         (Inl error, os2) \<Rightarrow> (tool_failure, call_close sys os2 (udp_handle socket))
                       | (Inr address, os2) \<Rightarrow> (tool_responded address, call_close sys os2 (udp_handle socket)))))
        | _ \<Rightarrow> (tool_exception, os))"

definition default_maximum_results :: nat where
  "default_maximum_results = 4"

definition tool_discover ::
  "('os, 'addr) udp_calls \<Rightarrow> u64 \<Rightarrow> string list \<Rightarrow> 'os \<Rightarrow> (tool_exit \<times> 'os) option" where
  "tool_discover sys request_id arguments os =
     (if length arguments < 3 \<or> length arguments > 4 then Some (tool_failure, os)
      else
        case UdpSocket_bind_ipv4 sys (ascii ''0.0.0.0'') 0 os of
          (Inl error, os1) \<Rightarrow> Some (tool_failure, os1)
        | (Inr socket, os1) \<Rightarrow>
            let os2 = snd (UdpSocket_enable_broadcast sys socket os1) in
            (case (if length arguments = 4 then std_stoll (arguments ! 3) else Some 1000) of
               None \<Rightarrow> Some (tool_exception, call_close sys os2 (udp_handle socket))
             | Some timeout \<Rightarrow>
                 let os3 = snd (UdpSocket_set_receive_timeout sys socket timeout os2) in
                 (case std_stoull (arguments ! 2) of
                    None \<Rightarrow> Some (tool_exception, call_close sys os3 (udp_handle socket))
                  | Some (port, _) \<Rightarrow>
                      (case DiscoveryClient_discover_all sys socket (ascii (arguments ! 1)) (ucast port) request_id
                         default_maximum_results os3 of
                         None \<Rightarrow> None
                       | Some (Inl error, os4) \<Rightarrow> Some (tool_failure, call_close sys os4 (udp_handle socket))
                       | Some (Inr machines, os4) \<Rightarrow>
                           Some (tool_found (''{\"machines\":['' @ print_machines machines @ '']}'') (machines \<noteq> []),
                             call_close sys os4 (udp_handle socket))))))"

definition tool_main ::
  "('os, 'addr) udp_calls \<Rightarrow> u64 \<Rightarrow> string list \<Rightarrow> 'os \<Rightarrow> (tool_exit \<times> 'os) option" where
  "tool_main sys request_id arguments os =
     (if arguments = [] then Some (tool_usage, os)
      else if hd arguments = ''advertise'' then Some (tool_advertise sys arguments os)
      else if hd arguments = ''discover'' then tool_discover sys request_id arguments os
      else Some (tool_usage, os))"

section \<open>The tool leaves no socket open\<close>

lemma respond_once_keeps:
  assumes "socket_contract sys opened" and "DiscoveryResponder_respond_once sys responder os = (r, os')"
  shows "opened os' = opened os"
  using assms(2) udp_calls_keep [OF assms(1)]
  by (fastforce simp: DiscoveryResponder_respond_once_def Let_def split: sum.splits prod.splits option.splits if_splits)

lemma discover_all_loop_keeps:
  assumes "discover_all_loop sys socket request_id n machines os = Some result" and "socket_contract sys opened"
  shows "opened (snd result) = opened os"
proof -
  have "socket_contract sys opened \<longrightarrow> opened (snd result) = opened os"
  proof (rule discover_all_loop.raw_induct [OF _ assms(1)])
    fix loop :: "('a, 'b) udp_calls \<Rightarrow> UdpSocket \<Rightarrow> u64 \<Rightarrow> nat \<Rightarrow> DiscoveredMachine list \<Rightarrow> 'a \<Rightarrow> (DiscoveredMachine list \<times> 'a) option"
      and sys :: "('a, 'b) udp_calls" and socket request_id n machines os result
    assume ih: "\<And>sys socket request_id n machines os result. loop sys socket request_id n machines os = Some result \<Longrightarrow>
        socket_contract sys opened \<longrightarrow> opened (snd result) = opened os"
      and body: "(if length machines < n then
        case UdpSocket_receive sys socket (discovery_header_size + maximum_name_size) os of (received, os') \<Rightarrow>
          (case received of
             Inl error \<Rightarrow> Some (machines, os')
           | Inr datagram \<Rightarrow>
               (case DiscoveryMessage_parse (datagram_payload datagram) of
                  Inl error \<Rightarrow> loop sys socket request_id n machines os'
                | Inr advertisement \<Rightarrow>
                    if message_type advertisement \<noteq> message_advertisement \<or> message_request_id advertisement \<noteq> request_id
                    then loop sys socket request_id n machines os'
                    else loop sys socket request_id n
                      (if find (\<lambda>machine. machine_node_id machine = message_node_id advertisement) machines = None
                       then machines @ [discovered_machine advertisement datagram] else machines) os'))
        else Some (machines, os)) = Some result"
    show "socket_contract sys opened \<longrightarrow> opened (snd result) = opened os"
    proof
      assume contract: "socket_contract sys opened"
      obtain received os' where receive: "UdpSocket_receive sys socket (discovery_header_size + maximum_name_size) os = (received, os')"
        by fastforce
      note kept = udp_calls_keep(2) [OF contract receive] ih [THEN mp, OF _ contract]
      show "opened (snd result) = opened os"
        using body kept by (auto simp: receive split: if_splits sum.splits)
    qed
  qed
  then show ?thesis using assms(2) by blast
qed

lemma discover_all_keeps:
  assumes "DiscoveryClient_discover_all sys socket destination port request_id n os = Some (found, os')"
    and "socket_contract sys opened"
  shows "opened os' = opened os"
proof -
  obtain sent os1 where send: "UdpSocket_send_to_ipv4 sys socket destination port
      (DiscoveryMessage_serialize (DiscoveryMessage_query request_id)) os = (sent, os1)" by fastforce
  have "opened os1 = opened os" by (rule udp_calls_keep(1) [OF assms(2) send])
  then show ?thesis
    using assms(1) send discover_all_loop_keeps [OF _ assms(2)]
    by (fastforce simp: DiscoveryClient_discover_all_def Let_def split: sum.splits option.splits prod.splits)
qed

lemma opened_closed: "opened os1 = insert h (opened os) \<Longrightarrow> h \<notin> opened os \<Longrightarrow> opened os2 = opened os1 - {h} \<Longrightarrow> opened os2 = opened os"
  by auto

text \<open>Whatever its arguments and whatever fails, the tool closes the sockets that it opened.\<close>

lemma advertise_keeps_sockets:
  assumes "socket_contract sys opened"
  shows "opened (snd (tool_advertise sys arguments os)) = opened os"
proof (cases "tool_advertise sys arguments os")
  case (Pair result os')
  show ?thesis
    using Pair bind_opens [OF assms] respond_once_keeps [OF assms] socket_contractD(3) [OF assms]
    by (fastforce simp: tool_advertise_def Let_def split: if_splits option.splits sum.splits prod.splits)
qed

lemma discover_keeps_sockets:
  assumes "socket_contract sys opened" and "tool_discover sys request_id arguments os = Some (result, os')"
  shows "opened os' = opened os"
proof (cases "UdpSocket_bind_ipv4 sys (ascii ''0.0.0.0'') 0 os")
  case (Pair r os1)
  note opens = bind_opens [OF assms(1) Pair]
  show ?thesis
  proof (cases r)
    case (Inl error)
    then show ?thesis using assms(2) Pair opens by (auto simp: tool_discover_def split: if_splits)
  next
    case (Inr socket)
    let ?os2 = "snd (UdpSocket_enable_broadcast sys socket os1)"
    have "opened ?os2 = opened os1" "opened (snd (UdpSocket_set_receive_timeout sys socket timeout ?os2)) = opened os1" for timeout
      using udp_calls_keep(3,4) [OF assms(1)] by simp_all
    then show ?thesis
      using assms(2) Pair Inr opens socket_contractD(3) [OF assms(1)] discover_all_keeps [OF _ assms(1)]
      by (fastforce simp: tool_discover_def Let_def split: if_splits option.splits sum.splits prod.splits)
  qed
qed

lemma tool_keeps_sockets:
  assumes "socket_contract sys opened" and "tool_main sys request_id arguments os = Some (result, os')"
  shows "opened os' = opened os"
  using assms(2) advertise_keeps_sockets [OF assms(1), of arguments os] discover_keeps_sockets [OF assms(1)]
  by (auto simp: tool_main_def split: if_splits)

section \<open>What the tool reports\<close>

text \<open>
  A report of the tool is one of datagrams that a socket received: the machines that answered the request, or the
  sender of a query that was answered.
\<close>

lemma advertise_responded:
  assumes "tool_advertise sys arguments os = (tool_responded address, os')"
  shows "\<exists>socket os1 d os2 query. delivers sys socket os1 [d] os2 \<and> source_address d = address \<and>
    DiscoveryMessage_parse (datagram_payload d) = Inr query \<and> message_type query = message_query"
proof -
  obtain responder os1 os2 where respond: "DiscoveryResponder_respond_once sys responder os1 = (Inr address, os2)"
    using assms by (auto simp: tool_advertise_def Let_def split: if_splits option.splits sum.splits prod.splits)
  obtain received os3 where receive: "UdpSocket_receive sys (responder_socket responder) (discovery_header_size + maximum_name_size) os1 =
      (received, os3)" by fastforce
  then obtain d query where "received = Inr d" "DiscoveryMessage_parse (datagram_payload d) = Inr query"
      "message_type query = message_query" "source_address d = address"
    using respond
    by (fastforce simp: DiscoveryResponder_respond_once_def Let_def split: sum.splits prod.splits option.splits if_splits)
  with receive show ?thesis
    by (intro exI [of _ "responder_socket responder"] exI [of _ os1] exI [of _ d] exI [of _ os3] exI [of _ query]) simp
qed

lemma advertise_not_found: "tool_advertise sys arguments os \<noteq> (tool_found printed success, os')"
  by (auto simp: tool_advertise_def Let_def split: if_splits option.splits sum.splits prod.splits)

lemma discover_found:
  assumes "tool_discover sys r arguments os = Some (tool_found printed success, os')"
  shows "\<exists>socket os1 ds os2. delivers sys socket os1 ds os2 \<and> length (collected r ds) \<le> 4 \<and>
    printed = ''{\"machines\":['' @ print_machines (collected r ds) @ '']}'' \<and> (success \<longleftrightarrow> collected r ds \<noteq> [])"
proof -
  obtain socket destination port os1 machines os2 where
    found: "DiscoveryClient_discover_all sys socket destination port r default_maximum_results os1 = Some (Inr machines, os2)"
    and report: "printed = ''{\"machines\":['' @ print_machines machines @ '']}''" "success \<longleftrightarrow> machines \<noteq> []"
    using assms by (auto simp: tool_discover_def Let_def split: if_splits option.splits sum.splits prod.splits)
  then obtain os3 ds os4 where "delivers sys socket os3 ds os4" "machines = collected r ds"
      "loop_ends sys socket r default_maximum_results [] ds os4 os2"
    unfolding discover_all_iff by (auto split: prod.splits sum.splits)
  moreover from this have "length machines \<le> 4" by (auto simp: loop_ends_full default_maximum_results_def)
  ultimately show ?thesis using report by blast
qed

lemma discover_not_responded: "tool_discover sys r arguments os \<noteq> Some (tool_responded address, os')"
  by (auto simp: tool_discover_def Let_def split: if_splits option.splits sum.splits prod.splits)

section \<open>Properties\<close>

text \<open>
  Property C37: whenever the discovery tool ends, whatever its arguments and whatever failed, it has closed every
  socket that it opened, and its report is true. If it prints machines, they are the first answers, at most
  four, that the nodes gave to this request in datagrams that a socket received one after the other, and it exits with
  success exactly if there is one; if it reports that it responded to an address, a socket received a query from
  there. That it ends is not claimed: it waits in \<^verbatim>\<open>recvfrom\<close> for as long as the system lets it.
\<close>

theorem discovery_tool_exits_clean:
  assumes "socket_contract sys opened" and "tool_main sys r arguments os = Some (result, os')"
  shows "opened os' = opened os \<and>
    (case result of
       tool_found printed success \<Rightarrow>
         \<exists>socket os1 ds os2. delivers sys socket os1 ds os2 \<and> length (collected r ds) \<le> 4 \<and>
           printed = ''{\"machines\":['' @ print_machines (collected r ds) @ '']}'' \<and> (success \<longleftrightarrow> collected r ds \<noteq> [])
     | tool_responded address \<Rightarrow>
         \<exists>socket os1 d os2 query. delivers sys socket os1 [d] os2 \<and> source_address d = address \<and>
           DiscoveryMessage_parse (datagram_payload d) = Inr query \<and> message_type query = message_query
     | _ \<Rightarrow> True)"
proof -
  note kept = tool_keeps_sockets [OF assms]
  show ?thesis
  proof (cases result)
    case (tool_found printed success)
    then have "tool_discover sys r arguments os = Some (tool_found printed success, os')"
      using assms(2) advertise_not_found [of sys arguments os] by (auto simp: tool_main_def split: if_splits)
    from kept discover_found [OF this] show ?thesis unfolding tool_found by simp
  next
    case (tool_responded address)
    then have "tool_advertise sys arguments os = (tool_responded address, os')"
      using assms(2) discover_not_responded [of sys r arguments os] by (auto simp: tool_main_def split: if_splits)
    from kept advertise_responded [OF this] show ?thesis unfolding tool_responded by simp
  qed (use kept in simp_all)
qed

text \<open>An operating system with one open socket of another program and an answer on its way.\<close>

type_synonym tool_os = "NativeSocket set \<times> (bytes \<times> u8 \<times> u16) list"

definition tool_calls :: "(tool_os, u8) udp_calls" where
  "tool_calls =
     \<lparr>call_inet_pton = (\<lambda>bs. Some 0),
      call_inet_ntop = (\<lambda>a. Inr [a]),
      call_socket = (\<lambda>os. if 3 \<in> fst os then (Inl example_error, os) else (Inr 3, insert 3 (fst os), snd os)),
      call_bind = (\<lambda>os h target. (None, os)),
      call_sendto = (\<lambda>os h data target. (Inr (length data), os)),
      call_recvfrom = (\<lambda>os h n. case snd os of [] \<Rightarrow> (Inl example_error, os)
        | (data, src) # rest \<Rightarrow> (Inr (take n data, src), fst os, rest)),
      call_getsockname = (\<lambda>os h. Some (0, 9)),
      call_setsockopt = (\<lambda>os h opt. (None, os)),
      call_close = (\<lambda>os h. (fst os - {h}, snd os))\<rparr>"

lemma tool_contract: "socket_contract tool_calls fst"
  by (auto simp: socket_contract_def tool_calls_def split: list.splits if_splits)

theorem discovery_tool_exits_clean_witness:
  "\<exists>os'. tool_main tool_calls 7 [''discover'', ''255.255.255.255'', ''9'', ''250''] ({1}, example_inbox) =
     Some (tool_found (''{\"machines\":['' @ print_machine (example_machine [4]) @ '']}'') True, os') \<and> fst os' = {1}"
proof -
  let ?arguments = "[''discover'', ''255.255.255.255'', ''9'', ''250'']"
  let ?os = "({3, 1}, example_inbox) :: tool_os" and ?socket = "\<lparr>udp_handle = 3\<rparr>"
  have numbers: "std_stoll ''250'' = Some 250" "std_stoull ''9'' = Some (9, 1)" by code_simp+
  have bound: "UdpSocket_bind_ipv4 tool_calls address port ({1}, inbox) = (Inr ?socket, {3, 1}, inbox)"
    "snd (UdpSocket_enable_broadcast tool_calls socket os) = os" "snd (UdpSocket_set_receive_timeout tool_calls socket timeout os) = os"
    "UdpSocket_send_to_ipv4 tool_calls socket address port (DiscoveryMessage_serialize (DiscoveryMessage_query 7)) os = (Inr 33, os)"
    for address port inbox socket os timeout
    by (simp_all add: UdpSocket_bind_ipv4_def udp_endpoint_def UdpSocket_enable_broadcast_def UdpSocket_set_receive_timeout_def
        UdpSocket_send_to_ipv4_def tool_calls_def Let_def serialize_discovery_reads DiscoveryMessage_query_def)
  have "delivers tool_calls ?socket ?os example_datagrams ({3, 1}, [])"
    using example_length [of 7]
    by (simp add: example_inbox_def example_datagrams_def UdpSocket_receive_def tool_calls_def discovery_sizes)
  moreover have "loop_ends tool_calls ?socket 7 default_maximum_results [] example_datagrams ({3, 1}, []) ({3, 1}, [])"
    by (simp add: loop_ends_full example_collected default_maximum_results_def) (simp add: UdpSocket_receive_def tool_calls_def)
  ultimately have "DiscoveryClient_discover_all tool_calls ?socket (ascii ''255.255.255.255'') 9 7 default_maximum_results ?os =
      Some (Inr [example_machine [4]], {3, 1}, [])"
    unfolding discover_all_iff bound by (auto simp: example_collected [symmetric])
  then have "tool_main tool_calls 7 ?arguments ({1}, example_inbox) =
      Some (tool_found (''{\"machines\":['' @ print_machine (example_machine [4]) @ '']}'') True, call_close tool_calls ({3, 1}, []) 3)"
    using numbers by (simp add: tool_main_def tool_discover_def bound Let_def)
  then show ?thesis
    using discovery_tool_exits_clean [OF tool_contract, of 7 ?arguments "({1}, example_inbox)", THEN conjunct1] by auto
qed

end
