(* ===== verification/Tcp_Server.thy ===== *)
theory Tcp_Server
  imports Tcp_Connection
begin

text \<open>
  \<^verbatim>\<open>transport/tcp.cpp\<close>: how connections come to be. The calls that open, connect and accept are the
  parameter \<open>tcp_calls\<close>; a call that can fail returns the error that \<^verbatim>\<open>last_socket_error\<close>
  reports then. A handle that leaves its scope closes its socket.
\<close>

record ('os, 'addr) tcp_calls =
  tcp_inet_pton :: "bytes \<Rightarrow> 'addr option"
  tcp_socket :: "'os \<Rightarrow> (SocketError + NativeSocket) \<times> 'os"
  tcp_connect :: "'os \<Rightarrow> NativeSocket \<Rightarrow> 'addr \<times> u16 \<Rightarrow> SocketError option \<times> 'os"
  tcp_reuse_address :: "'os \<Rightarrow> NativeSocket \<Rightarrow> 'os"
  tcp_bind :: "'os \<Rightarrow> NativeSocket \<Rightarrow> 'addr \<times> u16 \<Rightarrow> SocketError option \<times> 'os"
  tcp_listen :: "'os \<Rightarrow> NativeSocket \<Rightarrow> int \<Rightarrow> SocketError option \<times> 'os"
  tcp_accept :: "'os \<Rightarrow> NativeSocket \<Rightarrow> NativeSocket call_result \<times> 'os"
  tcp_getsockname :: "'os \<Rightarrow> NativeSocket \<Rightarrow> ('addr \<times> u16) option"
  tcp_close :: "'os \<Rightarrow> NativeSocket \<Rightarrow> 'os"

record TcpConnection =
  connection_handle :: NativeSocket

record TcpServer =
  server_handle :: NativeSocket

definition invalid_ipv4_address :: TcpError where
  "invalid_ipv4_address = \<lparr>tcp_code = tcp_system_error,
     tcp_socket_error = \<lparr>socket_error_code = 0, socket_error_message = ''invalid IPv4 address''\<rparr>\<rparr>"

definition TcpConnection_connect_ipv4 ::
  "('os, 'addr) tcp_calls \<Rightarrow> bytes \<Rightarrow> u16 \<Rightarrow> 'os \<Rightarrow> (TcpError + TcpConnection) \<times> 'os" where
  "TcpConnection_connect_ipv4 sys address port os =
     (case tcp_socket sys os of
        (Inl error, os1) \<Rightarrow> (Inl (system_error error), os1)
      | (Inr native, os1) \<Rightarrow>
          (case tcp_inet_pton sys address of
             None \<Rightarrow> (Inl invalid_ipv4_address, tcp_close sys os1 native)
           | Some addr \<Rightarrow>
               (case tcp_connect sys os1 native (addr, port) of
                  (Some error, os2) \<Rightarrow> (Inl (system_error error), tcp_close sys os2 native)
                | (None, os2) \<Rightarrow> (Inr \<lparr>connection_handle = native\<rparr>, os2))))"

definition TcpServer_listen_ipv4 ::
  "('os, 'addr) tcp_calls \<Rightarrow> bytes \<Rightarrow> u16 \<Rightarrow> int \<Rightarrow> 'os \<Rightarrow> (TcpError + TcpServer) \<times> 'os" where
  "TcpServer_listen_ipv4 sys address port backlog os =
     (case tcp_socket sys os of
        (Inl error, os1) \<Rightarrow> (Inl (system_error error), os1)
      | (Inr native, os1) \<Rightarrow>
          let os2 = tcp_reuse_address sys os1 native in
          case tcp_inet_pton sys address of
            None \<Rightarrow> (Inl invalid_ipv4_address, tcp_close sys os2 native)
          | Some addr \<Rightarrow>
              (case tcp_bind sys os2 native (addr, port) of
                 (Some error, os3) \<Rightarrow> (Inl (system_error error), tcp_close sys os3 native)
               | (None, os3) \<Rightarrow>
                   (case tcp_listen sys os3 native backlog of
                      (Some error, os4) \<Rightarrow> (Inl (system_error error), tcp_close sys os4 native)
                    | (None, os4) \<Rightarrow> (Inr \<lparr>server_handle = native\<rparr>, os4))))"

partial_function (option) TcpServer_accept ::
  "('os, 'addr) tcp_calls \<Rightarrow> TcpServer \<Rightarrow> 'os \<Rightarrow> ((TcpError + TcpConnection) \<times> 'os) option" where
  "TcpServer_accept sys server os =
     (case tcp_accept sys os (server_handle server) of (result, os') \<Rightarrow>
        (case result of
           call_returned native \<Rightarrow> Some (Inr \<lparr>connection_handle = native\<rparr>, os')
         | call_interrupted \<Rightarrow> TcpServer_accept sys server os'
         | call_failed error \<Rightarrow> Some (Inl (system_error error), os')))"

declare TcpServer_accept.simps [code]

definition TcpServer_local_port :: "('os, 'addr) tcp_calls \<Rightarrow> TcpServer \<Rightarrow> 'os \<Rightarrow> u16" where
  "TcpServer_local_port sys server os =
     (case tcp_getsockname sys os (server_handle server) of None \<Rightarrow> 0 | Some (addr, port) \<Rightarrow> port)"

section \<open>Descriptors\<close>

text \<open>Which descriptors the process holds open, as far as the calls above change it.\<close>

definition descriptor_contract :: "('os, 'addr) tcp_calls \<Rightarrow> ('os \<Rightarrow> NativeSocket set) \<Rightarrow> bool" where
  "descriptor_contract sys opened \<longleftrightarrow>
     (\<forall>os e os'. tcp_socket sys os = (Inl e, os') \<longrightarrow> opened os' = opened os) \<and>
     (\<forall>os native os'. tcp_socket sys os = (Inr native, os') \<longrightarrow> native \<notin> opened os \<and> opened os' = insert native (opened os)) \<and>
     (\<forall>os native target. opened (snd (tcp_connect sys os native target)) = opened os) \<and>
     (\<forall>os native. opened (tcp_reuse_address sys os native) = opened os) \<and>
     (\<forall>os native target. opened (snd (tcp_bind sys os native target)) = opened os) \<and>
     (\<forall>os native backlog. opened (snd (tcp_listen sys os native backlog)) = opened os) \<and>
     (\<forall>os native. opened (tcp_close sys os native) = opened os - {native}) \<and>
     (\<forall>os h native os'. tcp_accept sys os h = (call_returned native, os') \<longrightarrow> opened os' = insert native (opened os)) \<and>
     (\<forall>os h os'. tcp_accept sys os h = (call_interrupted, os') \<longrightarrow> opened os' = opened os)"

lemma descriptor_contractD:
  assumes "descriptor_contract sys opened"
  shows "tcp_socket sys os = (Inl e, os') \<Longrightarrow> opened os' = opened os"
    and "tcp_socket sys os = (Inr native, os') \<Longrightarrow> native \<notin> opened os \<and> opened os' = insert native (opened os)"
    and "tcp_connect sys os native target = (r, os') \<Longrightarrow> opened os' = opened os"
    and "opened (tcp_reuse_address sys os native) = opened os"
    and "tcp_bind sys os native target = (r, os') \<Longrightarrow> opened os' = opened os"
    and "tcp_listen sys os native backlog = (r, os') \<Longrightarrow> opened os' = opened os"
    and "opened (tcp_close sys os native) = opened os - {native}"
  using assms unfolding descriptor_contract_def by (metis snd_conv)+

text \<open>A connection that could not be made leaves no descriptor behind, and one that was made holds a new one.\<close>

lemma connect_descriptors:
  assumes c: "descriptor_contract sys opened" and result: "TcpConnection_connect_ipv4 sys address port os = (r, os')"
  shows "case r of
      Inl error \<Rightarrow> opened os' = opened os
    | Inr connection \<Rightarrow> connection_handle connection \<notin> opened os \<and> opened os' = insert (connection_handle connection) (opened os)"
proof (cases "tcp_socket sys os")
  case (Pair s os1)
  show ?thesis
  proof (cases s)
    case (Inl e)
    then show ?thesis using Pair result descriptor_contractD(1) [OF c] by (auto simp: TcpConnection_connect_ipv4_def)
  next
    case (Inr native)
    then have new: "native \<notin> opened os" "opened os1 = insert native (opened os)"
      using Pair descriptor_contractD(2) [OF c] by blast+
    then show ?thesis
      using Pair Inr result descriptor_contractD(3) [OF c] descriptor_contractD(7) [OF c]
      by (auto simp: TcpConnection_connect_ipv4_def split: option.splits prod.splits)
  qed
qed

lemma listen_descriptors:
  assumes c: "descriptor_contract sys opened" and result: "TcpServer_listen_ipv4 sys address port backlog os = (r, os')"
  shows "case r of
      Inl error \<Rightarrow> opened os' = opened os
    | Inr server \<Rightarrow> server_handle server \<notin> opened os \<and> opened os' = insert (server_handle server) (opened os)"
proof (cases "tcp_socket sys os")
  case (Pair s os1)
  show ?thesis
  proof (cases s)
    case (Inl e)
    then show ?thesis using Pair result descriptor_contractD(1) [OF c] by (auto simp: TcpServer_listen_ipv4_def)
  next
    case (Inr native)
    then have "native \<notin> opened os" "opened (tcp_reuse_address sys os1 native) = insert native (opened os)"
      using Pair descriptor_contractD(2,4) [OF c] by blast+
    then show ?thesis
      using Pair Inr result descriptor_contractD(5,6) [OF c] descriptor_contractD(7) [OF c]
      by (auto simp: TcpServer_listen_ipv4_def Let_def split: option.splits prod.splits)
  qed
qed

text \<open>Interruptions do not end \<^verbatim>\<open>accept\<close>: it returns as soon as the call returns or fails.\<close>

lemma accept_returns:
  assumes "\<And>os os'. tcp_accept sys os (server_handle server) = (call_interrupted, os') \<Longrightarrow> patience os' < (patience os :: nat)"
  shows "\<exists>r os'. TcpServer_accept sys server os = Some (r, os')"
proof (induction "patience os" arbitrary: os rule: less_induct)
  case less
  then show ?case
    using assms [of os]
    by (cases "tcp_accept sys os (server_handle server)"; cases "fst (tcp_accept sys os (server_handle server))")
      (auto simp: TcpServer_accept.simps [of sys server os])
qed

end
