(* ===== verification/Programmable_Switch.thy ===== *)
theory Programmable_Switch
  imports Software_Asic
begin

text \<open>
  \<^verbatim>\<open>asic/programmable_switch.cpp\<close> and \<^verbatim>\<open>asic/mock_switch_asic.cpp\<close>: the switch that forwards every call to the
  ASIC it owns, and the ASIC that only counts calls. A \<^verbatim>\<open>SwitchAsic\<close> is one of the two
  implementations of the interface; a virtual call is a case distinction over it.
\<close>

section \<open>The mock\<close>

record MockSwitchAsic =
  mock_status :: AsicStatus
  mock_packet_result :: PacketProcessingResult
  mock_operation_count :: u64
  mock_statistics :: TrafficStatistics

definition MockSwitchAsic_create :: MockSwitchAsic where
  "MockSwitchAsic_create = \<lparr>mock_status = success, mock_packet_result = dropped_result drop_none 0,
     mock_operation_count = 0, mock_statistics = TrafficStatistics_zero\<rparr>"

definition MockSwitchAsic_set_status :: "AsicStatus \<Rightarrow> MockSwitchAsic \<Rightarrow> MockSwitchAsic" where
  "MockSwitchAsic_set_status status m = m\<lparr>mock_status := status\<rparr>"

definition MockSwitchAsic_set_packet_result :: "PacketProcessingResult \<Rightarrow> MockSwitchAsic \<Rightarrow> MockSwitchAsic" where
  "MockSwitchAsic_set_packet_result result m = m\<lparr>mock_packet_result := result\<rparr>"

definition MockSwitchAsic_record :: "MockSwitchAsic \<Rightarrow> AsicStatus \<times> MockSwitchAsic" where
  "MockSwitchAsic_record m = (mock_status m, m\<lparr>mock_operation_count := mock_operation_count m + 1\<rparr>)"

text \<open>Every configuration call only counts; the queries answer false and nothing.\<close>

definition MockSwitchAsic_create_port :: "VirtualPort \<Rightarrow> nat \<Rightarrow> MockSwitchAsic \<Rightarrow> AsicStatus \<times> MockSwitchAsic" where
  "MockSwitchAsic_create_port port capacity m = MockSwitchAsic_record m"

definition MockSwitchAsic_remove_port :: "PortId \<Rightarrow> MockSwitchAsic \<Rightarrow> AsicStatus \<times> MockSwitchAsic" where
  "MockSwitchAsic_remove_port port m = MockSwitchAsic_record m"

definition MockSwitchAsic_set_port_state :: "PortId \<Rightarrow> bool \<Rightarrow> bool \<Rightarrow> MockSwitchAsic \<Rightarrow> AsicStatus \<times> MockSwitchAsic" where
  "MockSwitchAsic_set_port_state port admin link m = MockSwitchAsic_record m"

definition MockSwitchAsic_create_vlan :: "VlanId \<Rightarrow> MockSwitchAsic \<Rightarrow> AsicStatus \<times> MockSwitchAsic" where
  "MockSwitchAsic_create_vlan vlan m = MockSwitchAsic_record m"

definition MockSwitchAsic_remove_vlan :: "VlanId \<Rightarrow> MockSwitchAsic \<Rightarrow> AsicStatus \<times> MockSwitchAsic" where
  "MockSwitchAsic_remove_vlan vlan m = MockSwitchAsic_record m"

definition MockSwitchAsic_add_vlan_member :: "VlanId \<Rightarrow> PortId \<Rightarrow> MockSwitchAsic \<Rightarrow> AsicStatus \<times> MockSwitchAsic" where
  "MockSwitchAsic_add_vlan_member vlan port m = MockSwitchAsic_record m"

definition MockSwitchAsic_set_router_interface :: "VlanId \<Rightarrow> MacAddress \<Rightarrow> MockSwitchAsic \<Rightarrow> AsicStatus \<times> MockSwitchAsic" where
  "MockSwitchAsic_set_router_interface vlan mac m = MockSwitchAsic_record m"

definition MockSwitchAsic_add_or_replace_route :: "RouteEntry \<Rightarrow> MockSwitchAsic \<Rightarrow> AsicStatus \<times> MockSwitchAsic" where
  "MockSwitchAsic_add_or_replace_route route m = MockSwitchAsic_record m"

definition MockSwitchAsic_remove_route :: "Ipv4Prefix \<Rightarrow> MockSwitchAsic \<Rightarrow> AsicStatus \<times> MockSwitchAsic" where
  "MockSwitchAsic_remove_route pfx m = MockSwitchAsic_record m"

definition MockSwitchAsic_add_or_replace_neighbor :: "Ipv4Address \<Rightarrow> MacAddress \<Rightarrow> TimePoint \<Rightarrow> MockSwitchAsic \<Rightarrow> AsicStatus \<times> MockSwitchAsic" where
  "MockSwitchAsic_add_or_replace_neighbor address mac learned_at m = MockSwitchAsic_record m"

definition MockSwitchAsic_remove_neighbor :: "Ipv4Address \<Rightarrow> MockSwitchAsic \<Rightarrow> AsicStatus \<times> MockSwitchAsic" where
  "MockSwitchAsic_remove_neighbor address m = MockSwitchAsic_record m"

definition MockSwitchAsic_configure_faults :: "FaultInjectionConfig \<Rightarrow> MockSwitchAsic \<Rightarrow> AsicStatus \<times> MockSwitchAsic" where
  "MockSwitchAsic_configure_faults config m = MockSwitchAsic_record m"

lemmas mock_configuration =
  MockSwitchAsic_create_port_def MockSwitchAsic_remove_port_def MockSwitchAsic_set_port_state_def
  MockSwitchAsic_create_vlan_def MockSwitchAsic_remove_vlan_def MockSwitchAsic_add_vlan_member_def
  MockSwitchAsic_set_router_interface_def MockSwitchAsic_add_or_replace_route_def MockSwitchAsic_remove_route_def
  MockSwitchAsic_add_or_replace_neighbor_def MockSwitchAsic_remove_neighbor_def MockSwitchAsic_configure_faults_def

definition MockSwitchAsic_process_packet ::
  "PortId \<Rightarrow> bytes \<Rightarrow> TimePoint \<Rightarrow> MockSwitchAsic \<Rightarrow> PacketProcessingResult \<times> MockSwitchAsic" where
  "MockSwitchAsic_process_packet port frame now m =
     (mock_packet_result m, m\<lparr>mock_operation_count := mock_operation_count m + 1\<rparr>)"

definition MockSwitchAsic_dequeue_packet :: "PortId \<Rightarrow> MockSwitchAsic \<Rightarrow> bytes option \<times> MockSwitchAsic" where
  "MockSwitchAsic_dequeue_packet port m = (None, m\<lparr>mock_operation_count := mock_operation_count m + 1\<rparr>)"

definition MockSwitchAsic_counters :: "MockSwitchAsic \<Rightarrow> TrafficStatistics" where
  "MockSwitchAsic_counters m = TrafficStatistics_snapshot (mock_statistics m)"

section \<open>The interface and the switch\<close>

datatype SwitchAsic = Software SoftwareAsic | Mock MockSwitchAsic

type_synonym ProgrammableSwitch = SwitchAsic

definition on_software :: "('r \<times> SoftwareAsic) \<Rightarrow> 'r \<times> SwitchAsic" where
  "on_software result = (fst result, Software (snd result))"

definition on_mock :: "('r \<times> MockSwitchAsic) \<Rightarrow> 'r \<times> SwitchAsic" where
  "on_mock result = (fst result, Mock (snd result))"

text \<open>\<open>None\<close> is the null pointer, for which the constructor throws.\<close>

definition ProgrammableSwitch_create :: "SwitchAsic option \<Rightarrow> ProgrammableSwitch option" where
  "ProgrammableSwitch_create asic = asic"

definition ProgrammableSwitch_create_port :: "VirtualPort \<Rightarrow> nat \<Rightarrow> ProgrammableSwitch \<Rightarrow> AsicStatus \<times> ProgrammableSwitch" where
  "ProgrammableSwitch_create_port port capacity sw =
     (case sw of Software a \<Rightarrow> on_software (SoftwareAsic_create_port port capacity a) | Mock m \<Rightarrow> on_mock (MockSwitchAsic_create_port port capacity m))"

definition ProgrammableSwitch_remove_port :: "PortId \<Rightarrow> ProgrammableSwitch \<Rightarrow> AsicStatus \<times> ProgrammableSwitch" where
  "ProgrammableSwitch_remove_port port sw =
     (case sw of Software a \<Rightarrow> on_software (SoftwareAsic_remove_port port a) | Mock m \<Rightarrow> on_mock (MockSwitchAsic_remove_port port m))"

definition ProgrammableSwitch_set_port_state :: "PortId \<Rightarrow> bool \<Rightarrow> bool \<Rightarrow> ProgrammableSwitch \<Rightarrow> AsicStatus \<times> ProgrammableSwitch" where
  "ProgrammableSwitch_set_port_state port admin link sw =
     (case sw of Software a \<Rightarrow> on_software (SoftwareAsic_set_port_state port admin link a) | Mock m \<Rightarrow> on_mock (MockSwitchAsic_set_port_state port admin link m))"

definition ProgrammableSwitch_create_vlan :: "VlanId \<Rightarrow> ProgrammableSwitch \<Rightarrow> AsicStatus \<times> ProgrammableSwitch" where
  "ProgrammableSwitch_create_vlan vlan sw =
     (case sw of Software a \<Rightarrow> on_software (SoftwareAsic_create_vlan vlan a) | Mock m \<Rightarrow> on_mock (MockSwitchAsic_create_vlan vlan m))"

definition ProgrammableSwitch_remove_vlan :: "VlanId \<Rightarrow> ProgrammableSwitch \<Rightarrow> AsicStatus \<times> ProgrammableSwitch" where
  "ProgrammableSwitch_remove_vlan vlan sw =
     (case sw of Software a \<Rightarrow> on_software (SoftwareAsic_remove_vlan vlan a) | Mock m \<Rightarrow> on_mock (MockSwitchAsic_remove_vlan vlan m))"

definition ProgrammableSwitch_add_vlan_member :: "VlanId \<Rightarrow> PortId \<Rightarrow> ProgrammableSwitch \<Rightarrow> AsicStatus \<times> ProgrammableSwitch" where
  "ProgrammableSwitch_add_vlan_member vlan port sw =
     (case sw of Software a \<Rightarrow> on_software (SoftwareAsic_add_vlan_member vlan port a) | Mock m \<Rightarrow> on_mock (MockSwitchAsic_add_vlan_member vlan port m))"

definition ProgrammableSwitch_set_router_interface :: "VlanId \<Rightarrow> MacAddress \<Rightarrow> ProgrammableSwitch \<Rightarrow> AsicStatus \<times> ProgrammableSwitch" where
  "ProgrammableSwitch_set_router_interface vlan mac sw =
     (case sw of Software a \<Rightarrow> on_software (SoftwareAsic_set_router_interface vlan mac a) | Mock m \<Rightarrow> on_mock (MockSwitchAsic_set_router_interface vlan mac m))"

definition ProgrammableSwitch_add_or_replace_route :: "RouteEntry \<Rightarrow> ProgrammableSwitch \<Rightarrow> AsicStatus \<times> ProgrammableSwitch" where
  "ProgrammableSwitch_add_or_replace_route route sw =
     (case sw of Software a \<Rightarrow> on_software (SoftwareAsic_add_or_replace_route route a) | Mock m \<Rightarrow> on_mock (MockSwitchAsic_add_or_replace_route route m))"

definition ProgrammableSwitch_remove_route :: "Ipv4Prefix \<Rightarrow> ProgrammableSwitch \<Rightarrow> AsicStatus \<times> ProgrammableSwitch" where
  "ProgrammableSwitch_remove_route pfx sw =
     (case sw of Software a \<Rightarrow> on_software (SoftwareAsic_remove_route pfx a) | Mock m \<Rightarrow> on_mock (MockSwitchAsic_remove_route pfx m))"

definition ProgrammableSwitch_add_or_replace_neighbor ::
  "Ipv4Address \<Rightarrow> MacAddress \<Rightarrow> TimePoint \<Rightarrow> ProgrammableSwitch \<Rightarrow> AsicStatus \<times> ProgrammableSwitch" where
  "ProgrammableSwitch_add_or_replace_neighbor address mac learned_at sw =
     (case sw of Software a \<Rightarrow> on_software (SoftwareAsic_add_or_replace_neighbor address mac learned_at a) | Mock m \<Rightarrow> on_mock (MockSwitchAsic_add_or_replace_neighbor address mac learned_at m))"

definition ProgrammableSwitch_remove_neighbor :: "Ipv4Address \<Rightarrow> ProgrammableSwitch \<Rightarrow> AsicStatus \<times> ProgrammableSwitch" where
  "ProgrammableSwitch_remove_neighbor address sw =
     (case sw of Software a \<Rightarrow> on_software (SoftwareAsic_remove_neighbor address a) | Mock m \<Rightarrow> on_mock (MockSwitchAsic_remove_neighbor address m))"

definition ProgrammableSwitch_configure_faults :: "FaultInjectionConfig \<Rightarrow> ProgrammableSwitch \<Rightarrow> AsicStatus \<times> ProgrammableSwitch" where
  "ProgrammableSwitch_configure_faults config sw =
     (case sw of Software a \<Rightarrow> on_software (SoftwareAsic_configure_faults config a) | Mock m \<Rightarrow> on_mock (MockSwitchAsic_configure_faults config m))"

definition ProgrammableSwitch_has_port :: "ProgrammableSwitch \<Rightarrow> PortId \<Rightarrow> bool" where
  "ProgrammableSwitch_has_port sw port = (case sw of Software a \<Rightarrow> SoftwareAsic_has_port a port | Mock m \<Rightarrow> False)"

definition ProgrammableSwitch_has_vlan :: "ProgrammableSwitch \<Rightarrow> VlanId \<Rightarrow> bool" where
  "ProgrammableSwitch_has_vlan sw vlan = (case sw of Software a \<Rightarrow> SoftwareAsic_has_vlan a vlan | Mock m \<Rightarrow> False)"

definition ProgrammableSwitch_find_route :: "ProgrammableSwitch \<Rightarrow> Ipv4Prefix \<Rightarrow> RouteEntry option" where
  "ProgrammableSwitch_find_route sw pfx = (case sw of Software a \<Rightarrow> SoftwareAsic_find_route a pfx | Mock m \<Rightarrow> None)"

definition ProgrammableSwitch_find_neighbor :: "ProgrammableSwitch \<Rightarrow> Ipv4Address \<Rightarrow> TimePoint \<Rightarrow> MacAddress option" where
  "ProgrammableSwitch_find_neighbor sw address now =
     (case sw of Software a \<Rightarrow> SoftwareAsic_find_neighbor a address now | Mock m \<Rightarrow> None)"

definition ProgrammableSwitch_process_packet ::
  "PortId \<Rightarrow> bytes \<Rightarrow> TimePoint \<Rightarrow> ProgrammableSwitch \<Rightarrow> PacketProcessingResult \<times> ProgrammableSwitch" where
  "ProgrammableSwitch_process_packet port frame now sw =
     (case sw of
        Software a \<Rightarrow> on_software (SoftwareAsic_process_packet port frame now a)
      | Mock m \<Rightarrow> on_mock (MockSwitchAsic_process_packet port frame now m))"

definition ProgrammableSwitch_dequeue_packet :: "PortId \<Rightarrow> ProgrammableSwitch \<Rightarrow> bytes option \<times> ProgrammableSwitch" where
  "ProgrammableSwitch_dequeue_packet port sw =
     (case sw of
        Software a \<Rightarrow> on_software (SoftwareAsic_dequeue_packet port a)
      | Mock m \<Rightarrow> on_mock (MockSwitchAsic_dequeue_packet port m))"

definition ProgrammableSwitch_counters :: "ProgrammableSwitch \<Rightarrow> TrafficStatistics" where
  "ProgrammableSwitch_counters sw =
     (case sw of Software a \<Rightarrow> SoftwareAsic_counters a | Mock m \<Rightarrow> MockSwitchAsic_counters m)"

lemmas switch_defs =
  ProgrammableSwitch_create_port_def ProgrammableSwitch_remove_port_def ProgrammableSwitch_set_port_state_def
  ProgrammableSwitch_create_vlan_def ProgrammableSwitch_remove_vlan_def ProgrammableSwitch_add_vlan_member_def
  ProgrammableSwitch_set_router_interface_def ProgrammableSwitch_add_or_replace_route_def
  ProgrammableSwitch_remove_route_def ProgrammableSwitch_add_or_replace_neighbor_def
  ProgrammableSwitch_remove_neighbor_def ProgrammableSwitch_configure_faults_def
  ProgrammableSwitch_process_packet_def ProgrammableSwitch_dequeue_packet_def on_software_def on_mock_def

section \<open>The switch is its ASIC\<close>

fun ProgrammableSwitch_step :: "ProgrammableSwitch \<Rightarrow> AsicOp \<Rightarrow> ProgrammableSwitch" where
  "ProgrammableSwitch_step sw (CreatePort port capacity) = snd (ProgrammableSwitch_create_port port capacity sw)"
| "ProgrammableSwitch_step sw (RemovePort port) = snd (ProgrammableSwitch_remove_port port sw)"
| "ProgrammableSwitch_step sw (SetPortState port admin link) = snd (ProgrammableSwitch_set_port_state port admin link sw)"
| "ProgrammableSwitch_step sw (CreateVlan vlan) = snd (ProgrammableSwitch_create_vlan vlan sw)"
| "ProgrammableSwitch_step sw (RemoveVlan vlan) = snd (ProgrammableSwitch_remove_vlan vlan sw)"
| "ProgrammableSwitch_step sw (AddVlanMember vlan port) = snd (ProgrammableSwitch_add_vlan_member vlan port sw)"
| "ProgrammableSwitch_step sw (SetRouterInterface vlan mac) = snd (ProgrammableSwitch_set_router_interface vlan mac sw)"
| "ProgrammableSwitch_step sw (AddOrReplaceRoute route) = snd (ProgrammableSwitch_add_or_replace_route route sw)"
| "ProgrammableSwitch_step sw (DeleteRoute pfx) = snd (ProgrammableSwitch_remove_route pfx sw)"
| "ProgrammableSwitch_step sw (AddOrReplaceNeighbor ip mac t) = snd (ProgrammableSwitch_add_or_replace_neighbor ip mac t sw)"
| "ProgrammableSwitch_step sw (RemoveNeighbor ip) = snd (ProgrammableSwitch_remove_neighbor ip sw)"
| "ProgrammableSwitch_step sw (ConfigureFaults config) = snd (ProgrammableSwitch_configure_faults config sw)"
| "ProgrammableSwitch_step sw (ProcessPacket port bs now) = snd (ProgrammableSwitch_process_packet port bs now sw)"
| "ProgrammableSwitch_step sw (DequeuePacket port) = snd (ProgrammableSwitch_dequeue_packet port sw)"

text \<open>A sequence of calls on the switch leaves the state that the same calls on the ASIC leave.\<close>

lemma step_software: "ProgrammableSwitch_step (Software a) op = Software (SoftwareAsic_step a op)"
  by (cases op) (simp_all add: switch_defs)

lemma steps_software: "foldl ProgrammableSwitch_step (Software a) ops = Software (foldl SoftwareAsic_step a ops)"
  by (induction ops arbitrary: a) (simp_all add: step_software)

text \<open>The mock counts every call, modulo 64 bits, and otherwise keeps what it was told to answer.\<close>

lemma step_mock:
  "ProgrammableSwitch_step (Mock m) op = Mock (m\<lparr>mock_operation_count := mock_operation_count m + 1\<rparr>)"
  by (cases op) (simp_all add: switch_defs mock_configuration MockSwitchAsic_record_def MockSwitchAsic_process_packet_def
      MockSwitchAsic_dequeue_packet_def)

lemma steps_mock:
  "foldl ProgrammableSwitch_step (Mock m) ops = Mock (m\<lparr>mock_operation_count := mock_operation_count m + of_nat (length ops)\<rparr>)"
  by (induction ops arbitrary: m) (simp_all add: step_mock add_ac)

end
