(* ===== verification/Demo_Scenario.thy ===== *)
theory Demo_Scenario
  imports Software_Asic "HOL-Library.Code_Target_Nat"
begin

text \<open>
  \<^verbatim>\<open>apps/demo/main.cpp\<close>: the demonstration that drives the software ASIC through six phases and
  checks each of them. What the program prints is kept as data: the phases with their verdicts, and the
  three counters of the last line.
\<close>

section \<open>The network of the demonstration\<close>

definition demo_port :: "u16 \<Rightarrow> PortId" where
  "demo_port value = the (PortId_create value)"

definition demo_vlan :: "u16 \<Rightarrow> VlanId" where
  "demo_vlan value = the (VlanId_create value)"

definition demo_mac :: "u8 \<Rightarrow> MacAddress" where
  "demo_mac suffix = MacAddress 0x02 0 0 0 0 suffix"

definition demo_ip :: "u32 \<Rightarrow> Ipv4Address" where
  "demo_ip value = Ipv4Address value"

definition demo_make_port :: "u16 \<Rightarrow> u16 \<Rightarrow> VirtualPort" where
  "demo_make_port pid vid =
     the (VirtualPort_create (demo_port pid) (demo_mac 0xFE) gbps_10 1500 (VlanPortConfig_access (demo_vlan vid)))"

definition demo_frame :: "MacAddress \<Rightarrow> MacAddress \<Rightarrow> bytes \<Rightarrow> EthernetFrame" where
  "demo_frame src dst data = the (EthernetFrame_create dst src EtherType_ipv4 data None)"

text \<open>The operands of a chain of \<^verbatim>\<open>&&\<close>: once one fails, the rest is not called.\<close>

definition demo_attempt ::
  "(SoftwareAsic \<Rightarrow> AsicStatus \<times> SoftwareAsic) \<Rightarrow> bool \<times> SoftwareAsic \<Rightarrow> bool \<times> SoftwareAsic" where
  "demo_attempt call = (\<lambda>(passed, device).
     if \<not> passed then (passed, device)
     else case call device of (status, device') \<Rightarrow> (status = success, device'))"

definition demo_configure :: "SoftwareAsic \<Rightarrow> bool \<times> SoftwareAsic" where
  "demo_configure device = fold demo_attempt
     [SoftwareAsic_create_vlan (demo_vlan 10),
      SoftwareAsic_create_vlan (demo_vlan 20),
      SoftwareAsic_create_port (demo_make_port 1 10) 4,
      SoftwareAsic_create_port (demo_make_port 2 10) 1,
      SoftwareAsic_create_port (demo_make_port 3 20) 4,
      SoftwareAsic_set_port_state (demo_port 1) True True,
      SoftwareAsic_set_port_state (demo_port 2) True True,
      SoftwareAsic_set_port_state (demo_port 3) True True,
      SoftwareAsic_add_vlan_member (demo_vlan 10) (demo_port 1),
      SoftwareAsic_add_vlan_member (demo_vlan 10) (demo_port 2),
      SoftwareAsic_add_vlan_member (demo_vlan 20) (demo_port 3),
      SoftwareAsic_set_router_interface (demo_vlan 10) (demo_mac 0xFE)]
     (True, device)"

section \<open>The phases\<close>

definition demo_broadcast :: MacAddress where
  "demo_broadcast = MacAddress 0xFF 0xFF 0xFF 0xFF 0xFF 0xFF"

definition demo_process :: "u16 \<Rightarrow> EthernetFrame \<Rightarrow> SoftwareAsic \<Rightarrow> PacketProcessingResult \<times> SoftwareAsic" where
  "demo_process p frame device = SoftwareAsic_process_packet (demo_port p) (EthernetFrame_serialize frame) 0 device"

definition demo_drain :: "u16 \<Rightarrow> SoftwareAsic \<Rightarrow> SoftwareAsic" where
  "demo_drain p device = snd (SoftwareAsic_dequeue_packet (demo_port p) device)"

definition demo_isolation :: "SoftwareAsic \<Rightarrow> bool \<times> SoftwareAsic" where
  "demo_isolation device =
     (let (isolated, device) = demo_process 1 (demo_frame (demo_mac 1) demo_broadcast [1]) device;
          passed = (disposition isolated = flooded \<and> output_ports isolated = [demo_port 2])
      in (passed, demo_drain 2 device))"

definition demo_learning :: "SoftwareAsic \<Rightarrow> bool \<times> SoftwareAsic" where
  "demo_learning device =
     (let (_, device) = demo_process 2 (demo_frame (demo_mac 2) demo_broadcast [1]) device;
          device = demo_drain 1 device;
          (learned, device) = demo_process 1 (demo_frame (demo_mac 1) (demo_mac 2) [1]) device;
          passed = (disposition learned = switched \<and> output_ports learned = [demo_port 2])
      in (passed, demo_drain 2 device))"

definition demo_packet :: Ipv4Packet where
  "demo_packet = the (Ipv4Packet_create (demo_ip 0xC0A80A01) (demo_ip 0xCB007109) IpProtocol_udp [0x12, 0x34] 64 0 True)"

definition demo_routing :: "SoftwareAsic \<Rightarrow> bool \<times> SoftwareAsic" where
  "demo_routing device =
     (let pfx = the (Ipv4Prefix_create (demo_ip 0xCB007100) 24);
          route = the (RouteEntry_create pfx (Some (demo_ip 0xC0A81402)) (demo_port 3));
          (configured, device) = fold demo_attempt
            [SoftwareAsic_add_or_replace_route route,
             SoftwareAsic_add_or_replace_neighbor (demo_ip 0xC0A81402) (demo_mac 3) 0] (True, device);
          (result, device) = demo_process 1 (demo_frame (demo_mac 1) (demo_mac 0xFE) (Ipv4Packet_serialize demo_packet)) device;
          passed = (configured \<and> disposition result = routed \<and> output_ports result = [demo_port 3])
      in (passed, demo_drain 3 device))"

definition demo_congestion :: "SoftwareAsic \<Rightarrow> bool \<times> SoftwareAsic" where
  "demo_congestion device =
     (let (queued, device) = demo_process 1 (demo_frame (demo_mac 1) (demo_mac 2) [1]) device;
          (congested, device) = demo_process 1 (demo_frame (demo_mac 1) (demo_mac 2) [1]) device;
          passed = (disposition queued = switched \<and> drop_reason congested = drop_queue_congestion)
      in (passed, demo_drain 2 device))"

definition demo_failure :: "SoftwareAsic \<Rightarrow> bool \<times> SoftwareAsic" where
  "demo_failure device =
     (let failed_port = no_faults\<lparr>failed_ports := snd (set_insert (demo_port 1) [])\<rparr>;
          (status, device) = SoftwareAsic_configure_faults failed_port device;
          (failed, device) = demo_process 1 (demo_frame (demo_mac 1) (demo_mac 2) [1]) device
      in (status = success \<and> drop_reason failed = drop_injected_fault, device))"

definition demo_recovery :: "SoftwareAsic \<Rightarrow> bool \<times> SoftwareAsic" where
  "demo_recovery device =
     (let (status, device) = SoftwareAsic_configure_faults no_faults device;
          (recovered, device) = demo_process 1 (demo_frame (demo_mac 1) (demo_mac 2) [1]) device
      in (status = success \<and> disposition recovered = switched, demo_drain 2 device))"

record demo_report =
  demo_events :: "(string \<times> bool) list"
  demo_passed :: bool
  demo_ingress_packets :: u64
  demo_queue_drops :: u64
  demo_fault_drops :: u64

definition demo_run :: "SoftwareAsic \<Rightarrow> demo_report \<times> SoftwareAsic" where
  "demo_run device =
     (let (isolated, device) = demo_isolation device;
          (learned, device) = demo_learning device;
          (routing, device) = demo_routing device;
          (congestion, device) = demo_congestion device;
          (failure, device) = demo_failure device;
          (recovery, device) = demo_recovery device;
          counters = SoftwareAsic_counters device
      in (\<lparr>demo_events = [(''vlan-isolation'', isolated), (''mac-learning'', learned), (''ipv4-routing'', routing),
              (''congestion'', congestion), (''port-failure'', failure), (''recovery'', recovery)],
            demo_passed = (isolated \<and> learned \<and> routing \<and> congestion \<and> failure \<and> recovery),
            demo_ingress_packets = counters ingress_packets, demo_queue_drops = counters queue_drops,
            demo_fault_drops = counters fault_drops\<rparr>, device))"

text \<open>\<open>None\<close> is the configuration error; the exit status is whether the report says passed.\<close>

definition demo_main :: "demo_report option" where
  "demo_main =
     (case demo_configure (the (SoftwareAsic_create 32)) of
        (False, device) \<Rightarrow> None
      | (True, device) \<Rightarrow> Some (fst (demo_run device)))"

section \<open>The demonstration passes\<close>

text \<open>
  To evaluate the scenario in the kernel, the checksum is computed from the plain sum of the words, which it
  equals; the loop of the source uses its accumulator twice in every round.
\<close>

fun int_word_sum :: "bytes \<Rightarrow> int" where
  "int_word_sum (high # low # rest) = uint high * 256 + uint low + int_word_sum rest"
| "int_word_sum [final] = uint final * 256"
| "int_word_sum [] = 0"

lemma int_word_sum: "int_word_sum bs = int (word_sum bs)"
  by (induction bs rule: int_word_sum.induct) simp_all

lemma compute_internet_checksum_code [code]:
  "compute_internet_checksum bs =
     (case int_word_sum bs of t \<Rightarrow> word_of_int (if t = 0 then 65535 else 65534 - (t - 1) mod 65535))"
proof -
  have "compute_internet_checksum bs = word_of_int (int (65535 - ones_sum (word_sum bs)))"
    by (simp only: compute_internet_checksum_sum [symmetric]) simp
  also have "int (65535 - ones_sum (word_sum bs)) =
      (if int_word_sum bs = 0 then 65535 else 65534 - (int_word_sum bs - 1) mod 65535)"
    using ones_sum_le [of "word_sum bs"] by (auto simp: int_word_sum ones_sum_def of_nat_diff zmod_int)
  finally show ?thesis by simp
qed

text \<open>
  The demonstration runs to its end and reports every phase as passed: a flood stays in its VLAN,
  a learned address is switched to its port, a packet is routed to the port of its route, the second packet
  for a queue of one is dropped as congestion, a failed port drops its traffic, and clearing the fault restores
  forwarding. Eight packets came in, one was dropped by a queue and one by the injected fault.
\<close>

lemma demo_scenario_passes:
  "demo_main = Some \<lparr>
     demo_events = [(''vlan-isolation'', True), (''mac-learning'', True), (''ipv4-routing'', True),
       (''congestion'', True), (''port-failure'', True), (''recovery'', True)],
     demo_passed = True, demo_ingress_packets = 8, demo_queue_drops = 1, demo_fault_drops = 1\<rparr>"
  by code_simp

end
