(* ===== verification/Client_Synchronizer.thy ===== *)
theory Client_Synchronizer
  imports State_Update
begin

text \<open>
  \<^verbatim>\<open>transport/client_synchronizer.cpp\<close>: the state machine with which an observer follows the
  updates of a server over a lossy channel. \<open>consume\<close> returns its verdict and the state after it.
  Times are nanoseconds and the timeout of \<open>disconnected\<close> is in milliseconds.
\<close>

section \<open>The synchronizer\<close>

datatype SynchronizationResult =
  applied_snapshot | applied_delta | accepted_heartbeat | ignored_duplicate | ignored_stale
| needs_snapshot | sequence_gap | revision_mismatch

record ClientSynchronizer =
  sync_session_id :: "u64 option"
  sync_last_received :: "TimePoint option"
  sync_sequence :: u64
  sync_revision :: u64
  sync_timestamp :: u64
  sync_synchronized :: bool
  sync_resync_required :: bool

definition ClientSynchronizer_initial :: ClientSynchronizer where
  "ClientSynchronizer_initial = \<lparr>sync_session_id = None, sync_last_received = None, sync_sequence = 0,
     sync_revision = 0, sync_timestamp = 0, sync_synchronized = False, sync_resync_required = True\<rparr>"

definition ClientSynchronizer_reset :: "ClientSynchronizer \<Rightarrow> ClientSynchronizer" where
  "ClientSynchronizer_reset s =
     s\<lparr>sync_session_id := None, sync_last_received := None, sync_sequence := 0, sync_revision := 0,
       sync_timestamp := 0, sync_synchronized := False, sync_resync_required := True\<rparr>"

text \<open>The part of \<open>consume\<close> after the session and staleness checks.\<close>

definition consume_current :: "StateUpdate \<Rightarrow> ClientSynchronizer \<Rightarrow> SynchronizationResult \<times> ClientSynchronizer" where
  "consume_current u s =
     (if update_type u = update_snapshot then
        (applied_snapshot, s\<lparr>sync_sequence := update_sequence u, sync_revision := update_revision u,
           sync_timestamp := update_timestamp u, sync_synchronized := True, sync_resync_required := False\<rparr>)
      else if \<not> sync_synchronized s then
        (needs_snapshot, s\<lparr>sync_resync_required := True\<rparr>)
      else if update_sequence u \<noteq> sync_sequence s + 1 then
        (sequence_gap, s\<lparr>sync_synchronized := False, sync_resync_required := True\<rparr>)
      else if update_type u = update_delta \<and> update_base_revision u \<noteq> sync_revision s then
        (revision_mismatch, s\<lparr>sync_synchronized := False, sync_resync_required := True\<rparr>)
      else
        let s = s\<lparr>sync_sequence := update_sequence u, sync_timestamp := update_timestamp u\<rparr> in
        if update_type u = update_delta then (applied_delta, s\<lparr>sync_revision := update_revision u\<rparr>)
        else (accepted_heartbeat, s))"

definition ClientSynchronizer_consume ::
  "StateUpdate \<Rightarrow> TimePoint \<Rightarrow> ClientSynchronizer \<Rightarrow> SynchronizationResult \<times> ClientSynchronizer" where
  "ClientSynchronizer_consume u received_at s =
     (let s = s\<lparr>sync_last_received := Some received_at\<rparr> in
      if sync_session_id s \<noteq> Some (update_session_id u) then
        let s = s\<lparr>sync_session_id := Some (update_session_id u), sync_sequence := 0, sync_revision := 0,
                sync_timestamp := 0, sync_synchronized := False, sync_resync_required := True\<rparr> in
        if update_type u \<noteq> update_snapshot then (needs_snapshot, s)
        else consume_current u s
      else if update_sequence u = sync_sequence s then (ignored_duplicate, s)
      else if update_sequence u < sync_sequence s \<or> update_timestamp u < sync_timestamp s then (ignored_stale, s)
      else consume_current u s)"

definition ClientSynchronizer_disconnected :: "TimePoint \<Rightarrow> int \<Rightarrow> ClientSynchronizer \<Rightarrow> bool" where
  "ClientSynchronizer_disconnected now timeout s =
     (case sync_last_received s of
        None \<Rightarrow> True
      | Some received \<Rightarrow> now - received > timeout * 1000000)"

lemmas consume_defs = ClientSynchronizer_consume_def consume_current_def Let_def

section \<open>The invariant\<close>

text \<open>
  The flags are each other's negation, a synchronized client has a session, and it holds a
  sequence and a revision that some update brought.
\<close>

definition ClientSynchronizer_inv :: "ClientSynchronizer \<Rightarrow> bool" where
  "ClientSynchronizer_inv s \<longleftrightarrow> (sync_resync_required s \<longleftrightarrow> \<not> sync_synchronized s) \<and>
     (sync_synchronized s \<longrightarrow> sync_session_id s \<noteq> None \<and> sync_sequence s \<noteq> 0 \<and> sync_revision s \<noteq> 0)"

lemma consume_inv:
  assumes "StateUpdate_wf u" and "ClientSynchronizer_inv s"
  shows "ClientSynchronizer_inv (snd (ClientSynchronizer_consume u t s))"
proof -
  have "update_sequence u \<noteq> 0" using assms(1) by (simp add: StateUpdate_wf_def)
  moreover have "update_revision u \<noteq> 0" if "update_type u = update_snapshot \<or> update_type u = update_delta"
    using assms(1) that by (auto simp: StateUpdate_wf_def revisions_are_valid_def word_gt_0 update_types split: if_splits)
  ultimately show ?thesis
    using assms(2) by (auto simp: consume_defs ClientSynchronizer_inv_def)
qed

lemma reset_inv: "ClientSynchronizer_inv (ClientSynchronizer_reset s)"
  by (simp add: ClientSynchronizer_inv_def ClientSynchronizer_reset_def)

datatype SyncOp = Consume StateUpdate TimePoint | ResetSync

fun ClientSynchronizer_step :: "ClientSynchronizer \<Rightarrow> SyncOp \<Rightarrow> ClientSynchronizer" where
  "ClientSynchronizer_step s (Consume u t) = snd (ClientSynchronizer_consume u t s)"
| "ClientSynchronizer_step s ResetSync = ClientSynchronizer_reset s"

text \<open>Updates come out of the parser or of \<open>create\<close>, and both make well-formed ones only.\<close>

fun valid_sync_op :: "SyncOp \<Rightarrow> bool" where
  "valid_sync_op (Consume u t) = StateUpdate_wf u"
| "valid_sync_op ResetSync = True"

interpretation synchronizer: guarded_system ClientSynchronizer_step ClientSynchronizer_inv valid_sync_op
proof
  show "ClientSynchronizer_inv (ClientSynchronizer_step s e)"
    if "ClientSynchronizer_inv s" "valid_sync_op e" for s e
    using that by (cases e) (simp_all add: consume_inv reset_inv)
qed

section \<open>What each verdict means\<close>

lemma consume_applied_delta:
  assumes "ClientSynchronizer_consume u t s = (applied_delta, s')"
  shows "sync_synchronized s \<and> sync_session_id s = Some (update_session_id u) \<and>
    update_sequence u = sync_sequence s + 1 \<and> update_base_revision u = sync_revision s \<and>
    update_type u = update_delta \<and> sync_revision s' = update_revision u \<and> sync_sequence s' = update_sequence u \<and>
    sync_synchronized s' \<and> sync_session_id s' = sync_session_id s"
  using assms by (auto simp: consume_defs split: if_splits)

lemma consume_applied_snapshot:
  assumes "ClientSynchronizer_consume u t s = (applied_snapshot, s')"
  shows "update_type u = update_snapshot \<and> sync_revision s' = update_revision u \<and> sync_sequence s' = update_sequence u \<and>
    sync_synchronized s' \<and> sync_session_id s' = Some (update_session_id u) \<and> sync_timestamp s' = update_timestamp u \<and>
    (sync_session_id s = Some (update_session_id u) \<longrightarrow>
       sync_sequence s < update_sequence u \<and> sync_timestamp s \<le> update_timestamp u)"
  using assms by (auto simp: consume_defs not_less split: if_splits)

lemma consume_not_applied:
  assumes "ClientSynchronizer_consume u t s = (r, s')" and "r \<notin> {applied_snapshot, applied_delta}"
    and "sync_synchronized s'"
  shows "sync_synchronized s \<and> sync_revision s' = sync_revision s \<and> sync_session_id s' = sync_session_id s \<and>
    sync_session_id s = Some (update_session_id u) \<and>
    (update_type u = update_delta \<longrightarrow> sync_sequence s' = sync_sequence s)"
  using assms by (auto simp: consume_defs split: if_splits)

text \<open>The sequence and the timestamp of a session only move to those of an update, and forward.\<close>

lemma consume_bounded:
  assumes "ClientSynchronizer_consume u t s = (r, s')"
  shows "sync_session_id s' = Some (update_session_id u) \<and>
    (sync_sequence s' = update_sequence u \<and> sync_timestamp s' = update_timestamp u \<or>
     sync_session_id s = Some (update_session_id u) \<and> sync_sequence s' = sync_sequence s \<and> sync_timestamp s' = sync_timestamp s \<or>
     sync_sequence s' = 0 \<and> sync_timestamp s' = 0)"
  using assms by (auto simp: consume_defs split: if_splits)

section \<open>The history of a client\<close>

text \<open>The updates applied since the last snapshot, next to the state of the synchronizer.\<close>

definition follow_step ::
  "ClientSynchronizer \<times> StateUpdate list \<Rightarrow> StateUpdate \<times> TimePoint \<Rightarrow> ClientSynchronizer \<times> StateUpdate list" where
  "follow_step = (\<lambda>(s, applied) (u, t).
     let (result, s') = ClientSynchronizer_consume u t s
     in (s', if result = applied_snapshot then [u] else if result = applied_delta then applied @ [u] else applied))"

definition follows :: "StateUpdate \<Rightarrow> StateUpdate \<Rightarrow> bool" where
  "follows u v \<longleftrightarrow> update_type v = update_delta \<and> update_session_id v = update_session_id u \<and>
     update_base_revision v = update_revision u"

definition unbroken :: "ClientSynchronizer \<Rightarrow> StateUpdate list \<Rightarrow> bool" where
  "unbroken s applied \<longleftrightarrow> applied \<noteq> [] \<and> update_type (hd applied) = update_snapshot \<and>
     successively follows applied \<and> sync_session_id s = Some (update_session_id (last applied)) \<and>
     sync_revision s = update_revision (last applied)"

lemma follow_step_unbroken:
  assumes "sync_synchronized s \<longrightarrow> unbroken s applied" and "follow_step (s, applied) (u, t) = (s', applied')"
    and "sync_synchronized s'"
  shows "unbroken s' applied'"
proof -
  obtain result where r: "ClientSynchronizer_consume u t s = (result, s')"
    and a: "applied' = (if result = applied_snapshot then [u] else if result = applied_delta then applied @ [u] else applied)"
    using assms(2) by (cases "ClientSynchronizer_consume u t s") (auto simp: follow_step_def)
  consider "result = applied_snapshot" | "result = applied_delta" | "result \<notin> {applied_snapshot, applied_delta}" by blast
  then show ?thesis
  proof cases
    case 1
    then show ?thesis using consume_applied_snapshot [of u t s s'] r a by (simp add: unbroken_def)
  next
    case 2
    then have d: "ClientSynchronizer_consume u t s = (applied_delta, s')" using r by simp
    note facts = consume_applied_delta [OF d]
    then have "unbroken s applied" using assms(1) by blast
    then show ?thesis using facts 2 a by (auto simp: unbroken_def successively_append_iff follows_def)
  next
    case 3
    then show ?thesis using consume_not_applied [OF r] assms(1,3) a by (auto simp: unbroken_def)
  qed
qed

section \<open>Properties\<close>

text \<open>
  Property C22: a synchronized client has an unbroken history. Whatever updates arrive, in
  whatever order and however often, whenever the client considers itself synchronized, the
  updates that it applied since its last snapshot are that snapshot and then deltas of the same
  session, each based on the revision that the one before it produced, and the client's revision
  is that of the last one.
\<close>

theorem synchronizer_unbroken:
  assumes "foldl follow_step (ClientSynchronizer_initial, []) updates = (s, applied)" and "sync_synchronized s"
  shows "applied \<noteq> [] \<and> update_type (hd applied) = update_snapshot \<and>
    (\<forall>i. Suc i < length applied \<longrightarrow>
       update_type (applied ! Suc i) = update_delta \<and>
       update_session_id (applied ! Suc i) = update_session_id (applied ! i) \<and>
       update_base_revision (applied ! Suc i) = update_revision (applied ! i)) \<and>
    sync_session_id s = Some (update_session_id (last applied)) \<and>
    sync_revision s = update_revision (last applied)"
proof -
  have "\<forall>s applied. foldl follow_step (ClientSynchronizer_initial, []) updates = (s, applied) \<longrightarrow>
      sync_synchronized s \<longrightarrow> unbroken s applied"
  proof (induction updates rule: rev_induct)
    case (snoc u updates)
    obtain s1 applied1 where "foldl follow_step (ClientSynchronizer_initial, []) updates = (s1, applied1)" by fastforce
    with snoc show ?case using follow_step_unbroken [of s1 applied1 "fst u" "snd u"] by simp
  qed (simp add: ClientSynchronizer_initial_def)
  with assms have "unbroken s applied" by blast
  then show ?thesis by (auto simp: unbroken_def successively_conv_nth follows_def)
qed

definition sample_update :: "StateUpdateType \<Rightarrow> u64 \<Rightarrow> StateUpdate" where
  "sample_update kind n = \<lparr>update_type = kind, update_session_id = 9, update_sequence = n, update_timestamp = n,
     update_base_revision = (if kind = update_snapshot then 0 else n - 1), update_revision = n, update_payload = []\<rparr>"

theorem synchronizer_unbroken_witness:
  "sync_revision (fst (foldl follow_step (ClientSynchronizer_initial, [])
     [(sample_update update_delta 1, 0), (sample_update update_snapshot 2, 1), (sample_update update_delta 3, 2)])) =
   update_revision (sample_update update_delta 3)"
proof -
  let ?run = "foldl follow_step (ClientSynchronizer_initial, [])
     [(sample_update update_delta 1, 0), (sample_update update_snapshot 2, 1), (sample_update update_delta 3, 2)]"
  have "sync_synchronized (fst ?run)" "last (snd ?run) = sample_update update_delta 3" by code_simp+
  with synchronizer_unbroken [of _ "fst ?run" "snd ?run"] show ?thesis by (metis prod.collapse)
qed

text \<open>
  A client recovers. From any state, a snapshot of another session, or one of the
  same session that is newer than the last accepted update, is applied and leaves the client
  synchronized at the snapshot's revision, after which the next delta of the server is applied
  as well.
\<close>

lemma synchronizer_recovers:
  assumes "update_type u = update_snapshot"
    and "sync_session_id s \<noteq> Some (update_session_id u) \<or>
      sync_sequence s < update_sequence u \<and> sync_timestamp s \<le> update_timestamp u"
    and "ClientSynchronizer_consume u t s = (r, s')"
    and "follows u v" and "update_sequence v = update_sequence u + 1" and "update_sequence u < update_sequence v"
    and "update_timestamp u \<le> update_timestamp v"
  shows "r = applied_snapshot \<and> sync_synchronized s' \<and> \<not> sync_resync_required s' \<and>
    sync_revision s' = update_revision u \<and> fst (ClientSynchronizer_consume v t' s') = applied_delta"
proof -
  have r: "r = applied_snapshot" "\<not> sync_resync_required s'"
    using assms(1-3) by (auto simp: consume_defs split: if_splits)
  then have s': "sync_revision s' = update_revision u" "sync_sequence s' = update_sequence u" "sync_synchronized s'"
      "sync_session_id s' = Some (update_session_id u)" "sync_timestamp s' = update_timestamp u"
    using consume_applied_snapshot [of u t s s'] assms(3) by auto
  have "\<not> update_sequence v < update_sequence u" "update_sequence v \<noteq> update_sequence u" using assms(6) by auto
  then have "fst (ClientSynchronizer_consume v t' s') = applied_delta"
    using assms(4,5,7) s' by (simp add: consume_defs follows_def update_types)
  with r s' show ?thesis by simp
qed

lemma synchronizer_recovers_example:
  "fst (ClientSynchronizer_consume (sample_update update_delta 6) 8
     (snd (ClientSynchronizer_consume (sample_update update_snapshot 5) 7 ClientSynchronizer_initial))) = applied_delta"
proof -
  let ?u = "sample_update update_snapshot 5" and ?v = "sample_update update_delta 6"
  have "follows ?u ?v" "update_type ?u = update_snapshot" "update_sequence ?v = update_sequence ?u + 1"
    "update_sequence ?u < update_sequence ?v" "update_timestamp ?u \<le> update_timestamp ?v"
    "sync_session_id ClientSynchronizer_initial \<noteq> Some (update_session_id ?u)"
    by (simp_all add: follows_def sample_update_def update_types ClientSynchronizer_initial_def)
  then show ?thesis
    using synchronizer_recovers [of ?u ClientSynchronizer_initial 7 _ _ ?v 8] by (metis prod.collapse)
qed

end
