(* ===== verification/Observer_Client.thy ===== *)
theory Observer_Client
  imports Client_Synchronizer Authoritative_Server
begin

text \<open>
  \<^verbatim>\<open>visualization/observer_client.cpp\<close>: the observer that feeds datagrams to its synchronizer and
  keeps the scene, and how its scene relates to the server's. The time at which a datagram is
  consumed is a parameter, as is what the socket received.
\<close>

section \<open>The client\<close>

datatype ObserverResult =
  observer_applied_snapshot | observer_applied_delta | observer_ignored | observer_resync_required
| observer_malformed_update | observer_malformed_scene | observer_network_error

record ObserverClient =
  observer_synchronizer :: ClientSynchronizer
  observer_scene :: TopologyScene

definition ObserverClient_initial :: ObserverClient where
  "ObserverClient_initial = \<lparr>observer_synchronizer = ClientSynchronizer_initial, observer_scene = empty_scene\<rparr>"

text \<open>The scene that the update would lead to; \<open>None\<close> for a malformed one.\<close>

definition observer_candidate :: "StateUpdate \<Rightarrow> TopologyScene \<Rightarrow> TopologyScene option" where
  "observer_candidate update scene =
     (if update_type update = update_snapshot then TopologyScene_parse_snapshot (update_payload update)
      else if update_type update = update_delta then
        (let (ok, candidate) = TopologyScene_apply_delta (update_payload update) scene
         in if ok then Some candidate else None)
      else Some scene)"

definition ObserverClient_consume_datagram :: "bytes \<Rightarrow> TimePoint \<Rightarrow> ObserverClient \<Rightarrow> ObserverResult \<times> ObserverClient" where
  "ObserverClient_consume_datagram bs now c =
     (case StateUpdate_parse bs of
        Inl _ \<Rightarrow> (observer_malformed_update, c)
      | Inr update \<Rightarrow>
          (case observer_candidate update (observer_scene c) of
             None \<Rightarrow> (observer_malformed_scene, c)
           | Some candidate \<Rightarrow>
               let (result, synchronizer) = ClientSynchronizer_consume update now (observer_synchronizer c);
                   c = c\<lparr>observer_synchronizer := synchronizer\<rparr>
               in case result of
                    applied_snapshot \<Rightarrow> (observer_applied_snapshot, c\<lparr>observer_scene := candidate\<rparr>)
                  | applied_delta \<Rightarrow> (observer_applied_delta, c\<lparr>observer_scene := candidate\<rparr>)
                  | accepted_heartbeat \<Rightarrow> (observer_ignored, c)
                  | ignored_duplicate \<Rightarrow> (observer_ignored, c)
                  | ignored_stale \<Rightarrow> (observer_ignored, c)
                  | needs_snapshot \<Rightarrow> (observer_resync_required, c)
                  | sequence_gap \<Rightarrow> (observer_resync_required, c)
                  | revision_mismatch \<Rightarrow> (observer_resync_required, c)))"

text \<open>What the socket returned: \<open>None\<close> for an error, otherwise the datagram.\<close>

definition ObserverClient_receive_next ::
  "bytes option \<Rightarrow> TimePoint \<Rightarrow> ObserverClient \<Rightarrow> ObserverResult \<times> ObserverClient" where
  "ObserverClient_receive_next received now c =
     (case received of
        None \<Rightarrow> (observer_network_error, c)
      | Some bs \<Rightarrow> ObserverClient_consume_datagram bs now c)"

definition observer_step :: "ObserverClient \<Rightarrow> bytes option \<times> TimePoint \<Rightarrow> ObserverClient" where
  "observer_step c = (\<lambda>(received, now). snd (ObserverClient_receive_next received now c))"

section \<open>The observer's scene is one of the server's\<close>

text \<open>What may arrive: nothing, something that does not parse, or a published update.\<close>

definition arrival :: "(StateUpdate \<Rightarrow> bool) \<Rightarrow> bytes option \<Rightarrow> bool" where
  "arrival published received \<longleftrightarrow>
     (case received of
        None \<Rightarrow> True
      | Some bs \<Rightarrow> (\<exists>e. StateUpdate_parse bs = Inl e) \<or> (\<exists>u. published u \<and> bs = StateUpdate_serialize u))"

lemma arrival_mono: "(\<And>u. P u \<Longrightarrow> Q u) \<Longrightarrow> arrival P received \<Longrightarrow> arrival Q received"
  unfolding arrival_def by (cases received; simp; blast)

lemma arrivals_mono:
  "(\<And>u. P u \<Longrightarrow> Q u) \<Longrightarrow> \<forall>(received, now) \<in> set events. arrival P received \<Longrightarrow>
   \<forall>(received, now) \<in> set events. arrival Q received"
  using arrival_mono [of P Q] by blast

lemma observer_step_unparsed:
  "received = None \<or> (\<exists>bs e. received = Some bs \<and> StateUpdate_parse bs = Inl e) \<Longrightarrow> observer_step c (received, now) = c"
  by (auto simp: observer_step_def ObserverClient_receive_next_def ObserverClient_consume_datagram_def)

text \<open>What a backend promises: scenes with distinct keys, the same ones at every tick.\<close>

locale stable_backend =
  fixes backend :: "u64 \<Rightarrow> TopologyScene"
  assumes scene_inv: "TopologyScene_inv (backend tick)"
    and stable: "same_keys (backend tick) (backend tick')"
begin

text \<open>The state of an observer that follows a session: unsynchronized, or at a published scene.\<close>

definition tracks :: "u64 \<Rightarrow> nat \<Rightarrow> ObserverClient \<Rightarrow> bool" where
  "tracks session n c \<longleftrightarrow>
     (sync_synchronized (observer_synchronizer c) \<longrightarrow>
       (\<exists>k. 0 < k \<and> k \<le> n \<and> sync_session_id (observer_synchronizer c) = Some session \<and>
          sync_sequence (observer_synchronizer c) = of_nat k \<and> sync_revision (observer_synchronizer c) = of_nat k \<and>
          observer_scene c = backend (of_nat k)))"

lemma payload_wf:
  assumes "numbered_update backend session interval k u"
  shows "TopologyScene_wf (backend (of_nat k))"
  using assms scene_inv by (auto simp: numbered_update_def TopologyScene_wf_def serialize_snapshot_empty_iff)

lemma numbered_candidate:
  assumes "numbered_update backend session interval k u"
    and "update_type u = update_delta \<Longrightarrow> scene = backend tick"
  shows "observer_candidate u scene = Some (backend (of_nat k))"
proof -
  have body: "update_payload u = TopologyScene_serialize_snapshot (backend (of_nat k))"
    and kinds: "update_type u = update_snapshot \<or> update_type u = update_delta"
    using assms(1) by (auto simp: numbered_update_def split: if_splits)
  show ?thesis
  proof (cases "update_type u = update_snapshot")
    case True
    then show ?thesis
      using parse_serialize_scene [OF payload_wf [OF assms(1)]] by (simp add: observer_candidate_def body)
  next
    case False
    then have "scene = backend tick" using kinds assms(2) by blast
    then show ?thesis
      using False kinds apply_delta_same_keys [OF scene_inv payload_wf [OF assms(1)] stable]
      by (simp add: observer_candidate_def body)
  qed
qed

lemma receive_numbered:
  assumes "numbered_update backend session interval k u"
  shows "observer_step c (Some (StateUpdate_serialize u), now) =
    (case observer_candidate u (observer_scene c) of
       None \<Rightarrow> c
     | Some candidate \<Rightarrow>
         let (result, s) = ClientSynchronizer_consume u now (observer_synchronizer c)
         in c\<lparr>observer_synchronizer := s,
              observer_scene := (if result \<in> {applied_snapshot, applied_delta} then candidate else observer_scene c)\<rparr>)"
proof -
  have "StateUpdate_parse (StateUpdate_serialize u) = Inr u"
    using assms by (intro parse_serialize_update) (simp add: numbered_update_def)
  then show ?thesis
    by (auto simp: observer_step_def ObserverClient_receive_next_def ObserverClient_consume_datagram_def Let_def
        split: option.split prod.split SynchronizationResult.split)
qed

lemma numbered_kinds:
  "numbered_update backend session interval k u \<Longrightarrow> update_type u = update_snapshot \<or> update_type u = update_delta"
  by (auto simp: numbered_update_def split: if_splits)

lemma tracks_numbered:
  assumes "tracks session n c" and "numbered_update backend session interval k u" and "k \<le> n"
  shows "tracks session n (observer_step c (Some (StateUpdate_serialize u), now))"
proof (cases "observer_candidate u (observer_scene c)")
  case None
  then show ?thesis using assms(1) receive_numbered [OF assms(2)] by simp
next
  case (Some candidate)
  obtain r s where r: "ClientSynchronizer_consume u now (observer_synchronizer c) = (r, s)" by fastforce
  let ?c = "c\<lparr>observer_synchronizer := s,
    observer_scene := (if r \<in> {applied_snapshot, applied_delta} then candidate else observer_scene c)\<rparr>"
  have k: "0 < k" "update_session_id u = session" "update_sequence u = of_nat k" "update_revision u = of_nat k"
    using assms(2) by (simp_all add: numbered_update_def)
  consider "r = applied_snapshot" | "r = applied_delta" | "r \<notin> {applied_snapshot, applied_delta}" by blast
  then have "tracks session n ?c"
  proof cases
    case 1
    note f = consume_applied_snapshot [OF r [unfolded 1]]
    then have "update_type u \<noteq> update_delta" by (simp add: update_types)
    then have "candidate = backend (of_nat k)" using numbered_candidate [OF assms(2)] Some by auto
    then show ?thesis using 1 f k assms(3) by (auto simp: tracks_def intro!: exI [of _ k])
  next
    case 2
    note f = consume_applied_delta [OF r [unfolded 2]]
    then obtain j where "observer_scene c = backend (of_nat j)" using assms(1) by (auto simp: tracks_def)
    then have "candidate = backend (of_nat k)" using numbered_candidate [OF assms(2)] Some by auto
    then show ?thesis using 2 f k assms(3) by (auto simp: tracks_def intro!: exI [of _ k])
  next
    case 3
    have kept: "sync_session_id s = sync_session_id (observer_synchronizer c) \<and>
        sync_revision s = sync_revision (observer_synchronizer c) \<and> sync_sequence s = sync_sequence (observer_synchronizer c) \<and>
        sync_synchronized (observer_synchronizer c)" if "sync_synchronized s"
    proof -
      have "update_type u = update_delta \<or> update_type u = update_snapshot" using numbered_kinds [OF assms(2)] by blast
      moreover have "sync_sequence s = sync_sequence (observer_synchronizer c)" if "update_type u = update_snapshot"
        using r 3 that by (auto simp: consume_defs split: if_splits)
      ultimately show ?thesis using consume_not_applied [OF r 3 that] by auto
    qed
    show ?thesis using assms(1) kept 3 by (auto simp: tracks_def)
  qed
  then show ?thesis using receive_numbered [OF assms(2)] Some r by simp
qed

text \<open>An invariant that published updates keep holds after any arrivals.\<close>

lemma arrivals_keep:
  assumes "\<And>c u now. P c \<Longrightarrow> published u \<Longrightarrow> P (observer_step c (Some (StateUpdate_serialize u), now))"
    and "P c" and "\<forall>(received, now) \<in> set events. arrival published received"
  shows "P (run observer_step c events)"
  using assms(2,3)
proof (induction events arbitrary: c)
  case (Cons event events)
  obtain received now where e: "event = (received, now)" by fastforce
  then have "arrival published received" using Cons.prems(2) by simp
  then have "P (observer_step c event)"
    using assms(1) Cons.prems(1) observer_step_unparsed e
    by (cases received) (auto simp: arrival_def)
  then show ?case using Cons by simp
qed simp

lemma tracks_run:
  assumes "tracks session n c"
    and "\<forall>(received, now) \<in> set events. arrival (\<lambda>u. \<exists>k \<le> n. numbered_update backend session interval k u) received"
  shows "tracks session n (run observer_step c events)"
  using arrivals_keep [of "tracks session n", OF _ assms] tracks_numbered by blast

end

interpretation cpu_backend: stable_backend "CpuBackend_step position config" for position config
  by unfold_locales (use cpu_backend_stable in \<open>blast+\<close>)

end
