(* ===== verification/Replication.thy ===== *)
theory Replication
  imports Observer_Client
begin

text \<open>
  The server and an observer together: over a channel that loses, repeats, reorders and corrupts
  datagrams, a synchronized observer shows a scene of the server, and an observer that is behind
  catches up within one snapshot interval.
\<close>

section \<open>Catching up\<close>

context stable_backend
begin

text \<open>Nothing that the observer accepted in this session is later than the n-th update.\<close>

definition behind :: "u64 \<Rightarrow> nat \<Rightarrow> u64 \<Rightarrow> ObserverClient \<Rightarrow> bool" where
  "behind session n t c \<longleftrightarrow> (sync_session_id (observer_synchronizer c) = Some session \<longrightarrow>
     sync_sequence (observer_synchronizer c) \<le> of_nat n \<and> sync_timestamp (observer_synchronizer c) \<le> t)"

text \<open>The observer shows the n-th scene.\<close>

definition current :: "u64 \<Rightarrow> nat \<Rightarrow> ObserverClient \<Rightarrow> bool" where
  "current session n c \<longleftrightarrow> sync_synchronized (observer_synchronizer c) \<and>
     sync_session_id (observer_synchronizer c) = Some session \<and>
     sync_sequence (observer_synchronizer c) = of_nat n \<and> sync_revision (observer_synchronizer c) = of_nat n \<and>
     observer_scene c = backend (of_nat n)"

lemma behind_mono:
  assumes "behind session n t c" and "n \<le> m" and "m < 2 ^ 64" and "t \<le> t'"
  shows "behind session m t' c"
proof -
  have "(of_nat n :: u64) \<le> of_nat m"
    using assms(2,3) by (simp add: word_le_nat_alt unat_of_nat)
  then show ?thesis using assms(1,4) by (auto simp: behind_def)
qed

lemma deliver_behind:
  assumes "behind session n t c" and "numbered_update backend session interval k u"
    and "k \<le> n" and "n < 2 ^ 64" and "update_timestamp u \<le> t"
  shows "behind session n t (observer_step c (Some (StateUpdate_serialize u), now))"
proof -
  obtain r s where r: "ClientSynchronizer_consume u now (observer_synchronizer c) = (r, s)" by fastforce
  have "(of_nat k :: u64) \<le> of_nat n" using assms(3,4) by (simp add: word_le_nat_alt unat_of_nat)
  moreover have "update_sequence u = of_nat k" "update_session_id u = session"
    using assms(2) by (simp_all add: numbered_update_def)
  ultimately have "behind session n t (c\<lparr>observer_synchronizer := s, observer_scene := scene\<rparr>)" for scene
    using consume_bounded [OF r] assms(1,5) by (auto simp: behind_def)
  then show ?thesis
    using assms(1) r by (simp add: receive_numbered [OF assms(2)] split: option.split)
qed

lemma of_nat_Suc_u64: "Suc n < 2 ^ 64 \<Longrightarrow> (of_nat n :: u64) < of_nat (Suc n) \<and> (of_nat (Suc n) :: u64) = of_nat n + 1"
  by (simp add: word_less_nat_alt unat_of_nat del: of_nat_Suc) simp

lemma deliver_next:
  assumes "behind session n t c" and "numbered_update backend session interval (Suc n) u"
    and "t \<le> update_timestamp u" and "current session n c \<or> is_snapshot_number interval (Suc n)"
  shows "current session (Suc n) (observer_step c (Some (StateUpdate_serialize u), now))"
proof -
  let ?s = "observer_synchronizer c"
  have u: "Suc n < 2 ^ 64" "update_session_id u = session" "update_sequence u = of_nat (Suc n)"
      "update_revision u = of_nat (Suc n)"
    using assms(2) by (simp_all add: numbered_update_def)
  note n = of_nat_Suc_u64 [OF u(1)]
  have newer: "sync_sequence ?s \<noteq> update_sequence u" "\<not> update_sequence u < sync_sequence ?s"
      "\<not> update_timestamp u < sync_timestamp ?s" if "sync_session_id ?s = Some session"
    using assms(1,3) that n u(3) by (auto simp: behind_def)
  show ?thesis
  proof (cases "is_snapshot_number interval (Suc n)")
    case True
    then have kind: "update_type u = update_snapshot" using assms(2) by (simp add: numbered_update_def)
    have "fst (ClientSynchronizer_consume u now ?s) = applied_snapshot"
      using kind newer u(2) by (auto simp: consume_defs)
    then obtain s where s: "ClientSynchronizer_consume u now ?s = (applied_snapshot, s)" by (metis prod.collapse)
    have "observer_candidate u (observer_scene c) = Some (backend (of_nat (Suc n)))"
      by (rule numbered_candidate [OF assms(2)]) (use kind in \<open>simp add: update_types\<close>)
    then show ?thesis
      using consume_applied_snapshot [OF s] s u by (simp add: receive_numbered [OF assms(2)] current_def)
  next
    case False
    then have kind: "update_type u = update_delta" "update_base_revision u = of_nat n"
      and cur: "current session n c"
      using assms(2,4) by (simp_all add: numbered_update_def)
    have "update_type u \<noteq> update_snapshot" using kind by (simp add: update_types)
    then have "fst (ClientSynchronizer_consume u now ?s) = applied_delta"
      using kind newer u(2,3) n cur by (auto simp: consume_defs current_def)
    then obtain s where s: "ClientSynchronizer_consume u now ?s = (applied_delta, s)" by (metis prod.collapse)
    have "observer_candidate u (observer_scene c) = Some (backend (of_nat (Suc n)))"
      by (rule numbered_candidate [OF assms(2)]) (use cur in \<open>simp add: current_def\<close>)
    then show ?thesis
      using consume_applied_delta [OF s] s u cur by (simp add: receive_numbered [OF assms(2)] current_def)
  qed
qed

text \<open>Delivery in order and without loss, from the update after the n-th on.\<close>

lemma deliver_all:
  assumes "behind session n t c" and "n + length us < 2 ^ 64"
    and "\<forall>i < length us. numbered_update backend session interval (Suc (n + i)) (fst (us ! i))"
    and "sorted (t # map (\<lambda>u. update_timestamp (fst u)) us)"
    and "current session n c \<or> (\<exists>i < length us. is_snapshot_number interval (Suc (n + i)))"
  shows "current session (n + length us) (run observer_step c (map (\<lambda>(u, now). (Some (StateUpdate_serialize u), now)) us))"
  using assms
proof (induction us arbitrary: n t c)
  case (Cons event us)
  obtain u now where e: "event = (u, now)" by fastforce
  let ?c = "observer_step c (Some (StateUpdate_serialize u), now)"
  have u: "numbered_update backend session interval (Suc n) u" using Cons.prems(3) e by fastforce
  have t: "t \<le> update_timestamp u" using Cons.prems(4) e by simp
  have "behind session (Suc n) (update_timestamp u) c"
    by (rule behind_mono [OF Cons.prems(1)]) (use Cons.prems(2) t in simp_all)
  then have "behind session (Suc n) (update_timestamp u) ?c"
    by (rule deliver_behind [OF _ u]) (use Cons.prems(2) in simp_all)
  moreover have "\<forall>i < length us. numbered_update backend session interval (Suc (Suc n + i)) (fst (us ! i))"
    using Cons.prems(3) by (auto simp: All_less_Suc2)
  moreover have "current session (Suc n) ?c \<or> (\<exists>i < length us. is_snapshot_number interval (Suc (Suc n + i)))"
    using deliver_next [OF Cons.prems(1) u t] Cons.prems(5) by (auto simp: Ex_less_Suc2)
  ultimately show ?case using Cons.IH [of "Suc n" "update_timestamp u" ?c] Cons.prems(2,4) e by simp
qed simp

end

context stable_backend
begin

lemma behind_run:
  assumes "behind session n t c" and "n < 2 ^ 64"
    and "\<forall>(received, now) \<in> set events.
      arrival (\<lambda>u. \<exists>k \<le> n. numbered_update backend session interval k u \<and> update_timestamp u \<le> t) received"
  shows "behind session n t (run observer_step c events)"
  using arrivals_keep [of "behind session n t", OF _ assms(1,3)] deliver_behind assms(2) by blast

end

lemma snapshot_within_interval:
  assumes "0 < unat interval"
  shows "\<exists>i < unat interval. is_snapshot_number interval (Suc (m + i))"
proof -
  let ?d = "unat interval"
  let ?i = "?d - 1 - m mod ?d"
  have less: "m mod ?d < ?d" using assms by simp
  then have "Suc (m + ?i) = m - m mod ?d + ?d" by (simp add: mod_less_eq_dividend)
  also have "\<dots> = ?d * (m div ?d) + ?d" by (simp add: minus_mod_eq_mult_div)
  finally have "?d dvd Suc (m + ?i)" by simp
  moreover have "?i < ?d" using assms by simp
  ultimately show ?thesis by (auto simp: is_snapshot_number_def)
qed

lemma replica_tracks:
  assumes "AuthoritativeServer_create session interval = Some server" and "length timestamps < 2 ^ 64"
    and "updates = publications (CpuBackend_step position config) timestamps server"
    and "\<forall>(received, now) \<in> set events. arrival (\<lambda>u. Inr u \<in> set updates) received"
  shows "cpu_backend.tracks position config session (length timestamps) (run observer_step ObserverClient_initial events)"
proof -
  let ?backend = "CpuBackend_step position config" and ?interval = "if interval = 0 then 1 else interval"
  have "\<exists>k \<le> length timestamps. numbered_update ?backend session ?interval k u" if "Inr u \<in> set updates" for u
    using created_numbered [OF assms(1,2)] that assms(3) by blast
  then have "\<forall>(received, now) \<in> set events.
      arrival (\<lambda>u. \<exists>k \<le> length timestamps. numbered_update ?backend session ?interval k u) received"
    by (rule arrivals_mono [OF _ assms(4)])
  moreover have "cpu_backend.tracks position config session (length timestamps) ObserverClient_initial"
    by (simp add: cpu_backend.tracks_def ObserverClient_initial_def ClientSynchronizer_initial_def)
  ultimately show ?thesis by (rule cpu_backend.tracks_run [rotated])
qed

section \<open>Properties\<close>

text \<open>
  A synchronized observer shows a scene of the server. Let the server publish any
  number of updates of the CPU simulation, and let the channel lose, repeat, reorder and
  fabricate datagrams at will, as long as a fabricated one is not itself a valid update. Whenever
  the observer is then synchronized, its scene is exactly the server's scene at the revision that
  the observer names.
\<close>

lemma replica_shows_published_scene:
  assumes "AuthoritativeServer_create session interval = Some server" and "length timestamps < 2 ^ 64"
    and "updates = publications (CpuBackend_step position config) timestamps server"
    and "\<forall>(received, now) \<in> set events. arrival (\<lambda>u. Inr u \<in> set updates) received"
    and "client = run observer_step ObserverClient_initial events"
    and "sync_synchronized (observer_synchronizer client)"
  shows "\<exists>k. 0 < k \<and> k \<le> length timestamps \<and>
    sync_revision (observer_synchronizer client) = of_nat k \<and>
    observer_scene client = CpuBackend_step position config (of_nat k)"
  using replica_tracks [OF assms(1-4)] assms(5,6) by (auto simp: cpu_backend.tracks_def)

text \<open>A small server and a channel for the examples.\<close>

definition sample_position :: "u64 \<Rightarrow> u64 \<Rightarrow> u32 \<times> u32" where
  "sample_position index tick = (0, 0)"

definition sample_config :: SimulationConfig where
  "sample_config = \<lparr>config_observer_count = 1, config_seed = 1\<rparr>"

definition sample_server :: AuthoritativeServer where
  "sample_server = the (AuthoritativeServer_create 9 1)"

lemma sample_server_created: "AuthoritativeServer_create 9 1 = Some sample_server"
  by (simp add: sample_server_def AuthoritativeServer_create_def)

lemma cpu_payload:
  assumes "unat (cpu_count config) \<le> 800"
  shows "TopologyScene_serialize_snapshot (CpuBackend_step position config tick) \<noteq> [] \<and>
    length (TopologyScene_serialize_snapshot (CpuBackend_step position config tick)) \<le> update_maximum_payload_size"
  by (rule scene_within_payload [OF cpu_scene_within assms])

lemma cpu_publications:
  assumes "AuthoritativeServer_create session interval = Some server" and "length timestamps < 2 ^ 64"
    and "unat (cpu_count config) \<le> 800" and "i < length timestamps"
  shows "\<exists>u. publications (CpuBackend_step position config) timestamps server ! i = Inr u \<and>
    numbered_update (CpuBackend_step position config) session (server_snapshot_interval server) (Suc i) u \<and>
    update_timestamp u = timestamps ! i"
proof -
  let ?backend = "CpuBackend_step position config"
  have after: "server_after session (server_snapshot_interval server) 0 server" "session \<noteq> 0"
    using assms(1) by (auto simp: AuthoritativeServer_create_def server_after_def split: if_splits)
  have "publications ?backend timestamps server ! i \<in> set (publications ?backend timestamps server)"
    using assms(4) by simp
  then have "\<exists>u. publications ?backend timestamps server ! i = Inr u"
    using assms(2) cpu_payload [OF assms(3), of position]
    by (intro publications_succeed [OF after(1) _ after(2)]) simp_all
  then show ?thesis using publications_numbered [OF after(1) _ assms(4), of ?backend] assms(2) by auto
qed

text \<open>
  What the timestamps of the updates say, with \<open>t\<close> between the first \<open>m\<close> and the rest: after any arrivals of the first
  \<open>m\<close> the observer is not ahead of them, and the others are in order.
\<close>

lemma observer_behind:
  fixes position config
  defines "backend \<equiv> CpuBackend_step position config"
  assumes nth: "\<And>i. i < length timestamps \<Longrightarrow> updates ! i = Inr (projr (updates ! i)) \<and>
      numbered_update backend session interval (Suc i) (projr (updates ! i)) \<and>
      update_timestamp (projr (updates ! i)) = timestamps ! i"
    and "length updates = length timestamps" and "length timestamps < 2 ^ 64" and "m \<le> length timestamps"
    and before: "\<And>i. i < m \<Longrightarrow> timestamps ! i \<le> t"
    and arrivals: "\<forall>(received, now) \<in> set events. arrival (\<lambda>u. Inr u \<in> set (take m updates)) received"
  shows "cpu_backend.behind session m t (run observer_step ObserverClient_initial events)"
proof -
  have "\<exists>k \<le> m. numbered_update backend session interval k u \<and> update_timestamp u \<le> t" if "Inr u \<in> set (take m updates)" for u
  proof -
    obtain i where "i < m" "i < length timestamps" "updates ! i = Inr u"
      using \<open>Inr u \<in> set (take m updates)\<close> assms(3) by (auto simp: in_set_conv_nth)
    then show ?thesis using nth [of i] before [of i] by (intro exI [of _ "Suc i"]) auto
  qed
  then have "\<forall>(received, now) \<in> set events.
      arrival (\<lambda>u. \<exists>k \<le> m. numbered_update backend session interval k u \<and> update_timestamp u \<le> t) received"
    by (rule arrivals_mono [OF _ arrivals])
  moreover have "cpu_backend.behind session m t ObserverClient_initial"
    by (simp add: cpu_backend.behind_def ObserverClient_initial_def ClientSynchronizer_initial_def)
  ultimately show ?thesis
    using cpu_backend.behind_run [where position = position and config = config] assms(4,5) by (simp add: backend_def)
qed

text \<open>
  Property C16: an observer catches up within one snapshot interval. Let the observer have
  received whatever the channel made of the first m updates. If the next updates, as many as the
  snapshot interval, then arrive in order, the observer is synchronized at the last of them and
  shows the server's scene, for timestamps that do not run backwards and up to 800 observers,
  for which every scene fits in a datagram.
\<close>

theorem replica_catches_up:
  assumes "AuthoritativeServer_create session interval = Some server" and "length timestamps < 2 ^ 64"
    and "sorted timestamps" and "unat (cpu_count config) \<le> 800"
    and "updates = publications (CpuBackend_step position config) timestamps server"
    and "d = unat (server_snapshot_interval server)" and "m + d \<le> length timestamps"
    and "\<forall>(received, now) \<in> set events. arrival (\<lambda>u. Inr u \<in> set (take m updates)) received"
    and "length arrived_at = d"
    and "client = run observer_step (run observer_step ObserverClient_initial events)
      (map (\<lambda>(u, now). (Some (StateUpdate_serialize u), now)) (zip (map projr (take d (drop m updates))) arrived_at))"
  shows "sync_synchronized (observer_synchronizer client) \<and>
    sync_revision (observer_synchronizer client) = of_nat (m + d) \<and>
    observer_scene client = CpuBackend_step position config (of_nat (m + d))"
proof -
  let ?interval = "server_snapshot_interval server" and ?backend = "CpuBackend_step position config"
  let ?us = "zip (map projr (take d (drop m updates))) arrived_at"
  have nth: "updates ! i = Inr (projr (updates ! i)) \<and> numbered_update ?backend session ?interval (Suc i) (projr (updates ! i)) \<and>
      update_timestamp (projr (updates ! i)) = timestamps ! i" if "i < length timestamps" for i
    using cpu_publications [OF assms(1,2,4) that, of position] assms(5) by auto
  define t where "t = (if m = 0 then 0 else timestamps ! (m - 1))"
  have t: "i < m \<Longrightarrow> timestamps ! i \<le> t" "m + i < length timestamps \<Longrightarrow> t \<le> timestamps ! (m + i)" for i
    using assms(3,7) by (auto simp: t_def intro: sorted_nth_mono)
  have len: "length updates = length timestamps" "length ?us = d" using assms(5,7,9) by simp_all
  have late: "cpu_backend.behind session m t (run observer_step ObserverClient_initial events)"
  proof -
    have "m \<le> length timestamps" using assms(7) by simp
    from observer_behind [OF _ len(1) assms(2) this _ assms(8), of position config session ?interval t]
    show ?thesis using nth t(1) by blast
  qed
  have numbered: "\<forall>i < length ?us. numbered_update ?backend session ?interval (Suc (m + i)) (fst (?us ! i))"
    using nth assms(7,9) len by simp
  have "map (\<lambda>u. update_timestamp (fst u)) ?us = take d (drop m timestamps)"
    using nth assms(7,9) len by (auto intro: nth_equalityI)
  then have ordered: "sorted (t # map (\<lambda>u. update_timestamp (fst u)) ?us)"
    using t(2) assms(3,7) by (auto simp: in_set_conv_nth sorted_wrt_drop sorted_wrt_take)
  have snapshot: "\<exists>i < length ?us. is_snapshot_number ?interval (Suc (m + i))"
    using snapshot_within_interval [of ?interval m] assms(1,6) len
    by (auto simp: AuthoritativeServer_create_def unat_gt_0 split: if_splits)
  have "cpu_backend.current position config session (m + length ?us) client"
    unfolding assms(10)
    by (rule cpu_backend.deliver_all [OF late _ numbered ordered]) (use snapshot assms(2,7) len in auto)
  then show ?thesis using len by (simp add: cpu_backend.current_def)
qed

text \<open>The first update arrives twice, then garbage and a timeout.\<close>

definition sample_updates :: "(PublishError + StateUpdate) list" where
  "sample_updates = publications (CpuBackend_step sample_position sample_config) [5, 6] sample_server"

definition sample_events :: "(bytes option \<times> TimePoint) list" where
  "sample_events = [(Some (StateUpdate_serialize (projr (sample_updates ! 0))), 1),
     (Some (StateUpdate_serialize (projr (sample_updates ! 0))), 2), (Some [1, 2, 3], 3), (None, 4)]"

lemma sample_count: "unat (cpu_count sample_config) \<le> 800"
  by (simp add: cpu_count_def sample_config_def)

lemma sample_first: "sample_updates ! 0 = Inr (projr (sample_updates ! 0))"
  using cpu_publications [OF sample_server_created _ sample_count, of "[5, 6]" 0 sample_position]
  by (auto simp: sample_updates_def)

lemma sample_updates_first: "Inr (projr (sample_updates ! 0)) \<in> set (take 1 sample_updates)"
proof -
  have "take 1 sample_updates = [sample_updates ! 0]"
    by (simp add: take_Suc_conv_app_nth sample_updates_def del: publications.simps)
  then show ?thesis using sample_first by simp
qed

lemma sample_arrivals:
  "\<forall>(received, now) \<in> set sample_events. arrival (\<lambda>u. Inr u \<in> set (take 1 sample_updates)) received"
proof -
  have "StateUpdate_parse [1, 2, 3] = Inl update_truncated"
    by (simp add: StateUpdate_parse_def update_header_size_def)
  then show ?thesis using sample_updates_first by (auto simp: sample_events_def arrival_def)
qed

lemma sample_synchronized:
  "sync_synchronized (observer_synchronizer (run observer_step ObserverClient_initial sample_events))"
proof -
  let ?u = "projr (sample_updates ! 0)"
  have u: "numbered_update (CpuBackend_step sample_position sample_config) 9 1 1 ?u"
    using cpu_publications [OF sample_server_created _ sample_count, of "[5, 6]" 0 sample_position]
    by (auto simp: sample_updates_def sample_server_def AuthoritativeServer_create_def)
  have "cpu_backend.current sample_position sample_config 9 1
      (observer_step ObserverClient_initial (Some (StateUpdate_serialize ?u), now))" for now
    using cpu_backend.deliver_next [of 9 0 0 ObserverClient_initial sample_position sample_config 1 ?u] u
    by (simp add: cpu_backend.behind_def ObserverClient_initial_def ClientSynchronizer_initial_def is_snapshot_number_def)
  moreover have "sync_synchronized (observer_synchronizer (observer_step c (Some (StateUpdate_serialize ?u), now)))"
    if "cpu_backend.current sample_position sample_config 9 1 c" for c now
  proof -
    have "update_sequence ?u = 1" "update_session_id ?u = 9" using u by (simp_all add: numbered_update_def)
    then show ?thesis
      using that by (simp add: cpu_backend.receive_numbered [OF u] cpu_backend.current_def consume_defs split: option.split)
  qed
  ultimately show ?thesis
    using observer_step_unparsed [of "Some [1, 2, 3]"] observer_step_unparsed [of None]
    by (simp add: sample_events_def StateUpdate_parse_def update_header_size_def)
qed

lemma replica_shows_published_scene_witness:
  "\<exists>k. observer_scene (run observer_step ObserverClient_initial sample_events) =
     CpuBackend_step sample_position sample_config k"
proof -
  have "\<forall>(received, now) \<in> set sample_events. arrival (\<lambda>u. Inr u \<in> set sample_updates) received"
    by (rule arrivals_mono [OF _ sample_arrivals]) (auto dest: in_set_takeD)
  then show ?thesis
    using replica_shows_published_scene [OF sample_server_created _ sample_updates_def _ refl sample_synchronized] by auto
qed

theorem replica_catches_up_witness:
  "observer_scene (run observer_step (run observer_step ObserverClient_initial sample_events)
     (map (\<lambda>(u, now). (Some (StateUpdate_serialize u), now)) (zip (map projr (take 1 (drop 1 sample_updates))) [7]))) =
   CpuBackend_step sample_position sample_config 2"
  using replica_catches_up [OF sample_server_created _ _ sample_count sample_updates_def _ _ sample_arrivals _ refl, of 1 "[7]"]
  by (simp add: sample_server_def AuthoritativeServer_create_def del: publications.simps)

end
