(* ===== verification/Simulation_Server.thy ===== *)
theory Simulation_Server
  imports Command_Line Replication
begin

text \<open>
  \<^verbatim>\<open>apps/simulation_server/main.cpp\<close>: the process that selects a backend and publishes its scenes to the observers
  named on the command line. A pass of the loop is one event: whether the process is still running, the clock
  reading that stamps the update, and which of the sends succeed. A run that goes on when the events end is
  \<open>None\<close>. Pacing (the sleep between updates) is not modelled.
\<close>

section \<open>The program\<close>

datatype server_exit =
  server_usage_error | server_backend_unavailable RuntimeSelectionError | server_backend_failed cuda_call
| server_socket_error | server_session_error | server_publish_error PublishError | server_stopped u64

definition default_simulation_config :: SimulationConfig where
  "default_simulation_config = \<lparr>config_observer_count = 3, config_seed = 1\<rparr>"

definition default_snapshot_interval :: u64 where
  "default_snapshot_interval = 60"

fun server_loop ::
  "(u64 \<Rightarrow> TopologyScene) \<Rightarrow> u64 \<Rightarrow> (bool \<times> u64 \<times> (nat \<Rightarrow> bool)) list \<Rightarrow> u64 \<Rightarrow> AuthoritativeServer \<Rightarrow>
   (server_exit \<times> (ObserverEndpoint \<times> bytes) list \<times> AuthoritativeServer) option" where
  "server_loop backend maximum_ticks [] ticks server = None"
| "server_loop backend maximum_ticks ((running, timestamp, send) # rest) ticks server =
     (if running \<and> (maximum_ticks = 0 \<or> ticks < maximum_ticks) then
        case AuthoritativeServer_publish_next backend send timestamp server of
          (Inl error, sent, server') \<Rightarrow> Some (server_publish_error error, sent, server')
        | (Inr published, sent, server') \<Rightarrow>
            (case server_loop backend maximum_ticks rest (ticks + 1) server' of
               None \<Rightarrow> None
             | Some (result, sent', server'') \<Rightarrow> Some (result, sent @ sent', server''))
      else Some (server_stopped ticks, [], server))"

text \<open>
  \<open>step\<close> is what the selected backend shows at a tick, \<open>bound\<close> whether the socket could be made,
  \<open>session\<close> the clock reading that names the session.
\<close>

definition server_main ::
  "cuda_build \<Rightarrow> (SimulationBackend \<Rightarrow> u64 \<Rightarrow> TopologyScene) \<Rightarrow> bool \<Rightarrow> u64 \<Rightarrow> string list \<Rightarrow>
   (bool \<times> u64 \<times> (nat \<Rightarrow> bool)) list \<Rightarrow> (server_exit \<times> (ObserverEndpoint \<times> bytes) list) option" where
  "server_main build step bound session arguments events =
     (case parse_server_options arguments default_server_options of
        None \<Rightarrow> Some (server_usage_error, [])
      | Some options \<Rightarrow>
          (case select_runtime build (server_mode options) default_simulation_config of
             Inl call \<Rightarrow> Some (server_backend_failed call, [])
           | Inr (Inl error) \<Rightarrow> Some (server_backend_unavailable error, [])
           | Inr (Inr runtime) \<Rightarrow>
               if \<not> bound then Some (server_socket_error, [])
               else
                 case AuthoritativeServer_create session default_snapshot_interval of
                   None \<Rightarrow> Some (server_session_error, [])
                 | Some server \<Rightarrow>
                     let server = foldl (\<lambda>s endpoint. AuthoritativeServer_add_observer endpoint s) server (server_endpoints options)
                     in case server_loop (step (the (selected_backend runtime))) (server_maximum_ticks options) events 0 server of
                          None \<Rightarrow> None
                        | Some (result, sent, server') \<Rightarrow> Some (result, sent)))"

section \<open>What the observers are sent\<close>

lemma publish_loop_all:
  "publish_loop send bs observers n = (Inr published, sent) \<Longrightarrow> sent = map (\<lambda>observer. (observer, bs)) observers"
  by (induction observers arbitrary: n sent) (auto split: if_splits prod.splits)

lemma publish_next_sends:
  assumes "AuthoritativeServer_publish_next backend send timestamp server = (Inr published, sent, server')"
  shows "\<exists>u. AuthoritativeServer_next_update backend timestamp server = (Inr u, server') \<and>
    sent = map (\<lambda>observer. (observer, StateUpdate_serialize u)) (server_observers server')"
  using assms by (auto simp: AuthoritativeServer_publish_next_def Let_def dest: publish_loop_all split: sum.splits prod.splits)

lemma next_update_observers: "server_observers (snd (AuthoritativeServer_next_update backend timestamp server)) = server_observers server"
  by (auto simp: AuthoritativeServer_next_update_def Let_def split: option.split)

text \<open>Every pass that published sent its update to every observer, in the order of the command line.\<close>

lemma server_loop_publishes:
  assumes "server_loop backend maximum_ticks events ticks server = Some (server_stopped n, sent, server')"
  shows "\<exists>timestamps us. timestamps = map (\<lambda>e. fst (snd e)) (take (length timestamps) events) \<and>
    n = ticks + of_nat (length timestamps) \<and> publications backend timestamps server = map Inr us \<and>
    sent = concat (map (\<lambda>u. map (\<lambda>observer. (observer, StateUpdate_serialize u)) (server_observers server)) us)"
  using assms
proof (induction events arbitrary: ticks server sent)
  case (Cons event events)
  obtain running timestamp send where e: "event = (running, timestamp, send)" by (cases event) auto
  show ?case
  proof (cases "running \<and> (maximum_ticks = 0 \<or> ticks < maximum_ticks)")
    case True
    obtain published sent1 sent2 server1 where publish: "AuthoritativeServer_publish_next backend send timestamp server = (Inr published, sent1, server1)"
      and rest: "server_loop backend maximum_ticks events (ticks + 1) server1 = Some (server_stopped n, sent2, server')"
      and sent: "sent = sent1 @ sent2"
      using Cons.prems True by (auto simp: e split: sum.splits prod.splits option.splits)
    obtain u where u: "AuthoritativeServer_next_update backend timestamp server = (Inr u, server1)"
        "sent1 = map (\<lambda>observer. (observer, StateUpdate_serialize u)) (server_observers server1)"
      using publish_next_sends [OF publish] by blast
    have observers: "server_observers server1 = server_observers server"
      using next_update_observers [of backend timestamp server] u(1) by simp
    obtain timestamps us where ih: "timestamps = map (\<lambda>e. fst (snd e)) (take (length timestamps) events)"
        "n = ticks + 1 + of_nat (length timestamps)" "publications backend timestamps server1 = map Inr us"
        "sent2 = concat (map (\<lambda>u. map (\<lambda>observer. (observer, StateUpdate_serialize u)) (server_observers server1)) us)"
      using Cons.IH [OF rest] by blast
    show ?thesis
      using ih u sent
      by (intro exI [of _ "timestamp # timestamps"] exI [of _ "u # us"]) (simp add: e observers add_ac)
  next
    case False
    then show ?thesis using Cons.prems by (intro exI [of _ "[]"]) (auto simp: e split: if_splits)
  qed
qed simp

section \<open>A run to the end\<close>

lemma publish_loop_succeeds:
  "\<forall>i. send i \<Longrightarrow> publish_loop send bs observers n = (Inr (n + length observers), map (\<lambda>observer. (observer, bs)) observers)"
  by (induction observers arbitrary: n) simp_all

text \<open>
  \<open>k\<close> passes before the loop stops: so many updates, because the tick limit (if there is one) is not reached earlier;
  and then a stop, by the limit or by a signal.
\<close>

definition stops_after :: "u64 \<Rightarrow> (bool \<times> u64 \<times> (nat \<Rightarrow> bool)) list \<Rightarrow> nat \<Rightarrow> bool" where
  "stops_after maximum_ticks events k \<longleftrightarrow> k < length events \<and> (\<forall>(running, timestamp, send) \<in> set (take k events). running) \<and>
     (maximum_ticks = 0 \<or> k \<le> unat maximum_ticks) \<and>
     (\<not> fst (events ! k) \<or> maximum_ticks \<noteq> 0 \<and> k = unat maximum_ticks)"

lemma server_loop_completes:
  assumes "server_after session interval n server" and "session \<noteq> 0" and "n + k < 2 ^ 64"
    and payloads: "\<And>tick. TopologyScene_serialize_snapshot (backend tick) \<noteq> [] \<and>
      length (TopologyScene_serialize_snapshot (backend tick)) \<le> update_maximum_payload_size"
    and "k < length events" and "\<forall>(running, timestamp, send) \<in> set (take k events). running \<and> (\<forall>i. send i)"
    and "maximum_ticks = 0 \<or> n + k \<le> unat maximum_ticks"
    and "\<not> fst (events ! k) \<or> maximum_ticks \<noteq> 0 \<and> n + k = unat maximum_ticks"
  shows "\<exists>us server'. length us = k \<and> (\<forall>i < k. numbered_update backend session interval (Suc (n + i)) (us ! i)) \<and>
    server_loop backend maximum_ticks events (of_nat n) server = Some (server_stopped (of_nat (n + k)),
      concat (map (\<lambda>u. map (\<lambda>observer. (observer, StateUpdate_serialize u)) (server_observers server)) us), server')"
  using assms(1,3,5-8)
proof (induction k arbitrary: n server events)
  case 0
  then obtain running timestamp send rest where e: "events = (running, timestamp, send) # rest"
    by (cases events) auto
  have "unat (of_nat n :: u64) = n" using "0.prems"(2) by (simp add: unat_of_nat)
  then have "(running \<and> (maximum_ticks = 0 \<or> (of_nat n :: u64) < maximum_ticks)) = False"
    using "0.prems"(6) by (auto simp: e word_less_nat_alt)
  then have "server_loop backend maximum_ticks events (of_nat n) server = Some (server_stopped (of_nat n), [], server)"
    by (simp only: e server_loop.simps if_False)
  then show ?case by simp
next
  case (Suc k)
  then obtain timestamp send rest where e: "events = (True, timestamp, send) # rest" and sends: "\<forall>i. send i"
    by (cases events) auto
  have n: "Suc n < 2 ^ 64" "unat (of_nat n :: u64) = n" using Suc.prems(2) by (simp_all add: unat_of_nat)
  have limit: "maximum_ticks = 0 \<or> (of_nat n :: u64) < maximum_ticks"
    using Suc.prems(5) n(2) by (auto simp: word_less_nat_alt)
  obtain u server1 where u: "AuthoritativeServer_next_update backend timestamp server = (Inr u, server1)"
    using next_update_succeeds [where backend = backend, OF Suc.prems(1) n(1) assms(2) payloads] by blast
  have server1: "server_after session interval (Suc n) server1" "server_observers server1 = server_observers server"
    using next_update_state [OF Suc.prems(1), of backend timestamp] next_update_observers [of backend timestamp server] u by simp_all
  have bounds: "Suc n + k < 2 ^ 64" "k < length rest" "maximum_ticks = 0 \<or> Suc n + k \<le> unat maximum_ticks"
    "\<not> fst (rest ! k) \<or> maximum_ticks \<noteq> 0 \<and> Suc n + k = unat maximum_ticks"
    "\<forall>(running, timestamp, send) \<in> set (take k rest). running \<and> (\<forall>i. send i)"
    using Suc.prems(2-6) by (simp_all add: e)
  from Suc.IH [OF server1(1) bounds(1,2,5,3,4)]
  obtain us server' where us: "length us = k" "\<forall>i < k. numbered_update backend session interval (Suc (Suc n + i)) (us ! i)"
      "server_loop backend maximum_ticks rest (of_nat (Suc n)) server1 = Some (server_stopped (of_nat (Suc n + k)),
        concat (map (\<lambda>u. map (\<lambda>observer. (observer, StateUpdate_serialize u)) (server_observers server1)) us), server')"
    by blast
  have "numbered_update backend session interval (Suc n) u" using next_update_numbered [OF Suc.prems(1) n(1) u] by blast
  then have "\<forall>i < Suc k. numbered_update backend session interval (Suc (n + i)) ((u # us) ! i)"
    using us(2) by (auto simp: nth_Cons split: nat.split)
  moreover have "server_loop backend maximum_ticks events (of_nat n) server = Some (server_stopped (of_nat (n + Suc k)),
      concat (map (\<lambda>u. map (\<lambda>observer. (observer, StateUpdate_serialize u)) (server_observers server)) (u # us)), server')"
    using us(3) limit u server1(2)
    by (simp add: e AuthoritativeServer_publish_next_def publish_loop_succeeds [OF sends] add.commute)
  moreover have "length (u # us) = Suc k" using us(1) by simp
  ultimately show ?case by blast
qed

text \<open>What the CPU backend of a runtime shows.\<close>

definition cpu_step :: "(u64 \<Rightarrow> u64 \<Rightarrow> u32 \<times> u32) \<Rightarrow> SimulationBackend \<Rightarrow> u64 \<Rightarrow> TopologyScene" where
  "cpu_step position backend = (case backend of Cpu config \<Rightarrow> CpuBackend_step position config | Cuda b \<Rightarrow> \<lambda>_. empty_scene)"

lemma add_observers:
  "server_observers (foldl (\<lambda>s endpoint. AuthoritativeServer_add_observer endpoint s) server endpoints) = server_observers server @ endpoints"
  "server_after session interval n server \<Longrightarrow>
   server_after session interval n (foldl (\<lambda>s endpoint. AuthoritativeServer_add_observer endpoint s) server endpoints)"
  by (induction endpoints arbitrary: server) (simp_all add: AuthoritativeServer_add_observer_def server_after_def)

text \<open>
  Property C36: how many revisions a server on the CPU publishes, and what it sends. Let the options be accepted
  and let them select the CPU backend: they name it, or they leave the choice to a program whose build has no CUDA or
  finds no device. Let the socket be made, the session number (the clock's reading) not be zero and the sends of the
  passes of the loop succeed. Then the program ends by itself after \<open>k\<close> passes, when it reaches the tick limit of the command
  line or when a signal has stopped it before, whichever comes first, and reports \<open>k\<close> revisions; every observer of the
  command line was sent the updates \<open>1\<close> to \<open>k\<close> of the session, in this order, and nothing
  else, where every sixtieth update (and the first) is a snapshot and each other one a delta from its
  predecessor, all with the scene of the simulation at their revision. Servers on a CUDA backend are not spoken of.
\<close>

theorem simulation_server_completes:
  assumes "parse_server_options arguments default_server_options = Some options"
    and "server_mode options = mode_cpu \<or>
      server_mode options = mode_automatic \<and> \<not> (cuda_backend_compiled build \<and> cuda_device_available build)"
    and "session \<noteq> 0" and "k < 2 ^ 64" and "stops_after (server_maximum_ticks options) events k"
    and "\<forall>(running, timestamp, send) \<in> set (take k events). \<forall>i. send i"
  shows "\<exists>us. server_main build (cpu_step position) True session arguments events = Some (server_stopped (of_nat k),
      concat (map (\<lambda>u. map (\<lambda>observer. (observer, StateUpdate_serialize u)) (server_endpoints options)) us)) \<and>
    length us = k \<and>
    (\<forall>i < k. numbered_update (CpuBackend_step position default_simulation_config) session 60 (Suc i) (us ! i))"
proof -
  let ?backend = "CpuBackend_step position default_simulation_config"
  let ?created = "\<lparr>server_observers = [], server_session_id = session, server_snapshot_interval = 60,
    server_sequence = 0, server_revision = 0\<rparr>"
  let ?server = "foldl (\<lambda>s endpoint. AuthoritativeServer_add_observer endpoint s) ?created (server_endpoints options)"
  have created: "AuthoritativeServer_create session default_snapshot_interval = Some ?created"
    using assms(3) by (simp add: AuthoritativeServer_create_def default_snapshot_interval_def)
  have runtime: "select_runtime build (server_mode options) default_simulation_config =
      Inr (Inr \<lparr>selected_mode = mode_cpu, selected_backend = Some (Cpu default_simulation_config)\<rparr>)"
    using assms(2) by (auto simp: select_runtime_def make_cpu_backend_def)
  have after: "server_after session 60 0 ?server" by (rule add_observers) (simp add: server_after_def)
  have "unat (cpu_count default_simulation_config) \<le> 800" by (simp add: cpu_count_def default_simulation_config_def)
  note payloads = cpu_payload [OF this, of position]
  have passes: "k < length events" "server_maximum_ticks options = 0 \<or> 0 + k \<le> unat (server_maximum_ticks options)"
    "\<not> fst (events ! k) \<or> server_maximum_ticks options \<noteq> 0 \<and> 0 + k = unat (server_maximum_ticks options)"
    "\<forall>(running, timestamp, send) \<in> set (take k events). running \<and> (\<forall>i. send i)"
    using assms(5,6) by (auto simp: stops_after_def)
  have "0 + k < 2 ^ 64" using assms(4) by simp
  from server_loop_completes [where backend = ?backend, OF after assms(3) this payloads passes(1,4,2,3)]
  obtain us server' where "length us = k" "\<forall>i < k. numbered_update ?backend session 60 (Suc i) (us ! i)"
      "server_loop ?backend (server_maximum_ticks options) events 0 ?server = Some (server_stopped (of_nat k),
        concat (map (\<lambda>u. map (\<lambda>observer. (observer, StateUpdate_serialize u)) (server_endpoints options)) us), server')"
    by (auto simp: add_observers(1))
  then show ?thesis
    by (intro exI [of _ us]) (simp add: server_main_def assms(1) runtime created cpu_step_def)
qed

definition sample_server_options :: server_options where
  "sample_server_options = \<lparr>server_mode = mode_cpu, server_endpoints = [\<lparr>endpoint_address = ''a'', endpoint_port = 7\<rparr>],
     server_maximum_ticks = 2, server_rate = 30\<rparr>"

lemma sample_server_arguments:
  "parse_server_options [''--backend'', ''cpu'', ''--observer'', ''a'' @ CHR '':'' # decimal 7, ''--ticks'', decimal 2] default_server_options =
     Some sample_server_options"
  using parse_endpoint_text [of "''a''" 7] stoull_decimal [of 2]
  by (simp add: default_server_options_def sample_server_options_def parse_runtime_mode_def)

theorem simulation_server_completes_witness:
  "(\<exists>us. server_main cuda_stub (cpu_step (\<lambda>_ _. (0, 0))) True 5
      [''--backend'', ''cpu'', ''--observer'', ''a'' @ CHR '':'' # decimal 7, ''--ticks'', decimal 2]
      (replicate 3 (True, 9, \<lambda>_. True)) =
    Some (server_stopped 2,
      concat (map (\<lambda>u. map (\<lambda>observer. (observer, StateUpdate_serialize u)) [\<lparr>endpoint_address = ''a'', endpoint_port = 7\<rparr>]) us)) \<and>
    length us = 2) \<and>
   (\<exists>us. server_main cuda_stub (cpu_step (\<lambda>_ _. (0, 0))) True 5
      [''--backend'', ''cpu'', ''--observer'', ''a'' @ CHR '':'' # decimal 7, ''--ticks'', decimal 2]
      [(True, 9, \<lambda>_. True), (False, 9, \<lambda>_. False)] =
    Some (server_stopped 1,
      concat (map (\<lambda>u. map (\<lambda>observer. (observer, StateUpdate_serialize u)) [\<lparr>endpoint_address = ''a'', endpoint_port = 7\<rparr>]) us)) \<and>
    length us = 1)"
proof -
  have stops: "stops_after (server_maximum_ticks sample_server_options) (replicate 3 (True, 9, \<lambda>_. True)) 2"
    "stops_after (server_maximum_ticks sample_server_options) [(True, 9, \<lambda>_. True), (False, 9, \<lambda>_. False)] 1"
    by (simp_all add: stops_after_def sample_server_options_def take_replicate)
  have sends: "\<forall>(running, timestamp, send) \<in> set (take 2 (replicate 3 (True, 9 :: u64, \<lambda>_ :: nat. True))). \<forall>i. send i"
    "\<forall>(running, timestamp, send) \<in> set (take 1 [(True, 9 :: u64, \<lambda>_ :: nat. True), (False, 9, \<lambda>_. False)]). \<forall>i. send i"
    by (simp_all add: take_replicate)
  have mode: "server_mode sample_server_options = mode_cpu \<or> server_mode sample_server_options = mode_automatic \<and>
      \<not> (cuda_backend_compiled cuda_stub \<and> cuda_device_available cuda_stub)" by (simp add: sample_server_options_def)
  have session: "(5 :: u64) \<noteq> 0" by simp
  have "(2 :: nat) < 2 ^ 64" "(1 :: nat) < 2 ^ 64" by simp_all
  from simulation_server_completes [OF sample_server_arguments mode session this(1) stops(1) sends(1), of "\<lambda>_ _. (0, 0)"]
    simulation_server_completes [OF sample_server_arguments mode session this(2) stops(2) sends(2), of "\<lambda>_ _. (0, 0)"]
  show ?thesis by (auto simp: sample_server_options_def)
qed

end
