(* ===== verification/Replication_Udp.thy ===== *)
theory Replication_Udp
  imports Replication Udp_Socket
begin

text \<open>
  The server and the observer over their sockets: \<^verbatim>\<open>simulation/authoritative_server.cpp\<close> sends through a
  \<^verbatim>\<open>UdpSocket\<close> and \<^verbatim>\<open>visualization/observer_client.cpp\<close> receives through one. The models of
  \<^verbatim>\<open>Authoritative_Server\<close> and \<^verbatim>\<open>Observer_Client\<close>, in which the socket is an oracle, are what
  these refine; with the contracts of the system calls, the replica's guarantee holds from socket to socket.
\<close>

section \<open>The server's side\<close>

fun publish_loop_udp ::
  "('os, 'addr) udp_calls \<Rightarrow> UdpSocket \<Rightarrow> bytes \<Rightarrow> ObserverEndpoint list \<Rightarrow> nat \<Rightarrow> 'os \<Rightarrow> (PublishError + nat) \<times> 'os" where
  "publish_loop_udp sys socket bs [] published os = (Inr published, os)"
| "publish_loop_udp sys socket bs (observer # observers) published os =
     (case UdpSocket_send_to_ipv4 sys socket (ascii (endpoint_address observer)) (endpoint_port observer) bs os of
        (Inl error, os') \<Rightarrow> (Inl socket_error, os')
      | (Inr sent, os') \<Rightarrow> publish_loop_udp sys socket bs observers (Suc published) os')"

definition AuthoritativeServer_publish_next_udp ::
  "('os, 'addr) udp_calls \<Rightarrow> UdpSocket \<Rightarrow> (u64 \<Rightarrow> TopologyScene) \<Rightarrow> u64 \<Rightarrow> AuthoritativeServer \<Rightarrow> 'os \<Rightarrow>
   (PublishError + nat) \<times> AuthoritativeServer \<times> 'os" where
  "AuthoritativeServer_publish_next_udp sys socket backend timestamp s os =
     (case AuthoritativeServer_next_update backend timestamp s of
        (Inl failure, s) \<Rightarrow> (Inl failure, s, os)
      | (Inr update, s) \<Rightarrow>
          let (result, os) = publish_loop_udp sys socket (StateUpdate_serialize update) (server_observers s) 0 os
          in (result, s, os))"

section \<open>The observer's side\<close>

record UdpObserver =
  observer_socket :: UdpSocket
  observer_state :: ObserverClient

definition ObserverClient_bind ::
  "('os, 'addr) udp_calls \<Rightarrow> bytes \<Rightarrow> u16 \<Rightarrow> 'os \<Rightarrow> (UdpError + UdpObserver) \<times> 'os" where
  "ObserverClient_bind sys address port os =
     (case UdpSocket_bind_ipv4 sys address port os of
        (Inl error, os') \<Rightarrow> (Inl error, os')
      | (Inr socket, os') \<Rightarrow> (Inr \<lparr>observer_socket = socket, observer_state = ObserverClient_initial\<rparr>, os'))"

definition observer_datagram_size :: nat where
  "observer_datagram_size = update_header_size + update_maximum_payload_size"

definition ObserverClient_receive_next_udp ::
  "('os, 'addr) udp_calls \<Rightarrow> TimePoint \<Rightarrow> UdpObserver \<times> 'os \<Rightarrow> ObserverResult \<times> UdpObserver \<times> 'os" where
  "ObserverClient_receive_next_udp sys now = (\<lambda>(w, os).
     case UdpSocket_receive sys (observer_socket w) observer_datagram_size os of
       (Inl error, os') \<Rightarrow> (observer_network_error, w, os')
     | (Inr datagram, os') \<Rightarrow>
         let (result, client) = ObserverClient_consume_datagram (datagram_payload datagram) now (observer_state w)
         in (result, w\<lparr>observer_state := client\<rparr>, os'))"

definition ObserverClient_set_receive_timeout ::
  "('os, 'addr) udp_calls \<Rightarrow> int \<Rightarrow> UdpObserver \<Rightarrow> 'os \<Rightarrow> UdpError option \<times> 'os" where
  "ObserverClient_set_receive_timeout sys timeout w os = UdpSocket_set_receive_timeout sys (observer_socket w) timeout os"

definition ObserverClient_local_port :: "('os, 'addr) udp_calls \<Rightarrow> UdpObserver \<Rightarrow> 'os \<Rightarrow> u16" where
  "ObserverClient_local_port sys w os = UdpSocket_local_port sys (observer_socket w) os"

section \<open>Refinement\<close>

text \<open>A datagram as the network sees it, for an endpoint of the server.\<close>

definition on_the_wire :: "('os, 'addr) udp_calls \<Rightarrow> ObserverEndpoint \<times> bytes \<Rightarrow> bytes \<times> 'addr \<times> u16" where
  "on_the_wire sys = (\<lambda>(endpoint, bs).
     (bs, the (call_inet_pton sys (ascii (endpoint_address endpoint))), endpoint_port endpoint))"

lemma send_to_sent:
  assumes "udp_sent_contract sys sent"
    and "UdpSocket_send_to_ipv4 sys socket (ascii (endpoint_address e)) (endpoint_port e) bs os = (r, os')"
  shows "sent os' = sent os @ (if isl r then [] else [on_the_wire sys (e, bs)])"
proof (cases "call_inet_pton sys (ascii (endpoint_address e))")
  case None
  then show ?thesis using assms(2) by (auto simp: UdpSocket_send_to_ipv4_def udp_endpoint_def)
next
  case (Some addr)
  obtain m os1 where call: "call_sendto sys os (udp_handle socket) bs (addr, endpoint_port e) = (m, os1)" by fastforce
  then have "case m of Inl x \<Rightarrow> sent os1 = sent os | Inr n \<Rightarrow> sent os1 = sent os @ [(bs, addr, endpoint_port e)]"
    using assms(1) [unfolded udp_sent_contract_def, THEN conjunct1, rule_format, OF call] by simp
  then show ?thesis
    using assms(2) call Some
    by (auto simp: UdpSocket_send_to_ipv4_def udp_endpoint_def on_the_wire_def split: sum.splits if_splits)
qed

lemma publish_loop_cong:
  "(\<And>m. n \<le> m \<Longrightarrow> send m = send' m) \<Longrightarrow> publish_loop send bs observers n = publish_loop send' bs observers n"
  by (induction observers arbitrary: n) auto

text \<open>What the socket did is one of the behaviours of the model in which each send succeeds or fails.\<close>

lemma publish_loop_refines:
  assumes "udp_sent_contract sys sent"
    and "publish_loop_udp sys socket bs observers n os = (result, os')"
  shows "\<exists>send delivered. publish_loop send bs observers n = (result, delivered) \<and>
    sent os' = sent os @ map (on_the_wire sys) delivered"
  using assms(2)
proof (induction observers arbitrary: n os)
  case (Cons e observers)
  obtain r os1 where send: "UdpSocket_send_to_ipv4 sys socket (ascii (endpoint_address e)) (endpoint_port e) bs os = (r, os1)"
    by fastforce
  note step = send_to_sent [OF assms(1) send]
  show ?case
  proof (cases r)
    case (Inl error)
    then show ?thesis using Cons.prems send step by (intro exI [of _ "\<lambda>_. False"]) simp
  next
    case (Inr k)
    then obtain ok delivered where rest: "publish_loop ok bs observers (Suc n) = (result, delivered)"
        "sent os' = sent os1 @ map (on_the_wire sys) delivered"
      using Cons.IH [of "Suc n" os1] Cons.prems send by auto
    have "publish_loop (ok(n := True)) bs observers (Suc n) = (result, delivered)"
      using rest(1) publish_loop_cong [of "Suc n" "ok(n := True)" ok bs observers] by simp
    then show ?thesis
      using rest(2) step Inr by (intro exI [of _ "ok(n := True)"] exI [of _ "(e, bs) # delivered"]) (simp del: fun_upd_apply add: fun_upd_same)
  qed
qed simp

lemma publish_next_refines:
  assumes "udp_sent_contract sys sent"
    and "AuthoritativeServer_publish_next_udp sys socket backend timestamp s os = (result, s', os')"
  shows "\<exists>send delivered. AuthoritativeServer_publish_next backend send timestamp s = (result, delivered, s') \<and>
    sent os' = sent os @ map (on_the_wire sys) delivered"
proof (cases "AuthoritativeServer_next_update backend timestamp s")
  case (Pair r s1)
  show ?thesis
  proof (cases r)
    case (Inl failure)
    then show ?thesis
      using assms(2) Pair by (simp add: AuthoritativeServer_publish_next_udp_def AuthoritativeServer_publish_next_def)
  next
    case (Inr update)
    obtain q os1 where loop: "publish_loop_udp sys socket (StateUpdate_serialize update) (server_observers s1) 0 os = (q, os1)"
      by fastforce
    then obtain send delivered where "publish_loop send (StateUpdate_serialize update) (server_observers s1) 0 = (q, delivered)"
        "sent os1 = sent os @ map (on_the_wire sys) delivered"
      using publish_loop_refines [OF assms(1)] by blast
    then show ?thesis
      using assms(2) Pair Inr loop
      by (intro exI [of _ send] exI [of _ delivered])
        (simp add: AuthoritativeServer_publish_next_udp_def AuthoritativeServer_publish_next_def)
  qed
qed

text \<open>A receive through the socket is a receive of the model: of a timeout, or of a datagram cut to the buffer.\<close>

lemma receive_next_refines:
  assumes "udp_inbox_contract sys pending"
    and "ObserverClient_receive_next_udp sys now (w, os) = (result, w', os')"
  shows "\<exists>received. ObserverClient_receive_next received now (observer_state w) = (result, observer_state w') \<and>
    observer_socket w' = observer_socket w \<and> set (pending os') \<subseteq> set (pending os) \<and>
    (\<forall>bs. received = Some bs \<longrightarrow> (\<exists>(data, src) \<in> set (pending os). bs = take observer_datagram_size data))"
proof -
  let ?h = "udp_handle (observer_socket w)"
  obtain r os1 where call: "call_recvfrom sys os ?h observer_datagram_size = (r, os1)" by fastforce
  have inbox: "set (pending os1) \<subseteq> set (pending os)"
    "\<And>bs src. r = Inr (bs, src) \<Longrightarrow> \<exists>(data, from) \<in> set (pending os). bs = take observer_datagram_size data"
    using assms(1) [unfolded udp_inbox_contract_def, rule_format, OF call] by auto
  obtain d os2 where receive: "UdpSocket_receive sys (observer_socket w) observer_datagram_size os = (d, os2)" by fastforce
  have os2: "os2 = os1" and d: "\<And>datagram. d = Inr datagram \<Longrightarrow> \<exists>src. r = Inr (datagram_payload datagram, src)"
    using receive call by (auto simp: UdpSocket_receive_def split: sum.splits prod.splits)
  show ?thesis
  proof (cases d)
    case (Inl error)
    then show ?thesis
      using assms(2) receive os2 inbox(1)
      by (intro exI [of _ None]) (simp add: ObserverClient_receive_next_udp_def ObserverClient_receive_next_def)
  next
    case (Inr datagram)
    then obtain src where r: "r = Inr (datagram_payload datagram, src)" using d by blast
    then have "\<exists>(data, src) \<in> set (pending os). datagram_payload datagram = take observer_datagram_size data"
      by (rule inbox(2))
    then show ?thesis
      using assms(2) receive os2 inbox(1) Inr
      by (intro exI [of _ "Some (datagram_payload datagram)"])
        (auto simp: ObserverClient_receive_next_udp_def ObserverClient_receive_next_def split: prod.splits)
  qed
qed

section \<open>From socket to socket\<close>

text \<open>A run of the server over the clock readings \<open>timestamps\<close>, and of the observer over those of its receives.\<close>

definition server_run_udp ::
  "('os, 'addr) udp_calls \<Rightarrow> UdpSocket \<Rightarrow> (u64 \<Rightarrow> TopologyScene) \<Rightarrow> u64 list \<Rightarrow> AuthoritativeServer \<times> 'os \<Rightarrow>
   AuthoritativeServer \<times> 'os" where
  "server_run_udp sys socket backend timestamps state =
     foldl (\<lambda>(s, os) timestamp. snd (AuthoritativeServer_publish_next_udp sys socket backend timestamp s os)) state timestamps"

definition observer_run_udp ::
  "('os, 'addr) udp_calls \<Rightarrow> TimePoint list \<Rightarrow> UdpObserver \<times> 'os \<Rightarrow> UdpObserver \<times> 'os" where
  "observer_run_udp sys nows state = foldl (\<lambda>state now. snd (ObserverClient_receive_next_udp sys now state)) state nows"

lemma next_update_with_observers:
  "AuthoritativeServer_next_update backend t (s\<lparr>server_observers := x\<rparr>) =
   (fst (AuthoritativeServer_next_update backend t s), (snd (AuthoritativeServer_next_update backend t s))\<lparr>server_observers := x\<rparr>)"
  by (simp add: AuthoritativeServer_next_update_def Let_def split: option.split)

lemma publications_observers: "publications backend ts (s\<lparr>server_observers := x\<rparr>) = publications backend ts s"
  by (induction ts arbitrary: s) (simp_all add: next_update_with_observers case_prod_beta)

lemma publish_next_delivers:
  assumes "udp_sent_contract sys sent"
    and "AuthoritativeServer_publish_next_udp sys socket backend t s os = (result, s', os')"
  shows "\<exists>delivered. sent os' = sent os @ map (on_the_wire sys) delivered \<and> s' = snd (AuthoritativeServer_next_update backend t s) \<and>
    (\<forall>(endpoint, bs) \<in> set delivered. \<exists>u. fst (AuthoritativeServer_next_update backend t s) = Inr u \<and> bs = StateUpdate_serialize u)"
proof -
  obtain send delivered where model: "AuthoritativeServer_publish_next backend send t s = (result, delivered, s')"
      and sent: "sent os' = sent os @ map (on_the_wire sys) delivered"
    using publish_next_refines [OF assms] by blast
  have loop: "publish_loop ok bs observers n = (r, ds) \<Longrightarrow> \<forall>(endpoint, bs') \<in> set ds. bs' = bs" for ok bs observers n r ds
    by (induction observers arbitrary: n ds) (auto split: if_splits prod.splits, blast)
  show ?thesis
    using model sent loop
    by (intro exI [of _ delivered]) (fastforce simp: AuthoritativeServer_publish_next_def split: prod.splits sum.splits)
qed

lemma server_run_delivers:
  assumes "udp_sent_contract sys sent" and "server_run_udp sys socket backend ts (s, os) = (s', os')"
  shows "\<exists>delivered. sent os' = sent os @ map (on_the_wire sys) delivered \<and>
    (\<forall>(endpoint, bs) \<in> set delivered. \<exists>u. Inr u \<in> set (publications backend ts s) \<and> bs = StateUpdate_serialize u)"
  using assms(2)
proof (induction ts arbitrary: s os)
  case (Cons t ts)
  obtain result s1 os1 where step: "AuthoritativeServer_publish_next_udp sys socket backend t s os = (result, s1, os1)"
    by (metis prod_cases3)
  obtain d1 where d1: "sent os1 = sent os @ map (on_the_wire sys) d1" "s1 = snd (AuthoritativeServer_next_update backend t s)"
      "\<forall>(endpoint, bs) \<in> set d1. \<exists>u. fst (AuthoritativeServer_next_update backend t s) = Inr u \<and> bs = StateUpdate_serialize u"
    using publish_next_delivers [OF assms(1) step] by blast
  have "server_run_udp sys socket backend ts (s1, os1) = (s', os')" using Cons.prems step by (simp add: server_run_udp_def)
  then obtain d2 where d2: "sent os' = sent os1 @ map (on_the_wire sys) d2"
      "\<forall>(endpoint, bs) \<in> set d2. \<exists>u. Inr u \<in> set (publications backend ts s1) \<and> bs = StateUpdate_serialize u"
    using Cons.IH by blast
  have "publications backend (t # ts) s = fst (AuthoritativeServer_next_update backend t s) # publications backend ts s1"
    using d1(2) by (simp add: case_prod_beta)
  then have all: "Inr u \<in> set (publications backend (t # ts) s)"
    if "fst (AuthoritativeServer_next_update backend t s) = Inr u \<or> Inr u \<in> set (publications backend ts s1)" for u
    using that by auto
  have "\<exists>u. Inr u \<in> set (publications backend (t # ts) s) \<and> bs = StateUpdate_serialize u"
    if "(endpoint, bs) \<in> set d1 \<or> (endpoint, bs) \<in> set d2" for endpoint bs
    using that d1(3) d2(2) all by blast
  then have "\<forall>(endpoint, bs) \<in> set (d1 @ d2). \<exists>u. Inr u \<in> set (publications backend (t # ts) s) \<and> bs = StateUpdate_serialize u"
    by (auto simp del: publications.simps)
  then show ?case using d1(1) d2(1) by (intro exI [of _ "d1 @ d2"]) (simp del: publications.simps)
qed (simp add: server_run_udp_def)

lemma observer_run_receives:
  assumes "udp_inbox_contract sys pending" and "observer_run_udp sys nows (w, os) = (w', os')"
  shows "\<exists>events. observer_state w' = run observer_step (observer_state w) events \<and>
    (\<forall>(received, now) \<in> set events. \<forall>bs. received = Some bs \<longrightarrow>
      (\<exists>(data, src) \<in> set (pending os). bs = take observer_datagram_size data))"
  using assms(2)
proof (induction nows arbitrary: w os)
  case Nil
  then show ?case by (intro exI [of _ "[]"]) (simp add: observer_run_udp_def)
next
  case (Cons now nows)
  obtain result w1 os1 where step: "ObserverClient_receive_next_udp sys now (w, os) = (result, w1, os1)" by (metis prod_cases3)
  obtain received where r: "ObserverClient_receive_next received now (observer_state w) = (result, observer_state w1)"
      "set (pending os1) \<subseteq> set (pending os)"
      "\<forall>bs. received = Some bs \<longrightarrow> (\<exists>(data, src) \<in> set (pending os). bs = take observer_datagram_size data)"
    using receive_next_refines [OF assms(1) step] by blast
  have "observer_run_udp sys nows (w1, os1) = (w', os')" using Cons.prems step by (simp add: observer_run_udp_def)
  then obtain events where events: "observer_state w' = run observer_step (observer_state w1) events"
      "\<forall>(received, now) \<in> set events. \<forall>bs. received = Some bs \<longrightarrow>
        (\<exists>(data, src) \<in> set (pending os1). bs = take observer_datagram_size data)"
    using Cons.IH by blast
  have "observer_step (observer_state w) (received, now) = observer_state w1" using r(1) by (simp add: observer_step_def)
  then show ?case
    using events r(2,3) by (intro exI [of _ "(received, now) # events"]) fastforce
qed

section \<open>Property\<close>

lemma update_fits_datagram: "StateUpdate_wf u \<Longrightarrow> length (StateUpdate_serialize u) \<le> observer_datagram_size"
  by (simp add: StateUpdate_wf_def serialize_update observer_datagram_size_def update_header_size_def)

text \<open>
  Property C8: the replica from socket to socket. A server with any observers publishes any number of updates of
  the CPU simulation through its socket, sends that fail included. Let the inbox of an observer hold, in any order
  and any number, datagrams that the server's socket sent, and others that do not parse; its receives may fail at
  any time, lose datagrams and deliver them in another order or again. After any number of receives a synchronized
  observer shows exactly the server's scene at the revision that it
  names.
\<close>

theorem udp_replica_shows_published_scene:
  assumes "AuthoritativeServer_create session interval = Some created" and "length timestamps < 2 ^ 64"
    and "server = created\<lparr>server_observers := observers\<rparr>"
    and "udp_sent_contract sys sent" and "sent os = []"
    and "server_run_udp sys socket (CpuBackend_step position config) timestamps (server, os) = (server', os')"
    and "udp_inbox_contract sys' pending"
    and "\<forall>(data, src) \<in> set (pending inbox). (\<exists>target. (data, target) \<in> set (sent os')) \<or>
      (\<exists>e. StateUpdate_parse (take observer_datagram_size data) = Inl e)"
    and "observer_state w = ObserverClient_initial" and "observer_run_udp sys' nows (w, inbox) = (w', inbox')"
    and "sync_synchronized (observer_synchronizer (observer_state w'))"
  shows "\<exists>k. 0 < k \<and> k \<le> length timestamps \<and>
    sync_revision (observer_synchronizer (observer_state w')) = of_nat k \<and>
    observer_scene (observer_state w') = CpuBackend_step position config (of_nat k)"
proof -
  let ?backend = "CpuBackend_step position config"
  let ?updates = "publications ?backend timestamps created"
  have same: "publications ?backend timestamps server = ?updates" by (simp add: assms(3) publications_observers)
  obtain delivered where delivered: "sent os' = sent os @ map (on_the_wire sys) delivered"
      "\<forall>(endpoint, bs) \<in> set delivered. \<exists>u. Inr u \<in> set (publications ?backend timestamps server) \<and> bs = StateUpdate_serialize u"
    using server_run_delivers [OF assms(4,6)] by blast
  have cut: "\<exists>u. Inr u \<in> set ?updates \<and> take observer_datagram_size data = StateUpdate_serialize u"
    if sent_it: "(data, target) \<in> set (sent os')" for data target
  proof -
    obtain endpoint where "(endpoint, data) \<in> set delivered"
      using sent_it delivered(1) assms(5) by (auto simp: on_the_wire_def)
    then obtain u where u: "Inr u \<in> set ?updates" "data = StateUpdate_serialize u" using delivered(2) same by auto
    then have "StateUpdate_wf u" using created_numbered [OF assms(1,2) u(1)] by (auto simp: numbered_update_def)
    then show ?thesis using u update_fits_datagram [of u] by auto
  qed
  obtain events where events: "observer_state w' = run observer_step ObserverClient_initial events"
      "\<forall>(received, now) \<in> set events. \<forall>bs. received = Some bs \<longrightarrow>
        (\<exists>(data, src) \<in> set (pending inbox). bs = take observer_datagram_size data)"
    using observer_run_receives [OF assms(7,10)] assms(9) by auto
  have "arrival (\<lambda>u. Inr u \<in> set ?updates) received" if event: "(received, now) \<in> set events" for received now
  proof (cases received)
    case (Some bs)
    then obtain data src where inbox: "(data, src) \<in> set (pending inbox)" and bs: "bs = take observer_datagram_size data"
      using events(2) event Some by blast
    have "(\<exists>target. (data, target) \<in> set (sent os')) \<or> (\<exists>e. StateUpdate_parse bs = Inl e)"
      using bspec [OF assms(8) inbox] bs by simp
    then show ?thesis using cut bs Some by (auto simp: arrival_def)
  qed (simp add: arrival_def)
  then have "cpu_backend.tracks position config session (length timestamps) (observer_state w')"
    using replica_tracks [OF assms(1,2), where position = position and config = config and events = events] events(1) by auto
  then show ?thesis using assms(11) by (auto simp: cpu_backend.tracks_def)
qed

text \<open>The server sends twice to one endpoint; the observer's inbox holds what was sent, behind some noise.\<close>

definition relay_calls :: "((bytes \<times> u8 \<times> u16) list, u8) udp_calls" where
  "relay_calls =
     \<lparr>call_inet_pton = (\<lambda>bs. Some 4),
      call_inet_ntop = (\<lambda>a. Inr [a]),
      call_socket = (\<lambda>os. (Inr 3, os)),
      call_bind = (\<lambda>os h target. (None, os)),
      call_sendto = (\<lambda>os h data target. (Inr (length data), os @ [(data, target)])),
      call_recvfrom = (\<lambda>os h n. (Inl \<lparr>socket_error_code = 11, socket_error_message = ''timeout''\<rparr>, os)),
      call_getsockname = (\<lambda>os h. Some (0, 9)),
      call_setsockopt = (\<lambda>os h opt. (None, os)),
      call_close = (\<lambda>os h. os)\<rparr>"

definition inbox_calls :: "((bytes \<times> u8 \<times> u16) list, u8) udp_calls" where
  "inbox_calls = relay_calls\<lparr>call_recvfrom := (\<lambda>os h n. case os of
     [] \<Rightarrow> (Inl \<lparr>socket_error_code = 11, socket_error_message = ''timeout''\<rparr>, os)
   | (data, src) # rest \<Rightarrow> (Inr (take n data, src), rest)),
     call_sendto := (\<lambda>os h data target. (Inr (length data), os))\<rparr>"

lemma relay_contracts: "udp_sent_contract relay_calls (\<lambda>os. os)" "udp_inbox_contract inbox_calls (\<lambda>os. os)"
  by (auto simp: udp_sent_contract_def udp_inbox_contract_def relay_calls_def inbox_calls_def split: list.splits)

definition relay_endpoint :: ObserverEndpoint where
  "relay_endpoint = \<lparr>endpoint_address = ''4'', endpoint_port = 9\<rparr>"

definition relay_run :: "AuthoritativeServer \<times> (bytes \<times> u8 \<times> u16) list" where
  "relay_run = server_run_udp relay_calls \<lparr>udp_handle = 3\<rparr> (CpuBackend_step sample_position sample_config) [5]
     (sample_server\<lparr>server_observers := [relay_endpoint]\<rparr>, [])"

definition relay_observer :: "UdpObserver \<times> (bytes \<times> u8 \<times> u16) list" where
  "relay_observer = observer_run_udp inbox_calls [1, 2]
     (\<lparr>observer_socket = \<lparr>udp_handle = 3\<rparr>, observer_state = ObserverClient_initial\<rparr>, ([1, 2, 3], 7, 7) # snd relay_run)"

lemma relay_first:
  "\<exists>u. numbered_update (CpuBackend_step sample_position sample_config) 9 1 1 u \<and>
     snd relay_run = [(StateUpdate_serialize u, 4, 9)]"
proof -
  let ?backend = "CpuBackend_step sample_position sample_config"
  have "publications ?backend [5] sample_server ! 0 = fst (AuthoritativeServer_next_update ?backend 5 sample_server)"
    by (simp add: case_prod_beta)
  then obtain u where u: "fst (AuthoritativeServer_next_update ?backend 5 sample_server) = Inr u"
      "numbered_update ?backend 9 1 1 u"
    using cpu_publications [OF sample_server_created _ sample_count, of "[5]" 0 sample_position]
    by (auto simp: sample_server_def AuthoritativeServer_create_def)
  have next_state: "AuthoritativeServer_next_update ?backend 5 (sample_server\<lparr>server_observers := x\<rparr>) =
      (Inr u, (snd (AuthoritativeServer_next_update ?backend 5 sample_server))\<lparr>server_observers := x\<rparr>)" for x
    using u(1) by (simp add: next_update_with_observers)
  have "length (StateUpdate_serialize u) \<le> 2147483647"
    using update_fits_datagram [of u] u(2)
    by (simp add: numbered_update_def observer_datagram_size_def update_header_size_def update_maximum_payload_size_def)
  then have "snd relay_run = [(StateUpdate_serialize u, 4, 9)]"
    by (simp add: relay_run_def server_run_udp_def AuthoritativeServer_publish_next_udp_def next_state
        UdpSocket_send_to_ipv4_def udp_endpoint_def relay_calls_def relay_endpoint_def)
  then show ?thesis using u(2) by blast
qed

lemma relay_synchronized: "sync_synchronized (observer_synchronizer (observer_state (fst relay_observer)))"
proof -
  obtain u where u: "numbered_update (CpuBackend_step sample_position sample_config) 9 1 1 u"
      "snd relay_run = [(StateUpdate_serialize u, 4, 9)]" using relay_first by blast
  have wf: "StateUpdate_wf u" using u(1) by (simp add: numbered_update_def)
  have garbage: "StateUpdate_parse [1, 2, 3] = Inl update_truncated" by (simp add: StateUpdate_parse_def update_header_size_def)
  have "cpu_backend.current sample_position sample_config 9 1
      (observer_step ObserverClient_initial (Some (StateUpdate_serialize u), 2))"
    using cpu_backend.deliver_next [of 9 0 0 ObserverClient_initial sample_position sample_config 1 u] u(1)
    by (simp add: cpu_backend.behind_def ObserverClient_initial_def ClientSynchronizer_initial_def is_snapshot_number_def)
  moreover have "observer_state (fst relay_observer) = observer_step ObserverClient_initial (Some (StateUpdate_serialize u), 2)"
  proof -
    have "observer_datagram_size = 3 + (observer_datagram_size - 3)" by (simp add: observer_datagram_size_def update_header_size_def)
    then have "take observer_datagram_size [1, 2, 3 :: u8] = [1, 2, 3]" by (simp add: observer_datagram_size_def update_header_size_def)
    then show ?thesis
      using update_fits_datagram [OF wf] garbage
      by (simp add: relay_observer_def observer_run_udp_def ObserverClient_receive_next_udp_def u(2) UdpSocket_receive_def
          inbox_calls_def relay_calls_def ObserverClient_consume_datagram_def [of "[1, 2, 3]"] observer_step_def
          ObserverClient_receive_next_def case_prod_beta)
  qed
  ultimately show ?thesis by (simp add: cpu_backend.current_def)
qed

theorem udp_replica_shows_published_scene_witness:
  "\<exists>k. 0 < k \<and> k \<le> 1 \<and> observer_scene (observer_state (fst relay_observer)) = CpuBackend_step sample_position sample_config (of_nat k)"
proof -
  obtain s' sent_list where run: "relay_run = (s', sent_list)" by fastforce
  obtain w' inbox' where observed: "relay_observer = (w', inbox')" by fastforce
  have inbox: "\<forall>(data, src) \<in> set (([1, 2, 3], 7, 7) # sent_list). (\<exists>target. (data, target) \<in> set sent_list) \<or>
      (\<exists>e. StateUpdate_parse (take observer_datagram_size data) = Inl e)"
    by (auto simp: StateUpdate_parse_def update_header_size_def observer_datagram_size_def)
  have initial: "observer_state \<lparr>observer_socket = \<lparr>udp_handle = 3\<rparr>, observer_state = ObserverClient_initial\<rparr> = ObserverClient_initial"
    by simp
  have synchronized: "sync_synchronized (observer_synchronizer (observer_state w'))" using relay_synchronized unfolding observed fst_conv .
  obtain k where "0 < k" "k \<le> length [5 :: u64]" "observer_scene (observer_state w') = CpuBackend_step sample_position sample_config (of_nat k)"
    using udp_replica_shows_published_scene [where sent = "\<lambda>os. os" and pending = "\<lambda>os. os" and os = "[]" and
        observers = "[relay_endpoint]",
        OF sample_server_created _ refl relay_contracts(1) refl run [unfolded relay_run_def] relay_contracts(2) inbox initial
          observed [unfolded relay_observer_def run snd_conv] synchronized] by auto
  then show ?thesis unfolding observed fst_conv by auto
qed

end
