(* ===== verification/Topology_Renderer.thy ===== *)
theory Topology_Renderer
  imports Topology
begin

text \<open>
  \<^verbatim>\<open>visualization/topology_renderer.cpp\<close> and \<^verbatim>\<open>visualization/application.cpp\<close>: the vertices that a scene is
  drawn with, and the loop that presents one scene until the window closes. Colours and positions
  are bit patterns of floats. The colour of something that works is single-precision arithmetic on its
  VLAN and its packet counter: the parameter \<open>colour\<close>.
\<close>

section \<open>Vertices\<close>

record RenderVertex =
  vertex_x :: u32
  vertex_y :: u32
  vertex_red :: u32
  vertex_green :: u32
  vertex_blue :: u32

record TopologyFrame =
  frame_links :: "RenderVertex list"
  frame_nodes :: "RenderVertex list"

type_synonym vertex_colour = "u16 \<Rightarrow> u64 \<Rightarrow> u32 \<times> u32 \<times> u32"

text \<open>The colour of a failure is 0.85, 0.15, 0.15.\<close>

definition vertex :: "vertex_colour \<Rightarrow> TopologyNode \<Rightarrow> bool \<Rightarrow> u64 \<Rightarrow> RenderVertex" where
  "vertex colour node operational packets =
     (if \<not> operational then
        \<lparr>vertex_x = node_x node, vertex_y = node_y node, vertex_red = 0x3F59999A, vertex_green = 0x3E19999A,
         vertex_blue = 0x3E19999A\<rparr>
      else
        case colour (node_vlan node) packets of
          (red, green, blue) \<Rightarrow>
            \<lparr>vertex_x = node_x node, vertex_y = node_y node, vertex_red = red, vertex_green = green, vertex_blue = blue\<rparr>)"

definition add_link :: "vertex_colour \<Rightarrow> TopologyScene \<Rightarrow> TopologyFrame \<Rightarrow> TopologyLink \<Rightarrow> TopologyFrame" where
  "add_link colour scene frame link =
     (let source = find_if (\<lambda>node. node_id node = link_source link) (scene_nodes scene);
          destination = find_if (\<lambda>node. node_id node = link_destination link) (scene_nodes scene)
      in case (source, destination) of
           (Some i, Some j) \<Rightarrow>
             frame\<lparr>frame_links := frame_links frame @
               [vertex colour (scene_nodes scene ! i) (link_operational link) (link_packets link),
                vertex colour (scene_nodes scene ! j) (link_operational link) (link_packets link)]\<rparr>
         | _ \<Rightarrow> frame)"

definition add_node :: "vertex_colour \<Rightarrow> TopologyFrame \<Rightarrow> TopologyNode \<Rightarrow> TopologyFrame" where
  "add_node colour frame node =
     frame\<lparr>frame_nodes := frame_nodes frame @ [vertex colour node (node_operational node) (node_packets node)]\<rparr>"

definition TopologyRenderer_build_frame :: "vertex_colour \<Rightarrow> TopologyScene \<Rightarrow> TopologyFrame" where
  "TopologyRenderer_build_frame colour scene =
     foldl (add_node colour)
       (foldl (add_link colour scene) \<lparr>frame_links = [], frame_nodes = []\<rparr> (scene_links scene))
       (scene_nodes scene)"

section \<open>The application loop\<close>

text \<open>
  \<open>closing\<close> is what the window answers, pass after pass, to whether it should close. The result is the
  number of frames and the scenes presented, and \<open>None\<close> when the loop is still running after the last answer.
\<close>

fun application_loop ::
  "bool list \<Rightarrow> TopologyScene \<Rightarrow> u64 \<Rightarrow> u64 \<Rightarrow> TopologyScene list \<Rightarrow> (u64 \<times> TopologyScene list) option" where
  "application_loop [] scene maximum_frames frames presented = None"
| "application_loop (should_close # closing) scene maximum_frames frames presented =
     (if \<not> should_close \<and> (maximum_frames = 0 \<or> frames < maximum_frames)
      then application_loop closing scene maximum_frames (frames + 1) (presented @ [scene])
      else Some (frames, presented))"

definition VisualizationApplication_run :: "bool list \<Rightarrow> TopologyScene \<Rightarrow> u64 \<Rightarrow> (u64 \<times> TopologyScene list) option" where
  "VisualizationApplication_run closing scene maximum_frames = application_loop closing scene maximum_frames 0 []"

section \<open>What is drawn\<close>

text \<open>The ends of a link, when the scene has both.\<close>

definition link_ends :: "TopologyScene \<Rightarrow> TopologyLink \<Rightarrow> TopologyNode list" where
  "link_ends scene link =
     (case (vec_find node_id (scene_nodes scene) (link_source link), vec_find node_id (scene_nodes scene) (link_destination link)) of
        (Some source, Some destination) \<Rightarrow> [source, destination]
      | _ \<Rightarrow> [])"

lemma add_link_eq:
  "add_link colour scene frame link =
     frame\<lparr>frame_links := frame_links frame @
       map (\<lambda>node. vertex colour node (link_operational link) (link_packets link)) (link_ends scene link)\<rparr>"
  by (simp add: add_link_def link_ends_def vec_find_def split: option.split)

lemma add_links_eq:
  "foldl (add_link colour scene) frame links =
     frame\<lparr>frame_links := frame_links frame @ concat (map (\<lambda>link.
       map (\<lambda>node. vertex colour node (link_operational link) (link_packets link)) (link_ends scene link)) links)\<rparr>"
  by (induction links arbitrary: frame) (simp_all add: add_link_eq)

lemma add_nodes_eq:
  "foldl (add_node colour) frame nodes =
     frame\<lparr>frame_nodes := frame_nodes frame @ map (\<lambda>node. vertex colour node (node_operational node) (node_packets node)) nodes\<rparr>"
  by (induction nodes arbitrary: frame) (simp_all add: add_node_def)

lemma build_frame_eq:
  "TopologyRenderer_build_frame colour scene =
     \<lparr>frame_links = concat (map (\<lambda>link.
        map (\<lambda>node. vertex colour node (link_operational link) (link_packets link)) (link_ends scene link)) (scene_links scene)),
      frame_nodes = map (\<lambda>node. vertex colour node (node_operational node) (node_packets node)) (scene_nodes scene)\<rparr>"
  by (simp add: TopologyRenderer_build_frame_def add_links_eq add_nodes_eq)

lemma vertex_position: "vertex_x (vertex colour node operational packets) = node_x node \<and>
    vertex_y (vertex colour node operational packets) = node_y node"
  by (simp add: vertex_def split: prod.split)

text \<open>Lines come in pairs of vertices, and every node is a point at its own position.\<close>

lemma build_frame_lines: "even (length (frame_links (TopologyRenderer_build_frame colour scene)))"
proof -
  have "even (length (link_ends scene link))" for link by (simp add: link_ends_def split: option.split)
  then have "even (sum_list (map (\<lambda>link. length (link_ends scene link)) links))" for links by (induction links) auto
  then show ?thesis by (simp add: build_frame_eq length_concat comp_def)
qed

lemma build_frame_points:
  "map (\<lambda>v. (vertex_x v, vertex_y v)) (frame_nodes (TopologyRenderer_build_frame colour scene)) =
     map (\<lambda>node. (node_x node, node_y node)) (scene_nodes scene)"
  by (simp add: build_frame_eq vertex_position)

text \<open>A limited run presents the scene as often as it says, at most the limit, however the window answers.\<close>

lemma application_loop_result:
  assumes "maximum_frames = 0 \<or> frames \<le> maximum_frames"
    and "application_loop closing scene maximum_frames frames presented = Some (frames', presented')"
  shows "\<exists>n < length closing. presented' = presented @ replicate n scene \<and> frames' = frames + of_nat n \<and>
    (maximum_frames = 0 \<or> frames' \<le> maximum_frames)"
  using assms
proof (induction closing arbitrary: frames presented)
  case (Cons should_close closing)
  show ?case
  proof (cases "\<not> should_close \<and> (maximum_frames = 0 \<or> frames < maximum_frames)")
    case True
    then have "maximum_frames = 0 \<or> frames + 1 \<le> maximum_frames" by (auto simp: inc_le)
    then obtain n where n: "n < length closing" "presented' = (presented @ [scene]) @ replicate n scene"
        "frames' = frames + 1 + of_nat n" "maximum_frames = 0 \<or> frames' \<le> maximum_frames"
      using Cons.IH [of "frames + 1" "presented @ [scene]"] Cons.prems(2) True by auto
    then show ?thesis by (intro exI [of _ "Suc n"]) (simp add: ac_simps)
  next
    case False
    then show ?thesis using Cons.prems by (intro exI [of _ 0]) (simp split: if_splits)
  qed
qed simp

lemma application_run_presents:
  assumes "VisualizationApplication_run closing scene maximum_frames = Some (frames, presented)"
  shows "presented = replicate (length presented) scene \<and> frames = of_nat (length presented) \<and>
    (maximum_frames = 0 \<or> frames \<le> maximum_frames)"
  using application_loop_result [of maximum_frames 0 closing scene "[]" frames presented] assms
  by (auto simp: VisualizationApplication_run_def)

lemma application_loop_returns:
  assumes "True \<in> set closing \<or> 0 < maximum_frames \<and> unat maximum_frames - unat frames < length closing"
  shows "\<exists>r. application_loop closing scene maximum_frames frames presented = Some r"
  using assms
proof (induction closing arbitrary: frames presented)
  case (Cons should_close closing)
  show ?case
  proof (cases "\<not> should_close \<and> (maximum_frames = 0 \<or> frames < maximum_frames)")
    case True
    have "unat maximum_frames - unat (frames + 1) < length closing"
      if "0 < maximum_frames" "unat maximum_frames - unat frames < Suc (length closing)"
    proof -
      have "unat maximum_frames < 2 ^ LENGTH(64)" by (rule unsigned_less)
      moreover have "frames < maximum_frames" using True that by auto
      ultimately have "unat frames < unat maximum_frames" "unat (frames + 1) = Suc (unat frames)"
        by (simp_all add: word_less_nat_alt unat_word_ariths)
      then show ?thesis using that by simp
    qed
    then show ?thesis using Cons True by auto
  qed auto
qed auto

end
