(* ===== verification/Render_Colour.thy ===== *)
theory Render_Colour
  imports Single_Float Topology_Renderer
begin

text \<open>
  The colours of \<^verbatim>\<open>visualization/topology_renderer.cpp\<close>, computed in single precision: what works is
  brighter red and less blue the more packets it has carried, and greener by its VLAN; what does not work has one
  fixed colour.
\<close>

section \<open>The colours\<close>

definition vertex_activity :: "u64 \<Rightarrow> u32" where
  "vertex_activity packets = single_min 0x3F800000 (single_divide (single_of_u64 packets) 0x447A0000)"

definition vertex_vlan_color :: "u16 \<Rightarrow> u32" where
  "vertex_vlan_color vlan = single_divide (single_of_u64 (ucast (vlan mod 7))) 0x40E00000"

definition render_colour :: vertex_colour where
  "render_colour vlan packets =
     (let activity = vertex_activity packets; vlan_color = vertex_vlan_color vlan
      in (single_add 0x3E19999A (single_multiply activity 0x3F0CCCCD),
          single_add 0x3EE66666 (single_multiply vlan_color 0x3ECCCCCD),
          single_subtract 0x3F733333 (single_multiply activity 0x3EB33333)))"

text \<open>The literals of the code: their patterns are those of the numbers nearest to the decimal fractions.\<close>

lemma colour_literals:
  "single_signed False (1) = 0x3F800000"
  "single_signed False (1000) = 0x447A0000"
  "single_signed False (7) = 0x40E00000"
  "single_signed False (15 / 100) = 0x3E19999A"
  "single_signed False (55 / 100) = 0x3F0CCCCD"
  "single_signed False (45 / 100) = 0x3EE66666"
  "single_signed False (40 / 100) = 0x3ECCCCCD"
  "single_signed False (95 / 100) = 0x3F733333"
  "single_signed False (35 / 100) = 0x3EB33333"
  "single_signed False (85 / 100) = 0x3F59999A"
  subgoal using single_signedI [of 126 "1" 8388608] by (simp add: single_scale_def)
  subgoal using single_signedI [of 135 "1000" 16384000] by (simp add: single_scale_def)
  subgoal using single_signedI [of 128 "7" 14680064] by (simp add: single_scale_def)
  subgoal using single_signedI [of 123 "15 / 100" 10066330] by (simp add: single_scale_def)
  subgoal using single_signedI [of 125 "55 / 100" 9227469] by (simp add: single_scale_def)
  subgoal using single_signedI [of 124 "45 / 100" 15099494] by (simp add: single_scale_def)
  subgoal using single_signedI [of 124 "40 / 100" 13421773] by (simp add: single_scale_def)
  subgoal using single_signedI [of 125 "95 / 100" 15938355] by (simp add: single_scale_def)
  subgoal using single_signedI [of 124 "35 / 100" 11744051] by (simp add: single_scale_def)
  subgoal using single_signedI [of 125 "85 / 100" 14260634] by (simp add: single_scale_def)
  done

lemma literal_values [simp]:
  "single_value 0x3F800000 = 1"
  "single_value 0x447A0000 = 1000"
  "single_value 0x40E00000 = 7"
  "single_value 0x3E19999A = 5033165 / 33554432"
  "single_value 0x3F0CCCCD = 9227469 / 16777216"
  "single_value 0x3EE66666 = 7549747 / 16777216"
  "single_value 0x3ECCCCCD = 13421773 / 33554432"
  "single_value 0x3F733333 = 15938355 / 16777216"
  "single_value 0x3EB33333 = 11744051 / 33554432"
  "single_value 0x3F59999A = 7130317 / 8388608"
  by (simp_all add: single_value_def single_negative_def pattern_units_def pattern_shift_def single_scale_def)

lemma literal_ok [simp]:
  "single_ok 0x3F800000"
  "single_ok 0x447A0000"
  "single_ok 0x40E00000"
  "single_ok 0x3E19999A"
  "single_ok 0x3F0CCCCD"
  "single_ok 0x3EE66666"
  "single_ok 0x3ECCCCCD"
  "single_ok 0x3F733333"
  "single_ok 0x3EB33333"
  "single_ok 0x3F59999A"
  by (simp_all add: single_ok_def single_scale_def)

text \<open>The ends of the ranges: the sums and the difference of literals that the extreme activities give.\<close>

lemma colour_ends:
  "single_signed False (23488103 / 33554432) = 0x3F333334"
  "single_signed False (28521267 / 33554432) = 0x3F59999A"
  "single_signed False (20132659 / 33554432) = 0x3F19999A"
  subgoal using single_signedI [of 125 "23488103 / 33554432" 11744052] by (simp add: single_scale_def)
  subgoal using single_signedI [of 125 "28521267 / 33554432" 14260634] by (simp add: single_scale_def)
  subgoal using single_signedI [of 125 "20132659 / 33554432" 10066330] by (simp add: single_scale_def)
  done

section \<open>Their ranges\<close>

lemma zero_ok [simp]: "single_ok 0" "single_value 0 = 0"
  by (simp_all add: single_ok_def single_value_def single_negative_def pattern_units_def pattern_shift_def)

lemma single_zero [simp]: "single_signed False 0 = 0"
  using single_signed_value [of 0] by simp

lemma vertex_activity_min:
  "vertex_activity packets = min 0x3F800000 (single_divide (single_of_u64 packets) 0x447A0000)"
  by (simp add: vertex_activity_def single_min_ok)

lemma vertex_activity_ok [simp]: "single_ok (vertex_activity packets)"
  by (simp add: vertex_activity_min)

lemma vertex_activity_le: "vertex_activity packets \<le> 0x3F800000"
  by (simp add: vertex_activity_min)

lemma vertex_activity_mono:
  assumes "packets \<le> packets'"
  shows "vertex_activity packets \<le> vertex_activity packets'"
  unfolding vertex_activity_min by (intro min.mono single_divide_mono single_of_u64_mono assms) simp_all

lemma vertex_activity_saturates:
  assumes "1000 \<le> packets"
  shows "vertex_activity packets = 0x3F800000"
proof (rule antisym [OF vertex_activity_le])
  have "single_of_u64 1000 = 0x447A0000" using colour_literals(2) by (simp add: single_of_u64_def)
  then have "vertex_activity 1000 = 0x3F800000"
    using colour_literals(1) by (simp add: vertex_activity_min single_operations)
  then show "0x3F800000 \<le> vertex_activity packets" using vertex_activity_mono [OF assms] by simp
qed

lemma vertex_vlan_color_ok [simp]: "single_ok (vertex_vlan_color vlan)"
  by (simp add: vertex_vlan_color_def single_operations)

lemma vertex_vlan_color_le: "vertex_vlan_color vlan \<le> 0x3F800000"
proof -
  have "unat (vlan mod 7) < 7" by (simp add: unat_mod_distrib)
  then have "unat (ucast (vlan mod 7) :: u64) < 7" by (simp add: unsigned_ucast_eq take_bit_nat_eq_self)
  then have "(ucast (vlan mod 7) :: u64) \<le> 7" by (simp add: word_le_nat_alt)
  then have "single_of_u64 (ucast (vlan mod 7)) \<le> single_of_u64 7" by (rule single_of_u64_mono)
  moreover have "single_of_u64 7 = 0x40E00000" using colour_literals(3) by (simp add: single_of_u64_def)
  ultimately have "vertex_vlan_color vlan \<le> single_divide 0x40E00000 0x40E00000"
    unfolding vertex_vlan_color_def by (intro single_divide_mono) simp_all
  then show ?thesis using colour_literals(1) by (simp add: single_operations)
qed

lemma single_unit:
  assumes "single_ok p"
  shows "single_multiply 0 p = 0" and "single_multiply 0x3F800000 p = p" and "single_add p 0 = p"
    and "single_subtract p 0 = p"
  using assms by (simp_all add: single_operations single_value_le_iff [symmetric] single_ok_positive)

text \<open>
  The two kinds of colours. A failure is 0.85, 0.15, 0.15; what works has red from 0.15 to 0.70, green from 0.45
  to 0.85 and blue from 0.60 to 0.95, the ends being the single-precision numbers.
\<close>

definition failure_colour :: "RenderVertex \<Rightarrow> bool" where
  "failure_colour v \<longleftrightarrow> vertex_red v = 0x3F59999A \<and> vertex_green v = 0x3E19999A \<and> vertex_blue v = 0x3E19999A"

definition working_colour :: "RenderVertex \<Rightarrow> bool" where
  "working_colour v \<longleftrightarrow>
     vertex_red v \<in> {0x3E19999A..0x3F333334} \<and> vertex_green v \<in> {0x3EE66666..0x3F59999A} \<and>
     vertex_blue v \<in> {0x3F19999A..0x3F733333}"

definition drawable :: "u32 \<Rightarrow> bool" where
  "drawable channel \<longleftrightarrow> 0 \<le> single_value channel \<and> single_value channel \<le> 1"

lemma drawableI: "channel \<le> 0x3F800000 \<Longrightarrow> drawable channel"
proof -
  assume below: "channel \<le> 0x3F800000"
  then have ok: "single_ok channel" by (simp add: single_ok_def single_scale_def word_le_nat_alt)
  then have "single_value channel \<le> single_value 0x3F800000" using below by (simp add: single_value_le_iff del: literal_values)
  then show "drawable channel" using single_ok_positive [OF ok] by (simp add: drawable_def)
qed

lemma render_colour_range:
  assumes "render_colour vlan packets = (red, green, blue)"
  shows "0x3E19999A \<le> red \<and> red \<le> 0x3F333334" and "0x3EE66666 \<le> green \<and> green \<le> 0x3F59999A"
    and "0x3F19999A \<le> blue \<and> blue \<le> 0x3F733333"
proof -
  note ends = colour_ends single_operations(1) [of "0x3E19999A" "0x3F0CCCCD"]
    single_operations(1) [of "0x3EE66666" "0x3ECCCCCD"] single_operations(4) [of "0x3F733333" "0x3EB33333"]
  have part: "0 \<le> single_multiply a p \<and> single_multiply a p \<le> p" if "single_ok a" "a \<le> 0x3F800000" "single_ok p" for a p
    using single_multiply_mono [of a "0x3F800000" p] that by (simp add: single_unit)
  let ?a = "vertex_activity packets" and ?g = "vertex_vlan_color vlan"
  have a: "single_ok p \<Longrightarrow> 0 \<le> single_multiply ?a p \<and> single_multiply ?a p \<le> p" for p
    by (rule part [OF vertex_activity_ok vertex_activity_le])
  have g: "single_ok p \<Longrightarrow> 0 \<le> single_multiply ?g p \<and> single_multiply ?g p \<le> p" for p
    by (rule part [OF vertex_vlan_color_ok vertex_vlan_color_le])
  have rgb: "red = single_add 0x3E19999A (single_multiply ?a 0x3F0CCCCD)"
      "green = single_add 0x3EE66666 (single_multiply ?g 0x3ECCCCCD)"
      "blue = single_subtract 0x3F733333 (single_multiply ?a 0x3EB33333)"
    using assms by (simp_all add: render_colour_def Let_def)
  show "0x3E19999A \<le> red \<and> red \<le> 0x3F333334"
    using single_add_mono [of "0x3E19999A" 0 "single_multiply ?a 0x3F0CCCCD"]
      single_add_mono [of "0x3E19999A" "single_multiply ?a 0x3F0CCCCD" "0x3F0CCCCD"] a [of "0x3F0CCCCD"]
    by (simp add: rgb ends single_unit)
  show "0x3EE66666 \<le> green \<and> green \<le> 0x3F59999A"
    using single_add_mono [of "0x3EE66666" 0 "single_multiply ?g 0x3ECCCCCD"]
      single_add_mono [of "0x3EE66666" "single_multiply ?g 0x3ECCCCCD" "0x3ECCCCCD"] g [of "0x3ECCCCCD"]
    by (simp add: rgb ends single_unit)
  have "single_multiply ?a 0x3EB33333 \<le> 0x3EB33333" using a [of "0x3EB33333"] by simp
  moreover from this have "single_multiply ?a 0x3EB33333 \<le> 0x3F733333" by (rule order_trans) simp
  ultimately show "0x3F19999A \<le> blue \<and> blue \<le> 0x3F733333"
    using single_subtract_mono [of "0x3F733333" 0 "single_multiply ?a 0x3EB33333"]
      single_subtract_mono [of "0x3F733333" "single_multiply ?a 0x3EB33333" "0x3EB33333"]
    by (simp add: rgb ends single_unit)
qed

lemma render_colour_mono:
  assumes "packets \<le> packets'" and "render_colour vlan packets = (red, green, blue)"
    and "render_colour vlan packets' = (red', green', blue')"
  shows "red \<le> red' \<and> green = green' \<and> blue' \<le> blue"
proof -
  note activity = vertex_activity_mono [OF assms(1)]
  have "single_multiply (vertex_activity packets') 0x3EB33333 \<le> 0x3EB33333"
    using single_multiply_mono [OF vertex_activity_ok _ _ vertex_activity_le, of "0x3EB33333" packets'] by (simp add: single_unit)
  then have "single_multiply (vertex_activity packets') 0x3EB33333 \<le> 0x3F733333" by (rule order_trans) simp
  then show ?thesis
    using assms(2,3)
    by (auto simp: render_colour_def Let_def intro!: single_add_mono single_subtract_mono single_multiply_mono activity)
qed

lemma vertex_colours:
  "(if operational then working_colour (vertex render_colour node operational packets)
    else failure_colour (vertex render_colour node operational packets))"
  using render_colour_range
  by (auto simp: vertex_def working_colour_def failure_colour_def split: prod.split)

text \<open>
  Property C19: what is drawn can be told apart. For every scene each vertex has drawable channels, between 0
  and 1, and one of the two kinds of colours, which differ; the node vertices are the nodes in order at their places,
  in the failure colour exactly if the node does not work; and more packets never make a vertex less red or more blue.
\<close>

theorem rendered_colours:
  shows "(\<forall>v \<in> set (frame_links (TopologyRenderer_build_frame render_colour scene)) \<union>
        set (frame_nodes (TopologyRenderer_build_frame render_colour scene)).
        (failure_colour v \<noteq> working_colour v) \<and> drawable (vertex_red v) \<and> drawable (vertex_green v) \<and> drawable (vertex_blue v)) \<and>
    map (\<lambda>v. (vertex_x v, vertex_y v, failure_colour v)) (frame_nodes (TopologyRenderer_build_frame render_colour scene)) =
      map (\<lambda>node. (node_x node, node_y node, \<not> node_operational node)) (scene_nodes scene) \<and>
    (\<forall>vlan packets packets' red green blue red' green' blue'. packets \<le> packets' \<longrightarrow>
       render_colour vlan packets = (red, green, blue) \<longrightarrow> render_colour vlan packets' = (red', green', blue') \<longrightarrow>
       red \<le> red' \<and> green = green' \<and> blue' \<le> blue)"
proof (intro conjI ballI)
  have disjoint: "failure_colour v \<Longrightarrow> \<not> working_colour v" for v by (simp add: failure_colour_def working_colour_def)
  fix v assume "v \<in> set (frame_links (TopologyRenderer_build_frame render_colour scene)) \<union>
    set (frame_nodes (TopologyRenderer_build_frame render_colour scene))"
  then obtain node operational packets where v: "v = vertex render_colour node operational packets"
    by (auto simp: build_frame_eq)
  then have kinds: "failure_colour v \<or> working_colour v" using vertex_colours [of operational node packets] by (auto split: if_splits)
  then show "failure_colour v \<noteq> working_colour v" using disjoint by blast
  show "drawable (vertex_red v)" "drawable (vertex_green v)" "drawable (vertex_blue v)"
    using kinds by (auto simp: failure_colour_def working_colour_def intro!: drawableI elim: order_trans)
next
  have "failure_colour (vertex render_colour node operational packets) \<longleftrightarrow> \<not> operational" for node operational packets
    using vertex_colours [of operational node packets] by (auto simp: failure_colour_def working_colour_def split: if_splits)
  then show "map (\<lambda>v. (vertex_x v, vertex_y v, failure_colour v)) (frame_nodes (TopologyRenderer_build_frame render_colour scene)) =
      map (\<lambda>node. (node_x node, node_y node, \<not> node_operational node)) (scene_nodes scene)"
    by (simp add: build_frame_eq vertex_position)
qed (use render_colour_mono in blast)

definition two_nodes :: TopologyScene where
  "two_nodes = \<lparr>scene_nodes =
     [\<lparr>node_id = 1, node_x = 0, node_y = 0, node_vlan = 10, node_packets = 850, node_operational = True, node_label = []\<rparr>,
      \<lparr>node_id = 2, node_x = 1, node_y = 0, node_vlan = 20, node_packets = 1, node_operational = False, node_label = []\<rparr>],
     scene_links = []\<rparr>"

theorem rendered_colours_witness:
  "map failure_colour (frame_nodes (TopologyRenderer_build_frame render_colour two_nodes)) = [False, True] \<and>
   drawable (vertex_blue (vertex render_colour (hd (scene_nodes two_nodes)) True 850)) \<and>
   (case (render_colour 10 850, render_colour 10 1000) of ((red, _, _), (red', _, _)) \<Rightarrow> red \<le> red')"
proof (intro conjI)
  note all = rendered_colours [of two_nodes]
  have "map (\<lambda>(x, y, failed). failed) (map (\<lambda>v. (vertex_x v, vertex_y v, failure_colour v))
      (frame_nodes (TopologyRenderer_build_frame render_colour two_nodes))) = [False, True]"
    unfolding all [THEN conjunct2, THEN conjunct1] by (simp add: two_nodes_def)
  then show "map failure_colour (frame_nodes (TopologyRenderer_build_frame render_colour two_nodes)) = [False, True]"
    by (simp add: comp_def)
  have "vertex render_colour (hd (scene_nodes two_nodes)) True 850 \<in>
      set (frame_nodes (TopologyRenderer_build_frame render_colour two_nodes))"
    by (simp add: build_frame_eq two_nodes_def)
  then show "drawable (vertex_blue (vertex render_colour (hd (scene_nodes two_nodes)) True 850))"
    using all [THEN conjunct1] by blast
  show "case (render_colour 10 850, render_colour 10 1000) of ((red, _, _), (red', _, _)) \<Rightarrow> red \<le> red'"
    using all [THEN conjunct2, THEN conjunct2, THEN spec [of _ 10], THEN spec [of _ 850], THEN spec [of _ 1000]]
    by (auto split: prod.split)
qed

end
