(* ===== verification/Observer_Node.thy ===== *)
theory Observer_Node
  imports Replication Command_Line
begin

text \<open>
  \<^verbatim>\<open>apps/integration_observer/main.cpp\<close>: the observer without a window, which receives updates until it has
  enough or its time is up and reports what it saw. A pass of the loop is one event: the time that the
  condition reads, what the socket then returned, and the time at which the client took it. A run that is
  still waiting when the events end is \<open>None\<close>.
\<close>

record node_counts =
  node_snapshots :: u64
  node_deltas :: u64
  node_resyncs :: u64
  node_malformed :: u64

definition node_start :: node_counts where
  "node_start = \<lparr>node_snapshots = 0, node_deltas = 0, node_resyncs = 0, node_malformed = 0\<rparr>"

definition node_count :: "ObserverResult \<Rightarrow> node_counts \<Rightarrow> node_counts" where
  "node_count result counts =
     (case result of
        observer_applied_snapshot \<Rightarrow> counts\<lparr>node_snapshots := node_snapshots counts + 1\<rparr>
      | observer_applied_delta \<Rightarrow> counts\<lparr>node_deltas := node_deltas counts + 1\<rparr>
      | observer_resync_required \<Rightarrow> counts\<lparr>node_resyncs := node_resyncs counts + 1\<rparr>
      | observer_malformed_update \<Rightarrow> counts\<lparr>node_malformed := node_malformed counts + 1\<rparr>
      | observer_malformed_scene \<Rightarrow> counts\<lparr>node_malformed := node_malformed counts + 1\<rparr>
      | observer_ignored \<Rightarrow> counts
      | observer_network_error \<Rightarrow> counts)"

fun node_loop ::
  "u64 \<Rightarrow> TimePoint \<Rightarrow> (TimePoint \<times> bytes option \<times> TimePoint) list \<Rightarrow> node_counts \<Rightarrow> ObserverClient \<Rightarrow>
   (node_counts \<times> ObserverClient) option" where
  "node_loop updates deadline events counts client =
     (if node_snapshots counts + node_deltas counts < updates then
        case events of
          [] \<Rightarrow> None
        | (now, received, taken) # rest \<Rightarrow>
            if now < deadline then
              case ObserverClient_receive_next received taken client of
                (result, client') \<Rightarrow> node_loop updates deadline rest (node_count result counts) client'
            else Some (counts, client)
      else Some (counts, client))"

record node_report =
  report_observer :: string
  report_success :: bool
  report_counts :: node_counts
  report_revision :: u64
  report_nodes :: nat

datatype node_exit = node_usage_error | node_bind_error | node_finished node_report

text \<open>
  The time limit is a 64-bit count of milliseconds that becomes a signed duration; times are signed 64-bit counts of
  nanoseconds. For a limit of 292 years and more the product overflows, which C++ does not define: the model takes
  the value that wraps around. \<open>bound\<close> is whether the state port could be bound.
\<close>

definition node_deadline :: "TimePoint \<Rightarrow> u64 \<Rightarrow> TimePoint" where
  "node_deadline started timeout_ms = sint (of_int (started + sint timeout_ms * 1000000) :: u64)"

definition node_main ::
  "string list \<Rightarrow> bool \<Rightarrow> TimePoint \<Rightarrow> (TimePoint \<times> bytes option \<times> TimePoint) list \<Rightarrow> node_exit option" where
  "node_main arguments bound started events =
     (case parse_options arguments of
        None \<Rightarrow> Some node_usage_error
      | Some options \<Rightarrow>
          if \<not> bound then Some node_bind_error
          else
            let deadline = node_deadline started (options_timeout_ms options) in
            case node_loop (options_updates options) deadline events node_start ObserverClient_initial of
              None \<Rightarrow> None
            | Some (counts, client) \<Rightarrow>
                let success = (node_snapshots counts > 0 \<and>
                      node_snapshots counts + node_deltas counts \<ge> options_updates options \<and>
                      sync_synchronized (observer_synchronizer client))
                in Some (node_finished \<lparr>report_observer = escaped (options_name options), report_success = success,
                     report_counts = counts, report_revision = sync_revision (observer_synchronizer client),
                     report_nodes = length (scene_nodes (observer_scene client))\<rparr>))"

declare node_loop.simps [simp del]

section \<open>What a report means\<close>

lemma node_loop_Cons:
  "node_loop updates deadline ((now, received, taken) # rest) counts client =
     (if node_snapshots counts + node_deltas counts < updates \<and> now < deadline
      then node_loop updates deadline rest (node_count (fst (ObserverClient_receive_next received taken client)) counts)
        (observer_step client (received, taken))
      else Some (counts, client))"
  by (simp add: node_loop.simps [of _ _ "_ # _"] observer_step_def split: prod.split)

text \<open>Without overflow the deadline is the sum; a limit that overflows gives one that has passed already.\<close>

lemma node_deadline_sum:
  assumes "- (2 ^ 63) \<le> started + sint timeout_ms * 1000000" and "started + sint timeout_ms * 1000000 < 2 ^ 63"
  shows "node_deadline started timeout_ms = started + sint timeout_ms * 1000000"
proof -
  have "sint (of_int x :: u64) = x" if "- (2 ^ 63) \<le> x" "x < 2 ^ 63" for x
    using that by (simp add: signed_of_int signed_take_bit_int_eq_self)
  from this [OF assms] show ?thesis by (simp only: node_deadline_def)
qed

lemma node_deadline_passed: "node_deadline 0 9223372036855 < 0"
  by (simp add: node_deadline_def)

text \<open>The loop ends at the latest when the clock reaches the deadline.\<close>

lemma node_loop_returns:
  "\<exists>event \<in> set events. deadline \<le> fst event \<Longrightarrow> \<exists>r. node_loop updates deadline events counts client = Some r"
proof (induction events arbitrary: counts client)
  case (Cons event events)
  obtain now received taken where e: "event = (now, received, taken)" by (cases event) auto
  show ?case
  proof (cases "deadline \<le> now")
    case False
    then have "\<exists>event \<in> set events. deadline \<le> fst event" using Cons.prems e by auto
    from Cons.IH [OF this] show ?thesis unfolding e node_loop_Cons by auto
  qed (simp add: e node_loop_Cons)
qed simp

text \<open>The client at the end of the loop is the client after a prefix of the events.\<close>

lemma node_loop_run:
  "node_loop updates deadline events counts client = Some (counts', client') \<Longrightarrow>
   \<exists>n. client' = run observer_step client (map snd (take n events))"
proof (induction events arbitrary: counts client)
  case Nil
  then show ?case by (auto simp: node_loop.simps split: if_splits)
next
  case (Cons event events)
  obtain now received taken where e: "event = (now, received, taken)" by (cases event) auto
  show ?case
  proof (cases "node_snapshots counts + node_deltas counts < updates \<and> now < deadline")
    case True
    then obtain n where "client' = run observer_step (observer_step client (received, taken)) (map snd (take n events))"
      using Cons unfolding e node_loop_Cons by fastforce
    then show ?thesis by (intro exI [of _ "Suc n"]) (simp add: e)
  next
    case False
    then show ?thesis using Cons.prems unfolding e node_loop_Cons by (intro exI [of _ 0]) auto
  qed
qed

lemma node_main_finished:
  assumes "node_main arguments bound started events = Some (node_finished report)"
  obtains options counts client n where "parse_options arguments = Some options"
    and "client = run observer_step ObserverClient_initial (map snd (take n events))"
    and "report_success report \<longleftrightarrow> node_snapshots counts > 0 \<and>
      node_snapshots counts + node_deltas counts \<ge> options_updates options \<and> sync_synchronized (observer_synchronizer client)"
    and "report_counts report = counts" and "report_revision report = sync_revision (observer_synchronizer client)"
    and "report_nodes report = length (scene_nodes (observer_scene client))"
proof -
  obtain options where options: "parse_options arguments = Some options"
    using assms by (auto simp: node_main_def split: option.splits)
  obtain counts client where loop: "node_loop (options_updates options)
      (node_deadline started (options_timeout_ms options)) events node_start ObserverClient_initial = Some (counts, client)"
    and report: "report = \<lparr>report_observer = escaped (options_name options),
      report_success = (node_snapshots counts > 0 \<and>
        node_snapshots counts + node_deltas counts \<ge> options_updates options \<and> sync_synchronized (observer_synchronizer client)),
      report_counts = counts, report_revision = sync_revision (observer_synchronizer client),
      report_nodes = length (scene_nodes (observer_scene client))\<rparr>"
    using assms options by (auto simp: node_main_def Let_def split: option.splits if_splits)
  obtain n where "client = run observer_step ObserverClient_initial (map snd (take n events))"
    using node_loop_run [OF loop] by blast
  then show thesis using that [OF options] by (simp add: report)
qed

text \<open>
  Property C21: a successful report is a statement about the server. Let the server publish any number of updates of
  the CPU simulation and let the channel lose, repeat, reorder and fabricate datagrams, as long as a fabricated one
  is not itself a valid update. If the observer node then exits with success, the revision it reports is one
  the server has published, the number of nodes it reports is that of the server's scene at that revision,
  and it has applied at least as many updates as it was asked for, a snapshot among them.
\<close>

theorem node_success_means_replica:
  assumes "AuthoritativeServer_create session interval = Some server" and "length timestamps < 2 ^ 64"
    and "updates = publications (CpuBackend_step position config) timestamps server"
    and "\<forall>(now, received, taken) \<in> set events. arrival (\<lambda>u. Inr u \<in> set updates) received"
    and finished: "node_main arguments bound started events = Some (node_finished report)" and "report_success report"
  shows "\<exists>k options. 0 < k \<and> k \<le> length timestamps \<and> report_revision report = of_nat k \<and>
    report_nodes report = length (scene_nodes (CpuBackend_step position config (of_nat k))) \<and>
    parse_options arguments = Some options \<and> node_snapshots (report_counts report) > 0 \<and>
    options_updates options \<le> node_snapshots (report_counts report) + node_deltas (report_counts report)"
proof -
  obtain options client n where options: "parse_options arguments = Some options"
    and client: "client = run observer_step ObserverClient_initial (map snd (take n events))"
    and success: "node_snapshots (report_counts report) > 0" "sync_synchronized (observer_synchronizer client)"
      "options_updates options \<le> node_snapshots (report_counts report) + node_deltas (report_counts report)"
    and fields: "report_revision report = sync_revision (observer_synchronizer client)"
      "report_nodes report = length (scene_nodes (observer_scene client))"
    using node_main_finished [OF finished] assms(6) by metis
  have "\<forall>(received, now) \<in> set (map snd (take n events)). arrival (\<lambda>u. Inr u \<in> set updates) received"
    using assms(4) set_take_subset [of n events] by fastforce
  from replica_tracks [OF assms(1-3) this] success(2)
  obtain k where "0 < k" "k \<le> length timestamps" "sync_revision (observer_synchronizer client) = of_nat k"
      "observer_scene client = CpuBackend_step position config (of_nat k)"
    unfolding client by (auto simp: cpu_backend.tracks_def)
  then show ?thesis using options success fields by auto
qed

text \<open>A node that waits for one update, and gets the server's first.\<close>

definition sample_node_events :: "(TimePoint \<times> bytes option \<times> TimePoint) list" where
  "sample_node_events = [(0, Some (StateUpdate_serialize (projr (sample_updates ! 0))), 1)]"

definition sample_arguments :: "string list" where
  "sample_arguments = [''--port'', ''9'', ''--updates'', ''1'']"

lemma sample_options:
  "parse_options sample_arguments = Some (default_options\<lparr>options_port := 9, options_updates := 1\<rparr>)"
proof -
  have "app_number (decimal 9) = Some 9" "app_number (decimal 1) = Some 1"
    using number_decimal [of 9] number_decimal [of 1] by simp_all
  moreover have "decimal 9 = ''9''" "decimal 1 = ''1''" by (simp_all add: decimal.simps digit_char_def char_of_def bit_0)
  ultimately have "app_number ''9'' = Some 9" "app_number ''1'' = Some 1" by simp_all
  then show ?thesis by (simp add: parse_options_def sample_arguments_def default_options_def)
qed

lemma sample_received:
  "\<exists>client. ObserverClient_receive_next (Some (StateUpdate_serialize (projr (sample_updates ! 0)))) 1 ObserverClient_initial =
     (observer_applied_snapshot, client) \<and> sync_synchronized (observer_synchronizer client)"
proof -
  let ?u = "projr (sample_updates ! 0)"
  have u: "numbered_update (CpuBackend_step sample_position sample_config) 9 1 1 ?u"
    using cpu_publications [OF sample_server_created _ sample_count, of "[5, 6]" 0 sample_position]
    by (auto simp: sample_updates_def sample_server_def AuthoritativeServer_create_def)
  then have kind: "update_type ?u = update_snapshot" "StateUpdate_wf ?u"
    by (simp_all add: numbered_update_def is_snapshot_number_def)
  have candidate: "observer_candidate ?u (observer_scene ObserverClient_initial) = Some (CpuBackend_step sample_position sample_config 1)"
    using cpu_backend.numbered_candidate [OF u] kind by (simp add: update_types)
  obtain s where "ClientSynchronizer_consume ?u 1 (observer_synchronizer ObserverClient_initial) = (applied_snapshot, s)"
    and "sync_synchronized s"
    using kind by (auto simp: consume_defs ObserverClient_initial_def ClientSynchronizer_initial_def)
  then show ?thesis
    using candidate kind parse_serialize_update [OF kind(2)]
    by (simp add: ObserverClient_receive_next_def ObserverClient_consume_datagram_def)
qed

theorem node_success_means_replica_witness:
  "\<exists>report k. node_main sample_arguments True 0 sample_node_events = Some (node_finished report) \<and>
     report_success report \<and> report_revision report = of_nat k \<and> 0 < k \<and> k \<le> (2 :: nat)"
proof -
  obtain client where received: "ObserverClient_receive_next (Some (StateUpdate_serialize (projr (sample_updates ! 0)))) 1
      ObserverClient_initial = (observer_applied_snapshot, client)" "sync_synchronized (observer_synchronizer client)"
    using sample_received by blast
  have deadline: "node_deadline 0 10000 = 10000000000" by (simp add: node_deadline_def)
  obtain report where report: "node_main sample_arguments True 0 sample_node_events = Some (node_finished report)"
      "report_success report"
    using received deadline
    by (auto simp: node_main_def sample_options default_options_def sample_node_events_def node_loop_Cons node_loop.simps [of _ _ "[]"]
        node_start_def node_count_def observer_step_def Let_def)
  have "\<forall>(now, received, taken) \<in> set sample_node_events. arrival (\<lambda>u. Inr u \<in> set sample_updates) received"
    using sample_updates_first by (auto simp: sample_node_events_def arrival_def dest: in_set_takeD)
  from node_success_means_replica [OF sample_server_created _ sample_updates_def this report] report show ?thesis by auto
qed

end
