(* ===== verification/Observer_Window.thy ===== *)
theory Observer_Window
  imports Observer_Node Topology_Renderer
begin

text \<open>
  \<^verbatim>\<open>apps/observer/main.cpp\<close>: the observer with a window. Two threads share a scene under a mutex, some atomic
  counters and a flag: the receiver takes updates and publishes the client's scene, the main thread
  copies the scene and presents it until the window closes, then stops the receiver and reports. Each thread is
  a step relation; copying a scene takes two steps, its nodes and then its links.
\<close>

section \<open>The scene without a server\<close>

definition demo_scene :: TopologyScene where
  "demo_scene =
     (let scene = empty_scene;
          scene = TopologyScene_upsert_node \<lparr>node_id = 1, node_x = 0xBF266666, node_y = 0x3E19999A, node_vlan = 10,
            node_packets = 850, node_operational = True, node_label = ascii ''switch''\<rparr> scene;
          scene = TopologyScene_upsert_node \<lparr>node_id = 2, node_x = 0, node_y = 0x3F0CCCCD, node_vlan = 20,
            node_packets = 420, node_operational = True, node_label = ascii ''observer-a''\<rparr> scene;
          scene = TopologyScene_upsert_node \<lparr>node_id = 3, node_x = 0x3F266666, node_y = 0x3E19999A, node_vlan = 20,
            node_packets = 100, node_operational = True, node_label = ascii ''observer-b''\<rparr> scene;
          scene = TopologyScene_upsert_node \<lparr>node_id = 4, node_x = 0, node_y = 0xBF0CCCCD, node_vlan = 30,
            node_packets = 0, node_operational = False, node_label = ascii ''observer-c''\<rparr> scene;
          scene = TopologyScene_upsert_link \<lparr>link_source = 1, link_destination = 2, link_packets = 700, link_operational = True\<rparr> scene;
          scene = TopologyScene_upsert_link \<lparr>link_source = 1, link_destination = 3, link_packets = 250, link_operational = True\<rparr> scene;
          scene = TopologyScene_upsert_link \<lparr>link_source = 1, link_destination = 4, link_packets = 0, link_operational = False\<rparr> scene
      in scene)"

text \<open>Every link of the scene is drawn.\<close>

lemma demo_scene_drawn:
  "TopologyScene_inv demo_scene \<and> length (frame_links (TopologyRenderer_build_frame colour demo_scene)) = 6 \<and>
   length (frame_nodes (TopologyRenderer_build_frame colour demo_scene)) = 4"
  by (simp add: demo_scene_def build_frame_eq link_ends_def TopologyScene_upsert_node_def TopologyScene_upsert_link_def
      empty_scene_def TopologyScene_inv_def vec_wf_def vec_find_def link_key_def)

section \<open>The two threads\<close>

datatype receiver_phase =
  receiver_test
| receiver_receive
| receiver_lock ObserverResult
| receiver_copy_nodes ObserverResult
| receiver_copy_links ObserverResult
| receiver_store ObserverResult
| receiver_count ObserverResult
| receiver_finished

datatype render_phase =
  render_test | render_lock | render_copy_nodes | render_copy_links | render_present | render_stop | render_join | render_done

record window_state =
  window_client :: ObserverClient
  window_shared :: TopologyScene
  window_mutex :: bool
  window_receiving :: bool
  window_snapshots :: u64
  window_deltas :: u64
  window_resyncs :: u64
  window_revision :: u64
  window_receiver :: receiver_phase
  window_renderer :: render_phase
  window_frame :: TopologyScene
  window_presented :: "TopologyScene list"
  window_frames :: u64

definition window_initial :: window_state where
  "window_initial = \<lparr>window_client = ObserverClient_initial, window_shared = empty_scene, window_mutex = False,
     window_receiving = True, window_snapshots = 0, window_deltas = 0, window_resyncs = 0, window_revision = 0,
     window_receiver = receiver_test, window_renderer = render_test, window_frame = empty_scene,
     window_presented = [], window_frames = 0\<rparr>"

text \<open>What the receiver does after \<open>receive_next\<close> and how it counts a result.\<close>

definition after_receive :: "ObserverResult \<Rightarrow> receiver_phase" where
  "after_receive result =
     (if result = observer_applied_snapshot \<or> result = observer_applied_delta then receiver_lock result
      else receiver_count result)"

definition count_result :: "ObserverResult \<Rightarrow> window_state \<Rightarrow> window_state" where
  "count_result result w =
     (if result = observer_applied_snapshot then w\<lparr>window_snapshots := window_snapshots w + 1\<rparr>
      else if result = observer_applied_delta then w\<lparr>window_deltas := window_deltas w + 1\<rparr>
      else if result = observer_resync_required then w\<lparr>window_resyncs := window_resyncs w + 1\<rparr>
      else w)"

text \<open>\<open>arrives\<close> says what the socket may return.\<close>

inductive receiver_step :: "(bytes option \<Rightarrow> bool) \<Rightarrow> window_state \<Rightarrow> window_state \<Rightarrow> bool" for arrives where
  test: "window_receiver w = receiver_test \<Longrightarrow>
    receiver_step arrives w (w\<lparr>window_receiver := (if window_receiving w then receiver_receive else receiver_finished)\<rparr>)"
| receive: "window_receiver w = receiver_receive \<Longrightarrow> arrives received \<Longrightarrow>
    ObserverClient_receive_next received now (window_client w) = (result, client) \<Longrightarrow>
    receiver_step arrives w (w\<lparr>window_client := client, window_receiver := after_receive result\<rparr>)"
| lock: "window_receiver w = receiver_lock result \<Longrightarrow> \<not> window_mutex w \<Longrightarrow>
    receiver_step arrives w (w\<lparr>window_mutex := True, window_receiver := receiver_copy_nodes result\<rparr>)"
| copy_nodes: "window_receiver w = receiver_copy_nodes result \<Longrightarrow>
    receiver_step arrives w (w\<lparr>window_shared := (window_shared w)\<lparr>scene_nodes := scene_nodes (observer_scene (window_client w))\<rparr>,
      window_receiver := receiver_copy_links result\<rparr>)"
| copy_links: "window_receiver w = receiver_copy_links result \<Longrightarrow>
    receiver_step arrives w (w\<lparr>window_shared := (window_shared w)\<lparr>scene_links := scene_links (observer_scene (window_client w))\<rparr>,
      window_mutex := False, window_receiver := receiver_store result\<rparr>)"
| store: "window_receiver w = receiver_store result \<Longrightarrow>
    receiver_step arrives w (w\<lparr>window_revision := sync_revision (observer_synchronizer (window_client w)),
      window_receiver := receiver_count result\<rparr>)"
| count: "window_receiver w = receiver_count result \<Longrightarrow>
    receiver_step arrives w ((count_result result w)\<lparr>window_receiver := receiver_test\<rparr>)"

inductive render_step :: "window_state \<Rightarrow> window_state \<Rightarrow> bool" where
  test: "window_renderer w = render_test \<Longrightarrow>
    render_step w (w\<lparr>window_renderer := (if should_close then render_stop else render_lock)\<rparr>)"
| lock: "window_renderer w = render_lock \<Longrightarrow> \<not> window_mutex w \<Longrightarrow>
    render_step w (w\<lparr>window_mutex := True, window_frame := empty_scene, window_renderer := render_copy_nodes\<rparr>)"
| copy_nodes: "window_renderer w = render_copy_nodes \<Longrightarrow>
    render_step w (w\<lparr>window_frame := (window_frame w)\<lparr>scene_nodes := scene_nodes (window_shared w)\<rparr>,
      window_renderer := render_copy_links\<rparr>)"
| copy_links: "window_renderer w = render_copy_links \<Longrightarrow>
    render_step w (w\<lparr>window_frame := (window_frame w)\<lparr>scene_links := scene_links (window_shared w)\<rparr>,
      window_mutex := False, window_renderer := render_present\<rparr>)"
| present: "window_renderer w = render_present \<Longrightarrow>
    render_step w (w\<lparr>window_presented := window_presented w @ [window_frame w], window_frames := window_frames w + 1,
      window_renderer := render_test\<rparr>)"
| stop: "window_renderer w = render_stop \<Longrightarrow>
    render_step w (w\<lparr>window_receiving := False, window_renderer := render_join\<rparr>)"
| join: "window_renderer w = render_join \<Longrightarrow> window_receiver w = receiver_finished \<Longrightarrow>
    render_step w (w\<lparr>window_renderer := render_done\<rparr>)"

inductive window_reachable :: "(bytes option \<Rightarrow> bool) \<Rightarrow> window_state \<Rightarrow> bool" for arrives where
  start: "window_reachable arrives window_initial"
| receiver: "window_reachable arrives w \<Longrightarrow> receiver_step arrives w w' \<Longrightarrow> window_reachable arrives w'"
| renderer: "window_reachable arrives w \<Longrightarrow> render_step w w' \<Longrightarrow> window_reachable arrives w'"

text \<open>The exit code: success when a snapshot was applied.\<close>

definition window_success :: "window_state \<Rightarrow> bool" where
  "window_success w \<longleftrightarrow> window_snapshots w > 0"

section \<open>The client's scenes only move forward\<close>

context stable_backend
begin

text \<open>The scenes of a session: the empty one, then those of the published revisions.\<close>

definition scene_at :: "nat \<Rightarrow> TopologyScene" where
  "scene_at k = (if k = 0 then empty_scene else backend (of_nat k))"

definition holds :: "u64 \<Rightarrow> nat \<Rightarrow> ObserverClient \<Rightarrow> bool" where
  "holds session k c \<longleftrightarrow> k < 2 ^ 64 \<and> observer_scene c = scene_at k \<and>
     sync_sequence (observer_synchronizer c) = of_nat k \<and> sync_revision (observer_synchronizer c) = of_nat k \<and>
     (sync_session_id (observer_synchronizer c) \<noteq> Some session \<longrightarrow>
        sync_session_id (observer_synchronizer c) = None \<and> k = 0 \<and> \<not> sync_synchronized (observer_synchronizer c)) \<and>
     (sync_synchronized (observer_synchronizer c) \<longrightarrow> 0 < k)"

definition applied :: "ObserverResult \<Rightarrow> bool" where
  "applied result \<longleftrightarrow> result = observer_applied_snapshot \<or> result = observer_applied_delta"

lemma receive_published:
  assumes "numbered_update backend session interval k u"
  shows "ObserverClient_receive_next (Some (StateUpdate_serialize u)) now c =
    (case observer_candidate u (observer_scene c) of
       None \<Rightarrow> (observer_malformed_scene, c)
     | Some candidate \<Rightarrow>
         (case ClientSynchronizer_consume u now (observer_synchronizer c) of
            (applied_snapshot, s) \<Rightarrow> (observer_applied_snapshot, c\<lparr>observer_synchronizer := s, observer_scene := candidate\<rparr>)
          | (applied_delta, s) \<Rightarrow> (observer_applied_delta, c\<lparr>observer_synchronizer := s, observer_scene := candidate\<rparr>)
          | (accepted_heartbeat, s) \<Rightarrow> (observer_ignored, c\<lparr>observer_synchronizer := s\<rparr>)
          | (ignored_duplicate, s) \<Rightarrow> (observer_ignored, c\<lparr>observer_synchronizer := s\<rparr>)
          | (ignored_stale, s) \<Rightarrow> (observer_ignored, c\<lparr>observer_synchronizer := s\<rparr>)
          | (_, s) \<Rightarrow> (observer_resync_required, c\<lparr>observer_synchronizer := s\<rparr>)))"
proof -
  have "StateUpdate_parse (StateUpdate_serialize u) = Inr u"
    using assms by (intro parse_serialize_update) (simp add: numbered_update_def)
  then show ?thesis
    by (auto simp: ObserverClient_receive_next_def ObserverClient_consume_datagram_def Let_def
        split: option.split prod.split SynchronizationResult.split)
qed

text \<open>The verdicts that apply nothing leave the revision, and the session unless there was none.\<close>

lemma holds_not_applied:
  assumes "holds session k c" and "numbered_update backend session interval k' u"
    and "ClientSynchronizer_consume u now (observer_synchronizer c) = (r, s)" and "r \<notin> {applied_snapshot, applied_delta}"
  shows "holds session k (c\<lparr>observer_synchronizer := s\<rparr>)"
proof -
  have "update_session_id u = session" "update_type u = update_snapshot \<or> update_type u = update_delta"
    using assms(2) numbered_kinds [OF assms(2)] by (simp_all add: numbered_update_def)
  then show ?thesis
    using assms(1,3,4) by (auto simp: holds_def consume_defs split: if_splits)
qed

lemma holds_published:
  assumes "holds session k c" and "numbered_update backend session interval k' u"
    and "ObserverClient_receive_next (Some (StateUpdate_serialize u)) now c = (result, c')"
  shows "if applied result then k < k' \<and> holds session k' c' else holds session k c'"
proof (cases "observer_candidate u (observer_scene c)")
  case None
  then show ?thesis using assms by (simp add: receive_published [OF assms(2)] applied_def)
next
  case (Some candidate)
  obtain r s where r: "ClientSynchronizer_consume u now (observer_synchronizer c) = (r, s)" by fastforce
  have u: "0 < k'" "k' < 2 ^ 64" "update_session_id u = session" "update_sequence u = of_nat k'" "update_revision u = of_nat k'"
    using assms(2) by (simp_all add: numbered_update_def)
  have k: "k < 2 ^ 64" using assms(1) by (simp add: holds_def)
  consider "r = applied_snapshot" | "r = applied_delta" | "r \<notin> {applied_snapshot, applied_delta}" by blast
  then show ?thesis
  proof cases
    case 1
    note f = consume_applied_snapshot [OF r [unfolded 1]]
    have "candidate = backend (of_nat k')"
      using numbered_candidate [OF assms(2)] Some f by (simp add: update_types)
    moreover have "k < k'"
    proof (cases "sync_session_id (observer_synchronizer c) = Some session")
      case True
      then have "(of_nat k :: u64) < of_nat k'" using f u assms(1) by (simp add: holds_def)
      then show ?thesis using u k by (simp add: word_less_nat_alt unat_of_nat)
    qed (use assms(1) u in \<open>auto simp: holds_def\<close>)
    ultimately show ?thesis
      using 1 f u r Some assms(3) by (auto simp: receive_published [OF assms(2)] applied_def holds_def scene_at_def)
  next
    case 2
    note f = consume_applied_delta [OF r [unfolded 2]]
    have "0 < k" "observer_scene c = backend (of_nat k)" using f assms(1) by (auto simp: holds_def scene_at_def)
    then have "candidate = backend (of_nat k')" using numbered_candidate [OF assms(2)] Some by auto
    moreover have "k < k'"
    proof -
      have "(of_nat k' :: u64) = of_nat (Suc k)" using f u assms(1) by (simp add: holds_def ac_simps)
      then have "unat (of_nat k' :: u64) = unat (of_nat (Suc k) :: u64)" by simp
      then have "k' = Suc k mod 2 ^ 64" using u(2) by (simp add: unat_of_nat del: of_nat_Suc)
      then show ?thesis using u(1) k by (cases "Suc k = 2 ^ 64") auto
    qed
    ultimately show ?thesis
      using 2 f u r Some assms(3) by (auto simp: receive_published [OF assms(2)] applied_def holds_def scene_at_def)
  next
    case 3
    then show ?thesis
      using holds_not_applied [OF assms(1,2) r 3] r Some assms(3)
      by (auto simp: receive_published [OF assms(2)] applied_def split: SynchronizationResult.splits)
  qed
qed

lemma holds_arrival:
  assumes "holds session k c" and "arrival (\<lambda>u. \<exists>j \<le> n. numbered_update backend session interval j u) received"
    and "ObserverClient_receive_next received now c = (result, c')"
  shows "if applied result then \<exists>j \<le> n. k < j \<and> holds session j c' else holds session k c'"
proof (cases received)
  case (Some bs)
  consider e where "StateUpdate_parse bs = Inl e"
    | u j where "j \<le> n" "numbered_update backend session interval j u" "bs = StateUpdate_serialize u"
    using assms(2) Some by (auto simp: arrival_def)
  then show ?thesis
  proof cases
    case 1
    then show ?thesis
      using assms Some by (auto simp: ObserverClient_receive_next_def ObserverClient_consume_datagram_def applied_def)
  next
    case 2
    then show ?thesis using holds_published [OF assms(1) 2(2)] assms(3) Some by fastforce
  qed
qed (use assms in \<open>auto simp: ObserverClient_receive_next_def applied_def\<close>)

end

section \<open>The invariant of the two threads\<close>

fun receiver_owns :: "receiver_phase \<Rightarrow> bool" where
  "receiver_owns (receiver_copy_nodes result) = True"
| "receiver_owns (receiver_copy_links result) = True"
| "receiver_owns phase = False"

fun renderer_owns :: "render_phase \<Rightarrow> bool" where
  "renderer_owns render_copy_nodes = True"
| "renderer_owns render_copy_links = True"
| "renderer_owns phase = False"

text \<open>The mutex is held by at most one of the threads, and by the one that copies.\<close>

definition mutex_inv :: "window_state \<Rightarrow> bool" where
  "mutex_inv w \<longleftrightarrow> (window_mutex w \<longleftrightarrow> receiver_owns (window_receiver w) \<or> renderer_owns (window_renderer w)) \<and>
     \<not> (receiver_owns (window_receiver w) \<and> renderer_owns (window_renderer w))"

lemma after_receive_owns [simp]: "\<not> receiver_owns (after_receive result)"
  by (simp add: after_receive_def)

lemma count_result_simps [simp]:
  "window_mutex (count_result result w) = window_mutex w" "window_renderer (count_result result w) = window_renderer w"
  "window_shared (count_result result w) = window_shared w" "window_client (count_result result w) = window_client w"
  "window_frame (count_result result w) = window_frame w" "window_presented (count_result result w) = window_presented w"
  "window_revision (count_result result w) = window_revision w" "window_frames (count_result result w) = window_frames w"
  by (simp_all add: count_result_def)

lemma receiver_step_mutex: "receiver_step arrives w w' \<Longrightarrow> mutex_inv w \<Longrightarrow> mutex_inv w'"
  by (erule receiver_step.cases) (auto simp: mutex_inv_def)

lemma render_step_mutex: "render_step w w' \<Longrightarrow> mutex_inv w \<Longrightarrow> mutex_inv w'"
  by (erule render_step.cases) (auto simp: mutex_inv_def)

context stable_backend
begin

text \<open>What the phase of the receiver says of the client's revision \<open>k\<close> and the shared scene's \<open>s\<close>.\<close>

fun receiver_inv :: "nat \<Rightarrow> nat \<Rightarrow> receiver_phase \<Rightarrow> bool" where
  "receiver_inv s k (receiver_lock result) \<longleftrightarrow> 0 < k"
| "receiver_inv s k (receiver_copy_nodes result) \<longleftrightarrow> 0 < k"
| "receiver_inv s k (receiver_copy_links result) \<longleftrightarrow> 0 < k"
| "receiver_inv s k (receiver_store result) \<longleftrightarrow> 0 < k \<and> s = k"
| "receiver_inv s k (receiver_count result) \<longleftrightarrow> (applied result \<longrightarrow> 0 < s)"
| "receiver_inv s k phase \<longleftrightarrow> True"

fun shared_inv :: "nat \<Rightarrow> nat \<Rightarrow> receiver_phase \<Rightarrow> TopologyScene \<Rightarrow> bool" where
  "shared_inv s k (receiver_copy_links result) scene \<longleftrightarrow> scene = (scene_at s)\<lparr>scene_nodes := scene_nodes (scene_at k)\<rparr>"
| "shared_inv s k phase scene \<longleftrightarrow> scene = scene_at s"

fun revision_inv :: "nat \<Rightarrow> receiver_phase \<Rightarrow> u64 \<Rightarrow> bool" where
  "revision_inv s (receiver_store result) revision \<longleftrightarrow> True"
| "revision_inv s phase revision \<longleftrightarrow> revision = of_nat s"

text \<open>The frame under way, after the frames \<open>ps\<close>.\<close>

fun frame_inv :: "nat list \<Rightarrow> nat \<Rightarrow> render_phase \<Rightarrow> TopologyScene \<Rightarrow> bool" where
  "frame_inv ps s render_copy_links frame \<longleftrightarrow> scene_nodes frame = scene_nodes (scene_at s)"
| "frame_inv ps s render_present frame \<longleftrightarrow> (\<exists>f. frame = scene_at f \<and> sorted (ps @ [f, s]))"
| "frame_inv ps s phase frame \<longleftrightarrow> True"

definition window_inv :: "u64 \<Rightarrow> nat \<Rightarrow> nat list \<Rightarrow> nat \<Rightarrow> nat \<Rightarrow> window_state \<Rightarrow> bool" where
  "window_inv session n ps s k w \<longleftrightarrow> mutex_inv w \<and> holds session k (window_client w) \<and> k \<le> n \<and> s \<le> k \<and>
     window_presented w = map scene_at ps \<and> sorted (ps @ [s]) \<and>
     receiver_inv s k (window_receiver w) \<and> shared_inv s k (window_receiver w) (window_shared w) \<and>
     revision_inv s (window_receiver w) (window_revision w) \<and> frame_inv ps s (window_renderer w) (window_frame w) \<and>
     (s = 0 \<longrightarrow> window_snapshots w = 0) \<and> window_frames w = of_nat (length ps) \<and>
     (window_renderer w = render_done \<longrightarrow> window_receiver w = receiver_finished)"

lemma after_receive_inv:
  "applied result \<Longrightarrow> after_receive result = receiver_lock result"
  "\<not> applied result \<Longrightarrow> after_receive result = receiver_count result"
  by (simp_all add: after_receive_def applied_def)

lemma frame_inv_later: "frame_inv ps s phase frame \<Longrightarrow> \<not> renderer_owns phase \<Longrightarrow> s \<le> s' \<Longrightarrow> frame_inv ps s' phase frame"
  by (cases phase) (fastforce simp: sorted_append)+

lemma receiver_step_inv:
  assumes "receiver_step (arrival (\<lambda>u. \<exists>j \<le> n. numbered_update backend session interval j u)) w w'"
    and "window_inv session n ps s k w"
  shows "\<exists>s' k'. window_inv session n ps s' k' w'"
  using assms(1)
proof cases
  case test
  then show ?thesis using assms(2) receiver_step_mutex [OF assms(1)] by (auto simp: window_inv_def)
next
  case (receive received now result client)
  have holds: "holds session k (window_client w)" using assms(2) by (simp add: window_inv_def)
  show ?thesis
  proof (cases "applied result")
    case True
    then obtain j where "j \<le> n" "k < j" "holds session j client"
      using holds_arrival [OF holds receive(3,4)] by auto
    then have "window_inv session n ps s j w'"
      using assms(2) receive(1,2) receiver_step_mutex [OF assms(1)] True
      by (auto simp: window_inv_def after_receive_inv)
    then show ?thesis by blast
  next
    case False
    then have "holds session k client" using holds_arrival [OF holds receive(3,4)] by simp
    then have "window_inv session n ps s k w'"
      using assms(2) receive(1,2) receiver_step_mutex [OF assms(1)] False
      by (auto simp: window_inv_def after_receive_inv)
    then show ?thesis by blast
  qed
next
  case (lock result)
  then have "window_inv session n ps s k w'"
    using assms(2) receiver_step_mutex [OF assms(1)] by (auto simp: window_inv_def)
  then show ?thesis by blast
next
  case (copy_nodes result)
  then have "window_inv session n ps s k w'"
    using assms(2) receiver_step_mutex [OF assms(1)] by (auto simp: window_inv_def holds_def)
  then show ?thesis by blast
next
  case (copy_links result)
  then have "\<not> renderer_owns (window_renderer w)" using assms(2) by (auto simp: window_inv_def mutex_inv_def)
  moreover have "(scene_at s)\<lparr>scene_nodes := scene_nodes (scene_at k), scene_links := scene_links (scene_at k)\<rparr> = scene_at k" by simp
  ultimately have "window_inv session n ps k k w'"
    using copy_links assms(2) receiver_step_mutex [OF assms(1)] frame_inv_later [of ps s "window_renderer w" "window_frame w" k]
    by (auto simp: window_inv_def holds_def sorted_append)
  then show ?thesis by blast
next
  case (store result)
  then have "window_inv session n ps s k w'"
    using assms(2) receiver_step_mutex [OF assms(1)] by (auto simp: window_inv_def holds_def)
  then show ?thesis by blast
next
  case (count result)
  then have "window_inv session n ps s k w'"
    using assms(2) receiver_step_mutex [OF assms(1)] by (auto simp: window_inv_def count_result_def applied_def)
  then show ?thesis by blast
qed

lemma render_step_inv:
  assumes "render_step w w'" and "window_inv session n ps s k w"
  shows "\<exists>ps'. window_inv session n ps' s k w'"
  using assms(1)
proof cases
  case copy_links
  then have "shared_inv s k (window_receiver w) (window_shared w)" "\<not> receiver_owns (window_receiver w)"
    using assms(2) by (auto simp: window_inv_def mutex_inv_def)
  then have "window_shared w = scene_at s" by (cases "window_receiver w") auto
  then have "window_inv session n ps s k w'"
    using copy_links assms(2) render_step_mutex [OF assms(1)] by (auto simp: window_inv_def sorted_append intro!: exI [of _ s])
  then show ?thesis by blast
next
  case copy_nodes
  then have "shared_inv s k (window_receiver w) (window_shared w)" "\<not> receiver_owns (window_receiver w)"
    using assms(2) by (auto simp: window_inv_def mutex_inv_def)
  then have "window_shared w = scene_at s" by (cases "window_receiver w") auto
  then have "window_inv session n ps s k w'"
    using copy_nodes assms(2) render_step_mutex [OF assms(1)] by (auto simp: window_inv_def)
  then show ?thesis by blast
next
  case present
  then obtain f where f: "window_frame w = scene_at f" "sorted (ps @ [f, s])" using assms(2) by (auto simp: window_inv_def)
  then have "window_inv session n (ps @ [f]) s k w'"
    using present assms(2) render_step_mutex [OF assms(1)] by (auto simp: window_inv_def)
  then show ?thesis by blast
qed (use assms(2) render_step_mutex [OF assms(1)] in \<open>auto simp: window_inv_def intro!: exI [of _ ps]\<close>)

lemma window_reachable_inv:
  "window_reachable (arrival (\<lambda>u. \<exists>j \<le> n. numbered_update backend session interval j u)) w \<Longrightarrow>
   \<exists>ps s k. window_inv session n ps s k w"
proof (induction rule: window_reachable.induct)
  case start
  have "window_inv session n [] 0 0 window_initial"
    by (simp add: window_inv_def window_initial_def mutex_inv_def holds_def scene_at_def ObserverClient_initial_def
        ClientSynchronizer_initial_def)
  then show ?case by blast
next
  case (receiver w w')
  then show ?case using receiver_step_inv by blast
next
  case (renderer w w')
  then show ?case using render_step_inv by blast
qed

end

section \<open>Properties\<close>

lemma receiver_step_mono: "receiver_step arrives w w' \<Longrightarrow> (\<And>r. arrives r \<Longrightarrow> arrives' r) \<Longrightarrow> receiver_step arrives' w w'"
  by (induction rule: receiver_step.induct) (blast intro: receiver_step.intros)+

lemma window_reachable_mono:
  "window_reachable arrives w \<Longrightarrow> (\<And>r. arrives r \<Longrightarrow> arrives' r) \<Longrightarrow> window_reachable arrives' w"
  by (induction rule: window_reachable.induct) (auto intro: window_reachable.intros receiver_step_mono)

text \<open>
  Property C17: the window never shows a torn, invented or outdated scene. However the two threads interleave and
  whatever the channel loses, repeats, reorders and fabricates, as long as a fabricated datagram is not itself a
  valid update, every frame shows the empty scene or exactly the server's scene at a published
  revision, and the revisions of the frames never go back. If the program then ends with success, the receiver has
  ended too, and the revision it reports is a published one that is at least that of every frame.
\<close>

theorem window_shows_published_scenes:
  assumes "AuthoritativeServer_create session interval = Some server" and "length timestamps < 2 ^ 64"
    and "updates = publications (CpuBackend_step position config) timestamps server"
    and "window_reachable (arrival (\<lambda>u. Inr u \<in> set updates)) w"
  shows "\<exists>revisions. sorted revisions \<and> (\<forall>k \<in> set revisions. k \<le> length timestamps) \<and>
    window_presented w = map (\<lambda>k. if k = 0 then empty_scene else CpuBackend_step position config (of_nat k)) revisions \<and>
    window_frames w = of_nat (length revisions) \<and>
    (window_renderer w = render_done \<and> window_success w \<longrightarrow> window_receiver w = receiver_finished \<and>
      (\<exists>k. 0 < k \<and> k \<le> length timestamps \<and> window_revision w = of_nat k \<and> (\<forall>j \<in> set revisions. j \<le> k)))"
proof -
  let ?backend = "CpuBackend_step position config" and ?interval = "if interval = 0 then 1 else interval"
  have "\<exists>k \<le> length timestamps. numbered_update ?backend session ?interval k u" if "Inr u \<in> set updates" for u
    using created_numbered [OF assms(1,2)] that assms(3) by blast
  then have "window_reachable (arrival (\<lambda>u. \<exists>j \<le> length timestamps. numbered_update ?backend session ?interval j u)) w"
    by (intro window_reachable_mono [OF assms(4)]) (rule arrival_mono)
  then obtain ps s k where inv: "cpu_backend.window_inv position config session (length timestamps) ps s k w"
    using cpu_backend.window_reachable_inv by blast
  then have ps: "sorted ps" "\<forall>j \<in> set ps. j \<le> s" "s \<le> k" "k \<le> length timestamps"
      "window_presented w = map (cpu_backend.scene_at position config) ps" "window_frames w = of_nat (length ps)"
    by (auto simp: cpu_backend.window_inv_def sorted_append)
  have finish: "window_receiver w = receiver_finished \<and> 0 < s \<and> window_revision w = of_nat s"
    if "window_renderer w = render_done" "window_success w"
    using inv that by (auto simp: cpu_backend.window_inv_def window_success_def)
  then show ?thesis
    using ps by (intro exI [of _ ps]) (fastforce simp: cpu_backend.scene_at_def [abs_def] intro!: exI [of _ s])
qed

text \<open>A pass of each loop that the other thread does not interrupt.\<close>

lemma scene_copied:
  "\<lparr>scene_nodes = scene_nodes b, scene_links = scene_links b\<rparr> = (b :: TopologyScene)"
  "a\<lparr>scene_nodes := scene_nodes b, scene_links := scene_links b\<rparr> = (b :: TopologyScene)"
  by simp_all

lemma render_pass:
  assumes "window_reachable arrives w" and "window_renderer w = render_test" and "\<not> window_mutex w"
  shows "window_reachable arrives (w\<lparr>window_frame := window_shared w,
    window_presented := window_presented w @ [window_shared w], window_frames := window_frames w + 1\<rparr>)"
proof -
  note renderer = window_reachable.renderer
  have "window_reachable arrives (w\<lparr>window_renderer := render_lock\<rparr>)"
    using renderer [OF assms(1) render_step.test [OF assms(2), of False]] by simp
  from renderer [OF this render_step.lock] assms(3)
  have "window_reachable arrives (w\<lparr>window_mutex := True, window_frame := empty_scene, window_renderer := render_copy_nodes\<rparr>)"
    by simp
  from renderer [OF renderer [OF this render_step.copy_nodes] render_step.copy_links]
  have "window_reachable arrives (w\<lparr>window_frame := window_shared w, window_mutex := False, window_renderer := render_present\<rparr>)"
    by (simp add: empty_scene_def scene_copied)
  from renderer [OF this render_step.present] show ?thesis using assms(2,3) by (cases w) simp
qed

lemma receiver_pass:
  assumes "window_reachable arrives w" and "window_receiver w = receiver_test" and "\<not> window_mutex w" and "window_receiving w"
    and "arrives received" and "ObserverClient_receive_next received now (window_client w) = (observer_applied_snapshot, client)"
  shows "window_reachable arrives (w\<lparr>window_client := client, window_shared := observer_scene client,
    window_revision := sync_revision (observer_synchronizer client), window_snapshots := window_snapshots w + 1\<rparr>)"
proof -
  note receiver = window_reachable.receiver
  have "window_reachable arrives (w\<lparr>window_receiver := receiver_receive\<rparr>)"
    using receiver [OF assms(1) receiver_step.test [OF assms(2)]] assms(4) by simp
  from receiver [OF this receiver_step.receive [where received = received and now = now]] assms(5,6)
  have "window_reachable arrives (w\<lparr>window_client := client, window_receiver := receiver_lock observer_applied_snapshot\<rparr>)"
    by (simp add: after_receive_def)
  from receiver [OF this receiver_step.lock] assms(3)
  have "window_reachable arrives (w\<lparr>window_client := client, window_mutex := True,
      window_receiver := receiver_copy_nodes observer_applied_snapshot\<rparr>)" by simp
  from receiver [OF receiver [OF this receiver_step.copy_nodes] receiver_step.copy_links, of _ observer_applied_snapshot]
  have "window_reachable arrives (w\<lparr>window_client := client, window_shared := observer_scene client, window_mutex := False,
      window_receiver := receiver_store observer_applied_snapshot\<rparr>)" by (simp add: scene_copied)
  from receiver [OF receiver [OF this receiver_step.store] receiver_step.count] show ?thesis
    using assms(2,3) by (cases w) (simp add: count_result_def)
qed

text \<open>
  The window presents a frame, the receiver then takes the server's first update, the window presents another frame
  and is closed.
\<close>

lemma sample_window_run:
  assumes "arrives (Some (StateUpdate_serialize (projr (sample_updates ! 0))))"
  shows "\<exists>w. window_reachable arrives w \<and> window_renderer w = render_done \<and> window_success w \<and> length (window_presented w) = 2"
proof -
  obtain client where client: "ObserverClient_receive_next (Some (StateUpdate_serialize (projr (sample_updates ! 0)))) 1
      ObserverClient_initial = (observer_applied_snapshot, client)"
    using sample_received by blast
  have "window_reachable arrives (window_initial\<lparr>window_presented := [empty_scene], window_frames := 1\<rparr>)"
    using render_pass [OF window_reachable.start, of arrives] by (simp add: window_initial_def)
  from receiver_pass [OF this _ _ _ assms, of 1 client] client
  have "window_reachable arrives (window_initial\<lparr>window_presented := [empty_scene], window_frames := 1, window_client := client,
      window_shared := observer_scene client, window_revision := sync_revision (observer_synchronizer client), window_snapshots := 1\<rparr>)"
    by (simp add: window_initial_def)
  from render_pass [OF this] obtain w where w: "window_reachable arrives w" "window_renderer w = render_test" "window_receiver w = receiver_test"
      "window_success w" "length (window_presented w) = 2"
    by (auto simp: window_initial_def window_success_def intro!: that)
  have "window_reachable arrives (w\<lparr>window_renderer := render_stop\<rparr>)"
    using window_reachable.renderer [OF w(1) render_step.test [OF w(2), of True]] by simp
  from window_reachable.renderer [OF this render_step.stop]
  have "window_reachable arrives (w\<lparr>window_receiving := False, window_renderer := render_join\<rparr>)" by simp
  from window_reachable.receiver [OF this receiver_step.test] w(3)
  have "window_reachable arrives (w\<lparr>window_receiving := False, window_renderer := render_join, window_receiver := receiver_finished\<rparr>)"
    by simp
  from window_reachable.renderer [OF this render_step.join]
  have "window_reachable arrives (w\<lparr>window_receiving := False, window_receiver := receiver_finished, window_renderer := render_done\<rparr>)"
    (is "window_reachable arrives ?w") by simp
  then show ?thesis using w(4,5) by (intro exI [of _ ?w]) (simp add: window_success_def)
qed

theorem window_shows_published_scenes_witness:
  "\<exists>(w :: window_state) revisions k. window_renderer w = render_done \<and> length (window_presented w) = 2 \<and> sorted revisions \<and>
     window_presented w = map (\<lambda>k. if k = 0 then empty_scene else CpuBackend_step sample_position sample_config (of_nat k)) revisions \<and>
     window_revision w = of_nat k \<and> 0 < k \<and> k \<le> (2 :: nat)"
proof -
  let ?arrives = "arrival (\<lambda>u. Inr u \<in> set sample_updates)"
  have "Inr (projr (sample_updates ! 0)) \<in> set sample_updates" using sample_updates_first by (auto dest: in_set_takeD)
  then have "?arrives (Some (StateUpdate_serialize (projr (sample_updates ! 0))))" by (auto simp: arrival_def)
  then obtain w where w: "window_reachable ?arrives w" "window_renderer w = render_done" "window_success w"
      "length (window_presented w) = 2"
    using sample_window_run by blast
  obtain revisions k where "sorted revisions" "0 < k" "k \<le> length [5 :: u64, 6]" "window_revision w = of_nat k"
      "window_presented w = map (\<lambda>k. if k = 0 then empty_scene else CpuBackend_step sample_position sample_config (of_nat k)) revisions"
    using window_shows_published_scenes [OF sample_server_created _ sample_updates_def w(1)] w(2,3) by fastforce
  then show ?thesis using w(2,4) by (intro exI [of _ w] exI [of _ revisions] exI [of _ k]) simp
qed

end
