(* ===== verification/Glfw_Window.thy ===== *)
theory Glfw_Window
  imports Render_Colour Observer_Window Replication_Udp
begin

text \<open>
  The window of \<^verbatim>\<open>apps/observer/main.cpp\<close> and the program around it. The calls of GLFW and OpenGL are values, in the
  order in which the program makes them; what GLFW answers (whether it starts, whether the window is created, the
  size of the framebuffer, the keys that a poll delivers) enters as an argument. \<open>gl_step\<close> is the
  documented order of the calls.
\<close>

section \<open>The calls\<close>

datatype gl_primitive = gl_lines | gl_points

datatype gl_call =
  glfw_init bool | glfw_terminate | glfw_hint_major nat | glfw_hint_minor nat | glfw_create_window nat nat string bool
| glfw_destroy_window | glfw_make_context_current | glfw_swap_interval nat | glfw_set_user_pointer | glfw_set_key_callback
| glfw_poll_events | glfw_get_framebuffer_size | glfw_swap_buffers
| gl_viewport int int | gl_clear_color u32 u32 u32 u32 | gl_clear | gl_load_identity | gl_translate u32 u32 u32
| gl_line_width u32 | gl_point_size u32 | gl_begin gl_primitive | gl_color u32 u32 u32 | gl_vertex u32 u32 | gl_end

datatype glfw_key = key_escape | key_left | key_right | key_up | key_down | key_other
datatype glfw_action = key_press | key_release | key_repeat

text \<open>The window system may also ask the window to close.\<close>

datatype glfw_event = key_event glfw_key glfw_action | close_request

section \<open>The window\<close>

record GlfwWindow =
  glfw_offset_x :: u32
  glfw_offset_y :: u32
  glfw_should_close :: bool

definition GlfwWindow_construct :: "bool \<Rightarrow> bool \<Rightarrow> GlfwWindow option \<times> gl_call list" where
  "GlfwWindow_construct started created =
     (if \<not> started then (None, [glfw_init False])
      else if \<not> created then
        (None, [glfw_init True, glfw_hint_major 2, glfw_hint_minor 1,
           glfw_create_window 960 640 ''Silicon Switch Observer'' False, glfw_terminate])
      else
        (Some \<lparr>glfw_offset_x = 0, glfw_offset_y = 0, glfw_should_close = False\<rparr>,
         [glfw_init True, glfw_hint_major 2, glfw_hint_minor 1,
          glfw_create_window 960 640 ''Silicon Switch Observer'' True, glfw_make_context_current, glfw_swap_interval 1,
          glfw_set_user_pointer, glfw_set_key_callback]))"

definition GlfwWindow_key :: "glfw_key \<Rightarrow> glfw_action \<Rightarrow> GlfwWindow \<Rightarrow> GlfwWindow" where
  "GlfwWindow_key key action w =
     (if action \<noteq> key_press \<and> action \<noteq> key_repeat then w
      else case key of
        key_escape \<Rightarrow> w\<lparr>glfw_should_close := True\<rparr>
      | key_left \<Rightarrow> w\<lparr>glfw_offset_x := single_subtract (glfw_offset_x w) 0x3D4CCCCD\<rparr>
      | key_right \<Rightarrow> w\<lparr>glfw_offset_x := single_add (glfw_offset_x w) 0x3D4CCCCD\<rparr>
      | key_up \<Rightarrow> w\<lparr>glfw_offset_y := single_add (glfw_offset_y w) 0x3D4CCCCD\<rparr>
      | key_down \<Rightarrow> w\<lparr>glfw_offset_y := single_subtract (glfw_offset_y w) 0x3D4CCCCD\<rparr>
      | key_other \<Rightarrow> w)"

fun glfw_handle :: "glfw_event \<Rightarrow> GlfwWindow \<Rightarrow> GlfwWindow" where
  "glfw_handle (key_event key action) w = GlfwWindow_key key action w"
| "glfw_handle close_request w = w\<lparr>glfw_should_close := True\<rparr>"

definition GlfwWindow_poll_events :: "glfw_event list \<Rightarrow> GlfwWindow \<Rightarrow> GlfwWindow \<times> gl_call list" where
  "GlfwWindow_poll_events events w = (fold glfw_handle events w, [glfw_poll_events])"

definition GlfwWindow_destroy :: "gl_call list" where
  "GlfwWindow_destroy = [glfw_destroy_window, glfw_terminate]"

definition draw_vertex :: "RenderVertex \<Rightarrow> gl_call list" where
  "draw_vertex v = [gl_color (vertex_red v) (vertex_green v) (vertex_blue v), gl_vertex (vertex_x v) (vertex_y v)]"

definition GlfwWindow_present :: "int \<Rightarrow> int \<Rightarrow> TopologyScene \<Rightarrow> GlfwWindow \<Rightarrow> gl_call list" where
  "GlfwWindow_present width height scene w =
     (let frame = TopologyRenderer_build_frame render_colour scene
      in [glfw_get_framebuffer_size, gl_viewport width height,
          gl_clear_color 0x3CCCCCCD 0x3D0F5C29 0x3D851EB8 0x3F800000, gl_clear, gl_load_identity,
          gl_translate (glfw_offset_x w) (glfw_offset_y w) 0, gl_line_width 0x40400000, gl_begin gl_lines] @
         concat (map draw_vertex (frame_links frame)) @ [gl_end, gl_point_size 0x41900000, gl_begin gl_points] @
         concat (map draw_vertex (frame_nodes frame)) @ [gl_end, glfw_swap_buffers])"

section \<open>The program\<close>

text \<open>What GLFW does in one pass of the loop: the events it delivers and the size of the framebuffer.\<close>

record display_pass =
  pass_events :: "glfw_event list"
  pass_width :: int
  pass_height :: int

text \<open>\<open>VisualizationApplication::run\<close> on this window; \<open>None\<close> when the window is still open after the last pass.\<close>

fun display_loop ::
  "display_pass list \<Rightarrow> TopologyScene \<Rightarrow> u64 \<Rightarrow> GlfwWindow \<Rightarrow> gl_call list \<Rightarrow> (u64 \<times> GlfwWindow \<times> gl_call list) option" where
  "display_loop [] scene frames w calls = (if glfw_should_close w then Some (frames, w, calls) else None)"
| "display_loop (pass # passes) scene frames w calls =
     (if glfw_should_close w then Some (frames, w, calls)
      else case GlfwWindow_poll_events (pass_events pass) w of
        (w', polled) \<Rightarrow>
          display_loop passes scene (frames + 1) w'
            (calls @ polled @ GlfwWindow_present (pass_width pass) (pass_height pass) scene w'))"

definition observer_demo :: "bool \<Rightarrow> bool \<Rightarrow> display_pass list \<Rightarrow> (u64 option \<times> gl_call list) option" where
  "observer_demo started created passes =
     (case GlfwWindow_construct started created of
        (None, calls) \<Rightarrow> Some (None, calls)
      | (Some window, calls) \<Rightarrow>
          (case display_loop passes demo_scene 0 window calls of
             None \<Rightarrow> None
           | Some (frames, _, calls') \<Rightarrow> Some (Some frames, calls' @ GlfwWindow_destroy)))"

text \<open>
  With a server: the start of the program up to its two threads, the loop of the main thread, where each pass
  comes with the scene that it copied under the mutex, and the end. \<open>render_step\<close> has the same loop without
  the window, with the steps of the other thread in between.
\<close>

datatype observer_exit =
  observer_error | observer_usage | observer_bind_failure | observer_threads string UdpObserver GlfwWindow

definition observer_start ::
  "('os, 'addr) udp_calls \<Rightarrow> bool \<Rightarrow> bool \<Rightarrow> string list \<Rightarrow> 'os \<Rightarrow> observer_exit \<times> gl_call list \<times> 'os" where
  "observer_start sys started created arguments os =
     (let options = parse_window_options arguments default_window_options
      in case window_port options of
           None \<Rightarrow> (observer_usage, [], os)
         | Some port \<Rightarrow>
             (case ObserverClient_bind sys (ascii (window_address options)) port os of
                (Inl error, os') \<Rightarrow> (observer_bind_failure, [], os')
              | (Inr client, os') \<Rightarrow>
                  let os'' = snd (ObserverClient_set_receive_timeout sys 200 client os')
                  in case GlfwWindow_construct started created of
                       (None, calls) \<Rightarrow> (observer_error, calls, call_close sys os'' (udp_handle (observer_socket client)))
                     | (Some window, calls) \<Rightarrow> (observer_threads (window_name options) client window, calls, os'')))"

fun observer_render_loop ::
  "(display_pass \<times> TopologyScene) list \<Rightarrow> u64 \<Rightarrow> GlfwWindow \<Rightarrow> gl_call list \<Rightarrow> (u64 \<times> GlfwWindow \<times> gl_call list) option" where
  "observer_render_loop [] frames w calls = (if glfw_should_close w then Some (frames, w, calls) else None)"
| "observer_render_loop ((pass, scene) # passes) frames w calls =
     (if glfw_should_close w then Some (frames, w, calls)
      else case GlfwWindow_poll_events (pass_events pass) w of
        (w', polled) \<Rightarrow>
          observer_render_loop passes (frames + 1) w'
            (calls @ polled @ GlfwWindow_present (pass_width pass) (pass_height pass) scene w'))"

definition observer_finish ::
  "('os, 'addr) udp_calls \<Rightarrow> UdpObserver \<Rightarrow> gl_call list \<Rightarrow> 'os \<Rightarrow> gl_call list \<times> 'os" where
  "observer_finish sys client calls os =
     (calls @ GlfwWindow_destroy, call_close sys os (udp_handle (observer_socket client)))"

section \<open>The order of the calls\<close>

datatype gl_phase = gl_down | gl_up | gl_window | gl_ready | gl_drawing

text \<open>
  GLFW is used between its start and its termination, OpenGL after a context is current and before the window is
  destroyed, and between \<open>gl_begin\<close> and \<open>gl_end\<close> there are only colours and vertices, which occur nowhere else.
\<close>

fun gl_step :: "gl_phase \<Rightarrow> gl_call \<Rightarrow> gl_phase option" where
  "gl_step gl_down call = (case call of glfw_init ok \<Rightarrow> Some (if ok then gl_up else gl_down) | _ \<Rightarrow> None)"
| "gl_step gl_up call =
     (case call of
        glfw_hint_major n \<Rightarrow> Some gl_up
      | glfw_hint_minor n \<Rightarrow> Some gl_up
      | glfw_create_window width height title ok \<Rightarrow> Some (if ok then gl_window else gl_up)
      | glfw_terminate \<Rightarrow> Some gl_down
      | _ \<Rightarrow> None)"
| "gl_step gl_window call =
     (case call of
        glfw_make_context_current \<Rightarrow> Some gl_ready
      | glfw_set_user_pointer \<Rightarrow> Some gl_window
      | glfw_set_key_callback \<Rightarrow> Some gl_window
      | glfw_poll_events \<Rightarrow> Some gl_window
      | glfw_destroy_window \<Rightarrow> Some gl_up
      | _ \<Rightarrow> None)"
| "gl_step gl_ready call =
     (case call of
        gl_begin p \<Rightarrow> Some gl_drawing
      | glfw_destroy_window \<Rightarrow> Some gl_up
      | gl_end \<Rightarrow> None
      | gl_color r g b \<Rightarrow> None
      | gl_vertex x y \<Rightarrow> None
      | glfw_init ok \<Rightarrow> None
      | glfw_create_window width height title ok \<Rightarrow> None
      | glfw_terminate \<Rightarrow> None
      | _ \<Rightarrow> Some gl_ready)"
| "gl_step gl_drawing call =
     (case call of gl_end \<Rightarrow> Some gl_ready | gl_color r g b \<Rightarrow> Some gl_drawing | gl_vertex x y \<Rightarrow> Some gl_drawing | _ \<Rightarrow> None)"

fun gl_run :: "gl_phase \<Rightarrow> gl_call list \<Rightarrow> gl_phase option" where
  "gl_run phase [] = Some phase"
| "gl_run phase (call # calls) = (case gl_step phase call of None \<Rightarrow> None | Some phase' \<Rightarrow> gl_run phase' calls)"

text \<open>The vertices that the calls draw, each with its primitive and the colour set before it.\<close>

fun gl_drawn :: "gl_primitive \<Rightarrow> u32 \<times> u32 \<times> u32 \<Rightarrow> gl_call list \<Rightarrow> (gl_primitive \<times> RenderVertex) list" where
  "gl_drawn primitive colour [] = []"
| "gl_drawn primitive colour (gl_begin p # calls) = gl_drawn p colour calls"
| "gl_drawn primitive colour (gl_color r g b # calls) = gl_drawn primitive (r, g, b) calls"
| "gl_drawn primitive (r, g, b) (gl_vertex x y # calls) =
     (primitive, \<lparr>vertex_x = x, vertex_y = y, vertex_red = r, vertex_green = g, vertex_blue = b\<rparr>) # gl_drawn primitive (r, g, b) calls"
| "gl_drawn primitive colour (call # calls) = gl_drawn primitive colour calls"

lemma gl_run_append: "gl_run phase (calls @ calls') = Option.bind (gl_run phase calls) (\<lambda>phase'. gl_run phase' calls')"
  by (induction calls arbitrary: phase) (simp_all split: option.split)

lemma gl_run_vertices [simp]: "gl_run gl_drawing (concat (map draw_vertex vs)) = Some gl_drawing"
  by (induction vs) (simp_all add: draw_vertex_def)

lemma gl_run_present: "gl_run gl_ready (GlfwWindow_present width height scene w) = Some gl_ready"
  by (simp add: GlfwWindow_present_def Let_def gl_run_append)

lemma gl_drawn_vertices:
  "\<exists>colour'. gl_drawn primitive colour (concat (map draw_vertex vs) @ calls) =
     map (Pair primitive) vs @ gl_drawn primitive colour' calls"
proof (induction vs arbitrary: colour)
  case Nil
  show ?case by (rule exI [of _ colour]) simp
next
  case (Cons v vs)
  then show ?case by (cases v) (simp add: draw_vertex_def)
qed

definition frame_vertices :: "TopologyScene \<Rightarrow> (gl_primitive \<times> RenderVertex) list" where
  "frame_vertices scene =
     map (Pair gl_lines) (frame_links (TopologyRenderer_build_frame render_colour scene)) @
     map (Pair gl_points) (frame_nodes (TopologyRenderer_build_frame render_colour scene))"

lemma gl_drawn_present:
  "\<exists>primitive' colour'. gl_drawn primitive colour (GlfwWindow_present width height scene w @ calls) =
     frame_vertices scene @ gl_drawn primitive' colour' calls"
proof -
  let ?f = "TopologyRenderer_build_frame render_colour scene"
  obtain c where links: "gl_drawn gl_lines colour (concat (map draw_vertex (frame_links ?f)) @ rest) =
      map (Pair gl_lines) (frame_links ?f) @ gl_drawn gl_lines c rest"
    if "rest = gl_end # gl_point_size 0x41900000 # gl_begin gl_points # concat (map draw_vertex (frame_nodes ?f)) @
      gl_end # glfw_swap_buffers # calls" for rest
    using gl_drawn_vertices [of gl_lines colour "frame_links ?f"
        "gl_end # gl_point_size 0x41900000 # gl_begin gl_points # concat (map draw_vertex (frame_nodes ?f)) @
      gl_end # glfw_swap_buffers # calls"] by auto
  obtain d where nodes: "gl_drawn gl_points c (concat (map draw_vertex (frame_nodes ?f)) @ gl_end # glfw_swap_buffers # calls) =
      map (Pair gl_points) (frame_nodes ?f) @ gl_drawn gl_points d (gl_end # glfw_swap_buffers # calls)"
    using gl_drawn_vertices by blast
  have "gl_drawn primitive colour (GlfwWindow_present width height scene w @ calls) = frame_vertices scene @ gl_drawn gl_points d calls"
    using links nodes by (simp add: GlfwWindow_present_def Let_def frame_vertices_def)
  then show ?thesis by blast
qed

text \<open>The two loops differ in where the scene comes from.\<close>

lemma display_loop_eq:
  "display_loop passes scene frames w calls = observer_render_loop (map (\<lambda>pass. (pass, scene)) passes) frames w calls"
  by (induction passes arbitrary: frames w calls) (simp_all add: GlfwWindow_poll_events_def)

lemma observer_render_loop_adds:
  assumes "observer_render_loop passes frames w calls = Some (frames', w', calls')"
  shows "\<exists>n added. n \<le> length passes \<and> frames' = frames + of_nat n \<and> calls' = calls @ added \<and>
    gl_run gl_ready added = Some gl_ready \<and>
    (\<forall>primitive colour rest. \<exists>primitive' colour'. gl_drawn primitive colour (added @ rest) =
       concat (map (frame_vertices \<circ> snd) (take n passes)) @ gl_drawn primitive' colour' rest)"
  using assms
proof (induction passes arbitrary: frames w calls)
  case Nil
  then have "frames' = frames \<and> calls' = calls" by (simp split: if_splits)
  then show ?case by (intro exI [of _ 0] exI [of _ "[]"]) (auto intro: exI)
next
  case (Cons entry passes)
  obtain pass scene where entry: "entry = (pass, scene)" by fastforce
  show ?case
  proof (cases "glfw_should_close w")
    case True
    then have "frames' = frames \<and> calls' = calls" using Cons.prems by (simp add: entry)
    then show ?thesis by (intro exI [of _ 0] exI [of _ "[]"]) (auto intro: exI)
  next
    case False
    let ?w = "fold glfw_handle (pass_events pass) w"
    let ?present = "GlfwWindow_present (pass_width pass) (pass_height pass) scene ?w"
    have "observer_render_loop passes (frames + 1) ?w (calls @ [glfw_poll_events] @ ?present) = Some (frames', w', calls')"
      using Cons.prems False by (simp add: entry GlfwWindow_poll_events_def)
    from Cons.IH [OF this] obtain n added where added: "n \<le> length passes" "frames' = frames + 1 + of_nat n"
        "calls' = (calls @ [glfw_poll_events] @ ?present) @ added" "gl_run gl_ready added = Some gl_ready"
      and drawn: "\<And>primitive colour rest. \<exists>primitive' colour'. gl_drawn primitive colour (added @ rest) =
        concat (map (frame_vertices \<circ> snd) (take n passes)) @ gl_drawn primitive' colour' rest"
      by blast
    let ?added = "[glfw_poll_events] @ ?present @ added"
    have drawn: "\<exists>primitive' colour'. gl_drawn primitive colour (?added @ rest) =
        concat (map (frame_vertices \<circ> snd) (take (Suc n) (entry # passes))) @ gl_drawn primitive' colour' rest"
      for primitive colour rest
      using gl_drawn_present [of primitive colour "pass_width pass" "pass_height pass" scene ?w "added @ rest"] drawn [of _ _ rest]
      by (simp add: entry) metis
    have run: "gl_run gl_ready ?added = Some gl_ready"
      using added(4) by (simp add: gl_run_append gl_run_present)
    have counts: "Suc n \<le> length (entry # passes) \<and> frames' = frames + of_nat (Suc n) \<and> calls' = calls @ ?added"
      using added(1-3) by (simp add: ac_simps)
    show ?thesis
      by (rule exI [of _ "Suc n"], rule exI [of _ ?added]) (use counts run drawn in blast)
  qed
qed

definition closes :: "glfw_event \<Rightarrow> bool" where
  "closes event \<longleftrightarrow> event \<in> {close_request, key_event key_escape key_press, key_event key_escape key_repeat}"

lemma glfw_handle_close: "glfw_should_close (glfw_handle event w) \<longleftrightarrow> glfw_should_close w \<or> closes event"
  by (cases event) (auto simp: closes_def GlfwWindow_key_def split: glfw_key.split)

lemma fold_handle_close: "glfw_should_close (fold glfw_handle events w) \<longleftrightarrow> glfw_should_close w \<or> (\<exists>event \<in> set events. closes event)"
  by (induction events arbitrary: w) (auto simp: glfw_handle_close)

lemma observer_render_loop_returns:
  assumes "glfw_should_close w \<or> (\<exists>(pass, scene) \<in> set passes. \<exists>event \<in> set (pass_events pass). closes event)"
  shows "observer_render_loop passes frames w calls \<noteq> None"
  using assms
proof (induction passes arbitrary: frames w calls)
  case (Cons entry passes)
  obtain pass scene where entry: "entry = (pass, scene)" by fastforce
  have "observer_render_loop passes (frames + 1) (fold glfw_handle (pass_events pass) w) calls' \<noteq> None"
    if "\<not> glfw_should_close w" for calls'
    using Cons.prems that by (intro Cons.IH) (auto simp: entry fold_handle_close)
  then show ?case by (auto simp: entry GlfwWindow_poll_events_def)
qed (simp split: if_splits)

lemma construct_protocol:
  assumes "GlfwWindow_construct started created = (window, calls)"
  shows "gl_run gl_down calls = Some (if window = None then gl_down else gl_ready)"
    and "window = None \<longleftrightarrow> \<not> (started \<and> created)"
    and "gl_drawn primitive colour (calls @ rest) = gl_drawn primitive colour rest"
    and "window = Some w \<Longrightarrow> \<not> glfw_should_close w"
  using assms by (auto simp: GlfwWindow_construct_def split: if_splits)

text \<open>What one run of the window shows and leaves behind, for either loop.\<close>

lemma observer_window_run:
  assumes "GlfwWindow_construct started created = (Some window, calls)"
    and "observer_render_loop passes 0 window calls = Some (frames, window', calls')"
  shows "gl_run gl_down (calls' @ GlfwWindow_destroy) = Some gl_down \<and>
    (\<exists>n \<le> length passes. frames = of_nat n \<and> (\<forall>primitive colour. gl_drawn primitive colour (calls' @ GlfwWindow_destroy) =
       concat (map (frame_vertices \<circ> snd) (take n passes))))"
proof -
  obtain n added where added: "n \<le> length passes" "frames = 0 + of_nat n" "calls' = calls @ added"
      "gl_run gl_ready added = Some gl_ready"
    and drawn: "\<And>primitive colour rest. \<exists>primitive' colour'. gl_drawn primitive colour (added @ rest) =
       concat (map (frame_vertices \<circ> snd) (take n passes)) @ gl_drawn primitive' colour' rest"
    using observer_render_loop_adds [OF assms(2)] by blast
  have "gl_drawn primitive colour (calls' @ GlfwWindow_destroy) = concat (map (frame_vertices \<circ> snd) (take n passes))"
    for primitive colour
    using drawn [of primitive colour GlfwWindow_destroy]
    by (auto simp: added(3) construct_protocol(3) [OF assms(1)] GlfwWindow_destroy_def)
  then show ?thesis
    using added construct_protocol(1) [OF assms(1)] by (auto simp: gl_run_append GlfwWindow_destroy_def)
qed

text \<open>A program that stops before its threads start has closed its socket and terminated GLFW.\<close>

lemma observer_start_cleans:
  assumes "socket_contract sys opened" and "observer_start sys started created arguments os = (result, calls, os')"
  shows "case result of
      observer_threads name client window \<Rightarrow>
        opened os' = insert (udp_handle (observer_socket client)) (opened os) \<and> gl_run gl_down calls = Some gl_ready \<and>
        opened (snd (observer_finish sys client calls os')) = opened os
    | _ \<Rightarrow> opened os' = opened os \<and> gl_run gl_down calls = Some gl_down"
proof -
  let ?options = "parse_window_options arguments default_window_options"
  show ?thesis
  proof (cases "window_port ?options")
    case None
    then show ?thesis using assms(2) by (auto simp: observer_start_def Let_def)
  next
    case (Some port)
    obtain r os1 where bind: "UdpSocket_bind_ipv4 sys (ascii (window_address ?options)) port os = (r, os1)" by fastforce
    note opens = bind_opens [OF assms(1) bind]
    obtain window start where start: "GlfwWindow_construct started created = (window, start)" by fastforce
    show ?thesis
      using assms(2) Some bind opens start construct_protocol(1) [OF start] socket_contractD(3) [OF assms(1)]
        udp_calls_keep(4) [OF assms(1)]
      by (cases r; cases window) (auto simp: observer_start_def observer_finish_def ObserverClient_bind_def
          ObserverClient_set_receive_timeout_def Let_def)
  qed
qed

lemma observer_demo_protocol:
  assumes "observer_demo started created passes = Some (result, calls)"
  shows "gl_run gl_down calls = Some gl_down \<and> (result = None \<longleftrightarrow> \<not> (started \<and> created)) \<and>
    (\<exists>n \<le> length passes. result \<in> {None, Some (of_nat n)} \<and>
       gl_drawn gl_points (0, 0, 0) calls = concat (replicate (case result of None \<Rightarrow> 0 | Some _ \<Rightarrow> n) (frame_vertices demo_scene)))"
proof -
  let ?scenes = "map (\<lambda>pass. (pass, demo_scene)) passes"
  have repeated: "concat (map (frame_vertices \<circ> snd) (take n ?scenes)) = concat (replicate n (frame_vertices demo_scene))"
    if "n \<le> length passes" for n
    using that by (simp add: take_map comp_def map_replicate_const)
  obtain window start where start: "GlfwWindow_construct started created = (window, start)" by fastforce
  note protocol = construct_protocol [OF start]
  show ?thesis
  proof (cases window)
    case None
    then show ?thesis using assms start protocol(1,2) protocol(3) [of gl_points "(0, 0, 0)" "[]"]
      by (auto simp: observer_demo_def)
  next
    case (Some w)
    then obtain frames w' calls' where loop: "observer_render_loop ?scenes 0 w start = Some (frames, w', calls')"
        "result = Some frames" "calls = calls' @ GlfwWindow_destroy"
      using assms start by (auto simp: observer_demo_def display_loop_eq split: option.splits)
    show ?thesis
      using observer_window_run [OF start [unfolded Some] loop(1)] protocol(2) Some repeated by (auto simp: loop(2,3))
  qed
qed

lemma observer_demo_ends:
  assumes "\<exists>pass \<in> set passes. \<exists>event \<in> set (pass_events pass). closes event"
  shows "observer_demo started created passes \<noteq> None"
proof -
  have "\<exists>r. observer_render_loop (map (\<lambda>pass. (pass, demo_scene)) passes) 0 w calls = Some r" for w calls
    using assms observer_render_loop_returns [of w "map (\<lambda>pass. (pass, demo_scene)) passes" 0 calls] by auto
  then show ?thesis
    by (auto simp: observer_demo_def display_loop_eq split: prod.split option.split) (metis option.distinct(1))
qed

text \<open>
  Property C18: the observer's window keeps to the order of GLFW and OpenGL and draws the scenes. Whether GLFW
  starts or not and whatever is pressed, in the demonstration and with a server: when the window is closed GLFW has
  been terminated, every call was made where it is allowed, and the vertices drawn are, frame after frame, those
  of the renderer for the scene of that pass, as many frames as are reported; the window fails to open exactly if GLFW
  does, and a demonstration in which Escape is pressed or the window is closed ends.
\<close>

theorem observer_window_protocol:
  shows "(\<forall>result calls. observer_demo started created passes = Some (result, calls) \<longrightarrow>
      gl_run gl_down calls = Some gl_down \<and> (result = None \<longleftrightarrow> \<not> (started \<and> created)) \<and>
      (\<exists>n \<le> length passes. result \<in> {None, Some (of_nat n)} \<and>
         gl_drawn gl_points (0, 0, 0) calls = concat (replicate (case result of None \<Rightarrow> 0 | Some _ \<Rightarrow> n) (frame_vertices demo_scene)))) \<and>
    ((\<exists>pass \<in> set passes. \<exists>event \<in> set (pass_events pass). closes event) \<longrightarrow> observer_demo started created passes \<noteq> None) \<and>
    (\<forall>window start frames window' calls os. GlfwWindow_construct started created = (Some window, start) \<longrightarrow>
      observer_render_loop scenes 0 window start = Some (frames, window', calls) \<longrightarrow>
      gl_run gl_down (fst (observer_finish sys client calls os)) = Some gl_down \<and>
      (\<exists>n \<le> length scenes. frames = of_nat n \<and> gl_drawn gl_points (0, 0, 0) (fst (observer_finish sys client calls os)) =
         concat (map (frame_vertices \<circ> snd) (take n scenes))))"
proof (intro conjI allI impI)
  fix result calls
  assume "observer_demo started created passes = Some (result, calls)"
  note demo = observer_demo_protocol [OF this]
  show "gl_run gl_down calls = Some gl_down" "result = None \<longleftrightarrow> \<not> (started \<and> created)"
    "\<exists>n \<le> length passes. result \<in> {None, Some (of_nat n)} \<and>
       gl_drawn gl_points (0, 0, 0) calls = concat (replicate (case result of None \<Rightarrow> 0 | Some _ \<Rightarrow> n) (frame_vertices demo_scene))"
    using demo by blast+
next
  assume "\<exists>pass \<in> set passes. \<exists>event \<in> set (pass_events pass). closes event"
  then show "observer_demo started created passes \<noteq> None" by (rule observer_demo_ends)
next
  fix window start frames window' calls and os :: 'a
  assume "GlfwWindow_construct started created = (Some window, start)"
    and "observer_render_loop scenes 0 window start = Some (frames, window', calls)"
  note run = observer_window_run [OF this]
  show "gl_run gl_down (fst (observer_finish sys client calls os)) = Some gl_down"
    using run [THEN conjunct1] by (simp add: observer_finish_def)
  show "\<exists>n \<le> length scenes. frames = of_nat n \<and> gl_drawn gl_points (0, 0, 0) (fst (observer_finish sys client calls os)) =
      concat (map (frame_vertices \<circ> snd) (take n scenes))"
    unfolding observer_finish_def fst_conv using run [THEN conjunct2] by blast
qed

definition sample_passes :: "display_pass list" where
  "sample_passes =
     [\<lparr>pass_events = [key_event key_left key_press], pass_width = 960, pass_height = 640\<rparr>,
      \<lparr>pass_events = [key_event key_escape key_press], pass_width = 480, pass_height = 320\<rparr>]"

theorem observer_window_protocol_witness:
  "\<exists>frames calls. observer_demo True True sample_passes = Some (Some frames, calls) \<and> gl_run gl_down calls = Some gl_down"
proof -
  note protocol = observer_window_protocol [where scenes = "[]" and started = True and created = True and passes = sample_passes]
  have "\<exists>pass \<in> set sample_passes. \<exists>event \<in> set (pass_events pass). closes event" by (simp add: sample_passes_def closes_def)
  then obtain result calls where demo: "observer_demo True True sample_passes = Some (result, calls)"
    using protocol [THEN conjunct2, THEN conjunct1] by fastforce
  with protocol [THEN conjunct1] have "gl_run gl_down calls = Some gl_down" "result \<noteq> None" by blast+
  then show ?thesis using demo by blast
qed

end
