(* ===== verification/Socket_Runtime.thy ===== *)
theory Socket_Runtime
  imports Socket_Handle Text_Format
begin

text \<open>
  The rest of \<^verbatim>\<open>transport/socket_handle.cpp\<close>: the text of the last error and the object that starts the
  socket library, on both platforms that the code is compiled for. The result of the start-up, the code of the
  last error and the message of its POSIX category come from the platform.
\<close>

section \<open>Errors\<close>

datatype socket_platform = posix | winsock

definition std_to_string :: "int \<Rightarrow> string" where
  "std_to_string n = (if n < 0 then ''-'' @ decimal (nat (- n)) else decimal (nat n))"

definition last_socket_error :: "socket_platform \<Rightarrow> (int \<Rightarrow> string) \<Rightarrow> int \<Rightarrow> SocketError" where
  "last_socket_error platform category_message code =
     \<lparr>socket_error_code = code,
      socket_error_message =
        (case platform of winsock \<Rightarrow> ''Winsock error '' @ std_to_string code | posix \<Rightarrow> category_message code)\<rparr>"

section \<open>The runtime\<close>

text \<open>\<open>runtime_running\<close> counts the successful starts that have no clean-up yet, \<open>runtime_starts\<close> the calls that start.\<close>

record socket_library =
  runtime_running :: nat
  runtime_starts :: nat

record SocketRuntime =
  runtime_initialized :: bool

definition SocketRuntime_construct ::
  "socket_platform \<Rightarrow> int \<Rightarrow> socket_library \<Rightarrow> (string + SocketRuntime) \<times> socket_library" where
  "SocketRuntime_construct platform startup_result l =
     (case platform of
        posix \<Rightarrow> (Inr \<lparr>runtime_initialized = True\<rparr>, l)
      | winsock \<Rightarrow>
          if startup_result \<noteq> 0
          then (Inl (''WSAStartup failed: '' @ std_to_string startup_result), l\<lparr>runtime_starts := runtime_starts l + 1\<rparr>)
          else (Inr \<lparr>runtime_initialized = True\<rparr>,
                l\<lparr>runtime_running := runtime_running l + 1, runtime_starts := runtime_starts l + 1\<rparr>))"

definition SocketRuntime_destroy :: "socket_platform \<Rightarrow> SocketRuntime \<Rightarrow> socket_library \<Rightarrow> socket_library" where
  "SocketRuntime_destroy platform runtime l =
     (case platform of
        posix \<Rightarrow> l
      | winsock \<Rightarrow> if runtime_initialized runtime then l\<lparr>runtime_running := runtime_running l - 1\<rparr> else l)"

text \<open>
  The function's static object: the first call makes it, and one that throws leaves it unmade, so that
  the call after it tries again.
\<close>

definition ensure_socket_runtime ::
  "socket_platform \<Rightarrow> int \<Rightarrow> SocketRuntime option \<Rightarrow> socket_library \<Rightarrow> string option \<times> SocketRuntime option \<times> socket_library" where
  "ensure_socket_runtime platform startup_result runtime l =
     (case runtime of
        Some made \<Rightarrow> (None, Some made, l)
      | None \<Rightarrow>
          (case SocketRuntime_construct platform startup_result l of
             (Inl what, l') \<Rightarrow> (Some what, None, l')
           | (Inr made, l') \<Rightarrow> (None, Some made, l')))"

text \<open>The calls of a program, each with what the start-up would return; the failures are those that threw.\<close>

fun ensure_calls ::
  "socket_platform \<Rightarrow> int list \<Rightarrow> SocketRuntime option \<Rightarrow> socket_library \<Rightarrow> string list \<times> SocketRuntime option \<times> socket_library" where
  "ensure_calls platform [] runtime l = ([], runtime, l)"
| "ensure_calls platform (startup_result # results) runtime l =
     (case ensure_socket_runtime platform startup_result runtime l of
        (failure, runtime', l') \<Rightarrow>
          (case ensure_calls platform results runtime' l' of
             (failures, made, l'') \<Rightarrow> ((case failure of None \<Rightarrow> failures | Some what \<Rightarrow> what # failures), made, l'')))"

section \<open>The library is started once\<close>

lemma ensure_calls_made [simp]: "ensure_calls platform results (Some made) l = ([], Some made, l)"
  by (induction results) (simp_all add: ensure_socket_runtime_def)

lemma ensure_calls_posix: "results \<noteq> [] \<Longrightarrow> ensure_calls posix results None l = ([], Some \<lparr>runtime_initialized = True\<rparr>, l)"
  by (cases results) (simp_all add: ensure_socket_runtime_def SocketRuntime_construct_def)

text \<open>
  On Winsock the calls up to the first start that succeeds throw, and no later call starts the library again;
  its clean-up at the end of the process balances the one start.
\<close>

lemma ensure_calls_winsock:
  "ensure_calls winsock results None l =
     (let failed = takeWhile (\<lambda>result. result \<noteq> 0) results
      in (map (\<lambda>result. ''WSAStartup failed: '' @ std_to_string result) failed,
          if failed = results then None else Some \<lparr>runtime_initialized = True\<rparr>,
          l\<lparr>runtime_running := runtime_running l + (if failed = results then 0 else 1),
            runtime_starts := runtime_starts l + length failed + (if failed = results then 0 else 1)\<rparr>))"
proof (induction results arbitrary: l)
  case (Cons result results)
  then show ?case
    by (cases "result = 0"; cases "\<forall>x \<in> set results. x \<noteq> 0")
      (simp_all add: ensure_socket_runtime_def SocketRuntime_construct_def Let_def)
qed (simp add: Let_def)

lemma runtime_balanced:
  assumes "ensure_calls platform results None l = (failures, Some made, l')"
  shows "runtime_running (SocketRuntime_destroy platform made l') = runtime_running l"
proof (cases platform)
  case posix
  then show ?thesis using assms ensure_calls_posix [of results l]
    by (cases "results = []") (auto simp: SocketRuntime_destroy_def)
next
  case winsock
  then show ?thesis using assms
    by (auto simp: ensure_calls_winsock Let_def SocketRuntime_destroy_def split: if_splits)
qed

end
