(* ===== verification/Socket_Platforms.thy ===== *)
theory Socket_Platforms
  imports Socket_Runtime Udp_Socket
begin

text \<open>
  The two builds of the transport: what \<^verbatim>\<open>tcp.cpp\<close> and \<^verbatim>\<open>udp.cpp\<close> do between the library calls as the platform has
  them, which take an integer length and return a negative one for an error whose code is read separately, and the
  calls of \<^verbatim>\<open>Tcp_Connection\<close>. Winsock takes and returns an \<^verbatim>\<open>int\<close> of 32 bits, so the code passes at most
  \<^verbatim>\<open>INT_MAX\<close> bytes to a call.
\<close>

section \<open>Lengths and results\<close>

definition int_max :: nat where
  "int_max = 2 ^ 31 - 1"

text \<open>\<^verbatim>\<open>static_cast<int>\<close> of a \<^verbatim>\<open>std::size_t\<close>.\<close>

definition int_cast :: "nat \<Rightarrow> int" where
  "int_cast n = sint (of_nat n :: 32 word)"

definition transfer_length :: "socket_platform \<Rightarrow> nat \<Rightarrow> int" where
  "transfer_length platform remaining =
     (case platform of winsock \<Rightarrow> int_cast (min remaining int_max) | posix \<Rightarrow> int remaining)"

text \<open>\<^verbatim>\<open>WSAEINTR\<close> and \<^verbatim>\<open>EINTR\<close>.\<close>

definition interrupted_code :: "socket_platform \<Rightarrow> int" where
  "interrupted_code platform = (case platform of winsock \<Rightarrow> 10004 | posix \<Rightarrow> 4)"

definition interrupted :: "socket_platform \<Rightarrow> int \<Rightarrow> bool" where
  "interrupted platform code \<longleftrightarrow> code = interrupted_code platform"

text \<open>\<^verbatim>\<open>MSG_NOSIGNAL\<close> is a macro that a platform defines or not.\<close>

definition send_flags :: "int option \<Rightarrow> int" where
  "send_flags msg_nosignal = (case msg_nosignal of Some flag \<Rightarrow> flag | None \<Rightarrow> 0)"

definition stream_result :: "socket_platform \<Rightarrow> (int \<Rightarrow> string) \<Rightarrow> int \<Rightarrow> int \<Rightarrow> 'a \<Rightarrow> 'a call_result" where
  "stream_result platform category_message chunk code result =
     (if chunk < 0 then
        if interrupted platform code then call_interrupted
        else call_failed (last_socket_error platform category_message code)
      else call_returned result)"

section \<open>The calls of the stream\<close>

text \<open>
  The platform's \<^verbatim>\<open>send\<close> is given the bytes from its pointer on, a length and the flags; its \<^verbatim>\<open>recv\<close> a length. Both return
  a count, the code of the last error, the bytes that were put into the buffer, and the state after.
\<close>

type_synonym 'os raw_send = "'os \<Rightarrow> bytes \<Rightarrow> int \<Rightarrow> int \<Rightarrow> int \<times> int \<times> 'os"
type_synonym 'os raw_recv = "'os \<Rightarrow> int \<Rightarrow> int \<times> int \<times> bytes \<times> 'os"

definition platform_send ::
  "socket_platform \<Rightarrow> int option \<Rightarrow> (int \<Rightarrow> string) \<Rightarrow> 'os raw_send \<Rightarrow> 'os send_call" where
  "platform_send platform msg_nosignal category_message raw os bs =
     (case raw os bs (transfer_length platform (length bs)) (send_flags msg_nosignal) of
        (chunk, code, os') \<Rightarrow> (stream_result platform category_message chunk code (nat chunk), os'))"

definition platform_recv :: "socket_platform \<Rightarrow> (int \<Rightarrow> string) \<Rightarrow> 'os raw_recv \<Rightarrow> 'os recv_call" where
  "platform_recv platform category_message raw os n =
     (case raw os (transfer_length platform n) of
        (chunk, code, received, os') \<Rightarrow> (stream_result platform category_message chunk code received, os'))"

section \<open>The calls of a datagram socket\<close>

text \<open>What Winsock's \<^verbatim>\<open>sendto\<close> and \<^verbatim>\<open>recvfrom\<close> are told of the size, and the \<^verbatim>\<open>DWORD\<close> of the receive timeout.\<close>

definition datagram_length :: "socket_platform \<Rightarrow> nat \<Rightarrow> int" where
  "datagram_length platform n = (case platform of winsock \<Rightarrow> int_cast n | posix \<Rightarrow> int n)"

definition receive_timeout_dword :: "int \<Rightarrow> u32" where
  "receive_timeout_dword milliseconds = of_int milliseconds"

definition winsock_set_receive_timeout ::
  "('os \<Rightarrow> NativeSocket \<Rightarrow> u32 \<Rightarrow> SocketError option \<times> 'os) \<Rightarrow> UdpSocket \<Rightarrow> int \<Rightarrow> 'os \<Rightarrow> UdpError option \<times> 'os" where
  "winsock_set_receive_timeout call socket timeout os =
     (case call os (udp_handle socket) (receive_timeout_dword timeout) of
        (Some error, os') \<Rightarrow> (Some (last_udp_error error), os')
      | (None, os') \<Rightarrow> (None, os'))"

text \<open>The time that a receive waits, in microseconds, as the option says it; zero is for ever on both platforms.\<close>

definition receive_timeout_microseconds :: "socket_platform \<Rightarrow> int \<Rightarrow> int" where
  "receive_timeout_microseconds platform milliseconds =
     (case platform of
        winsock \<Rightarrow> int (unat (receive_timeout_dword milliseconds)) * 1000
      | posix \<Rightarrow> timeout_seconds milliseconds * 1000000 + (milliseconds - timeout_seconds milliseconds * 1000) * 1000)"

section \<open>No length is cut\<close>

lemma int_cast_exact: "n \<le> int_max \<Longrightarrow> int_cast n = int n"
proof -
  assume "n \<le> int_max"
  then have "int n < 2 ^ (32 - 1)" by (simp add: int_max_def)
  moreover have "int_cast n = signed_take_bit (32 - 1) (int n)"
    by (simp add: int_cast_def signed_of_nat)
  ultimately show ?thesis by (simp add: signed_take_bit_int_eq_self)
qed

lemma transfer_length_bounds:
  assumes "0 < n"
  shows "0 < transfer_length platform n" and "transfer_length platform n \<le> int n"
    and "platform = winsock \<Longrightarrow> transfer_length platform n \<le> int int_max"
  using assms by (cases platform; simp add: transfer_length_def int_cast_exact int_max_def)+

section \<open>From the platform's calls to the model's\<close>

text \<open>
  What the platforms promise, for lengths that the call can be given: the length is positive, at most that of the
  buffer, and on Winsock an \<^verbatim>\<open>int\<close>. A call moves between one byte and that many; or it is interrupted, which happens
  finitely often; \<^verbatim>\<open>recv\<close> returns zero only at the end of the stream.
\<close>

definition length_allowed :: "socket_platform \<Rightarrow> int \<Rightarrow> bool" where
  "length_allowed platform len \<longleftrightarrow> 0 < len \<and> (platform = winsock \<longrightarrow> len \<le> int int_max)"

definition raw_send_contract :: "socket_platform \<Rightarrow> 'os raw_send \<Rightarrow> ('os \<Rightarrow> bytes) \<Rightarrow> ('os \<Rightarrow> nat) \<Rightarrow> bool" where
  "raw_send_contract platform raw sent patience \<longleftrightarrow>
     (\<forall>os bs len flags chunk code os'. raw os bs len flags = (chunk, code, os') \<longrightarrow>
        length_allowed platform len \<longrightarrow> len \<le> int (length bs) \<longrightarrow>
        (if chunk < 0 then code = interrupted_code platform \<and> sent os' = sent os \<and> patience os' < patience os
         else 0 < chunk \<and> chunk \<le> len \<and> sent os' = sent os @ take (nat chunk) bs))"

definition raw_recv_contract :: "socket_platform \<Rightarrow> 'os raw_recv \<Rightarrow> ('os \<Rightarrow> bytes) \<Rightarrow> ('os \<Rightarrow> nat) \<Rightarrow> bool" where
  "raw_recv_contract platform raw incoming patience \<longleftrightarrow>
     (\<forall>os len chunk code received os'. raw os len = (chunk, code, received, os') \<longrightarrow> length_allowed platform len \<longrightarrow>
        (if chunk < 0 then code = interrupted_code platform \<and> incoming os' = incoming os \<and> patience os' < patience os
         else chunk \<le> len \<and> length received = nat chunk \<and> incoming os = received @ incoming os' \<and>
           (chunk = 0 \<longrightarrow> incoming os = [])))"

lemma platform_send_contract:
  assumes "raw_send_contract platform raw sent patience"
  shows "send_contract (platform_send platform flags message raw) sent patience"
  unfolding send_contract_def
proof (intro allI impI)
  fix os :: 'a and bs r os'
  assume call: "platform_send platform flags message raw os bs = (r, os')" and "bs \<noteq> []"
  let ?len = "transfer_length platform (length bs)"
  obtain chunk code s where raw: "raw os bs ?len (send_flags flags) = (chunk, code, s)" by (metis prod_cases3)
  have "length_allowed platform ?len" "?len \<le> int (length bs)"
    using \<open>bs \<noteq> []\<close> transfer_length_bounds [of "length bs" platform] by (simp_all add: length_allowed_def)
  with assms raw have promise: "if chunk < 0 then code = interrupted_code platform \<and> sent s = sent os \<and> patience s < patience os
      else 0 < chunk \<and> chunk \<le> ?len \<and> sent s = sent os @ take (nat chunk) bs"
    unfolding raw_send_contract_def by blast
  have result: "r = stream_result platform message chunk code (nat chunk)" "os' = s"
    using call raw by (simp_all add: platform_send_def)
  show "case r of call_returned n \<Rightarrow> 0 < n \<and> n \<le> length bs \<and> sent os' = sent os @ take n bs
      | call_interrupted \<Rightarrow> sent os' = sent os \<and> patience os' < patience os | call_failed e \<Rightarrow> False"
    using promise \<open>?len \<le> int (length bs)\<close>
    by (cases "chunk < 0") (auto simp: result stream_result_def interrupted_def)
qed

lemma platform_recv_contract:
  assumes "raw_recv_contract platform raw incoming patience"
  shows "recv_contract (platform_recv platform message raw) incoming patience"
  unfolding recv_contract_def
proof (intro allI impI)
  fix os :: 'a and n r os'
  assume call: "platform_recv platform message raw os n = (r, os')" and "(0 :: nat) < n"
  let ?len = "transfer_length platform n"
  obtain chunk code received s where raw: "raw os ?len = (chunk, code, received, s)" by (metis prod_cases4)
  have "length_allowed platform ?len" "?len \<le> int n"
    using \<open>0 < n\<close> transfer_length_bounds [of n platform] by (simp_all add: length_allowed_def)
  with assms raw have promise: "if chunk < 0 then code = interrupted_code platform \<and> incoming s = incoming os \<and> patience s < patience os
      else chunk \<le> ?len \<and> length received = nat chunk \<and> incoming os = received @ incoming s \<and> (chunk = 0 \<longrightarrow> incoming os = [])"
    unfolding raw_recv_contract_def by blast
  have result: "r = stream_result platform message chunk code received" "os' = s"
    using call raw by (simp_all add: platform_recv_def)
  show "case r of call_returned chunk \<Rightarrow> length chunk \<le> n \<and> incoming os = chunk @ incoming os' \<and> (chunk = [] \<longrightarrow> incoming os = [])
      | call_interrupted \<Rightarrow> incoming os' = incoming os \<and> patience os' < patience os | call_failed e \<Rightarrow> False"
    using promise \<open>?len \<le> int n\<close>
    by (cases "chunk < 0") (auto simp: result stream_result_def interrupted_def)
qed

text \<open>
  Calls that may fail: with any negative result whose code is not that of an interruption, the call has failed, and
  \<open>failed\<close> is the code of the last call that did. Nothing is said of the stream after a failure.
\<close>

definition raw_recv_may_fail ::
  "socket_platform \<Rightarrow> 'os raw_recv \<Rightarrow> ('os \<Rightarrow> bytes) \<Rightarrow> ('os \<Rightarrow> nat) \<Rightarrow> ('os \<Rightarrow> int option) \<Rightarrow> bool" where
  "raw_recv_may_fail platform raw incoming patience failed \<longleftrightarrow>
     (\<forall>os len chunk code received os'. raw os len = (chunk, code, received, os') \<longrightarrow> length_allowed platform len \<longrightarrow>
        (if chunk \<ge> 0 then chunk \<le> len \<and> length received = nat chunk \<and> incoming os = received @ incoming os' \<and>
           (chunk = 0 \<longrightarrow> incoming os = []) \<and> failed os' = failed os
         else if code = interrupted_code platform
         then incoming os' = incoming os \<and> patience os' < patience os \<and> failed os' = failed os
         else failed os' = Some code))"

lemma platform_recv_may_fail:
  assumes "raw_recv_may_fail platform raw incoming patience failed"
  shows "recv_may_fail (platform_recv platform message raw) incoming patience
    (\<lambda>os. map_option (last_socket_error platform message) (failed os))"
  unfolding recv_may_fail_def
proof (intro allI impI)
  fix os :: 'a and n r os'
  assume call: "platform_recv platform message raw os n = (r, os')" and "(0 :: nat) < n"
  let ?len = "transfer_length platform n"
  obtain chunk code received s where raw: "raw os ?len = (chunk, code, received, s)" by (metis prod_cases4)
  have "length_allowed platform ?len" "?len \<le> int n"
    using \<open>0 < n\<close> transfer_length_bounds [of n platform] by (simp_all add: length_allowed_def)
  with assms raw have promise: "if chunk \<ge> 0 then chunk \<le> ?len \<and> length received = nat chunk \<and>
        incoming os = received @ incoming s \<and> (chunk = 0 \<longrightarrow> incoming os = []) \<and> failed s = failed os
      else if code = interrupted_code platform then incoming s = incoming os \<and> patience s < patience os \<and> failed s = failed os
      else failed s = Some code"
    unfolding raw_recv_may_fail_def by blast
  have result: "r = stream_result platform message chunk code received" "os' = s"
    using call raw by (simp_all add: platform_recv_def)
  show "case r of call_returned chunk \<Rightarrow> length chunk \<le> n \<and> incoming os = chunk @ incoming os' \<and>
        (chunk = [] \<longrightarrow> incoming os = []) \<and>
        map_option (last_socket_error platform message) (failed os') = map_option (last_socket_error platform message) (failed os)
      | call_interrupted \<Rightarrow> incoming os' = incoming os \<and> patience os' < patience os \<and>
        map_option (last_socket_error platform message) (failed os') = map_option (last_socket_error platform message) (failed os)
      | call_failed e \<Rightarrow> map_option (last_socket_error platform message) (failed os') = Some e"
    using promise \<open>?len \<le> int n\<close>
    by (cases "chunk < 0") (auto simp: result stream_result_def interrupted_def split: if_splits)
qed

section \<open>Datagrams\<close>

text \<open>
  \<^verbatim>\<open>send_to_ipv4\<close> refuses what an \<^verbatim>\<open>int\<close> cannot hold before it casts, and no caller of \<^verbatim>\<open>receive\<close> asks for more than
  65507 bytes. The timeouts of both platforms are the same as long as the milliseconds fit the \<^verbatim>\<open>DWORD\<close>; a multiple
  of \<open>2^32\<close> becomes zero, which waits for ever.
\<close>

lemma datagram_length_exact: "\<not> n > 2 ^ 31 - 1 \<Longrightarrow> datagram_length platform n = int n"
  by (cases platform) (simp_all add: datagram_length_def int_cast_exact int_max_def)

lemma receive_timeouts_agree:
  assumes "0 \<le> milliseconds" and "milliseconds < 2 ^ 32"
  shows "receive_timeout_microseconds platform milliseconds = milliseconds * 1000"
proof -
  have "uint (of_int milliseconds :: u32) = milliseconds" using assms by (simp add: unsigned_of_int take_bit_int_eq_self)
  then show ?thesis
    by (cases platform) (simp_all add: receive_timeout_microseconds_def receive_timeout_dword_def timeout_split)
qed

lemma receive_timeout_wraps: "receive_timeout_microseconds winsock (k * 2 ^ 32) = 0"
proof -
  have "uint (of_int (k * 2 ^ 32) :: u32) = k * 2 ^ 32 mod 2 ^ LENGTH(32)" by (rule uint_word_of_int)
  then have "uint (of_int (k * 2 ^ 32) :: u32) = 0" by (simp del: of_int_mult)
  then have "(of_int (k * 2 ^ 32) :: u32) = 0" by (simp only: uint_0_iff)
  then show ?thesis by (simp add: receive_timeout_microseconds_def receive_timeout_dword_def)
qed

section \<open>Properties\<close>

text \<open>
  Property C28: what \<^verbatim>\<open>receive_frame\<close> does on either platform, whatever its calls of \<^verbatim>\<open>recv\<close> return, if they
  deliver the stream in order, in chunks of any size, and are interrupted finitely often: it always returns. If a call
  fails with a code other than that of an interruption, it reports the system error of that code. Otherwise the
  outcome depends on the bytes of the stream alone. If the stream ends within the four bytes of the header or
  within the announced payload it reports that the peer disconnected and nothing is left to read; if the announced
  length exceeds the caller's maximum it reports that the frame is too large and has consumed the header and nothing
  else; otherwise it returns the payload and leaves exactly the bytes that follow the frame.
\<close>

theorem tcp_receive_frame_outcomes:
  assumes "raw_recv_may_fail platform raw incoming patience failed" and "failed os = None"
  shows "\<exists>r os'. TcpConnection_receive_frame (platform_recv platform message raw) maximum_size os = Some (r, os') \<and>
    (case failed os' of
       Some code \<Rightarrow> r = Inl (system_error (last_socket_error platform message code))
     | None \<Rightarrow>
         if length (incoming os) < 4 then r = Inl disconnected \<and> incoming os' = []
         else if maximum_size < unat (read_value (incoming os) 0 :: u32)
           then r = Inl received_frame_too_large \<and> incoming os' = drop 4 (incoming os)
         else if length (incoming os) < 4 + unat (read_value (incoming os) 0 :: u32)
           then r = Inl disconnected \<and> incoming os' = []
         else r = Inr (take (unat (read_value (incoming os) 0 :: u32)) (drop 4 (incoming os))) \<and>
           incoming os' = drop (4 + unat (read_value (incoming os) 0 :: u32)) (incoming os))"
proof -
  obtain r os' where returns: "TcpConnection_receive_frame (platform_recv platform message raw) maximum_size os = Some (r, os')"
    and outcome: "received_or_failed incoming (\<lambda>os. map_option (last_socket_error platform message) (failed os))
      (frame_outcome maximum_size (incoming os)) r os'"
    using receive_frame_outcome [OF platform_recv_may_fail [OF assms(1), of message], of os maximum_size] assms(2) by auto
  show ?thesis
  proof (cases "failed os'")
    case None
    then have "(r, incoming os') = frame_outcome maximum_size (incoming os)" using outcome by (simp add: received_or_failed_def)
    then show ?thesis using returns None by (auto simp: frame_outcome_def Let_def split: if_splits)
  next
    case (Some code)
    then show ?thesis using returns outcome by (simp add: received_or_failed_def)
  qed
qed

text \<open>
  Property C29: frames survive the stream between any two builds. Whatever the platforms of the sender and of the
  receiver, with Winsock's calls limited to lengths that an \<^verbatim>\<open>int\<close> holds, and however their calls split the transfer
  and are interrupted: any sequence of payloads that fit both the 32-bit length field and the receiver's maximum is
  sent without error, the stream then carries nothing but the frames, and a receiver of that stream gets the same
  payloads in the same order and stops right behind the last frame.
\<close>

theorem frames_cross_platforms:
  assumes "raw_send_contract sender raw_send sent patience" and "raw_recv_contract receiver raw_recv incoming patience'"
    and "\<forall>data \<in> set frames. length data < 2 ^ 32 \<and> length data \<le> maximum_size"
  shows "\<exists>s' stream. send_frames (platform_send sender flags message raw_send) frames s = Some (None, s') \<and>
    sent s' = sent s @ stream \<and>
    (\<forall>r rest. incoming r = stream @ rest \<longrightarrow>
       (\<exists>r'. receive_frames (platform_recv receiver message' raw_recv) maximum_size (length frames) r =
          Some (map Inr frames, r') \<and> incoming r' = rest))"
  by (rule tcp_frames_roundtrip [OF platform_send_contract [OF assms(1)] platform_recv_contract [OF assms(2)] assms(3)])

text \<open>Two platforms for the witness, over the schedules of \<^verbatim>\<open>Tcp_Connection\<close>: Winsock sends, POSIX receives.\<close>

definition raw_scheduled_send :: "socket_platform \<Rightarrow> (nat list \<times> bytes) raw_send" where
  "raw_scheduled_send platform os bs len flags =
     (case scheduled_send os (take (nat len) bs) of
        (call_returned n, os') \<Rightarrow> (int n, 0, os')
      | (_, os') \<Rightarrow> (- 1, interrupted_code platform, os'))"

definition raw_scheduled_recv :: "socket_platform \<Rightarrow> (nat list \<times> bytes) raw_recv" where
  "raw_scheduled_recv platform os len =
     (case scheduled_recv os (nat len) of
        (call_returned received, os') \<Rightarrow> (int (length received), 0, received, os')
      | (_, os') \<Rightarrow> (- 1, interrupted_code platform, [], os'))"

lemma raw_scheduled_send_contract: "raw_send_contract platform (raw_scheduled_send platform) snd (\<lambda>os. length (fst os))"
  by (auto simp: raw_send_contract_def raw_scheduled_send_def scheduled_send_def length_allowed_def
      split: list.splits nat.splits call_result.splits prod.splits)

lemma raw_scheduled_recv_contract: "raw_recv_contract platform (raw_scheduled_recv platform) snd (\<lambda>os. length (fst os))"
  by (auto simp: raw_recv_contract_def raw_scheduled_recv_def scheduled_recv_def length_allowed_def min_def
      split: list.splits nat.splits call_result.splits prod.splits)

text \<open>A stream over such a schedule whose connection is reset (\<^verbatim>\<open>ECONNRESET\<close>) when the schedule is at its end.\<close>

definition raw_reset_recv :: "socket_platform \<Rightarrow> int \<Rightarrow> ((nat list \<times> bytes) \<times> int option) raw_recv" where
  "raw_reset_recv platform reset os len =
     (if fst (fst os) = [] then (- 1, reset, [], fst os, Some reset)
      else case raw_scheduled_recv platform (fst os) len of
        (chunk, code, received, os') \<Rightarrow> (chunk, code, received, os', snd os))"

lemma raw_reset_recv_may_fail:
  assumes "reset \<noteq> interrupted_code platform"
  shows "raw_recv_may_fail platform (raw_reset_recv platform reset) (\<lambda>os. snd (fst os)) (\<lambda>os. length (fst (fst os))) snd"
  using assms
  by (auto simp: raw_recv_may_fail_def raw_reset_recv_def raw_scheduled_recv_def scheduled_recv_def length_allowed_def min_def
      split: list.splits nat.splits call_result.splits prod.splits if_splits)

lemma raw_reset_runs:
  "map_option (snd \<circ> snd) (TcpConnection_receive_frame (platform_recv posix (\<lambda>code. ''reset'') (raw_reset_recv posix 104)) 10
     (([1, 0, 2], [0, 0, 0, 2, 7, 8, 9]), None)) = Some (Some 104)"
  "map_option (snd \<circ> snd) (TcpConnection_receive_frame (platform_recv posix (\<lambda>code. ''reset'') (raw_reset_recv posix 104)) 10
     (([1, 0, 3, 2], [0, 0, 0, 2, 7, 8, 9]), None)) = Some None"
  by code_simp+

theorem tcp_receive_frame_outcomes_witness:
  "(\<exists>os'. TcpConnection_receive_frame (platform_recv posix (\<lambda>code. ''reset'') (raw_reset_recv posix 104)) 10
      (([1, 0, 2], [0, 0, 0, 2, 7, 8, 9]), None) =
    Some (Inl (system_error (last_socket_error posix (\<lambda>code. ''reset'') 104)), os')) \<and>
   (\<exists>os'. TcpConnection_receive_frame (platform_recv posix (\<lambda>code. ''reset'') (raw_reset_recv posix 104)) 10
      (([1, 0, 3, 2], [0, 0, 0, 2, 7, 8, 9]), None) = Some (Inr [7, 8], os') \<and> snd (fst os') = [9])"
proof -
  have "(104 :: int) \<noteq> interrupted_code posix" by (simp add: interrupted_code_def)
  note contract = raw_reset_recv_may_fail [OF this]
  have len: "unat (read_value [0, 0, 0, 2, 7, 8, 9] 0 :: u32) = 2" by code_simp
  note outcome = tcp_receive_frame_outcomes [OF contract snd_conv, where message = "\<lambda>code. ''reset''" and maximum_size = 10]
  from outcome [of "([1, 0, 2], [0, 0, 0, 2, 7, 8, 9])"] raw_reset_runs(1)
  have "\<exists>os'. TcpConnection_receive_frame (platform_recv posix (\<lambda>code. ''reset'') (raw_reset_recv posix 104)) 10
      (([1, 0, 2], [0, 0, 0, 2, 7, 8, 9]), None) =
    Some (Inl (system_error (last_socket_error posix (\<lambda>code. ''reset'') 104)), os')" by fastforce
  moreover from outcome [of "([1, 0, 3, 2], [0, 0, 0, 2, 7, 8, 9])"] raw_reset_runs(2) len
  have "\<exists>os'. TcpConnection_receive_frame (platform_recv posix (\<lambda>code. ''reset'') (raw_reset_recv posix 104)) 10
      (([1, 0, 3, 2], [0, 0, 0, 2, 7, 8, 9]), None) = Some (Inr [7, 8], os') \<and> snd (fst os') = [9]" by fastforce
  ultimately show ?thesis by blast
qed

theorem frames_cross_platforms_witness:
  "\<exists>s'. send_frames (platform_send winsock None (\<lambda>code. []) (raw_scheduled_send winsock)) [[1, 2, 3], []] ([0, 2, 1], []) =
      Some (None, s') \<and>
    (\<exists>r'. receive_frames (platform_recv posix (\<lambda>code. []) (raw_scheduled_recv posix)) 3 2 ([3, 0, 5], snd s') =
       Some ([Inr [1, 2, 3], Inr []], r'))"
proof -
  let ?frames = "[[1, 2, 3], [] :: bytes]"
  have "\<forall>data \<in> set ?frames. length data < 2 ^ 32 \<and> length data \<le> 3" by simp
  from frames_cross_platforms [OF raw_scheduled_send_contract raw_scheduled_recv_contract this, of winsock None "\<lambda>code. []"
      "([0, 2, 1], [])" posix "\<lambda>code. []"]
  obtain s' where sent: "send_frames (platform_send winsock None (\<lambda>code. []) (raw_scheduled_send winsock)) ?frames ([0, 2, 1], []) =
      Some (None, s')"
    and received: "\<forall>r rest. snd r = snd s' @ rest \<longrightarrow>
      (\<exists>r'. receive_frames (platform_recv posix (\<lambda>code. []) (raw_scheduled_recv posix)) 3 (length ?frames) r =
        Some (map Inr ?frames, r') \<and> snd r' = rest)"
    by auto
  have "\<exists>r'. receive_frames (platform_recv posix (\<lambda>code. []) (raw_scheduled_recv posix)) 3 (length ?frames) ([3, 0, 5], snd s') =
      Some (map Inr ?frames, r')"
    using received [rule_format, of "([3, 0, 5], snd s')" "[]"] by auto
  moreover have "length ?frames = 2" by simp
  ultimately have "\<exists>r'. receive_frames (platform_recv posix (\<lambda>code. []) (raw_scheduled_recv posix)) 3 2 ([3, 0, 5], snd s') =
      Some ([Inr [1, 2, 3], Inr []], r')"
    by (simp only: list.map)
  with sent show ?thesis by blast
qed

end
