(* ===== verification/Udp_Benchmark.thy ===== *)
theory Udp_Benchmark
  imports Udp_Socket Command_Line "HOL-Library.Code_Target_Nat"
begin

text \<open>
  \<^verbatim>\<open>apps/benchmark/main.cpp\<close>: the options of the benchmark program and its two network commands, an echo server
  and a client that measures round trips. Elapsed time and the floating-point statistics computed from it are
  not modelled; a report keeps the integers that are printed or enter those statistics. \<open>argv\<close> holds the
  program's name first. The socket of a command is closed on every way out.
\<close>

section \<open>Options\<close>

datatype bench_exit = bench_failure | bench_success | bench_terminated

definition bench_number :: "string \<Rightarrow> u64 option" where
  "bench_number value =
     (case std_stoull value of
        None \<Rightarrow> None
      | Some (result, parsed) \<Rightarrow> if parsed = length value then Some result else None)"

fun bench_scan :: "string \<Rightarrow> string list \<Rightarrow> string option" where
  "bench_scan name (argument # value # rest) =
     (if argument = name then Some value else bench_scan name (value # rest))"
| "bench_scan name _ = None"

definition bench_option :: "string list \<Rightarrow> string \<Rightarrow> string option" where
  "bench_option argv name = bench_scan name (drop 2 argv)"

definition numeric_option :: "string list \<Rightarrow> string \<Rightarrow> u64 \<Rightarrow> u64" where
  "numeric_option argv name fallback =
     (case bench_option argv name of
        None \<Rightarrow> fallback
      | Some value \<Rightarrow> (case bench_number value of None \<Rightarrow> 0 | Some parsed \<Rightarrow> parsed))"

definition text_option :: "string list \<Rightarrow> string \<Rightarrow> string \<Rightarrow> string" where
  "text_option argv name fallback = (case bench_option argv name of None \<Rightarrow> fallback | Some value \<Rightarrow> value)"

datatype bench_report =
  report_simulation string u64 u64 | report_forwarding u64 | report_render u64 u64 | report_queue u64 u64 u64
| report_udp_server u64 u64 | report_udp_client string u64 u64 u64

section \<open>The echo server\<close>

lemma unat_next:
  fixes n m :: u64
  assumes "unat n < unat m"
  shows "unat (n + 1) = Suc (unat n)"
proof -
  have "unat m < 2 ^ LENGTH(64)" by (rule unsigned_less)
  then show ?thesis using assms by (simp add: unat_word_ariths)
qed

function udp_echo_loop ::
  "('os, 'addr) udp_calls \<Rightarrow> UdpSocket \<Rightarrow> u64 \<Rightarrow> u64 \<Rightarrow> u64 \<Rightarrow> 'os \<Rightarrow> u64 \<times> u64 \<times> 'os" where
  "udp_echo_loop sys socket packets echoed octets os =
     (if \<not> echoed < packets then (echoed, octets, os)
      else
        case UdpSocket_receive sys socket 65507 os of
          (Inl error, os') \<Rightarrow> (echoed, octets, os')
        | (Inr datagram, os') \<Rightarrow>
            let octets = octets + of_nat (length (datagram_payload datagram)) in
            (case UdpSocket_send_to_ipv4 sys socket (source_address datagram) (source_port datagram)
               (datagram_payload datagram) os' of
               (Inl error, os'') \<Rightarrow> (echoed, octets, os'')
             | (Inr sent, os'') \<Rightarrow> udp_echo_loop sys socket packets (echoed + 1) octets os''))"
  by pat_completeness auto
termination
  by (relation "measure (\<lambda>(sys, socket, packets, echoed, octets, os). unat packets - unat echoed)")
    (simp_all add: word_less_nat_alt unat_next diff_less_mono2)

declare udp_echo_loop.simps [simp del]

definition bench_udp_server ::
  "('os, 'addr) udp_calls \<Rightarrow> string list \<Rightarrow> 'os \<Rightarrow> (bench_exit \<times> bench_report option) \<times> 'os" where
  "bench_udp_server sys argv os =
     (let address = text_option argv ''--listen'' ''0.0.0.0'';
          port_value = numeric_option argv ''--port'' 0;
          packets = numeric_option argv ''--packets'' 1000;
          timeout = numeric_option argv ''--timeout-ms'' 10000
      in if port_value = 0 \<or> port_value > 65535 \<or> packets = 0 then ((bench_failure, None), os)
         else
           case UdpSocket_bind_ipv4 sys (ascii address) (ucast port_value) os of
             (Inl error, os1) \<Rightarrow> ((bench_failure, None), os1)
           | (Inr socket, os1) \<Rightarrow>
               let os2 = snd (UdpSocket_set_receive_timeout sys socket (sint timeout) os1);
                   (echoed, octets, os3) = udp_echo_loop sys socket packets 0 0 os2
               in ((if echoed = packets then bench_success else bench_failure, Some (report_udp_server echoed octets)),
                   call_close sys os3 (udp_handle socket)))"

section \<open>The client\<close>

definition stamp_payload :: "u64 \<Rightarrow> bytes \<Rightarrow> bytes" where
  "stamp_payload sequence payload =
     foldl (\<lambda>payload index. payload[index mod length payload := ucast (drop_bit (index * 8) sequence)]) payload [0..<8]"

definition udp_client_round ::
  "('os, 'addr) udp_calls \<Rightarrow> UdpSocket \<Rightarrow> bytes \<Rightarrow> u16 \<Rightarrow> bytes \<times> nat \<times> u64 \<times> 'os \<Rightarrow> u64 \<Rightarrow> bytes \<times> nat \<times> u64 \<times> 'os" where
  "udp_client_round sys socket target port = (\<lambda>(payload, received, octets, os) sequence.
     let payload = stamp_payload sequence payload in
     case UdpSocket_send_to_ipv4 sys socket target port payload os of
       (Inl error, os') \<Rightarrow> (payload, received, octets, os')
     | (Inr sent, os') \<Rightarrow>
         (case UdpSocket_receive sys socket (length payload) os' of
            (Inl error, os'') \<Rightarrow> (payload, received, octets, os'')
          | (Inr response, os'') \<Rightarrow>
              if datagram_payload response = payload
              then (payload, Suc received, octets + of_nat (length payload) * 2, os'')
              else (payload, received, octets, os'')))"

definition udp_client_loop ::
  "('os, 'addr) udp_calls \<Rightarrow> UdpSocket \<Rightarrow> bytes \<Rightarrow> u16 \<Rightarrow> u64 \<Rightarrow> bytes \<times> nat \<times> u64 \<times> 'os \<Rightarrow> bytes \<times> nat \<times> u64 \<times> 'os" where
  "udp_client_loop sys socket target port packets state =
     foldl (\<lambda>state sequence. udp_client_round sys socket target port state (of_nat sequence)) state [0..<unat packets]"

definition bench_udp_client ::
  "('os, 'addr) udp_calls \<Rightarrow> string list \<Rightarrow> 'os \<Rightarrow> (bench_exit \<times> bench_report option) \<times> 'os" where
  "bench_udp_client sys argv os =
     (let port_value = numeric_option argv ''--port'' 0;
          packets = numeric_option argv ''--packets'' 1000;
          payload_size = numeric_option argv ''--payload'' 1024;
          timeout = numeric_option argv ''--timeout-ms'' 1000
      in case bench_option argv ''--target'' of
           None \<Rightarrow> ((bench_failure, None), os)
         | Some target \<Rightarrow>
             if port_value = 0 \<or> port_value > 65535 \<or> packets = 0 \<or> payload_size = 0 \<or> payload_size > 65507
             then ((bench_failure, None), os)
             else
               case UdpSocket_bind_ipv4 sys (ascii ''0.0.0.0'') 0 os of
                 (Inl error, os1) \<Rightarrow> ((bench_failure, None), os1)
               | (Inr socket, os1) \<Rightarrow>
                   let os2 = snd (UdpSocket_set_receive_timeout sys socket (sint timeout) os1);
                       (payload, latencies, octets, os3) = udp_client_loop sys socket (ascii target) (ucast port_value) packets
                         (replicate (unat payload_size) 0xA5, 0, 0, os2);
                       received = of_nat latencies :: u64
                   in ((if received > 0 then bench_success else bench_failure,
                        Some (report_udp_client target packets received octets)),
                       call_close sys os3 (udp_handle socket)))"

section \<open>The server echoes\<close>

text \<open>
  A socket whose timeout is in force, so that a receive which finds no datagram fails, and that cuts a datagram at the
  size of the buffer; a library that turns an address into text that it reads back as the same address, and a network that takes
  every datagram.
\<close>

definition udp_timed_contract ::
  "('os, 'addr) udp_calls \<Rightarrow> ('os \<Rightarrow> (bytes \<times> 'addr \<times> u16) list) \<Rightarrow> bool" where
  "udp_timed_contract sys pending \<longleftrightarrow>
     (\<forall>os h n r os'. call_recvfrom sys os h n = (r, os') \<longrightarrow>
        (case pending os of
           [] \<Rightarrow> (\<exists>e. r = Inl e) \<and> pending os' = []
         | (data, src) # rest \<Rightarrow> r = Inr (take n data, src) \<and> pending os' = rest))"

definition address_contract :: "('os, 'addr) udp_calls \<Rightarrow> bool" where
  "address_contract sys \<longleftrightarrow> (\<forall>a. \<exists>t. call_inet_ntop sys a = Inr t \<and> call_inet_pton sys t = Some a)"

definition delivering :: "('os, 'addr) udp_calls \<Rightarrow> bool" where
  "delivering sys \<longleftrightarrow> (\<forall>os h data target. \<exists>n os'. call_sendto sys os h data target = (Inr n, os'))"

lemma receive_pending:
  assumes "udp_timed_contract sys pending" and "address_contract sys" and "pending os = (data, addr, port) # rest"
  shows "\<exists>t os'. UdpSocket_receive sys socket n os =
      (Inr \<lparr>source_address = t, source_port = port, datagram_payload = take n data\<rparr>, os') \<and>
    call_inet_pton sys t = Some addr \<and> pending os' = rest"
proof -
  obtain r os' where call: "call_recvfrom sys os (udp_handle socket) n = (r, os')" by fastforce
  then have "r = Inr (take n data, addr, port) \<and> pending os' = rest"
    using assms(1,3) unfolding udp_timed_contract_def by fastforce
  moreover obtain t where "call_inet_ntop sys addr = Inr t" "call_inet_pton sys t = Some addr"
    using assms(2) unfolding address_contract_def by blast
  ultimately show ?thesis using call by (simp add: UdpSocket_receive_def)
qed

lemma receive_none:
  assumes "udp_timed_contract sys pending" and "pending os = []"
  shows "\<exists>e os'. UdpSocket_receive sys socket n os = (Inl e, os')"
proof -
  obtain r os' where call: "call_recvfrom sys os (udp_handle socket) n = (r, os')" by fastforce
  then obtain e where "r = Inl e" using assms unfolding udp_timed_contract_def by fastforce
  then show ?thesis using call by (simp add: UdpSocket_receive_def)
qed

lemma receive_sent:
  assumes "udp_sent_contract sys sent" and "UdpSocket_receive sys socket n os = (r, os')"
  shows "sent os' = sent os"
proof -
  have "sent (snd (call_recvfrom sys os (udp_handle socket) n)) = sent os"
    using assms(1) unfolding udp_sent_contract_def by blast
  then show ?thesis
    using assms(2) by (auto simp: UdpSocket_receive_def split: sum.splits prod.splits)
qed

lemma send_delivered:
  assumes "delivering sys" and "call_inet_pton sys t = Some addr" and "length data \<le> 2 ^ 31 - 1"
  shows "\<exists>m os'. UdpSocket_send_to_ipv4 sys socket t port data os = (Inr m, os') \<and>
    call_sendto sys os (udp_handle socket) data (addr, port) = (Inr m, os')"
proof -
  obtain m os' where call: "call_sendto sys os (udp_handle socket) data (addr, port) = (Inr m, os')"
    using assms(1) unfolding delivering_def by blast
  then show ?thesis using assms(2,3) by (simp add: UdpSocket_send_to_ipv4_def udp_endpoint_def)
qed

definition echoes :: "(bytes \<times> 'addr \<times> u16) list \<Rightarrow> (bytes \<times> 'addr \<times> u16) list" where
  "echoes inbox = map (\<lambda>(data, src). (take 65507 data, src)) inbox"

lemma udp_echo_loop_echoes:
  assumes contracts: "udp_timed_contract sys pending" "address_contract sys" "delivering sys" "udp_sent_contract sys sent"
      "pending_contract sys pending"
    and "unat echoed \<le> unat packets"
  shows "\<exists>octets' os'. udp_echo_loop sys socket packets echoed octets os =
      (echoed + of_nat (min (unat packets - unat echoed) (length (pending os))), octets', os') \<and>
    sent os' = sent os @ echoes (take (unat packets - unat echoed) (pending os))"
  using assms(6)
proof (induction "pending os" arbitrary: echoed octets os)
  case Nil
  obtain e os' where receive: "UdpSocket_receive sys socket 65507 os = (Inl e, os')"
    using receive_none [OF contracts(1) Nil.hyps [symmetric]] by blast
  then show ?case
    using receive_sent [OF contracts(4) receive] Nil.hyps
    by (simp add: udp_echo_loop.simps [of sys socket packets echoed octets os] echoes_def)
next
  case (Cons d rest)
  show ?case
  proof (cases "unat echoed < unat packets")
    case True
    obtain data addr port where d: "d = (data, addr, port)" by (cases d)
    obtain t os1 where receive: "UdpSocket_receive sys socket 65507 os =
        (Inr \<lparr>source_address = t, source_port = port, datagram_payload = take 65507 data\<rparr>, os1)"
      and t: "call_inet_pton sys t = Some addr" and rest: "pending os1 = rest"
      using receive_pending [OF contracts(1,2)] Cons.hyps(2) d by metis
    have short: "length (take 65507 data) \<le> 2 ^ 31 - 1" by simp
    obtain m os2 where send: "UdpSocket_send_to_ipv4 sys socket t port (take 65507 data) os1 = (Inr m, os2)"
      and call: "call_sendto sys os1 (udp_handle socket) (take 65507 data) (addr, port) = (Inr m, os2)"
      using send_delivered [OF contracts(3) t short] by blast
    have kept: "pending os2 = rest" using pending_kept(2) [OF contracts(5) send] rest by simp
    have "sent os2 = sent os1 @ [(take 65507 data, addr, port)]"
      using contracts(4) call unfolding udp_sent_contract_def by fastforce
    then have sent: "sent os2 = sent os @ [(take 65507 data, addr, port)]"
      using receive_sent [OF contracts(4) receive] by simp
    have after: "unat (echoed + 1) = Suc (unat echoed)" by (rule unat_next [OF True])
    define more where "more = unat packets - Suc (unat echoed)"
    have left: "unat packets - unat echoed = Suc more" using True by (simp add: more_def)
    have step: "udp_echo_loop sys socket packets echoed octets os =
        udp_echo_loop sys socket packets (echoed + 1) (octets + of_nat (length (take 65507 data))) os2"
      using True by (simp add: udp_echo_loop.simps [of sys socket packets echoed octets os] receive send word_less_nat_alt)
    have "\<exists>octets' os'. udp_echo_loop sys socket packets (echoed + 1) (octets + of_nat (length (take 65507 data))) os2 =
        (echoed + 1 + of_nat (min more (length rest)), octets', os') \<and> sent os' = sent os2 @ echoes (take more rest)"
      using Cons.hyps(1) [OF kept [symmetric], of "echoed + 1" "octets + of_nat (length (take 65507 data))"] True after kept
      by (simp add: more_def)
    then show ?thesis
      unfolding step left using sent Cons.hyps(2) [symmetric] d by (auto simp: echoes_def algebra_simps)
  next
    case False
    then show ?thesis
      using Cons.prems by (simp add: udp_echo_loop.simps [of sys socket packets echoed octets os] word_less_nat_alt echoes_def)
  qed
qed

text \<open>What socket, bind, setsockopt and close leave alone.\<close>

definition setup_contract :: "('os, 'addr) udp_calls \<Rightarrow> ('os \<Rightarrow> 'v) \<Rightarrow> bool" where
  "setup_contract sys f \<longleftrightarrow>
     (\<forall>os. f (snd (call_socket sys os)) = f os) \<and>
     (\<forall>os h target. f (snd (call_bind sys os h target)) = f os) \<and>
     (\<forall>os h opt. f (snd (call_setsockopt sys os h opt)) = f os) \<and>
     (\<forall>os h. f (call_close sys os h) = f os)"

lemma setup_kept:
  assumes "setup_contract sys f"
  shows "UdpSocket_bind_ipv4 sys address port os = (Inr socket, os') \<Longrightarrow> f os' = f os"
    and "f (snd (UdpSocket_set_receive_timeout sys s timeout os)) = f os"
    and "f (call_close sys os h) = f os"
proof -
  note c = assms [unfolded setup_contract_def]
  note c1 = c [THEN conjunct2] note c2 = c1 [THEN conjunct2]
  have calls: "call_socket sys os = (r, os') \<Longrightarrow> f os' = f os" "call_bind sys os h target = (b, os') \<Longrightarrow> f os' = f os"
    "call_setsockopt sys os h opt = (b, os') \<Longrightarrow> f os' = f os" for os os' r b h target opt
    using c [THEN conjunct1, rule_format, of os] c1 [THEN conjunct1, rule_format, of os h target]
      c2 [THEN conjunct1, rule_format, of os h opt] by simp_all
  show "UdpSocket_bind_ipv4 sys address port os = (Inr socket, os') \<Longrightarrow> f os' = f os"
    using calls by (auto simp: UdpSocket_bind_ipv4_def split: sum.splits prod.splits option.splits)
  show "f (snd (UdpSocket_set_receive_timeout sys s timeout os)) = f os"
    using calls by (auto simp: UdpSocket_set_receive_timeout_def Let_def split: prod.splits option.splits)
  show "f (call_close sys os h) = f os" by (rule c2 [THEN conjunct2, rule_format])
qed

section \<open>The client counts replies\<close>

text \<open>A network in which every datagram that is sent comes back to the sender.\<close>

definition echo_network :: "('os, 'addr) udp_calls \<Rightarrow> ('os \<Rightarrow> (bytes \<times> 'addr \<times> u16) list) \<Rightarrow> bool" where
  "echo_network sys pending \<longleftrightarrow>
     (\<forall>os h data target. \<exists>n os'. call_sendto sys os h data target = (Inr n, os') \<and> pending os' = pending os @ [(data, target)])"

lemma length_stamp [simp]: "length (stamp_payload sequence payload) = length payload"
  by (simp add: stamp_payload_def upt_conv_Cons)

text \<open>The stamp is the number itself once the payload has room for it, so that two rounds differ.\<close>

lemma stamp_low_octet:
  assumes "8 \<le> length payload"
  shows "stamp_payload sequence payload ! 0 = ucast sequence"
proof -
  have "0 < length payload" using assms by (rule less_le_trans [rotated]) simp
  then have "payload[0 := ucast sequence] ! 0 = ucast sequence" by (rule nth_list_update_eq)
  then show ?thesis using assms by (simp add: stamp_payload_def upt_conv_Cons)
qed

lemma stamps_differ:
  assumes "8 \<le> length payload"
  shows "stamp_payload (sequence + 1) (stamp_payload sequence payload) \<noteq> stamp_payload sequence payload"
proof
  assume eq: "stamp_payload (sequence + 1) (stamp_payload sequence payload) = stamp_payload sequence payload"
  have "stamp_payload (sequence + 1) (stamp_payload sequence payload) ! 0 = ucast (sequence + 1)"
    by (rule stamp_low_octet) (simp add: assms)
  moreover have "stamp_payload sequence payload ! 0 = ucast sequence" by (rule stamp_low_octet [OF assms])
  ultimately have "ucast (sequence + 1) = (ucast sequence :: u8)" using eq by simp
  then have "bit (ucast (sequence + 1) :: u8) 0 = bit (ucast sequence :: u8) 0" by simp
  then show False by (simp only: bit_ucast_iff) (simp add: bit_0)
qed

lemma client_round:
  assumes "echo_network sys pending" and "udp_timed_contract sys pending" and "address_contract sys"
    and "call_inet_pton sys target = Some addr" and "length payload \<le> 65507"
    and "pending os = (data, src) # rest \<or> pending os = [] \<and> data = stamp_payload sequence payload \<and> rest = []"
  shows "\<exists>os'. udp_client_round sys socket target port (payload, received, octets, os) sequence =
      (stamp_payload sequence payload,
       if take (length payload) data = stamp_payload sequence payload then Suc received else received,
       if take (length payload) data = stamp_payload sequence payload then octets + of_nat (length payload) * 2 else octets, os') \<and>
    pending os' = (if pending os = [] then [] else rest @ [(stamp_payload sequence payload, addr, port)])"
proof -
  let ?p = "stamp_payload sequence payload"
  obtain n os1 where "call_sendto sys os (udp_handle socket) ?p (addr, port) = (Inr n, os1)"
      and after: "pending os1 = pending os @ [(?p, addr, port)]"
    using assms(1) unfolding echo_network_def by blast
  then have send: "UdpSocket_send_to_ipv4 sys socket target port ?p os = (Inr n, os1)"
    using assms(4,5) by (simp add: UdpSocket_send_to_ipv4_def udp_endpoint_def)
  let ?rest = "if pending os = [] then [] else rest @ [(?p, addr, port)]"
  obtain addr' port' where "pending os1 = (data, addr', port') # ?rest"
    using after assms(6) by (cases src) auto
  from receive_pending [where pending = pending and os = os1, OF assms(2,3) this, of socket "length payload"]
  obtain t os2 where "UdpSocket_receive sys socket (length payload) os1 =
      (Inr \<lparr>source_address = t, source_port = port', datagram_payload = take (length payload) data\<rparr>, os2)"
    and "pending os2 = ?rest" by blast
  then show ?thesis using send by (simp add: udp_client_round_def Let_def)
qed

definition client_rounds ::
  "('os, 'addr) udp_calls \<Rightarrow> UdpSocket \<Rightarrow> bytes \<Rightarrow> u16 \<Rightarrow> nat list \<Rightarrow> bytes \<times> nat \<times> u64 \<times> 'os \<Rightarrow> bytes \<times> nat \<times> u64 \<times> 'os" where
  "client_rounds sys socket target port sequences state =
     foldl (\<lambda>state sequence. udp_client_round sys socket target port state (of_nat sequence)) state sequences"

lemma client_rounds_snoc:
  "client_rounds sys socket target port (sequences @ [n]) state =
   udp_client_round sys socket target port (client_rounds sys socket target port sequences state) (of_nat n)"
  by (simp add: client_rounds_def)

text \<open>Replies that come in time are all counted.\<close>

lemma client_rounds_prompt:
  assumes net: "echo_network sys pending" "udp_timed_contract sys pending" "address_contract sys"
    and target: "call_inet_pton sys target = Some addr" and len: "length payload \<le> 65507" and inbox: "pending os = []"
  shows "\<exists>payload' os'. client_rounds sys socket target port [0..<n] (payload, received, octets, os) =
      (payload', received + n, octets + of_nat (n * (2 * length payload)), os') \<and>
    length payload' = length payload \<and> pending os' = []"
proof (induction n)
  case 0
  then show ?case using inbox by (simp add: client_rounds_def)
next
  case (Suc n)
  then obtain payload' os' where ih: "client_rounds sys socket target port [0..<n] (payload, received, octets, os) =
      (payload', received + n, octets + of_nat (n * (2 * length payload)), os')"
    "length payload' = length payload" "pending os' = []" by blast
  have "[0..<Suc n] = [0..<n] @ [n]" by simp
  then show ?case
    using client_round [OF net target, of payload' os' "stamp_payload (of_nat n) payload'" undefined "[]" "of_nat n" socket port
        "received + n" "octets + of_nat (n * (2 * length payload))"] ih len
    by (auto simp: client_rounds_snoc algebra_simps simp del: upt_Suc)
qed

text \<open>After one late reply, every round reads the reply of the round before it.\<close>

lemma client_rounds_late:
  assumes net: "echo_network sys pending" "udp_timed_contract sys pending" "address_contract sys"
    and target: "call_inet_pton sys target = Some addr" and len: "8 \<le> length p0" "length p0 \<le> 65507"
    and payload: "payload = stamp_payload (of_nat k - 1) p0" and inbox: "pending os = [(payload, src)]"
  shows "\<exists>q os' src'. client_rounds sys socket target port [k..<k + m] (payload, received, octets, os) =
      (stamp_payload (of_nat (k + m) - 1) q, received, octets, os') \<and>
    length q = length p0 \<and> pending os' = [(stamp_payload (of_nat (k + m) - 1) q, src')]"
proof (induction m)
  case 0
  then show ?case using inbox payload by (auto simp: client_rounds_def intro!: exI [of _ p0])
next
  case (Suc m)
  then obtain q os' src' where ih: "client_rounds sys socket target port [k..<k + m] (payload, received, octets, os) =
      (stamp_payload (of_nat (k + m) - 1) q, received, octets, os')"
    "length q = length p0" "pending os' = [(stamp_payload (of_nat (k + m) - 1) q, src')]" by blast
  let ?p = "stamp_payload (of_nat (k + m) - 1) q"
  have "stamp_payload (of_nat (k + m)) ?p \<noteq> ?p"
    using stamps_differ [of q "of_nat (k + m) - 1"] len ih(2) by simp
  moreover have "[k..<k + Suc m] = [k..<k + m] @ [k + m]" by simp
  ultimately show ?case
    using client_round [OF net target, of ?p os' ?p src' "[]" "of_nat (k + m)" socket port received octets] ih len
    by (auto simp: client_rounds_snoc simp del: upt_Suc intro!: exI [of _ ?p])
qed

section \<open>Properties\<close>

text \<open>
  The echo server echoes. When every datagram is taken and addresses read back as they are
  printed, the server sends the first datagrams of its inbox, as many as it was asked for, back to where each
  came from, in order and with their first 65507 bytes; it reports that number and succeeds exactly if the inbox
  held as many.
\<close>

lemma udp_server_echoes:
  assumes "udp_timed_contract sys pending" and "address_contract sys" and "delivering sys" and "udp_sent_contract sys sent"
    and "pending_contract sys pending" and "setup_contract sys sent"
    and "0 < numeric_option argv ''--port'' 0" and "numeric_option argv ''--port'' 0 \<le> 65535"
    and "packets = numeric_option argv ''--packets'' 1000" and "packets \<noteq> 0"
    and "UdpSocket_bind_ipv4 sys (ascii (text_option argv ''--listen'' ''0.0.0.0'')) (ucast (numeric_option argv ''--port'' 0)) os =
      (Inr socket, os1)"
  shows "\<exists>octets os'. bench_udp_server sys argv os =
      ((if unat packets \<le> length (pending os) then bench_success else bench_failure,
        Some (report_udp_server (of_nat (min (unat packets) (length (pending os)))) octets)), os') \<and>
    sent os' = sent os @ echoes (take (unat packets) (pending os))"
proof -
  let ?os2 = "snd (UdpSocket_set_receive_timeout sys socket (sint (numeric_option argv ''--timeout-ms'' 10000)) os1)"
  have os2: "pending ?os2 = pending os" "sent ?os2 = sent os"
    using pending_kept [OF assms(5)] setup_kept [OF assms(6)] assms(11) by simp_all
  obtain octets os3 where loop: "udp_echo_loop sys socket packets 0 0 ?os2 =
      (of_nat (min (unat packets) (length (pending os))), octets, os3)"
    and sent: "sent os3 = sent os @ echoes (take (unat packets) (pending os))"
    using udp_echo_loop_echoes [OF assms(1-5), of 0 packets socket 0 ?os2] os2 by auto
  have "of_nat (min (unat packets) n) = packets \<longleftrightarrow> unat packets \<le> n" for n
  proof (cases "unat packets \<le> n")
    case False
    have "unat packets < 2 ^ LENGTH(64)" by (rule unsigned_less)
    then have "unat (of_nat n :: u64) = n" using False by (simp add: unat_of_nat)
    then show ?thesis using False by auto
  qed simp
  moreover have "numeric_option argv ''--port'' 0 \<noteq> 0" "\<not> 65535 < numeric_option argv ''--port'' 0"
    using assms(7,8) by auto
  ultimately show ?thesis
    using assms(9-11) loop sent setup_kept(3) [OF assms(6)] by (simp add: bench_udp_server_def)
qed

text \<open>A machine with an inbox and an outbox; with \<open>loop\<close>, what it sends comes back.\<close>

type_synonym bench_os = "(bytes \<times> u8 \<times> u16) list \<times> (bytes \<times> u8 \<times> u16) list"

definition bench_calls :: "bool \<Rightarrow> (bench_os, u8) udp_calls" where
  "bench_calls loop =
     \<lparr>call_inet_pton = (\<lambda>bs. case bs of [a] \<Rightarrow> Some a | _ \<Rightarrow> Some 0),
      call_inet_ntop = (\<lambda>a. Inr [a]),
      call_socket = (\<lambda>os. (Inr 3, os)),
      call_bind = (\<lambda>os h target. (None, os)),
      call_sendto = (\<lambda>os h data target. (Inr (length data),
        if loop then (fst os @ [(data, target)], snd os) else (fst os, snd os @ [(data, target)]))),
      call_recvfrom = (\<lambda>os h n. case fst os of [] \<Rightarrow> (Inl \<lparr>socket_error_code = 11, socket_error_message = ''timeout''\<rparr>, os)
        | (data, src) # rest \<Rightarrow> (Inr (take n data, src), rest, snd os)),
      call_getsockname = (\<lambda>os h. Some (0, 9)),
      call_setsockopt = (\<lambda>os h opt. (None, os)),
      call_close = (\<lambda>os h. os)\<rparr>"

lemma bench_contracts:
  "udp_timed_contract (bench_calls loop) fst" "address_contract (bench_calls loop)" "delivering (bench_calls loop)"
  "udp_sent_contract (bench_calls False) snd" "pending_contract (bench_calls False) fst"
  "setup_contract (bench_calls loop) fst" "setup_contract (bench_calls loop) snd" "echo_network (bench_calls True) fst"
  by (auto simp: udp_timed_contract_def address_contract_def delivering_def udp_sent_contract_def pending_contract_def
      setup_contract_def echo_network_def bench_calls_def split: list.splits)

lemma bench_bind: "UdpSocket_bind_ipv4 (bench_calls loop) (ascii address) port os = (Inr \<lparr>udp_handle = 3\<rparr>, os)"
  by (simp add: UdpSocket_bind_ipv4_def udp_endpoint_def bench_calls_def split: list.split)

lemma udp_server_echoes_witness:
  "\<exists>octets os'. bench_udp_server (bench_calls False) [''benchmark'', ''udp-server'', ''--port'', ''9'', ''--packets'', ''1'']
     ([([7], 4, 80), ([8], 5, 80)], []) = ((bench_success, Some (report_udp_server 1 octets)), os') \<and> snd os' = [([7], 4, 80)]"
proof -
  let ?argv = "[''benchmark'', ''udp-server'', ''--port'', ''9'', ''--packets'', ''1'']"
  have options: "numeric_option ?argv ''--port'' 0 = 9" "numeric_option ?argv ''--packets'' 1000 = 1" by code_simp+
  show ?thesis
    using udp_server_echoes [where sys = "bench_calls False" and pending = fst and sent = snd and argv = ?argv and packets = 1
        and os = "([([7], 4, 80), ([8], 5, 80)], [])", OF bench_contracts(1-5,7)] options
    by (simp add: bench_bind echoes_def)
qed

text \<open>
  The client's measurement over a network that loses nothing. When every datagram comes back in
  time, the client succeeds and reports every packet as answered.
\<close>

lemma udp_client_lossless:
  assumes "echo_network sys pending" and "udp_timed_contract sys pending" and "address_contract sys"
    and "setup_contract sys pending" and "pending os = []"
    and "bench_option argv ''--target'' = Some target" and "call_inet_pton sys (ascii target) = Some addr"
    and "0 < numeric_option argv ''--port'' 0" and "numeric_option argv ''--port'' 0 \<le> 65535"
    and "packets = numeric_option argv ''--packets'' 1000" and "packets \<noteq> 0"
    and "octets = numeric_option argv ''--payload'' 1024" and "octets \<noteq> 0" and "octets \<le> 65507"
    and "UdpSocket_bind_ipv4 sys (ascii ''0.0.0.0'') 0 os = (Inr socket, os1)"
  shows "\<exists>os'. bench_udp_client sys argv os =
      ((bench_success, Some (report_udp_client target packets packets (packets * (2 * octets)))), os')"
proof -
  let ?os2 = "snd (UdpSocket_set_receive_timeout sys socket (sint (numeric_option argv ''--timeout-ms'' 1000)) os1)"
  have os2: "pending ?os2 = []" using setup_kept [OF assms(4)] assms(5,15) by simp
  have len: "length (replicate (unat octets) (0xA5 :: u8)) \<le> 65507" using assms(14) by (simp add: word_le_nat_alt)
  let ?sent = "replicate (unat octets) (0xA5 :: u8)" and ?port = "ucast (numeric_option argv ''--port'' 0) :: u16"
  obtain payload' os3 where rounds: "client_rounds sys socket (ascii target) ?port [0..<unat packets] (?sent, 0, 0, ?os2) =
      (payload', 0 + unat packets, 0 + of_nat (unat packets * (2 * length ?sent)), os3)"
    using client_rounds_prompt [where pending = pending and os = ?os2, OF assms(1-3,7) len os2, of socket ?port "unat packets" 0 0] by blast
  have count: "0 + of_nat (unat packets * (2 * length ?sent)) = packets * (2 * octets)" by simp
  have loop: "udp_client_loop sys socket (ascii target) ?port packets (?sent, 0, 0, ?os2) =
      (payload', unat packets, packets * (2 * octets), os3)"
    using rounds unfolding count by (simp only: udp_client_loop_def client_rounds_def add_0)
  have options: "numeric_option argv ''--port'' 0 \<noteq> 0" "\<not> 65535 < numeric_option argv ''--port'' 0"
      "\<not> 65507 < octets" "0 < packets"
    using assms(8,9,11,14) by (auto simp: word_neq_0_conv)
  show ?thesis
    unfolding bench_udp_client_def Let_def assms(6,15) option.case prod.case sum.case
    using options assms(11,13) loop by (simp flip: assms(10,12))
qed

lemma udp_client_lossless_witness:
  "\<exists>os'. bench_udp_client (bench_calls True)
     [''benchmark'', ''udp-client'', ''--target'', ''4'', ''--port'', ''9'', ''--packets'', ''3'', ''--payload'', ''16''] ([], []) =
     ((bench_success, Some (report_udp_client ''4'' 3 3 96)), os')"
proof -
  let ?argv = "[''benchmark'', ''udp-client'', ''--target'', ''4'', ''--port'', ''9'', ''--packets'', ''3'', ''--payload'', ''16'']"
  have options: "numeric_option ?argv ''--port'' 0 = 9" "numeric_option ?argv ''--packets'' 1000 = 3"
    "numeric_option ?argv ''--payload'' 1024 = 16" "bench_option ?argv ''--target'' = Some ''4''" by code_simp+
  have target: "call_inet_pton (bench_calls True) (ascii ''4'') = Some 52" by (simp add: bench_calls_def ascii_def)
  show ?thesis
    using udp_client_lossless [where pending = fst and os = "([], [])", OF bench_contracts(8,1,2,6) _ options(4) target]
      options by (simp add: bench_bind)
qed

text \<open>
  A reply that comes after the client has given up on it is read in the next round, whose own reply is then read
  in the round after: from then on no packet is counted, although every one is answered.
\<close>

lemma late_reply_stops_count:
  assumes "echo_network sys pending" and "udp_timed_contract sys pending" and "address_contract sys"
    and "call_inet_pton sys target = Some addr" and "8 \<le> length p0" and "length p0 \<le> 65507"
    and "payload = stamp_payload (of_nat k - 1) p0" and "pending os = [(payload, src)]" and "k \<le> n"
  shows "\<exists>payload' octets' os'. client_rounds sys socket target port [k..<n] (payload, received, octets, os) =
    (payload', received, octets', os')"
  using client_rounds_late [where pending = pending and os = os, OF assms(1-8), of socket port "n - k" received octets] assms(9)
  by auto

end
