(* ===== verification/Benchmark.thy ===== *)
theory Benchmark
  imports Udp_Benchmark Asic_Switching Topology_Renderer Runtime_Selection
begin

text \<open>
  \<^verbatim>\<open>apps/benchmark/main.cpp\<close>: the commands that measure the simulation, the forwarding path, the preparation
  of a frame and the queue, and the dispatch. What they measure is elapsed time, which is not modelled; what they
  do is, and so are the counts they report and their verdicts.
\<close>

section \<open>Simulation\<close>

text \<open>
  \<open>step\<close> is what a step of the selected backend shows and the backend it leaves; a failing CUDA call throws,
  nobody catches it, and the process is terminated.
\<close>

type_synonym backend_step = "SimulationBackend \<Rightarrow> u64 \<Rightarrow> (cuda_call + TopologyScene) \<times> SimulationBackend"

definition warm_up_round :: "backend_step \<Rightarrow> SimulationBackend option \<Rightarrow> u64 \<Rightarrow> SimulationBackend option" where
  "warm_up_round step state tick =
     (case state of
        None \<Rightarrow> None
      | Some backend \<Rightarrow> (case step backend tick of (Inl call, backend) \<Rightarrow> None | (Inr scene, backend) \<Rightarrow> Some backend))"

text \<open>The outer \<open>None\<close> is a run that does not end, the inner one the end of the process.\<close>

partial_function (option) simulation_rounds ::
  "backend_step \<Rightarrow> u64 \<Rightarrow> u64 \<Rightarrow> u64 \<Rightarrow> SimulationBackend \<Rightarrow> (u64 \<times> SimulationBackend) option option" where
  "simulation_rounds step iterations tick serialized_bytes backend =
     (if tick \<le> iterations then
        case step backend tick of (shown, backend') \<Rightarrow>
          (case shown of
             Inl call \<Rightarrow> Some None
           | Inr scene \<Rightarrow> simulation_rounds step iterations (tick + 1)
               (serialized_bytes + of_nat (length (TopologyScene_serialize_snapshot scene))) backend')
      else Some (Some (serialized_bytes, backend)))"

definition simulation_benchmark ::
  "cuda_build \<Rightarrow> backend_step \<Rightarrow> string list \<Rightarrow> (bench_exit \<times> bench_report option) option" where
  "simulation_benchmark build step argv =
     (let iterations = numeric_option argv ''--iterations'' 10000;
          observers = numeric_option argv ''--observers'' 3;
          mode = parse_runtime_mode (text_option argv ''--backend'' ''cpu'')
      in if iterations = 0 \<or> observers = 0 \<or> mode = None \<or> mode = Some mode_observer then Some (bench_failure, None)
         else
           case select_runtime build (the mode) \<lparr>config_observer_count = observers, config_seed = 1\<rparr> of
             Inl call \<Rightarrow> Some (bench_terminated, None)
           | Inr (Inl error) \<Rightarrow> Some (bench_failure, None)
           | Inr (Inr runtime) \<Rightarrow>
               (case foldl (warm_up_round step) (selected_backend runtime) (map of_nat [1..<21]) of
                  None \<Rightarrow> Some (bench_terminated, None)
                | Some warm \<Rightarrow>
                    (case simulation_rounds step iterations 1 0 warm of
                       None \<Rightarrow> None
                     | Some None \<Rightarrow> Some (bench_terminated, None)
                     | Some (Some (serialized_bytes, backend)) \<Rightarrow>
                         Some (bench_success, Some (report_simulation (backend_name backend) iterations serialized_bytes)))))"

section \<open>Forwarding\<close>

definition bench_port :: "u16 \<Rightarrow> PortId" where
  "bench_port value = the (PortId_create value)"

definition bench_vlan :: "u16 \<Rightarrow> VlanId" where
  "bench_vlan value = the (VlanId_create value)"

definition bench_mac :: "u8 \<Rightarrow> MacAddress" where
  "bench_mac suffix = MacAddress 0x02 0 0 0 0 suffix"

definition bench_virtual_port :: "u16 \<Rightarrow> VirtualPort" where
  "bench_virtual_port pid =
     the (VirtualPort_create (bench_port pid) (bench_mac 0xFE) gbps_10 1500 (VlanPortConfig_access (bench_vlan 10)))"

text \<open>A chain of \<^verbatim>\<open>||\<close>: the first call that fails is the last that is made.\<close>

fun bench_configure ::
  "(SoftwareAsic \<Rightarrow> AsicStatus \<times> SoftwareAsic) list \<Rightarrow> SoftwareAsic \<Rightarrow> bool \<times> SoftwareAsic" where
  "bench_configure [] device = (False, device)"
| "bench_configure (call # calls) device =
     (case call device of (status, device') \<Rightarrow>
        if status \<noteq> success then (True, device') else bench_configure calls device')"

definition bench_calls_of_device :: "(SoftwareAsic \<Rightarrow> AsicStatus \<times> SoftwareAsic) list" where
  "bench_calls_of_device =
     [SoftwareAsic_create_vlan (bench_vlan 10),
      SoftwareAsic_create_port (bench_virtual_port 1) 1,
      SoftwareAsic_create_port (bench_virtual_port 2) 1,
      SoftwareAsic_set_port_state (bench_port 1) True True,
      SoftwareAsic_set_port_state (bench_port 2) True True,
      SoftwareAsic_add_vlan_member (bench_vlan 10) (bench_port 1),
      SoftwareAsic_add_vlan_member (bench_vlan 10) (bench_port 2)]"

definition bench_learn_frame :: bytes where
  "bench_learn_frame = EthernetFrame_serialize
     (the (EthernetFrame_create (MacAddress 0xFF 0xFF 0xFF 0xFF 0xFF 0xFF) (bench_mac 2) EtherType_ipv4 [1] None))"

definition bench_frame :: "u64 \<Rightarrow> bytes" where
  "bench_frame payload_size = EthernetFrame_serialize
     (the (EthernetFrame_create (bench_mac 2) (bench_mac 1) EtherType_ipv4 (replicate (unat payload_size) 0x5A) None))"

definition bench_learn :: "SoftwareAsic \<Rightarrow> SoftwareAsic" where
  "bench_learn device =
     (let (_, device) = SoftwareAsic_process_packet (bench_port 2) bench_learn_frame 0 device
      in snd (SoftwareAsic_dequeue_packet (bench_port 1) device))"

definition forwarding_round :: "bytes \<Rightarrow> u64 \<times> SoftwareAsic \<Rightarrow> u64 \<times> SoftwareAsic" where
  "forwarding_round frame = (\<lambda>(completed, device).
     let (result, device) = SoftwareAsic_process_packet (bench_port 1) frame 0 device in
     if disposition result = switched then
       case SoftwareAsic_dequeue_packet (bench_port 2) device of
         (None, device) \<Rightarrow> (completed, device)
       | (Some packet, device) \<Rightarrow> (completed + 1, device)
     else (completed, device))"

text \<open>\<open>default_mac_capacity\<close> is the default argument of the switch's constructor.\<close>

definition default_mac_capacity :: nat where
  "default_mac_capacity = 4096"

definition forwarding_benchmark :: "string list \<Rightarrow> bench_exit \<times> bench_report option" where
  "forwarding_benchmark argv =
     (let iterations = numeric_option argv ''--iterations'' 100000;
          payload_size = numeric_option argv ''--payload'' 512
      in if iterations = 0 \<or> payload_size > 1400 then (bench_failure, None)
         else
           case bench_configure bench_calls_of_device (the (SoftwareAsic_create default_mac_capacity)) of
             (True, device) \<Rightarrow> (bench_failure, None)
           | (False, device) \<Rightarrow>
               let frame = bench_frame payload_size;
                   (completed, device) = (forwarding_round frame ^^ unat iterations) (0, bench_learn device)
               in (if completed = iterations then bench_success else bench_failure, Some (report_forwarding completed)))"

section \<open>Rendering\<close>

definition render_benchmark ::
  "(u64 \<Rightarrow> u64 \<Rightarrow> u32 \<times> u32) \<Rightarrow> vertex_colour \<Rightarrow> string list \<Rightarrow> bench_exit \<times> bench_report option" where
  "render_benchmark position colour argv =
     (let iterations = numeric_option argv ''--iterations'' 100000;
          nodes = numeric_option argv ''--nodes'' 100
      in if iterations = 0 \<or> nodes = 0 then (bench_failure, None)
         else
           let scene = CpuBackend_step position \<lparr>config_observer_count = nodes, config_seed = 1\<rparr> 1;
               vertices = ((\<lambda>vertices. let frame = TopologyRenderer_build_frame colour scene
                   in vertices + of_nat (length (frame_nodes frame) + length (frame_links frame))) ^^ unat iterations) (0 :: u64)
           in (bench_success, Some (report_render iterations vertices)))"

section \<open>Queue\<close>

text \<open>
  The queue takes memory for every number it holds. \<open>memory\<close> is how many there is room for; the
  \<^verbatim>\<open>std::bad_alloc\<close> of one more is caught nowhere and ends the process (\<open>None\<close>).
\<close>

definition enqueue_within :: "nat \<Rightarrow> u64 \<Rightarrow> u64 BoundedQueue \<Rightarrow> (QueueEnqueueResult \<times> u64 BoundedQueue) option" where
  "enqueue_within memory value queue =
     (case BoundedQueue_try_enqueue value queue of (result, queue') \<Rightarrow>
        if result = enqueued \<and> memory < length (queue_items queue') then None else Some (result, queue'))"

definition queue_round :: "nat \<Rightarrow> u64 BoundedQueue option \<Rightarrow> u64 \<Rightarrow> u64 BoundedQueue option" where
  "queue_round memory state index =
     (case state of
        None \<Rightarrow> None
      | Some queue \<Rightarrow>
          (case enqueue_within memory index queue of
             None \<Rightarrow> None
           | Some (result, queue') \<Rightarrow> Some (snd (BoundedQueue_try_dequeue queue'))))"

text \<open>
  The loop that counts the full queue; the outer \<open>None\<close> is a run that does not end, the inner one the end of
  the process.
\<close>

partial_function (option) queue_fill ::
  "nat \<Rightarrow> u64 \<Rightarrow> u64 \<Rightarrow> u64 \<Rightarrow> u64 BoundedQueue \<Rightarrow> (u64 \<times> u64 BoundedQueue) option option" where
  "queue_fill memory capacity index full_events queue =
     (if index \<le> capacity then
        (case enqueue_within memory index queue of
           None \<Rightarrow> Some None
         | Some (result, queue') \<Rightarrow>
             queue_fill memory capacity (index + 1) (if result = full then full_events + 1 else full_events) queue')
      else Some (Some (full_events, queue)))"

definition queue_benchmark :: "nat \<Rightarrow> string list \<Rightarrow> (bench_exit \<times> bench_report option) option" where
  "queue_benchmark memory argv =
     (let iterations = numeric_option argv ''--iterations'' 1000000;
          capacity = numeric_option argv ''--capacity'' 1024
      in if iterations = 0 \<or> capacity = 0 then Some (bench_failure, None)
         else
           case foldl (\<lambda>state index. queue_round memory state (of_nat index))
                  (BoundedQueue_create (unat capacity)) [0..<unat iterations] of
             None \<Rightarrow> Some (bench_terminated, None)
           | Some queue \<Rightarrow>
               (case queue_fill memory capacity 0 0 queue of
                  None \<Rightarrow> None
                | Some None \<Rightarrow> Some (bench_terminated, None)
                | Some (Some (full_events, queue)) \<Rightarrow>
                    Some (if full_events = 1 then bench_success else bench_failure,
                      Some (report_queue iterations capacity full_events))))"

section \<open>The program\<close>

record ('os, 'addr) bench_platform =
  bench_build :: cuda_build
  bench_step :: backend_step
  bench_position :: "u64 \<Rightarrow> u64 \<Rightarrow> u32 \<times> u32"
  bench_colour :: vertex_colour
  bench_udp :: "('os, 'addr) udp_calls"
  bench_memory :: nat

definition bench_main ::
  "('os, 'addr) bench_platform \<Rightarrow> string list \<Rightarrow> 'os \<Rightarrow> ((bench_exit \<times> bench_report option) \<times> 'os) option" where
  "bench_main platform argv os =
     (if length argv < 2 then Some ((bench_failure, None), os)
      else
        let command = argv ! 1 in
        if command = ''simulation'' then
          map_option (\<lambda>result. (result, os)) (simulation_benchmark (bench_build platform) (bench_step platform) argv)
        else if command = ''forwarding'' then Some (forwarding_benchmark argv, os)
        else if command = ''render'' then Some (render_benchmark (bench_position platform) (bench_colour platform) argv, os)
        else if command = ''queue'' then map_option (\<lambda>result. (result, os)) (queue_benchmark (bench_memory platform) argv)
        else if command = ''udp-server'' then Some (bench_udp_server (bench_udp platform) argv os)
        else if command = ''udp-client'' then Some (bench_udp_client (bench_udp platform) argv os)
        else Some ((bench_failure, None), os))"

section \<open>The queue's loop\<close>

lemma enqueue_within_room:
  "queue_capacity queue \<le> memory \<Longrightarrow> enqueue_within memory value queue = Some (BoundedQueue_try_enqueue value queue)"
  by (auto simp: enqueue_within_def BoundedQueue_try_enqueue_def)

lemma enqueue_capacity: "queue_capacity (snd (BoundedQueue_try_enqueue value queue)) = queue_capacity queue"
  by (simp add: BoundedQueue_try_enqueue_def)

lemma queue_fill_wraps:
  assumes "queue_fill memory capacity index full_events queue = Some result" and "queue_capacity queue \<le> memory"
  shows "capacity \<noteq> - 1"
proof -
  have "queue_capacity queue \<le> memory \<longrightarrow> capacity \<noteq> - 1"
  proof (rule queue_fill.raw_induct [OF _ assms(1)])
    fix fill :: "nat \<Rightarrow> u64 \<Rightarrow> u64 \<Rightarrow> u64 \<Rightarrow> u64 BoundedQueue \<Rightarrow> (u64 \<times> u64 BoundedQueue) option option"
      and memory capacity index full_events queue result
    assume ih: "\<And>memory capacity index full_events queue result. fill memory capacity index full_events queue = Some result \<Longrightarrow>
        queue_capacity queue \<le> memory \<longrightarrow> capacity \<noteq> - 1"
      and body: "(if index \<le> capacity then
        (case enqueue_within memory index queue of
           None \<Rightarrow> Some None
         | Some (result, queue') \<Rightarrow>
             fill memory capacity (index + 1) (if result = full then full_events + 1 else full_events) queue')
        else Some (Some (full_events, queue))) = Some result"
    show "queue_capacity queue \<le> memory \<longrightarrow> capacity \<noteq> - 1"
    proof (intro impI notI)
      assume room: "queue_capacity queue \<le> memory" and max: "capacity = - 1"
      then have "index \<le> capacity" by simp
      obtain r queue' where enqueue: "BoundedQueue_try_enqueue index queue = (r, queue')" by fastforce
      with body \<open>index \<le> capacity\<close> room
      have "fill memory capacity (index + 1) (if r = full then full_events + 1 else full_events) queue' = Some result"
        by (simp add: enqueue_within_room)
      moreover have "queue_capacity queue' \<le> memory" using enqueue_capacity [of index queue] enqueue room by simp
      ultimately show False using ih max by blast
    qed
  qed
  then show ?thesis using assms(2) by blast
qed

lemma queue_fill_counts:
  assumes "capacity \<noteq> - 1" and "unat index \<le> unat capacity" and "queue_capacity queue = unat capacity"
    and "\<not> queue_closed queue" and "length (queue_items queue) = unat index" and "unat capacity \<le> memory"
  shows "\<exists>queue'. queue_fill memory capacity index full_events queue = Some (Some (full_events + 1, queue'))"
  using assms
proof (induction "unat capacity - unat index" arbitrary: index queue)
  case 0
  have eq: "index = capacity" using "0.hyps" "0.prems"(2) by (simp add: word_unat_eq_iff)
  have past: "\<not> capacity + 1 \<le> capacity" using unat_next [of capacity "- 1"] "0.prems"(1)
    by (simp add: word_order.not_eq_extremum word_less_nat_alt word_le_nat_alt)
  show ?case
    using "0.prems" eq past
    by (simp add: queue_fill.simps [of memory capacity capacity] queue_fill.simps [of memory capacity "capacity + 1"]
        enqueue_within_room BoundedQueue_try_enqueue_def)
next
  case (Suc n)
  then have less: "unat index < unat capacity" by simp
  then have le: "index \<le> capacity" by (simp add: word_le_nat_alt)
  have after: "unat (index + 1) = Suc (unat index)" by (rule unat_next [OF less])
  let ?queue = "queue\<lparr>queue_items := queue_items queue @ [index]\<rparr>"
  have enqueue: "BoundedQueue_try_enqueue index queue = (enqueued, ?queue)"
    using Suc.prems less by (simp add: BoundedQueue_try_enqueue_def)
  show ?case
    using Suc.hyps(1) [of "index + 1" ?queue] Suc.hyps(2) Suc.prems after less le enqueue
    by (simp add: queue_fill.simps [of memory capacity index] enqueue_within_room)
qed

lemma queue_fill_exhausted:
  assumes "unat index \<le> memory" and "memory < unat capacity" and "queue_capacity queue = unat capacity"
    and "\<not> queue_closed queue" and "length (queue_items queue) = unat index"
  shows "queue_fill memory capacity index full_events queue = Some None"
  using assms
proof (induction "memory - unat index" arbitrary: index queue)
  case 0
  then have "index \<le> capacity" "unat index = memory" by (simp_all add: word_le_nat_alt)
  then show ?case
    using "0.prems" by (simp add: queue_fill.simps [of memory capacity index] enqueue_within_def BoundedQueue_try_enqueue_def)
next
  case (Suc n)
  then have less: "unat index < unat capacity" by simp
  then have le: "index \<le> capacity" by (simp add: word_le_nat_alt)
  have after: "unat (index + 1) = Suc (unat index)" by (rule unat_next [OF less])
  let ?queue = "queue\<lparr>queue_items := queue_items queue @ [index]\<rparr>"
  have "enqueue_within memory index queue = Some (enqueued, ?queue)"
    using Suc.prems Suc.hyps(2) less by (simp add: enqueue_within_def BoundedQueue_try_enqueue_def)
  then show ?case
    using Suc.hyps(1) [of "index + 1" ?queue] Suc.hyps(2) Suc.prems after less le
    by (simp add: queue_fill.simps [of memory capacity index])
qed

lemma queue_round_empty:
  "queue_items queue = [] \<Longrightarrow> 0 < queue_capacity queue \<Longrightarrow> \<not> queue_closed queue \<Longrightarrow>
   queue_round memory (Some queue) index = (if memory = 0 then None else Some queue)"
  by (simp add: queue_round_def enqueue_within_def BoundedQueue_try_enqueue_def BoundedQueue_try_dequeue_def BoundedQueue_pop_front_def)

lemma queue_rounds_empty:
  assumes "queue_items queue = []" and "0 < queue_capacity queue" and "\<not> queue_closed queue"
  shows "foldl (\<lambda>state index. queue_round memory state (of_nat index)) (Some queue) indices =
    (if memory = 0 \<and> indices \<noteq> [] then None else Some queue)"
proof -
  have none: "foldl (\<lambda>state index. queue_round memory state (of_nat index)) None indices = None"
    for memory and indices :: "nat list" by (induction indices) (simp_all add: queue_round_def)
  show ?thesis using assms by (induction indices) (simp_all add: queue_round_empty none)
qed

section \<open>The forwarding loop\<close>

lemma learn_pins_nothing:
  "MacTable_inv t \<Longrightarrow> \<not> MacTable_pinned t vlan mac \<Longrightarrow> \<not> MacTable_pinned (snd (MacTable_learn v m port now t)) vlan mac"
  by (auto simp: MacTable_pinned_def MacTable_learn_def MacTable_lookup_update)

definition bench_device :: SoftwareAsic where
  "bench_device = bench_learn (snd (bench_configure bench_calls_of_device (the (SoftwareAsic_create default_mac_capacity))))"

definition bench_view ::
  "SoftwareAsic \<Rightarrow> (bool \<times> nat \<times> VlanPortConfig) option list \<times> PortId option \<times> bool \<times> MacAddress option \<times>
     PortId list \<times> bytes BoundedQueue option \<times> FaultInjectionConfig" where
  "bench_view a =
     (map (\<lambda>i. map_option (\<lambda>p. (VirtualPort_operational p, port_mtu p, port_vlan_config p)) (map_find (asic_ports a) i))
        [bench_port 1, bench_port 2],
      MacTable_port_of (asic_mac_table a) (VlanId 10) (bench_mac 2),
      MacTable_pinned (asic_mac_table a) (VlanId 10) (bench_mac 1),
      map_find (asic_router_interfaces a) (VlanId 10),
      vlan_ports_of a (VlanId 10),
      map_find (asic_queues a) (bench_port 2),
      fault_config (asic_fault_injector a))"

text \<open>The device before the loop, evaluated.\<close>

lemma bench_device_view:
  "bench_view bench_device =
     ([Some (True, 1500, VlanPortConfig_access (VlanId 10)), Some (True, 1500, VlanPortConfig_access (VlanId 10))],
      Some (PortId 2), False, None, [PortId 1, PortId 2],
      Some \<lparr>queue_capacity = 1, queue_items = [], queue_closed = False\<rparr>, no_faults)"
  by code_simp

lemma bench_configured: "fst (bench_configure bench_calls_of_device (the (SoftwareAsic_create default_mac_capacity))) = False"
  by code_simp

lemma bench_configure_inv:
  "SoftwareAsic_inv a \<Longrightarrow> (\<And>call b. call \<in> set calls \<Longrightarrow> SoftwareAsic_inv b \<Longrightarrow> SoftwareAsic_inv (snd (call b))) \<Longrightarrow>
   SoftwareAsic_inv (snd (bench_configure calls a))"
  by (induction calls arbitrary: a) (force split: prod.splits)+

lemma bench_virtual_port_valid:
  "pid \<noteq> 0 \<Longrightarrow> VirtualPort_inv (bench_virtual_port pid) \<and> VlanPortConfig_wf (port_vlan_config (bench_virtual_port pid))"
  by (simp add: bench_virtual_port_def VirtualPort_create_def bench_mac_def is_valid_unicast_def unspecified_mac_def
      MacAddress_is_unicast_def MacAddress_is_multicast_def minimum_mtu_def maximum_mtu_def VirtualPort_inv_def
      VlanPortConfig_access_wf)

lemma bench_device_inv: "SoftwareAsic_inv bench_device"
proof -
  have "SoftwareAsic_create default_mac_capacity \<noteq> None"
    by (simp add: default_mac_capacity_def SoftwareAsic_create_def MacTable_create_def ArpCache_create_def
      FaultInjector_create_def validate_def no_faults_def default_entry_lifetime_def)
  then have "SoftwareAsic_inv (the (SoftwareAsic_create default_mac_capacity))" using SoftwareAsic_create_inv by force
  then have "SoftwareAsic_inv (snd (bench_configure bench_calls_of_device (the (SoftwareAsic_create default_mac_capacity))))"
    by (rule bench_configure_inv)
      (use bench_virtual_port_valid in \<open>auto simp: bench_calls_of_device_def create_vlan_inv create_port_inv set_port_state_inv add_vlan_member_inv\<close>)
  then show ?thesis
    by (simp add: bench_device_def bench_learn_def case_prod_beta process_packet_inv dequeue_packet_inv)
qed

definition bench_loop_inv :: "SoftwareAsic \<Rightarrow> bool" where
  "bench_loop_inv a \<longleftrightarrow> SoftwareAsic_inv a \<and> bench_view a = bench_view bench_device"

lemma bench_frame_facts:
  assumes "payload_size \<le> 1400"
  shows "\<exists>frame. EthernetFrame_parse (bench_frame payload_size) = Some frame \<and> destination frame = bench_mac 2 \<and>
    source frame = bench_mac 1 \<and> vlan_tag frame = None \<and> length (payload frame) \<le> 1400 \<and>
    length (bench_frame payload_size) \<le> 1500"
proof -
  let ?frame = "\<lparr>destination = bench_mac 2, source = bench_mac 1, ether_type = EtherType_ipv4,
      payload = replicate (unat payload_size) 0x5A, vlan_tag = None\<rparr>"
  have len: "unat payload_size \<le> 1400" using assms by (simp add: word_le_nat_alt)
  then have made: "EthernetFrame_create (bench_mac 2) (bench_mac 1) EtherType_ipv4 (replicate (unat payload_size) 0x5A) None = Some ?frame"
    by (simp add: EthernetFrame_create_def frame_constants)
  have "EthernetFrame_parse (EthernetFrame_serialize ?frame) = Some ?frame"
    by (rule ethernet.parse_serialize) (use len in \<open>simp add: EthernetFrame_wf_def EthernetFrame_valid_def frame_constants\<close>)
  then show ?thesis
    using len made by (simp add: bench_frame_def length_serialize_frame frame_constants)
qed

lemma bench_macs:
  "is_valid_unicast (bench_mac 1)" "\<not> MacAddress_is_multicast (bench_mac 2)" "bench_mac 2 \<noteq> bench_mac 1"
  "bench_port 1 = PortId 1" "bench_port 2 = PortId 2"
  by (simp_all add: bench_mac_def is_valid_unicast_def unspecified_mac_def MacAddress_is_unicast_def
      MacAddress_is_multicast_def bench_port_def PortId_create_def)

lemma bench_access_classify:
  "vlan_tag frame = None \<Longrightarrow> classify_vlan_ingress frame (VlanPortConfig_access (VlanId 10)) = AcceptedVlanIngress (VlanId 10)"
  by (simp add: classify_vlan_ingress_def VlanPortConfig_access_def VlanPortConfig_is_access_def)

lemma bench_view_cong:
  assumes "configuration b = configuration a" and "map_find (asic_queues b) (PortId 2) = map_find (asic_queues a) (PortId 2)"
    and "MacTable_port_of (asic_mac_table b) (VlanId 10) (bench_mac 2) = MacTable_port_of (asic_mac_table a) (VlanId 10) (bench_mac 2)"
    and "MacTable_pinned (asic_mac_table b) (VlanId 10) (bench_mac 1) = MacTable_pinned (asic_mac_table a) (VlanId 10) (bench_mac 1)"
  shows "bench_view b = bench_view a"
proof -
  have "map_option (\<lambda>p. (VirtualPort_operational p, port_mtu p, port_vlan_config p)) (map_find (asic_ports b) i) =
      map_option (\<lambda>p. (VirtualPort_operational p, port_mtu p, port_vlan_config p)) (map_find (asic_ports a) i)" for i
    using configuration_port [OF assms(1), of i] configuration_port [OF assms(1) [symmetric], of i]
    by (cases "map_find (asic_ports a) i"; cases "map_find (asic_ports b) i") auto
  moreover have "vlan_ports_of b v = vlan_ports_of a v" for v
    using configuration_fields [OF assms(1)] by (simp add: vlan_ports_of_def)
  ultimately show ?thesis
    using assms configuration_fields [OF assms(1)] by (simp add: bench_view_def bench_macs)
qed

lemma forwarding_round_completes:
  assumes inv: "bench_loop_inv a" and size: "payload_size \<le> 1400"
  shows "\<exists>b. forwarding_round (bench_frame payload_size) (completed, a) = (completed + 1, b) \<and> bench_loop_inv b"
proof -
  have view: "bench_view a = bench_view bench_device" and asic: "SoftwareAsic_inv a"
    using inv by (simp_all add: bench_loop_inv_def)
  note parts = view [unfolded bench_device_view, unfolded bench_view_def bench_macs, simplified]
  obtain p e where p: "map_find (asic_ports a) (PortId 1) = Some p" "VirtualPort_operational p" "port_mtu p = 1500"
      "port_vlan_config p = VlanPortConfig_access (VlanId 10)"
    and e: "map_find (asic_ports a) (PortId 2) = Some e" "VirtualPort_operational e" "port_mtu e = 1500"
    using parts by auto
  obtain frame where frame: "EthernetFrame_parse (bench_frame payload_size) = Some frame" "destination frame = bench_mac 2"
      "source frame = bench_mac 1" "vlan_tag frame = None" "length (payload frame) \<le> 1400"
      "length (bench_frame payload_size) \<le> 1500"
    using bench_frame_facts [OF size] by blast
  obtain r a' where step: "SoftwareAsic_process_packet (PortId 1) (bench_frame payload_size) 0 a = (r, a')" by fastforce
  let ?q = "\<lparr>queue_capacity = 1, queue_items = [], queue_closed = False\<rparr> :: bytes BoundedQueue"
  let ?t = "snd (MacTable_learn (VlanId 10) (bench_mac 1) (PortId 1) 0 (asic_mac_table a))"
  have "fault_free (fault_config (asic_fault_injector a))" using parts no_faults_fault_free by simp
  then have forwarded: "disposition r = switched \<and> output_ports r = [PortId 2] \<and> drop_reason r = drop_none \<and>
      SoftwareAsic_inv a' \<and> configuration a' = configuration a \<and> asic_mac_table a' = ?t \<and>
      asic_queues a' = map_assign (PortId 2) (?q\<lparr>queue_items := queue_items ?q @ [bench_frame payload_size]\<rparr>) (asic_queues a)"
    using learned_frame [OF asic _ p(1,2) frame(1), of "VlanId 10" "PortId 2" e ?q 0 r a'] frame p e parts bench_macs step
      bench_access_classify by (simp add: port_admits_def)
  have wf: "map_wf (asic_queues a)" using asic by (simp add: SoftwareAsic_inv_def ports_inv_def)
  define b where "b = a'\<lparr>asic_queues := map_assign (PortId 2) ?q (asic_queues a')\<rparr>"
  have drained: "SoftwareAsic_dequeue_packet (PortId 2) a' = (Some (bench_frame payload_size), b)"
    using forwarded wf
    by (simp add: SoftwareAsic_dequeue_packet_def BoundedQueue_try_dequeue_def BoundedQueue_pop_front_def map_find_assign b_def)
  have table: "MacTable_inv (asic_mac_table a)" using asic by (simp add: SoftwareAsic_inv_def tables_inv_def)
  have "bench_view b = bench_view a"
  proof (rule bench_view_cong)
    show "configuration b = configuration a" using forwarded by (simp add: b_def configuration_def)
    have "SoftwareAsic_inv a'" using forwarded by blast
    then have "map_wf (asic_queues a')" unfolding SoftwareAsic_inv_def ports_inv_def by blast
    then show "map_find (asic_queues b) (PortId 2) = map_find (asic_queues a) (PortId 2)"
      using parts by (simp add: b_def map_find_assign)
    show "MacTable_port_of (asic_mac_table b) (VlanId 10) (bench_mac 2) = MacTable_port_of (asic_mac_table a) (VlanId 10) (bench_mac 2)"
      using forwarded mac_learning.learn_other [OF table] bench_macs by (simp add: b_def)
    show "MacTable_pinned (asic_mac_table b) (VlanId 10) (bench_mac 1) = MacTable_pinned (asic_mac_table a) (VlanId 10) (bench_mac 1)"
      using forwarded learn_pins_nothing [OF table] parts by (simp add: b_def)
  qed
  moreover have "SoftwareAsic_inv b" using dequeue_packet_inv [of a' "PortId 2"] forwarded drained by simp
  ultimately have "bench_loop_inv b" using view by (simp add: bench_loop_inv_def)
  then show ?thesis using step forwarded drained by (simp add: forwarding_round_def bench_macs)
qed

lemma forwarding_rounds_complete:
  assumes "payload_size \<le> 1400"
  shows "\<exists>b. (forwarding_round (bench_frame payload_size) ^^ n) (0, bench_device) = (of_nat n, b) \<and> bench_loop_inv b"
proof (induction n)
  case 0
  then show ?case by (simp add: bench_loop_inv_def bench_device_inv)
next
  case (Suc n)
  then obtain b where "(forwarding_round (bench_frame payload_size) ^^ n) (0, bench_device) = (of_nat n, b)" "bench_loop_inv b"
    by blast
  then show ?case using forwarding_round_completes [OF _ assms, of b "of_nat n"] by (auto simp: add.commute)
qed

section \<open>The simulation loop\<close>

text \<open>The CPU backend as a step: it keeps no state.\<close>

definition cpu_backend_step :: "(u64 \<Rightarrow> u64 \<Rightarrow> u32 \<times> u32) \<Rightarrow> backend_step" where
  "cpu_backend_step position backend tick =
     (case backend of
        Cpu config \<Rightarrow> (Inr (CpuBackend_step position config tick), backend)
      | Cuda b \<Rightarrow> (Inl cuda_launch, backend))"

definition scene_size :: "(u64 \<Rightarrow> u64 \<Rightarrow> u32 \<times> u32) \<Rightarrow> SimulationConfig \<Rightarrow> u64 \<Rightarrow> u64" where
  "scene_size position config tick = of_nat (length (TopologyScene_serialize_snapshot (CpuBackend_step position config tick)))"

lemma simulation_rounds_cpu:
  assumes "iterations \<noteq> - 1" and "unat tick \<le> unat iterations + 1"
  shows "simulation_rounds (cpu_backend_step position) iterations tick octets (Cpu config) =
    Some (Some (octets + sum_list (map (scene_size position config \<circ> of_nat) [unat tick..<unat iterations + 1]), Cpu config))"
  using assms(2)
proof (induction "unat iterations + 1 - unat tick" arbitrary: tick octets)
  case 0
  then have "\<not> tick \<le> iterations" by (simp add: word_le_nat_alt)
  then show ?case using 0 by (simp add: simulation_rounds.simps [of _ iterations tick])
next
  case (Suc n)
  then have le: "unat tick \<le> unat iterations" by simp
  have "unat iterations < unat (- 1 :: u64)" using assms(1) by (simp add: word_order.not_eq_extremum word_less_nat_alt)
  then have after: "unat (tick + 1) = Suc (unat tick)" using le by (intro unat_next [of tick "- 1"]) simp
  have "[unat tick..<unat iterations + 1] = unat tick # [unat (tick + 1)..<unat iterations + 1]"
    using le by (simp add: after upt_conv_Cons)
  then show ?case
    using Suc.hyps(1) [of "tick + 1"] Suc.hyps(2) after le
    by (simp add: simulation_rounds.simps [of _ iterations tick] word_le_nat_alt cpu_backend_step_def scene_size_def)
qed

lemma warm_up_cpu: "foldl (warm_up_round (cpu_backend_step position)) (Some (Cpu config)) ticks = Some (Cpu config)"
  by (induction ticks) (simp_all add: warm_up_round_def cpu_backend_step_def)

text \<open>On the processor the benchmark reports the size of the snapshots of the ticks it stepped through.\<close>

lemma simulation_benchmark_cpu:
  assumes "iterations = numeric_option argv ''--iterations'' 10000" and "iterations \<noteq> 0" and "iterations \<noteq> - 1"
    and "observers = numeric_option argv ''--observers'' 3" and "observers \<noteq> 0"
    and "text_option argv ''--backend'' ''cpu'' = ''cpu''"
  shows "simulation_benchmark build (cpu_backend_step position) argv =
    Some (bench_success, Some (report_simulation ''cpu'' iterations (sum_list (map
      (scene_size position \<lparr>config_observer_count = observers, config_seed = 1\<rparr> \<circ> of_nat) [1..<unat iterations + 1]))))"
proof -
  let ?config = "\<lparr>config_observer_count = observers, config_seed = 1\<rparr>"
  have "select_runtime build mode_cpu ?config = Inr (Inr \<lparr>selected_mode = mode_cpu, selected_backend = Some (Cpu ?config)\<rparr>)"
    by (simp add: select_runtime_def make_cpu_backend_def)
  then show ?thesis
    using assms(2,5) simulation_rounds_cpu [OF assms(3), of 1 position 0 ?config]
    by (simp add: simulation_benchmark_def assms(1,4) [symmetric] assms(6) parse_runtime_mode_def warm_up_cpu backend_name_def Let_def del: upt_Suc)
qed

section \<open>Properties\<close>

text \<open>
  Property C39: the forwarding benchmark forwards. For any number of iterations but zero and any payload of up to
  1400 bytes, every frame is switched to the port that the address was learned on and taken from its queue of
  one, so that the benchmark counts every iteration and succeeds; for other options it fails at once.
\<close>

theorem forwarding_benchmark_completes:
  assumes "iterations = numeric_option argv ''--iterations'' 100000"
    and "payload_size = numeric_option argv ''--payload'' 512"
  shows "forwarding_benchmark argv =
    (if iterations = 0 \<or> payload_size > 1400 then (bench_failure, None)
     else (bench_success, Some (report_forwarding iterations)))"
proof (cases "iterations = 0 \<or> payload_size > 1400")
  case True
  then show ?thesis by (auto simp: forwarding_benchmark_def assms)
next
  case False
  then have "payload_size \<le> 1400" by auto
  then obtain b where "(forwarding_round (bench_frame payload_size) ^^ unat iterations) (0, bench_device) = (iterations, b)"
    using forwarding_rounds_complete [of payload_size "unat iterations"] by auto
  moreover obtain device where "bench_configure bench_calls_of_device (the (SoftwareAsic_create default_mac_capacity)) = (False, device)"
    using bench_configured by (cases "bench_configure bench_calls_of_device (the (SoftwareAsic_create default_mac_capacity))") simp
  ultimately show ?thesis
    using False by (simp add: forwarding_benchmark_def assms [symmetric] bench_device_def Let_def)
qed

theorem forwarding_benchmark_completes_witness:
  "forwarding_benchmark [''benchmark'', ''forwarding'', ''--iterations'', ''18446744073709551615'', ''--payload'', ''0''] =
     (bench_success, Some (report_forwarding (- 1)))"
proof -
  let ?argv = "[''benchmark'', ''forwarding'', ''--iterations'', ''18446744073709551615'', ''--payload'', ''0'']"
  have options: "numeric_option ?argv ''--iterations'' 100000 = - 1" "numeric_option ?argv ''--payload'' 512 = 0" by code_simp+
  show ?thesis using forwarding_benchmark_completes [OF refl refl, of ?argv] unfolding options by simp
qed

text \<open>
  Property C40: how the queue benchmark ends, for any options and any memory. It fails at once if the number of
  iterations or the capacity is zero, which a value that is not a number counts as. Otherwise it is terminated by the
  failing allocation if the queue's memory does not hold as many numbers as the capacity says; and if it does, the
  benchmark finds the queue full exactly once and succeeds, for every capacity but the largest 64-bit number, for
  which its last loop would never end.
\<close>

theorem queue_benchmark_ends:
  assumes "iterations = numeric_option argv ''--iterations'' 1000000"
    and "capacity = numeric_option argv ''--capacity'' 1024"
  shows "queue_benchmark memory argv =
    (if iterations = 0 \<or> capacity = 0 then Some (bench_failure, None)
     else if memory < unat capacity then Some (bench_terminated, None)
     else if capacity = - 1 then None
     else Some (bench_success, Some (report_queue iterations capacity 1)))"
proof (cases "iterations = 0 \<or> capacity = 0")
  case True
  then show ?thesis by (auto simp: queue_benchmark_def assms)
next
  case False
  let ?queue = "\<lparr>queue_capacity = unat capacity, queue_items = [], queue_closed = False\<rparr> :: u64 BoundedQueue"
  let ?rounds = "foldl (\<lambda>state index. queue_round memory state (of_nat index)) (BoundedQueue_create (unat capacity)) [0..<unat iterations]"
  have positive: "0 < unat capacity" "0 < unat iterations" using False by (simp_all add: unat_gt_0)
  then have rounds: "?rounds = (if memory = 0 then None else Some ?queue)"
    by (simp add: BoundedQueue_create_def queue_rounds_empty)
  have run: "queue_benchmark memory argv =
      (case ?rounds of
         None \<Rightarrow> Some (bench_terminated, None)
       | Some queue \<Rightarrow>
           (case queue_fill memory capacity 0 0 queue of
              None \<Rightarrow> None
            | Some None \<Rightarrow> Some (bench_terminated, None)
            | Some (Some (full_events, queue)) \<Rightarrow>
                Some (if full_events = 1 then bench_success else bench_failure, Some (report_queue iterations capacity full_events))))"
    using False unfolding queue_benchmark_def Let_def assms [symmetric] by simp
  consider "memory < unat capacity" | "unat capacity \<le> memory" "capacity = - 1" | "unat capacity \<le> memory" "capacity \<noteq> - 1"
    by linarith
  then show ?thesis
  proof cases
    case 1
    then have "queue_fill memory capacity 0 0 ?queue = Some None" by (intro queue_fill_exhausted) simp_all
    then show ?thesis using 1 False unfolding run rounds by simp
  next
    case 2
    then have "queue_fill memory capacity 0 0 ?queue = None"
      using queue_fill_wraps [of memory capacity 0 0 ?queue] by (cases "queue_fill memory capacity 0 0 ?queue") auto
    then show ?thesis using 2 False positive unfolding run rounds by simp
  next
    case 3
    then obtain queue' where "queue_fill memory capacity 0 0 ?queue = Some (Some (1, queue'))"
      using queue_fill_counts [of capacity 0 ?queue memory 0] by auto
    then show ?thesis using 3 False positive unfolding run rounds by simp
  qed
qed

theorem queue_benchmark_ends_witness:
  "queue_benchmark 9 [''benchmark'', ''queue'', ''--iterations'', ''7'', ''--capacity'', ''2''] =
     Some (bench_success, Some (report_queue 7 2 1)) \<and>
   queue_benchmark 1 [''benchmark'', ''queue'', ''--iterations'', ''7'', ''--capacity'', ''2''] = Some (bench_terminated, None) \<and>
   queue_benchmark 9 [''benchmark'', ''queue'', ''--iterations'', ''7'', ''--capacity'', ''two''] = Some (bench_failure, None)"
proof -
  let ?argv = "\<lambda>capacity. [''benchmark'', ''queue'', ''--iterations'', ''7'', ''--capacity'', capacity]"
  have options: "numeric_option (?argv ''2'') ''--iterations'' 1000000 = 7" "numeric_option (?argv ''2'') ''--capacity'' 1024 = 2"
    "numeric_option (?argv ''two'') ''--capacity'' 1024 = 0" by code_simp+
  show ?thesis
    using queue_benchmark_ends [OF refl refl, of _ "?argv ''2''"] queue_benchmark_ends [OF refl refl, of _ "?argv ''two''"]
    unfolding options by simp
qed

end
