(* ===== verification/Switch_Cli.thy ===== *)
theory Switch_Cli
  imports Prelude
begin

text \<open>\<^verbatim>\<open>version.cpp\<close> and \<^verbatim>\<open>apps/switch_cli/main.cpp\<close>: the version and the program that prints it.\<close>

definition version :: string where
  "version = ''1.0.0''"

definition switch_cli_main :: "string \<times> int" where
  "switch_cli_main = (''Silicon Switch Lab '' @ version @ [CHR 10], 0)"

end
