(* ===== verification/Nearest_Rank.thy ===== *)
theory Nearest_Rank
  imports Single_Float
begin

text \<open>
  \<^verbatim>\<open>percentile\<close> of \<^verbatim>\<open>apps/benchmark/main.cpp\<close>: the order statistics of the round trips. The index is computed in double
  precision, from a quantile that is itself a rounded decimal; it is nevertheless the nearest rank exactly.
\<close>

section \<open>Double precision\<close>

text \<open>
  The double nearest to \<open>x \<ge> 0\<close>, ties to the even one, as its exact value: a significand of at most 53 bits over units of
  \<open>2^-1074\<close>. The numbers of this file are far below the largest double.
\<close>

definition double_exponent :: nat where
  "double_exponent = 1074"

definition double_shift :: "rat \<Rightarrow> nat" where
  "double_shift y = floorlog 2 (nat \<lfloor>y\<rfloor>) - 53"

definition round_double :: "rat \<Rightarrow> rat" where
  "round_double x =
     (let y = x * 2 ^ double_exponent; k = double_shift y
      in of_nat (round_half_even (y / 2 ^ k)) * 2 ^ k / 2 ^ double_exponent)"

section \<open>The function\<close>

definition percentile_index :: "rat \<Rightarrow> nat \<Rightarrow> nat" where
  "percentile_index quantile n =
     nat \<lfloor>round_double (of_int \<lceil>round_double (quantile * round_double (of_nat n))\<rceil> - 1)\<rfloor>"

definition percentile :: "rat list \<Rightarrow> rat \<Rightarrow> rat" where
  "percentile sample quantile =
     (if sample = [] then 0
      else
        let ordered = sort sample; index = percentile_index quantile (length ordered)
        in ordered ! min index (length ordered - 1))"

text \<open>The literals of the source: \<^verbatim>\<open>0.50\<close>, \<^verbatim>\<open>0.95\<close> and \<^verbatim>\<open>0.99\<close>.\<close>

definition quantile_literal :: "nat \<Rightarrow> rat" where
  "quantile_literal percent = round_double (of_nat percent / 100)"

section \<open>Rounding\<close>

lemma double_shift_le:
  assumes "0 \<le> x" and "x \<le> of_nat n" and "n < 2 ^ 53"
  shows "double_shift (x * 2 ^ double_exponent) \<le> double_exponent"
proof -
  have "x * 2 ^ double_exponent \<le> of_nat (n * 2 ^ double_exponent)" using assms(2) by simp
  also have "\<dots> = of_int (int (n * 2 ^ double_exponent))" by simp
  finally have "\<lfloor>x * 2 ^ double_exponent\<rfloor> \<le> int (n * 2 ^ double_exponent)" using floor_mono floor_of_int by metis
  then have "nat \<lfloor>x * 2 ^ double_exponent\<rfloor> \<le> n * 2 ^ double_exponent" by (simp only: nat_le_iff)
  also have "\<dots> < 2 ^ (53 + double_exponent)" using assms(3) by (simp add: power_add)
  finally have "floorlog 2 (nat \<lfloor>x * 2 ^ double_exponent\<rfloor>) \<le> 53 + double_exponent" by (intro floorlog_leI) simp_all
  then show ?thesis by (simp add: double_shift_def)
qed

lemma power_split: "k \<le> e \<Longrightarrow> (2 :: rat) ^ e = 2 ^ (e - k) * 2 ^ k"
  by (simp flip: power_add)

lemma scaled_down: "k \<le> e \<Longrightarrow> of_nat n * 2 ^ e / 2 ^ k = (of_nat (n * 2 ^ (e - k)) :: rat)"
  by (simp add: power_split [of k e])

lemma round_double_of_nat: "n < 2 ^ 53 \<Longrightarrow> round_double (of_nat n) = of_nat n"
proof -
  assume "n < 2 ^ 53"
  then have k: "double_shift (of_nat n * 2 ^ double_exponent) \<le> double_exponent" by (intro double_shift_le [of _ n]) simp_all
  have "of_nat (n * 2 ^ (double_exponent - double_shift (of_nat n * 2 ^ double_exponent))) *
      2 ^ double_shift (of_nat n * 2 ^ double_exponent) / 2 ^ double_exponent = (of_nat n :: rat)"
    unfolding scaled_down [OF k, symmetric] by simp
  then show ?thesis unfolding round_double_def Let_def scaled_down [OF k] round_half_even_of_nat .
qed

lemma round_double_le:
  assumes "0 \<le> x" and "x \<le> of_nat n" and "n < 2 ^ 53"
  shows "round_double x \<le> of_nat n"
proof -
  let ?k = "double_shift (x * 2 ^ double_exponent)"
  have k: "?k \<le> double_exponent" by (rule double_shift_le [OF assms])
  have "x * 2 ^ double_exponent / 2 ^ ?k \<le> of_nat n * 2 ^ double_exponent / 2 ^ ?k"
    using assms(2) by (intro divide_right_mono mult_right_mono) simp_all
  then have "round_half_even (x * 2 ^ double_exponent / 2 ^ ?k) \<le> n * 2 ^ (double_exponent - ?k)"
    unfolding scaled_down [OF k] using assms(1) by (intro round_half_even_le) simp_all
  then have "(of_nat (round_half_even (x * 2 ^ double_exponent / 2 ^ ?k)) :: rat) \<le> of_nat (n * 2 ^ (double_exponent - ?k))"
    by (rule of_nat_mono)
  also have "\<dots> = of_nat n * 2 ^ double_exponent / 2 ^ ?k" by (rule scaled_down [OF k, symmetric])
  finally show ?thesis by (simp add: round_double_def Let_def le_divide_eq divide_le_eq mult.commute)
qed

text \<open>The error is at most \<open>2^-53\<close> of the number, where the significand has its 53 bits.\<close>

lemma round_double_error:
  assumes "1 \<le> x * 2 ^ double_exponent / 2 ^ 52"
  shows "\<bar>round_double x - x\<bar> \<le> x / 2 ^ 53"
proof -
  let ?y = "x * 2 ^ double_exponent"
  let ?k = "double_shift ?y"
  have "2 ^ 52 \<le> ?y" using assms by simp
  then have floor: "2 ^ 52 \<le> \<lfloor>?y\<rfloor>" by (simp add: le_floor_iff)
  then have "2 ^ 52 \<le> nat \<lfloor>?y\<rfloor>" by (simp add: nat_le_eq_zle le_nat_iff)
  then have "53 \<le> floorlog 2 (nat \<lfloor>?y\<rfloor>)" by (intro floorlog_geI) simp_all
  then have bits: "53 + ?k \<le> floorlog 2 (nat \<lfloor>?y\<rfloor>)" by (simp add: double_shift_def)
  have "2 ^ (52 + ?k) \<le> nat \<lfloor>?y\<rfloor>" using floorlog_geD [OF bits] by simp
  then have "2 ^ (52 + ?k) \<le> \<lfloor>?y\<rfloor>" using floor by (simp add: le_nat_iff)
  then have small: "2 ^ ?k \<le> ?y / 2 ^ 52" by (simp add: le_floor_iff power_add le_divide_eq mult.commute)
  have "0 \<le> ?y" using floor by (meson le_floor_iff order_trans zero_le_power zero_le_numeral of_int_0_le_iff floor_correct)
  then have "\<bar>of_nat (round_half_even (?y / 2 ^ ?k)) - ?y / 2 ^ ?k\<bar> \<le> 1 / 2" by (intro round_half_even_error) simp
  then have "\<bar>of_nat (round_half_even (?y / 2 ^ ?k)) - ?y / 2 ^ ?k\<bar> * 2 ^ ?k \<le> 1 / 2 * 2 ^ ?k" by (intro mult_right_mono) simp_all
  then have "\<bar>of_nat (round_half_even (?y / 2 ^ ?k)) * 2 ^ ?k - ?y\<bar> \<le> 2 ^ ?k / 2"
    by (simp add: abs_mult_pos left_diff_distrib)
  also have "\<dots> \<le> ?y / 2 ^ 53" using small by simp
  finally have "\<bar>of_nat (round_half_even (?y / 2 ^ ?k)) * 2 ^ ?k - ?y\<bar> / 2 ^ double_exponent \<le> ?y / 2 ^ 53 / 2 ^ double_exponent"
    by (intro divide_right_mono) simp_all
  then show ?thesis by (simp add: round_double_def Let_def abs_div_pos diff_divide_distrib)
qed

text \<open>Between a half and one the significand counts units of \<open>2^-53\<close>.\<close>

lemma round_double_half:
  assumes "1 / 2 \<le> x" and "x < 1"
  shows "round_double x = of_nat (round_half_even (x * 2 ^ 53)) / 2 ^ 53"
proof -
  obtain k where k: "double_exponent = 53 + k" by (rule that [of 1021]) (simp add: double_exponent_def)
  define y where "y = x * 2 ^ double_exponent"
  have bounds: "2 ^ (52 + k) \<le> y" "y < 2 ^ (53 + k)"
    using mult_right_mono [OF assms(1), of "2 ^ double_exponent"] assms(2) by (simp_all add: y_def k power_add)
  have "2 ^ (52 + k) \<le> \<lfloor>y\<rfloor>" using bounds(1) by (simp add: le_floor_iff)
  then have "2 ^ (52 + k) \<le> nat \<lfloor>y\<rfloor>" by (simp add: le_nat_iff)
  then have "53 + k \<le> floorlog 2 (nat \<lfloor>y\<rfloor>)" by (intro floorlog_geI) simp_all
  moreover have "\<lfloor>y\<rfloor> < 2 ^ (53 + k)" using bounds(2) by (simp add: floor_less_iff)
  then have "nat \<lfloor>y\<rfloor> < 2 ^ (53 + k)" by (simp add: nat_less_iff)
  then have "floorlog 2 (nat \<lfloor>y\<rfloor>) \<le> 53 + k" by (intro floorlog_leI) simp_all
  ultimately have shift: "double_shift (x * 2 ^ double_exponent) = k" by (simp add: double_shift_def y_def)
  have units: "x * 2 ^ double_exponent / 2 ^ k = x * 2 ^ 53" "a * 2 ^ k / 2 ^ double_exponent = a / 2 ^ 53" for a :: rat
    by (simp_all add: k power_add)
  show ?thesis unfolding round_double_def Let_def shift units ..
qed

definition quantiles :: "nat set" where
  "quantiles = {50, 95, 99}"

lemma quantile_floors:
  "\<lfloor>95 / 100 * 2 ^ 53 :: rat\<rfloor> = 8556839292003942" "\<lfloor>99 / 100 * 2 ^ 53 :: rat\<rfloor> = 8917127262193582"
  by (simp_all add: floor_eq_iff)

lemma quantile_significands:
  "round_half_even (50 / 100 * 2 ^ 53) = 2 ^ 52" "round_half_even (95 / 100 * 2 ^ 53) = 8556839292003942"
  "round_half_even (99 / 100 * 2 ^ 53) = 8917127262193582"
proof -
  show "round_half_even (50 / 100 * 2 ^ 53) = 2 ^ 52" using round_half_even_of_nat [of "2 ^ 52"] by simp
qed (unfold round_half_even_def Let_def quantile_floors, simp_all)

lemma quantile_literals:
  "quantile_literal 50 = 1 / 2" "quantile_literal 95 = 8556839292003942 / 2 ^ 53"
  "quantile_literal 99 = 8917127262193582 / 2 ^ 53"
proof -
  have "quantile_literal percent = of_nat (round_half_even (of_nat percent / 100 * 2 ^ 53)) / 2 ^ 53"
    if "50 \<le> percent" "percent < 100" for percent
    unfolding quantile_literal_def by (rule round_double_half) (use that in simp_all)
  from this [of 50] this [of 95] this [of 99] show
    "quantile_literal 50 = 1 / 2" "quantile_literal 95 = 8556839292003942 / 2 ^ 53"
    "quantile_literal 99 = 8917127262193582 / 2 ^ 53"
    unfolding of_nat_numeral quantile_significands by simp_all
qed

text \<open>The literals lie at or below the decimals that they stand for.\<close>

lemma quantile_literal_bounds:
  assumes "percent \<in> quantiles"
  shows "quantile_literal percent \<le> of_nat percent / 100"
    and "of_nat percent / 100 - 1 / 2 ^ 53 \<le> quantile_literal percent"
    and "1 / 4 \<le> quantile_literal percent"
proof -
  consider "percent = 50" | "percent = 95" | "percent = 99" using assms by (auto simp: quantiles_def)
  then show "quantile_literal percent \<le> of_nat percent / 100" "of_nat percent / 100 - 1 / 2 ^ 53 \<le> quantile_literal percent"
    "1 / 4 \<le> quantile_literal percent"
    by (cases; simp add: quantile_literals)+
qed

section \<open>The index is the nearest rank\<close>

text \<open>The least number of values that make up \<open>percent\<close> hundredths of \<open>n\<close>.\<close>

definition nearest_rank :: "nat \<Rightarrow> nat \<Rightarrow> nat" where
  "nearest_rank percent n = (percent * n + 99) div 100"

lemma nearest_rank_bounds:
  assumes "0 < percent * n"
  shows "percent * n \<le> 100 * nearest_rank percent n" and "100 * (nearest_rank percent n - 1) < percent * n"
    and "0 < nearest_rank percent n"
  using assms unfolding nearest_rank_def by linarith+

lemma nearest_rank_le: "percent < 100 \<Longrightarrow> nearest_rank percent n \<le> n"
proof -
  assume "percent < 100"
  then have "percent * n \<le> 99 * n" by (intro mult_right_mono) simp_all
  then show ?thesis unfolding nearest_rank_def by linarith
qed

lemma rounded_product:
  assumes "percent \<in> quantiles" and "0 < n" and "n < 2 ^ 40"
  shows "\<lceil>round_double (quantile_literal percent * of_nat n)\<rceil> = int (nearest_rank percent n)"
proof -
  let ?q = "quantile_literal percent" and ?j = "nearest_rank percent n" and ?c = "of_nat percent / 100 :: rat"
  let ?x = "?q * of_nat n"
  note q = quantile_literal_bounds [OF assms(1)]
  have percent: "0 < percent" "percent < 100" using assms(1) by (auto simp: quantiles_def)
  then have rank: "percent * n \<le> 100 * ?j" "100 * (?j - 1) < percent * n" "0 < ?j"
    using nearest_rank_bounds [of percent n] assms(2) by simp_all
  have j: "?j \<le> n" using percent(2) by (rule nearest_rank_le)
  have "of_nat (percent * n) \<le> (of_nat (100 * ?j) :: rat)" using rank(1) by (rule of_nat_mono)
  then have decimal_le: "?c * of_nat n \<le> of_nat ?j" by simp
  have "of_nat (100 * (?j - 1) + 1) \<le> (of_nat (percent * n) :: rat)" using rank(2) by (intro of_nat_mono) simp
  then have decimal_ge: "of_nat ?j - 1 + 1 / 100 \<le> ?c * of_nat n" using rank(3) by (simp add: of_nat_diff)
  have size: "of_nat n < (2 :: rat) ^ 40" "(1 :: rat) \<le> of_nat n" "(of_nat ?j :: rat) \<le> of_nat n"
    using assms(2,3) j by (simp_all add: of_nat_less_numeral_power_cancel_iff)
  have x_le: "?x \<le> of_nat ?j" using mult_right_mono [OF q(1), of "of_nat n"] decimal_le by linarith
  have x_ge: "?c * of_nat n - of_nat n / 2 ^ 53 \<le> ?x" using mult_right_mono [OF q(2), of "of_nat n"] by (simp add: left_diff_distrib)
  have x_quarter: "1 / 4 \<le> ?x" using mult_mono [OF q(3) size(2)] q(3) by simp
  have "1 \<le> ?x * 2 ^ double_exponent / 2 ^ 52"
  proof -
    obtain k where k: "double_exponent = 54 + k" by (rule that [of 1020]) (simp add: double_exponent_def)
    have "1 / 4 * 2 ^ double_exponent / 2 ^ 52 = (2 ^ k :: rat)" by (simp add: k power_add)
    then have "1 \<le> 1 / 4 * 2 ^ double_exponent / (2 ^ 52 :: rat)" by simp
    also have "\<dots> \<le> ?x * 2 ^ double_exponent / 2 ^ 52" using x_quarter by (intro divide_right_mono mult_right_mono) simp_all
    finally show ?thesis .
  qed
  then have "?x - ?x / 2 ^ 53 \<le> round_double ?x" using round_double_error [of ?x] by linarith
  then have "of_nat ?j - 1 < round_double ?x" using x_le x_ge decimal_ge size by (simp add: field_simps)
  moreover have "round_double ?x \<le> of_nat ?j"
    using x_quarter x_le j assms(3) by (intro round_double_le) simp_all
  ultimately show ?thesis by (simp add: ceiling_eq_iff)
qed

lemma percentile_index_rank:
  assumes "percent \<in> quantiles" and "0 < n" and "n < 2 ^ 40"
  shows "percentile_index (quantile_literal percent) n = nearest_rank percent n - 1"
proof -
  have percent: "0 < percent" "percent < 100" using assms(1) by (auto simp: quantiles_def)
  have j: "nearest_rank percent n \<le> n" "0 < nearest_rank percent n"
    using nearest_rank_le [OF percent(2)] nearest_rank_bounds(3) [of percent n] percent(1) assms(2) by simp_all
  have n: "n < 2 ^ 53" using assms(3) by (rule less_trans) simp
  have "of_int (int (nearest_rank percent n)) - 1 = (of_nat (nearest_rank percent n - 1) :: rat)"
    using j(2) by (simp add: of_nat_diff)
  moreover have "nearest_rank percent n - 1 < 2 ^ 53" using j n by linarith
  ultimately show ?thesis
    by (simp only: percentile_index_def round_double_of_nat n rounded_product [OF assms] floor_of_nat nat_int)
qed

section \<open>Property\<close>

lemma sorted_counts:
  assumes "sorted xs" and "i < length xs"
  shows "i < length (filter (\<lambda>x. x \<le> xs ! i) xs)" and "length (filter (\<lambda>x. x < xs ! i) xs) \<le> i"
proof -
  have "xs = take (Suc i) xs @ drop (Suc i) xs" by simp
  moreover have "filter (\<lambda>x. x \<le> xs ! i) (take (Suc i) xs) = take (Suc i) xs"
    using assms by (auto simp: filter_id_conv in_set_conv_nth less_Suc_eq_le sorted_iff_nth_mono)
  ultimately have "length (filter (\<lambda>x. x \<le> xs ! i) xs) \<ge> length (take (Suc i) xs)"
    by (metis filter_append length_append le_add1)
  then show "i < length (filter (\<lambda>x. x \<le> xs ! i) xs)" using assms(2) by simp
  have "xs = take i xs @ drop i xs" by simp
  moreover have "filter (\<lambda>x. x < xs ! i) (drop i xs) = []"
    using assms by (auto simp: filter_empty_conv in_set_conv_nth not_less sorted_iff_nth_mono)
  ultimately have "length (filter (\<lambda>x. x < xs ! i) xs) = length (filter (\<lambda>x. x < xs ! i) (take i xs))"
    by (metis filter_append append.right_neutral)
  then show "length (filter (\<lambda>x. x < xs ! i) xs) \<le> i" using length_filter_le [of _ "take i xs"] by (metis length_take min.bounded_iff le_trans min.cobounded2)
qed

text \<open>
  Property C38: the percentiles are nearest ranks. For the median, the 95th and the 99th percentile of any sample of up to
  \<open>2^40\<close> times, in spite of quantiles that a double cannot hold and of a rounded product, the value is one of the
  sample, at least that share of the sample is at most the value, and less than that share is below it.
\<close>

theorem percentile_nearest_rank:
  assumes "percent \<in> {50, 95, 99}" and "sample \<noteq> []" and "length sample < 2 ^ 40"
  shows "percentile sample (quantile_literal percent) \<in> set sample \<and>
    percent * length sample \<le> 100 * length (filter (\<lambda>x. x \<le> percentile sample (quantile_literal percent)) sample) \<and>
    100 * length (filter (\<lambda>x. x < percentile sample (quantile_literal percent)) sample) < percent * length sample"
proof -
  let ?n = "length sample" and ?i = "nearest_rank percent (length sample) - 1" and ?s = "sort sample"
  have quantile: "percent \<in> quantiles" using assms(1) by (simp add: quantiles_def)
  have percent: "0 < percent" "percent < 100" using assms(1) by auto
  have rank: "percent * ?n \<le> 100 * nearest_rank percent ?n" "100 * ?i < percent * ?n" "0 < nearest_rank percent ?n"
    "nearest_rank percent ?n \<le> ?n"
    using nearest_rank_bounds [of percent ?n] nearest_rank_le [OF percent(2)] percent(1) assms(2) by simp_all
  then have i: "?i < length ?s" by (simp add: less_le_trans)
  have "percentile sample (quantile_literal percent) = ?s ! ?i"
    using i assms(2,3) percentile_index_rank [OF quantile, of ?n] by (simp add: percentile_def Let_def min_def)
  moreover have "?s ! ?i \<in> set sample" using nth_mem [OF i] by simp
  moreover have "length (filter P ?s) = length (filter P sample)" for P by (simp add: filter_sort)
  ultimately show ?thesis
    using sorted_counts [OF sorted_sort i] rank by (metis Suc_diff_1 Suc_leI le_trans mult_le_mono2 le_less_trans)
qed

theorem percentile_nearest_rank_witness:
  "percentile [3, 1, 2] (quantile_literal 50) \<in> {1, 2, 3} \<and>
    150 \<le> 100 * length (filter (\<lambda>x. x \<le> percentile [3, 1, 2] (quantile_literal 50)) [3, 1, 2])"
  using percentile_nearest_rank [of 50 "[3, 1, 2]"] by auto

end
