(* ===== verification/Spec2Isabelle.thy ===== *)
theory Spec2Isabelle
  imports Asic_Traffic Asic_Delivery Span_Messages Discovery_Tool Tcp_Server Programmable_Switch Demo_Scenario
    Simulation_Server Replication_Udp Node_Position Glfw_Window Socket_Platforms Benchmark Switch_Cli Nearest_Rank
begin

text \<open>
  Verification of the Silicon Switch Lab, a C++17 software switch with a distributed simulation around it.

  \<^bold>\<open>The program.\<close> Three layers. (1) A \<^emph>\<open>switch\<close>: byte formats (\<^verbatim>\<open>network/\<close>), routing
  (\<^verbatim>\<open>routing/\<close>), VLANs, learning and ports (\<^verbatim>\<open>switching/\<close>), and the software ASIC (\<^verbatim>\<open>asic/\<close>)
  that owns one state of all of them and processes a packet from its bytes to the egress queues.
  (2) A \<^emph>\<open>simulation\<close>: a server steps a CPU or CUDA backend (\<^verbatim>\<open>simulation/\<close>) and publishes its
  scenes (\<^verbatim>\<open>visualization/topology.cpp\<close>) as snapshots and deltas over UDP (\<^verbatim>\<open>transport/\<close>) to observers
  that keep a replica and draw it (\<^verbatim>\<open>visualization/\<close>); machines find each other by \<^verbatim>\<open>discovery/\<close>.
  (3) The \<^emph>\<open>programs\<close> of \<^verbatim>\<open>apps/\<close>. Paths are relative to \<^verbatim>\<open>src/src/silicon_switch\<close> and
  \<^verbatim>\<open>src/include/silicon_switch\<close>, and to \<^verbatim>\<open>src/\<close> for \<^verbatim>\<open>apps\<close>.

  \<^bold>\<open>How the code becomes definitions.\<close> A class is a \<^verbatim>\<open>record\<close> and its member function a function from
  the arguments and the state to the answer and the state after it, named \<^verbatim>\<open>Class_member\<close>. A factory or
  parser that returns \<^verbatim>\<open>std::optional\<close> is a function into \<open>option\<close>, one that returns \<^verbatim>\<open>std::variant\<close> of a value
  and an error a function into \<open>error + value\<close>, and a constructor that throws a function into \<open>option\<close>. Fixed-width
  integers are words, so they wrap as in the code; an enumeration that is cast from the wire is the word itself.
  A \<^verbatim>\<open>std::map\<close> is its ascending list of pairs, a vector a list, a byte buffer \<open>bytes\<close>, a \<^verbatim>\<open>std::string\<close> a
  \<open>string\<close> where the programs handle text and \<open>bytes\<close> where it comes from the wire. Time points are integers
  (nanoseconds) and arguments of the operations; the overloads that read the clock are not separate definitions.
  A float is its 32-bit pattern, and arithmetic on it is rounded to nearest after every operation (\<^verbatim>\<open>Single_Float\<close>); the
  one computation in double precision that is modelled is over exact values, rounded likewise (\<^verbatim>\<open>Nearest_Rank\<close>).

  \<^bold>\<open>Theories and what they show.\<close>
  \<^item> Ground: \<^verbatim>\<open>Prelude\<close> (types, generic lemmas, and the contracts \<open>guarded_system\<close>, \<open>invariant_system\<close>,
    \<open>wire_codec\<close>, \<open>canonical_codec\<close>), \<^verbatim>\<open>Std_Containers\<close> (maps, sets, keyed vectors; the contract
    \<open>keyed_store\<close>), \<^verbatim>\<open>Text_Format\<close> (decimal numbers), \<^verbatim>\<open>Wire\<close> (big-endian reads and writes),
    \<^verbatim>\<open>Byte_Span\<close> (spans over an explicit memory, where an access outside it fails), \<^verbatim>\<open>Single_Float\<close> (single
    precision; rounding is monotone).
  \<^item> Formats: \<^verbatim>\<open>Mac_Address\<close>, \<^verbatim>\<open>Ipv4_Address\<close>, \<^verbatim>\<open>Ipv4_Prefix\<close>, \<^verbatim>\<open>Identifiers\<close> (VLAN, tag, port),
    \<^verbatim>\<open>Internet_Checksum\<close>, \<^verbatim>\<open>Ethernet_Frame\<close>, \<^verbatim>\<open>Arp_Packet\<close>, \<^verbatim>\<open>Ipv4_Packet\<close>; \<^verbatim>\<open>Message_Format\<close>,
    \<^verbatim>\<open>State_Update\<close>, \<^verbatim>\<open>Control_Protocol\<close>, \<^verbatim>\<open>Discovery_Protocol\<close>, \<^verbatim>\<open>Topology\<close>. Each parser is shown to accept
    exactly the serializations of what its factory makes (with the deviations named in the theories), so the
    formats interpret the codec contracts; the checksum loop equals the ones'-complement sum.
    \<^verbatim>\<open>Span_Parsers\<close> has the packet parsers over spans: they read nothing outside and refine the parsers over lists;
    \<^verbatim>\<open>Span_Serializers\<close> the serializers: they write only into the vector they allocate, and are read back from it;
    \<^verbatim>\<open>Span_Messages\<close> the same for the messages and scenes that the network brings.
  \<^item> Tables: \<^verbatim>\<open>Route_Table\<close> (refines a finite map; longest prefix match), \<^verbatim>\<open>Arp_Cache\<close> (lifetimes; the
    contract \<open>neighbour_resolver\<close>), \<^verbatim>\<open>Mac_Table\<close> (bounds, learning; the contract \<open>learning_table\<close>).
  \<^item> Forwarding: \<^verbatim>\<open>Ipv4_Forwarding\<close> (TTL, next hop, encapsulation), \<^verbatim>\<open>Vlan_Ingress\<close>, \<^verbatim>\<open>L2_L3_Pipeline\<close>,
    \<^verbatim>\<open>Virtual_Port\<close> (counters add up), \<^verbatim>\<open>Bounded_Queue\<close> (every interleaving is first in, first out; the
    contract \<open>bounded_fifo\<close>), \<^verbatim>\<open>Fault_Injector\<close>.
  \<^item> The switch: \<^verbatim>\<open>Software_Asic\<close> (every operation), \<^verbatim>\<open>Asic_Invariant\<close> (the invariant of its state, kept by
    any valid operations), \<^verbatim>\<open>Asic_Forwarding\<close> and \<^verbatim>\<open>Asic_Traffic\<close> (what happens to a packet: isolation,
    transparency, routing, delivery, accounting), \<^verbatim>\<open>Asic_Switching\<close> (a frame for a learned address gets to its port),
    \<^verbatim>\<open>Asic_Queues\<close> (what the queues hold is always a frame), \<^verbatim>\<open>Asic_Delivery\<close> (a port delivers what is sent to it, in order),
    \<^verbatim>\<open>Programmable_Switch\<close> (the switch over the software ASIC or the
    mock), \<^verbatim>\<open>Demo_Scenario\<close> (\<^verbatim>\<open>apps/demo\<close>, evaluated).
  \<^item> Replication: \<^verbatim>\<open>Authoritative_Server\<close>, \<^verbatim>\<open>Node_Position\<close> (where the CPU backend places the nodes: always in view), \<^verbatim>\<open>Cuda_Backend\<close> (the kernel computes the
    scenes of the CPU backend, up to what the sine and cosine of device and processor differ by),
    \<^verbatim>\<open>Runtime_Selection\<close>, \<^verbatim>\<open>Client_Synchronizer\<close>, \<^verbatim>\<open>Observer_Client\<close> (the contract \<open>stable_backend\<close>, interpreted on
    the CPU backend), \<^verbatim>\<open>Replication\<close> (server and observer over a channel that loses, repeats, reorders and
    fabricates: what a synchronized observer shows, and that it catches up), \<^verbatim>\<open>Replication_Udp\<close> (the same from the server's
    socket to the observer's).
  \<^item> Sockets: \<^verbatim>\<open>Socket_Handle\<close> (ownership of descriptors), \<^verbatim>\<open>Socket_Runtime\<close> (started once), \<^verbatim>\<open>Tcp_Connection\<close> and \<^verbatim>\<open>Tcp_Server\<close> (framing over a
    stream that splits and interrupts), \<^verbatim>\<open>Udp_Socket\<close>, \<^verbatim>\<open>Socket_Platforms\<close> (the POSIX and the
    Winsock calls under them: frames cross between any two builds); \<^verbatim>\<open>Discovery_Service\<close> and \<^verbatim>\<open>Lab_Configuration\<close>.
  \<^item> Programs: \<^verbatim>\<open>Command_Line\<close>, \<^verbatim>\<open>Simulation_Server\<close>, \<^verbatim>\<open>Observer_Node\<close>, \<^verbatim>\<open>Topology_Renderer\<close> and
    \<^verbatim>\<open>Observer_Window\<close> (two threads and a mutex as a step relation), \<^verbatim>\<open>Render_Colour\<close> (the colours
    and their ranges), \<^verbatim>\<open>Glfw_Window\<close> (the window's calls in their order and what they draw), \<^verbatim>\<open>Discovery_Tool\<close> (its
    sockets closed and its report true whenever it ends), \<^verbatim>\<open>Udp_Benchmark\<close> and \<^verbatim>\<open>Benchmark\<close> (what the six benchmarks count), \<^verbatim>\<open>Nearest_Rank\<close>
    (their percentiles in double precision), \<^verbatim>\<open>Switch_Cli\<close>.

  \<^bold>\<open>Parameters and their contracts.\<close> The system calls are parameters: \<open>udp_calls\<close> and \<open>tcp_calls\<close>, and \<open>send\<close>
  and \<open>recv\<close> of a stream. What the properties rely on is named. \<open>send_contract\<close> and \<open>recv_contract\<close>: a call moves
  between one and the requested number of bytes, or is interrupted, finitely often in a row; a stream that ends is not a failure, and
  calls do not fail. \<open>recv_may_fail\<close>: the same, but a call may fail at any time with any error. \<open>raw_send_contract\<close>,
  \<open>raw_recv_contract\<close> and \<open>raw_recv_may_fail\<close>: the same of the platforms' own calls, for lengths that they can be given.
  \<open>udp_sent_contract\<close>: what is sent has left the socket. \<open>udp_receive_contract\<close>: a datagram that is there and fits the buffer is delivered,
  whole and at once. \<open>udp_inbox_contract\<close>: what is delivered has arrived, cut at the size of the buffer, while receives may
  fail, lose, repeat and reorder. The calls are functions of the state of the system, so that a call that blocks for ever has no
  value in the model: that a receive returns when nothing arrives, because a timeout is in force, is assumed nowhere but in the lemmas
  on the UDP benchmark (\<open>udp_timed_contract\<close>), and properties that need it say when a program ends, not that it does.
  \<open>address_text_contract\<close>: addresses can be printed. \<open>arrival\<close>: a fabricated datagram is not itself a valid update. \<open>socket_contract\<close> and \<open>pending_contract\<close> say which sockets are open and which datagrams
  wait, \<open>setup_contract\<close>, \<open>delivering\<close> and \<open>echo_network\<close> what the calls of the UDP benchmark keep and
  deliver, \<open>address_contract\<close> that printed addresses read back, \<open>unit_contract\<close> that sine and cosine lie between
  -1 and 1, \<open>trig_within\<close> how far those of device and processor are apart, and \<open>covers\<close> what memory a span stands for. Each property with such
  a hypothesis has a witness with a concrete operating system. \<open>position\<close> stands for
  \<open>cpu_position\<close> over the C library's sine and cosine, \<open>colour\<close> for \<open>render_colour\<close>, \<open>schedule\<close> for the order in which the device runs its
  threads, \<open>device_cos\<close> and \<open>device_sin\<close> for its trigonometry, and the events of the program loops for what the clock and the sockets return in each pass.

  \<^bold>\<open>Bounds.\<close> Updates are counted below \<open>2^64\<close>, the width of the sequence number. A scene of up to 800
  observers is shown to fit in a datagram. The CUDA grid covers the observers up to \<open>2^40 - 256\<close>, where the block
  count no longer fits in 32 bits. The percentiles are exact for samples of up to \<open>2^40\<close>. Loops that may not end are \<open>partial_function (option)\<close> or consume a list of
  events. That they return is proved for the receive loop of the TCP frames and for the loops of the observer node, the
  application, the simulation server and the benchmarks; the receive loop of discovery is shown to return exactly when a receive fails or
  the result is full. The memory of the queue benchmark is bounded by an argument; elsewhere allocations succeed.

  \<^bold>\<open>Not modelled.\<close> Elapsed times, and the rates and averages that are printed of them (the percentiles are modelled). What GLFW
  and OpenGL do with a call, and the text of system errors, belong to the platform;
  a compiler that contracts a product and a sum into one operation may round the colours and positions differently (the kernel and the phase have no such pair).
  What a step of the simulation server or of the benchmark throws on a CUDA backend is not followed further than that it fails. The sleep that
  paces the server has no effect on what it publishes. The Python scripts and the tests are not C++ of
  the program. The memory model is sequential: the atomics of the counters and of the observer are single steps.
\<close>

end
